(* ===== verification/Prelude.thy ===== *)
theory Prelude
  imports Main "HOL-Library.Multiset" "HOL-Library.FSet" "HOL-Library.Char_ord"
    "HOL-Library.List_Lexorder" "HOL-Library.Product_Lexorder"
begin

text \<open>
  What the components share: the integer widths of the Rust code with its saturating and
  checked operations, the result type, the standard library's stable sort and its
  first-occurrence filter, and the two interfaces every component is an instance of
  (a total preorder that a sort runs on, a machine with an invariant).
\<close>

named_theorems rust_int "saturating and checked integer operations"
named_theorems result_simps "plumbing of results"

section \<open>Integers\<close>

text \<open>
  Unsigned machine integers are naturals with the bound of their width written out where an
  operation depends on it; \<open>saturating_sub\<close> is the truncating subtraction of \<open>nat\<close>.
\<close>

definition u32_max :: nat where "u32_max = 2 ^ 32 - 1"

definition u64_max :: nat where "u64_max = 2 ^ 64 - 1"

definition i64_max :: int where "i64_max = 2 ^ 63 - 1"

definition i64_min :: int where "i64_min = - (2 ^ 63)"

definition i128_max :: int where "i128_max = 2 ^ 127 - 1"

definition i128_min :: int where "i128_min = - (2 ^ 127)"

definition saturating_add_u64 :: "nat \<Rightarrow> nat \<Rightarrow> nat" where
  "saturating_add_u64 a b = min (a + b) u64_max"

definition saturating_sub :: "nat \<Rightarrow> nat \<Rightarrow> nat" where
  "saturating_sub a b = a - b"

definition abs_diff :: "nat \<Rightarrow> nat \<Rightarrow> nat" where
  "abs_diff a b = (if a < b then b - a else a - b)"

definition i64_range :: "int \<Rightarrow> bool" where
  "i64_range x \<longleftrightarrow> i64_min \<le> x \<and> x \<le> i64_max"

definition i128_range :: "int \<Rightarrow> bool" where
  "i128_range x \<longleftrightarrow> i128_min \<le> x \<and> x \<le> i128_max"

text \<open>Rust's \<open>/\<close> on signed integers truncates towards zero.\<close>

definition trunc_div :: "int \<Rightarrow> int \<Rightarrow> int" where
  "trunc_div n d = (let q = \<bar>n\<bar> div \<bar>d\<bar> in if (n < 0) = (d < 0) then q else - q)"

lemma saturating_add_u64_le [simp]: "saturating_add_u64 a b \<le> u64_max"
  by (simp add: saturating_add_u64_def)

lemma saturating_add_u64_exact [rust_int]:
  "a + b \<le> u64_max \<Longrightarrow> saturating_add_u64 a b = a + b"
  by (simp add: saturating_add_u64_def)

lemma saturating_add_u64_ge [simp]: "a \<le> u64_max \<Longrightarrow> a \<le> saturating_add_u64 a b"
  by (simp add: saturating_add_u64_def)

lemma saturating_sub_le [simp]: "saturating_sub a b \<le> a"
  by (simp add: saturating_sub_def)

lemma abs_diff_self [simp]: "abs_diff a a = 0"
  by (simp add: abs_diff_def)

lemma abs_diff_commute: "abs_diff a b = abs_diff b a"
  by (simp add: abs_diff_def)

lemma trunc_div_exact:
  assumes "g > 0" and "g dvd a"
  shows "trunc_div a g = a div g"
proof -
  from assms(2) obtain k where k: "a = g * k" ..
  have "a < 0 \<longleftrightarrow> k < 0" using assms(1) k by (simp add: mult_less_0_iff)
  moreover have "\<bar>a\<bar> div g = \<bar>k\<bar>" using assms(1) k by (simp add: abs_mult)
  ultimately show ?thesis using assms(1) k by (simp add: trunc_div_def Let_def)
qed

lemma trunc_div_nonneg: "0 \<le> a \<Longrightarrow> 0 < b \<Longrightarrow> trunc_div a b = a div b"
  by (simp add: trunc_div_def Let_def)

section \<open>Results\<close>

text \<open>\<open>Inl\<close> is \<open>Err\<close>, \<open>Inr\<close> is \<open>Ok\<close>; \<open>and_then\<close> is the \<open>?\<close> operator.\<close>

type_synonym ('e, 'a) result = "'e + 'a"

fun and_then :: "('e, 'a) result \<Rightarrow> ('a \<Rightarrow> ('e, 'b) result) \<Rightarrow> ('e, 'b) result" where
  "and_then (Inl e) f = Inl e"
| "and_then (Inr x) f = f x"

fun map_err :: "('e \<Rightarrow> 'f) \<Rightarrow> ('e, 'a) result \<Rightarrow> ('f, 'a) result" where
  "map_err g (Inl e) = Inl (g e)"
| "map_err g (Inr x) = Inr x"

definition ok_or :: "'e \<Rightarrow> 'a option \<Rightarrow> ('e, 'a) result" where
  "ok_or e v = (case v of None \<Rightarrow> Inl e | Some x \<Rightarrow> Inr x)"

text \<open>\<open>collect\<close> into a \<open>Result\<close>: the first error, or all values in order.\<close>

fun collect_results :: "('a \<Rightarrow> ('e, 'b) result) \<Rightarrow> 'a list \<Rightarrow> ('e, 'b list) result" where
  "collect_results f [] = Inr []"
| "collect_results f (x # xs) =
     and_then (f x) (\<lambda>y. and_then (collect_results f xs) (\<lambda>ys. Inr (y # ys)))"

lemma and_then_eq_Inr [result_simps]:
  "and_then r f = Inr y \<longleftrightarrow> (\<exists>x. r = Inr x \<and> f x = Inr y)"
  by (cases r) auto

lemma and_then_eq_Inl [result_simps]:
  "and_then r f = Inl e \<longleftrightarrow> r = Inl e \<or> (\<exists>x. r = Inr x \<and> f x = Inl e)"
  by (cases r) auto

lemma map_err_eq_Inr [result_simps]: "map_err g r = Inr y \<longleftrightarrow> r = Inr y"
  by (cases r) auto

lemma map_err_eq_Inl [result_simps]: "map_err g r = Inl e \<longleftrightarrow> (\<exists>d. r = Inl d \<and> e = g d)"
  by (cases r) auto

lemma ok_or_simps [simp]: "ok_or e None = Inl e" "ok_or e (Some x) = Inr x"
  by (simp_all add: ok_or_def)

lemma ok_or_Inr [simp]: "ok_or e v = Inr x \<longleftrightarrow> v = Some x" "Inr x = ok_or e v \<longleftrightarrow> v = Some x"
  "ok_or e v = Inl d \<longleftrightarrow> v = None \<and> d = e" "Inl d = ok_or e v \<longleftrightarrow> v = None \<and> d = e"
  by (cases v; auto)+

lemma collect_results_Inr:
  "collect_results f xs = Inr ys \<longleftrightarrow> list_all2 (\<lambda>x y. f x = Inr y) xs ys"
  by (induction xs arbitrary: ys) (auto simp: and_then_eq_Inr list_all2_Cons1)

text \<open>\<open>Option::or\<close>, and \<open>COALESCE\<close> of two values in SQL.\<close>

definition or_else :: "'a option \<Rightarrow> 'a option \<Rightarrow> 'a option" where
  "or_else a b = (case a of None \<Rightarrow> b | Some x \<Rightarrow> Some x)"

section \<open>Sorting and first-occurrence filtering\<close>

text \<open>
  \<open>slice::sort_by\<close> is a stable sort; insertion from the right is one, and by
  \<open>sort_by_key\<close> below the result does not depend on the algorithm. The comparison is the
  Boolean \<open>left <= right\<close> of the code's \<open>Ordering\<close>.
\<close>

fun insert_by :: "('a \<Rightarrow> 'a \<Rightarrow> bool) \<Rightarrow> 'a \<Rightarrow> 'a list \<Rightarrow> 'a list" where
  "insert_by le x [] = [x]"
| "insert_by le x (y # ys) = (if le x y then x # y # ys else y # insert_by le x ys)"

definition sort_by :: "('a \<Rightarrow> 'a \<Rightarrow> bool) \<Rightarrow> 'a list \<Rightarrow> 'a list" where
  "sort_by le xs = foldr (insert_by le) xs []"

lemma sort_by_simps [simp]:
  "sort_by le [] = []" "sort_by le (x # xs) = insert_by le x (sort_by le xs)"
  by (simp_all add: sort_by_def)

lemma mset_insert_by [simp]: "mset (insert_by le x xs) = add_mset x (mset xs)"
  by (induction xs) auto

lemma set_insert_by [simp]: "set (insert_by le x xs) = insert x (set xs)"
  by (induction xs) auto

lemma mset_sort_by [simp]: "mset (sort_by le xs) = mset xs"
  by (induction xs) auto

lemma set_sort_by [simp]: "set (sort_by le xs) = set xs"
  by (induction xs) auto

lemma length_sort_by [simp]: "length (sort_by le xs) = length xs"
  by (metis mset_sort_by size_mset)

lemma distinct_sort_by [simp]: "distinct (sort_by le xs) = distinct xs"
  by (metis mset_sort_by mset_eq_imp_distinct_iff)

lemma insert_by_cong:
  "(\<And>y. y \<in> set xs \<Longrightarrow> le x y = le' x y) \<Longrightarrow> insert_by le x xs = insert_by le' x xs"
  by (induction xs) auto

lemma insert_by_key: "insert_by (\<lambda>x y. f x \<le> f y) x xs = insort_key f x xs"
  by (induction xs) auto

locale total_preorder_on =
  fixes valid :: "'a \<Rightarrow> bool" and le :: "'a \<Rightarrow> 'a \<Rightarrow> bool"
  assumes total: "valid x \<Longrightarrow> valid y \<Longrightarrow> le x y \<or> le y x"
    and trans: "valid x \<Longrightarrow> valid y \<Longrightarrow> valid z \<Longrightarrow> le x y \<Longrightarrow> le y z \<Longrightarrow> le x z"
begin

lemma insert_by_sorted:
  assumes "valid x" "\<forall>y\<in>set ys. valid y" "sorted_wrt le ys"
  shows "sorted_wrt le (insert_by le x ys)"
  using assms
proof (induction ys)
  case Nil
  then show ?case by simp
next
  case (Cons y ys)
  show ?case
  proof (cases "le x y")
    case True
    with Cons.prems show ?thesis by (auto intro: trans)
  next
    case False
    with Cons.prems have "le y x" using total by auto
    with False Cons show ?thesis by auto
  qed
qed

lemma sort_by_sorted:
  "\<forall>x\<in>set xs. valid x \<Longrightarrow> sorted_wrt le (sort_by le xs)"
  by (induction xs) (auto intro: insert_by_sorted)

lemma sorted_unique:
  assumes "mset xs = mset ys" "sorted_wrt le xs" "sorted_wrt le ys"
    and "\<forall>x\<in>set xs. \<forall>y\<in>set xs. le x y \<longrightarrow> le y x \<longrightarrow> x = y"
    and "\<forall>x\<in>set xs. valid x"
  shows "xs = ys"
  using assms
proof (induction xs arbitrary: ys)
  case Nil
  then show ?case by simp
next
  case (Cons x xs)
  then obtain y ys' where ys: "ys = y # ys'" by (cases ys) auto
  have sets: "set (x # xs) = set ys" using Cons.prems(1) by (metis set_mset_mset)
  have refl_x: "le x x" using total Cons.prems(5) by auto
  have "y = x"
  proof (rule ccontr)
    assume "y \<noteq> x"
    with sets ys have "y \<in> set xs" "x \<in> set ys'" by auto
    then have "le x y" "le y x" using Cons.prems(2,3) ys by auto
    with Cons.prems(4) \<open>y \<in> set xs\<close> \<open>y \<noteq> x\<close> show False by auto
  qed
  with Cons.prems ys Cons.IH [of ys'] show ?case by auto
qed

end

text \<open>Most orders of the code compare a key; on valid elements the sort is the library's.\<close>

locale keyed_order_on =
  fixes valid :: "'a \<Rightarrow> bool" and key :: "'a \<Rightarrow> 'k::linorder" and le :: "'a \<Rightarrow> 'a \<Rightarrow> bool"
  assumes le_key: "valid x \<Longrightarrow> valid y \<Longrightarrow> le x y \<longleftrightarrow> key x \<le> key y"
begin

lemma sort_by_key:
  "\<forall>x\<in>set xs. valid x \<Longrightarrow> sort_by le xs = sort_key key xs"
proof (induction xs)
  case Nil
  then show ?case by simp
next
  case (Cons x xs)
  have "insert_by le x (sort_key key xs) = insert_by (\<lambda>a b. key a \<le> key b) x (sort_key key xs)"
    using Cons.prems by (intro insert_by_cong) (auto simp: le_key)
  with Cons show ?case by (simp add: insert_by_key)
qed

end

sublocale keyed_order_on \<subseteq> preorder: total_preorder_on valid le
  by unfold_locales (auto simp: le_key)

text \<open>
  \<open>let mut seen = BTreeSet::new(); v.retain(|x| seen.insert(key(x)))\<close>: the elements kept,
  and the elements dropped in the order the closure meets them.
\<close>

fun retain_first :: "('a \<Rightarrow> 'k) \<Rightarrow> 'k set \<Rightarrow> 'a list \<Rightarrow> 'a list \<times> 'a list" where
  "retain_first key seen [] = ([], [])"
| "retain_first key seen (x # xs) =
     (if key x \<in> seen
      then (let (kept, dropped) = retain_first key seen xs in (kept, x # dropped))
      else (let (kept, dropped) = retain_first key (insert (key x) seen) xs
            in (x # kept, dropped)))"

lemma mset_retain_first:
  "mset (fst (retain_first key seen xs)) + mset (snd (retain_first key seen xs)) = mset xs"
  by (induction key seen xs rule: retain_first.induct) (auto simp: split_beta)

lemma retain_first_disjoint:
  "key ` set (fst (retain_first key seen xs)) \<inter> seen = {}"
  by (induction key seen xs rule: retain_first.induct) (auto simp: split_beta Let_def)

lemma distinct_retain_first:
  "distinct (map key (fst (retain_first key seen xs)))"
proof (induction key seen xs rule: retain_first.induct)
  case (2 key seen x xs)
  then show ?case
    using retain_first_disjoint [of key "insert (key x) seen" xs]
    by (auto simp: split_beta Let_def)
qed simp

lemma keys_retain_first:
  "seen \<union> key ` set (fst (retain_first key seen xs)) = seen \<union> key ` set xs"
  by (induction key seen xs rule: retain_first.induct) (auto simp: split_beta Let_def)

lemma set_retain_first: "set (fst (retain_first key seen xs)) \<subseteq> set xs"
  by (induction key seen xs rule: retain_first.induct) (auto simp: split_beta Let_def)

lemma sorted_wrt_retain_first:
  "sorted_wrt le xs \<Longrightarrow> sorted_wrt le (fst (retain_first key seen xs))"
proof (induction key seen xs rule: retain_first.induct)
  case (2 key seen x xs)
  then show ?case
    using set_retain_first [of key "insert (key x) seen" xs]
    by (auto simp: split_beta Let_def)
qed simp

lemma retain_first_distinct:
  assumes "distinct (map key xs)" "key ` set xs \<inter> seen = {}"
  shows "retain_first key seen xs = (xs, [])"
  using assms by (induction key seen xs rule: retain_first.induct) (auto simp: split_beta Let_def)

section \<open>Merging to a closed set\<close>

text \<open>
  A loop that keeps replacing two joinable elements by their join until none are left. When the
  join is a least upper bound and joinability is monotone, every such run ends in the same
  elements, whatever the order of the joins.
\<close>

inductive join_steps ::
  "('c \<Rightarrow> 'c \<Rightarrow> bool) \<Rightarrow> ('c \<Rightarrow> 'c \<Rightarrow> 'c) \<Rightarrow> 'c multiset \<Rightarrow> 'c multiset \<Rightarrow> bool"
  for joinable :: "'c \<Rightarrow> 'c \<Rightarrow> bool" and join :: "'c \<Rightarrow> 'c \<Rightarrow> 'c" where
  join_refl: "join_steps joinable join M M"
| join_step: "joinable x y \<Longrightarrow> join_steps joinable join (add_mset (join x y) K) N \<Longrightarrow>
    join_steps joinable join (add_mset x (add_mset y K)) N"

definition join_closed :: "('c \<Rightarrow> 'c \<Rightarrow> bool) \<Rightarrow> 'c multiset \<Rightarrow> bool" where
  "join_closed joinable M \<longleftrightarrow> (\<forall>x y K. M = add_mset x (add_mset y K) \<longrightarrow> \<not> joinable x y)"

locale join_semantics =
  fixes ok :: "'c \<Rightarrow> bool" and le :: "'c \<Rightarrow> 'c \<Rightarrow> bool"
    and joinable :: "'c \<Rightarrow> 'c \<Rightarrow> bool" and join :: "'c \<Rightarrow> 'c \<Rightarrow> 'c"
  assumes le_refl: "le x x"
    and le_antisym: "le x y \<Longrightarrow> le y x \<Longrightarrow> x = y"
    and le_trans: "le x y \<Longrightarrow> le y z \<Longrightarrow> le x z"
    and join_upper: "joinable x y \<Longrightarrow> le x (join x y) \<and> le y (join x y)"
    and join_least: "joinable x y \<Longrightarrow> le x z \<Longrightarrow> le y z \<Longrightarrow> le (join x y) z"
    and joinable_mono: "joinable x y \<Longrightarrow> le x x' \<Longrightarrow> le y y' \<Longrightarrow> joinable x' y'"
    and joinable_sym: "joinable x y \<Longrightarrow> joinable y x"
    and ok_self: "ok x \<Longrightarrow> joinable x x"
    and ok_join: "ok x \<Longrightarrow> ok y \<Longrightarrow> joinable x y \<Longrightarrow> ok (join x y)"
begin

lemma steps_ok:
  "join_steps joinable join M N \<Longrightarrow> \<forall>x\<in>#M. ok x \<Longrightarrow> \<forall>x\<in>#N. ok x"
  by (induction rule: join_steps.induct) (auto intro: ok_join)

lemma steps_grow:
  "join_steps joinable join M N \<Longrightarrow> \<forall>x\<in>#M. \<exists>y\<in>#N. le x y"
proof (induction rule: join_steps.induct)
  case (join_refl M)
  then show ?case by (auto intro: le_refl)
next
  case (join_step x y K N)
  then show ?case using join_upper [of x y] by (auto intro: le_trans)
qed

lemma steps_absorbed:
  assumes "join_steps joinable join M N" and "\<forall>x\<in>#M. \<exists>c\<in>C. le x c"
    and "\<forall>a\<in>C. \<forall>b\<in>C. joinable a b \<longrightarrow> a = b"
  shows "\<forall>x\<in>#N. \<exists>c\<in>C. le x c"
  using assms
proof (induction rule: join_steps.induct)
  case (join_refl M)
  then show ?case by simp
next
  case (join_step x y K N)
  from join_step.prems(1) obtain a b where "a \<in> C" "le x a" "b \<in> C" "le y b" by auto
  moreover from this have "a = b"
    using join_step.prems(2) joinable_mono [OF join_step.hyps(1)] by blast
  ultimately have "\<exists>c\<in>C. le (join x y) c"
    using join_least [OF join_step.hyps(1)] by blast
  with join_step show ?case by auto
qed

lemma closed_pairwise:
  assumes "join_closed joinable N" "a \<in># N" "b \<in># N" "joinable a b"
  shows "a = b"
proof (rule ccontr)
  assume "a \<noteq> b"
  with assms(2,3) obtain K where "N = add_mset a (add_mset b K)"
    by (metis insert_noteq_member mset_add)
  with assms(1,4) show False by (auto simp: join_closed_def)
qed

lemma closed_distinct:
  assumes "join_closed joinable N" "\<forall>x\<in>#N. ok x"
  shows "count N x \<le> 1"
proof (rule ccontr)
  assume c: "\<not> count N x \<le> 1"
  then have "0 < count N x" by linarith
  then have "x \<in># N" by simp
  then obtain K where K: "N = add_mset x K" by (metis mset_add)
  with c have "x \<in># K" by (auto simp: count_eq_zero_iff)
  then obtain L where "K = add_mset x L" by (metis mset_add)
  with K have N: "N = add_mset x (add_mset x L)" by simp
  then have "joinable x x" using assms(2) ok_self by simp
  with N assms(1) show False unfolding join_closed_def by blast
qed

lemma closed_included:
  assumes N: "join_steps joinable join M N" "join_closed joinable N"
    and N': "join_steps joinable join M' N'" "join_closed joinable N'"
    and "set_mset M = set_mset M'" and ok: "\<forall>x\<in>#M. ok x" and "x \<in># N"
  shows "x \<in># N'"
proof -
  have abs: "\<forall>x\<in>#N. \<exists>c\<in>set_mset N'. le x c"
    using steps_grow [OF N'(1)] assms(5) closed_pairwise [OF N'(2)]
    by (intro steps_absorbed [OF N(1)]) auto
  have abs': "\<forall>x\<in>#N'. \<exists>c\<in>set_mset N. le x c"
    using steps_grow [OF N(1)] assms(5) closed_pairwise [OF N(2)]
    by (intro steps_absorbed [OF N'(1)]) auto
  from abs \<open>x \<in># N\<close> obtain c where c: "c \<in># N'" "le x c" by auto
  with abs' obtain y where y: "y \<in># N" "le c y" by auto
  have "joinable x x" using steps_ok [OF N(1) ok] \<open>x \<in># N\<close> ok_self by auto
  then have "joinable x y" using c y by (auto intro: joinable_mono le_refl le_trans)
  then have "x = y" using closed_pairwise [OF N(2)] \<open>x \<in># N\<close> y by auto
  with c y show ?thesis using le_antisym by blast
qed

lemma closed_unique:
  assumes N: "join_steps joinable join M N" "join_closed joinable N"
    and N': "join_steps joinable join M' N'" "join_closed joinable N'"
    and sets: "set_mset M = set_mset M'" and ok: "\<forall>x\<in>#M. ok x"
  shows "N = N'"
proof (rule multiset_eqI)
  fix x
  have ok': "\<forall>x\<in>#M'. ok x" using ok sets by simp
  have "x \<in># N \<longleftrightarrow> x \<in># N'"
    using closed_included [OF N N' sets ok] closed_included [OF N' N sets [symmetric] ok'] by blast
  moreover have "count N x \<le> 1"
    by (rule closed_distinct [OF N(2) steps_ok [OF N(1) ok]])
  moreover have "count N' x \<le> 1"
    by (rule closed_distinct [OF N'(2) steps_ok [OF N'(1) ok']])
  moreover from calculation(1) have "0 < count N x \<longleftrightarrow> 0 < count N' x" by simp
  ultimately show "count N x = count N' x" by linarith
qed

lemma absorbed_once:
  assumes "join_steps joinable join M N" "join_closed joinable N" "\<forall>x\<in>#M. ok x" "x \<in># M"
  shows "\<exists>!c. c \<in># N \<and> le x c"
proof -
  obtain c where c: "c \<in># N" "le x c" using steps_grow [OF assms(1)] assms(4) by auto
  moreover have "d = c" if "d \<in># N" "le x d" for d
  proof -
    have "joinable x x" using assms(3,4) ok_self by auto
    then have "joinable d c" using that c joinable_mono by blast
    then show ?thesis using closed_pairwise [OF assms(2)] that c by auto
  qed
  ultimately show ?thesis by blast
qed

end

section \<open>Searching and removing by index\<close>

lemma find_append_Some: "List.find p xs = Some x \<Longrightarrow> List.find p (xs @ ys) = Some x"
  by (induction xs) (auto split: if_splits)

lemma find_append_None: "List.find p xs = None \<Longrightarrow> List.find p (xs @ ys) = List.find p ys"
  by (induction xs) (auto split: if_splits)

lemma find_unique: "distinct (map f xs) \<Longrightarrow> x \<in> set xs \<Longrightarrow> f x = k \<Longrightarrow> List.find (\<lambda>y. f y = k) xs = Some x"
  by (induction xs) force+

lemma find_SomeD: "List.find P xs = Some x \<Longrightarrow> x \<in> set xs \<and> P x"
  by (induction xs) (auto split: if_splits)

lemma find_NoneD: "List.find P xs = None \<Longrightarrow> x \<in> set xs \<Longrightarrow> \<not> P x"
  by (induction xs) (auto split: if_splits)

text \<open>The nested loop \<open>for l in 0..n { for r in l + 1..n { .. } }\<close>, in its order.\<close>

definition index_pairs :: "nat \<Rightarrow> (nat \<times> nat) list" where
  "index_pairs n = concat (map (\<lambda>l. map (\<lambda>r. (l, r)) [l + 1..<n]) [0..<n])"

lemma set_index_pairs: "set (index_pairs n) = {(l, r). l < r \<and> r < n}"
proof -
  have "p \<in> set (index_pairs n) \<longleftrightarrow> fst p < snd p \<and> snd p < n" for p
    by (cases p) (force simp: index_pairs_def)
  then show ?thesis by auto
qed

definition remove_at :: "nat \<Rightarrow> 'a list \<Rightarrow> 'a list" where
  "remove_at i xs = take i xs @ drop (Suc i) xs"

lemma mset_remove_at:
  assumes "i < length xs"
  shows "add_mset (xs ! i) (mset (remove_at i xs)) = mset xs"
proof -
  have "mset xs = mset (take i xs @ xs ! i # drop (Suc i) xs)"
    using id_take_nth_drop [OF assms] by simp
  then show ?thesis by (simp add: remove_at_def)
qed

lemma length_remove_at: "i < length xs \<Longrightarrow> length (remove_at i xs) = length xs - 1"
  by (simp add: remove_at_def)

lemma nth_remove_at: "l < r \<Longrightarrow> r < length xs \<Longrightarrow> remove_at r xs ! l = xs ! l"
  by (simp add: remove_at_def nth_append)

lemma sum_list_filter_nth:
  "sum_list (map f (filter P xs)) = (\<Sum>i | i < length xs \<and> P (xs ! i). f (xs ! i))"
  for f :: "'a \<Rightarrow> nat"
proof -
  have "sum_list (map f (filter P xs)) = sum_list (map (\<lambda>x. if P x then f x else 0) xs)"
    by (induction xs) auto
  also have "\<dots> = (\<Sum>i\<in>{0..<length xs}. if P (xs ! i) then f (xs ! i) else 0)"
    by (simp add: sum_list_sum_nth)
  also have "\<dots> = (\<Sum>i\<in>{i\<in>{0..<length xs}. P (xs ! i)}. f (xs ! i))"
    by (rule sum.inter_filter [symmetric]) simp
  also have "{i\<in>{0..<length xs}. P (xs ! i)} = {i. i < length xs \<and> P (xs ! i)}" by auto
  finally show ?thesis .
qed

lemma two_elements_indices:
  assumes "mset xs = add_mset x (add_mset y K)"
  obtains l r where "l < r" "r < length xs"
    "(xs ! l = x \<and> xs ! r = y) \<or> (xs ! l = y \<and> xs ! r = x)"
proof -
  from assms have "x \<in> set xs" by (metis set_mset_mset union_single_eq_member)
  then obtain i where i: "i < length xs" "xs ! i = x" by (auto simp: in_set_conv_nth)
  then have "mset (remove_at i xs) = add_mset y K"
    using mset_remove_at [OF i(1)] assms by simp
  then have "y \<in> set (remove_at i xs)" by (metis set_mset_mset union_single_eq_member)
  then have "y \<in> set (take i xs) \<or> y \<in> set (drop (Suc i) xs)" by (simp add: remove_at_def)
  then obtain j where j: "j < length xs" "xs ! j = y" "j \<noteq> i"
  proof
    assume "y \<in> set (take i xs)"
    then obtain j where "j < i" "j < length xs" "xs ! j = y" by (auto simp: in_set_conv_nth)
    then show thesis by (intro that [of j]) auto
  next
    assume "y \<in> set (drop (Suc i) xs)"
    then obtain j where "j < length xs - Suc i" "drop (Suc i) xs ! j = y"
      by (auto simp: in_set_conv_nth)
    then show thesis using i by (intro that [of "Suc i + j"]) auto
  qed
  show thesis
  proof (cases "i < j")
    case True
    with i j show thesis by (intro that [of i j]) auto
  next
    case False
    with i j show thesis by (intro that [of j i]) auto
  qed
qed

section \<open>Machines and their invariants\<close>

text \<open>
  A component with state is a step relation, and the states it can be in are the least set
  that holds the initial ones and is closed under steps.
\<close>

inductive reachable :: "('s \<Rightarrow> bool) \<Rightarrow> ('s \<Rightarrow> 'e \<Rightarrow> 's \<Rightarrow> bool) \<Rightarrow> 's \<Rightarrow> bool"
  for init :: "'s \<Rightarrow> bool" and step :: "'s \<Rightarrow> 'e \<Rightarrow> 's \<Rightarrow> bool" where
  reach_init: "init s \<Longrightarrow> reachable init step s"
| reach_step: "reachable init step s \<Longrightarrow> step s e t \<Longrightarrow> reachable init step t"

locale machine =
  fixes init :: "'s \<Rightarrow> bool" and step :: "'s \<Rightarrow> 'e \<Rightarrow> 's \<Rightarrow> bool" and inv :: "'s \<Rightarrow> bool"
  assumes inv_init: "init s \<Longrightarrow> inv s"
    and inv_step: "inv s \<Longrightarrow> step s e t \<Longrightarrow> inv t"
begin

lemma reachable_inv: "reachable init step s \<Longrightarrow> inv s"
  by (induction rule: reachable.induct) (auto intro: inv_init inv_step)

end

text \<open>A deterministic component is a function from a state and an input to the next state.\<close>

locale transition_function =
  fixes start :: "'s" and "next" :: "'s \<Rightarrow> 'e \<Rightarrow> 's" and inv :: "'s \<Rightarrow> bool"
  assumes inv_start: "inv start"
    and inv_next: "inv s \<Longrightarrow> inv (next s e)"
begin

lemma inv_run_from: "inv s \<Longrightarrow> inv (foldl next s es)"
  by (induction es arbitrary: s) (auto intro: inv_next)

lemma inv_run: "inv (foldl next start es)"
  by (rule inv_run_from [OF inv_start])

end

sublocale transition_function \<subseteq> stepwise: machine "\<lambda>s. s = start" "\<lambda>s e t. t = next s e" inv
  by unfold_locales (auto intro: inv_start inv_next)

section \<open>Decimal numbers\<close>

definition is_ascii_digit :: "char \<Rightarrow> bool" where
  "is_ascii_digit c \<longleftrightarrow> 48 \<le> (of_char c :: nat) \<and> (of_char c :: nat) \<le> 57"

definition digit_value :: "char \<Rightarrow> nat" where
  "digit_value c = of_char c - 48"

text \<open>\<open>to_string\<close> of an unsigned integer, in decimal.\<close>

fun show_nat :: "nat \<Rightarrow> string" where
  "show_nat n = (if n < 10 then [char_of (48 + n)] else show_nat (n div 10) @ [char_of (48 + n mod 10)])"

declare show_nat.simps [simp del]

definition decimal_value :: "string \<Rightarrow> nat" where
  "decimal_value s = foldl (\<lambda>acc c. acc * 10 + digit_value c) 0 s"

lemma digit_value_char: "n < 10 \<Longrightarrow> digit_value (char_of (48 + n)) = n"
  by (simp add: digit_value_def)

lemma decimal_value_show_nat [simp]: "decimal_value (show_nat n) = n"
proof (induction n rule: show_nat.induct)
  case (1 n)
  show ?case
  proof (cases "n < 10")
    case True
    then show ?thesis
      by (simp add: show_nat.simps [of n] decimal_value_def digit_value_char)
  next
    case False
    with 1 have "decimal_value (show_nat (n div 10)) = n div 10" by simp
    with False show ?thesis
      by (simp add: show_nat.simps [of n] decimal_value_def digit_value_char)
  qed
qed

lemma show_nat_inject: "show_nat a = show_nat b \<longleftrightarrow> a = b"
  by (metis decimal_value_show_nat)

lemma show_nat_digits: "c \<in> set (show_nat n) \<Longrightarrow> is_ascii_digit c"
proof (induction n rule: show_nat.induct)
  case (1 n)
  show ?case
  proof (cases "n < 10")
    case True
    with 1(2) show ?thesis by (simp add: show_nat.simps [of n] is_ascii_digit_def)
  next
    case False
    with 1 show ?thesis by (auto simp: show_nat.simps [of n] is_ascii_digit_def)
  qed
qed

section \<open>What a computation may fail with\<close>

definition errors_in :: "('e \<Rightarrow> bool) \<Rightarrow> ('e, 'a) result \<Rightarrow> bool" where
  "errors_in P r \<longleftrightarrow> (\<forall>e. r = Inl e \<longrightarrow> P e)"

lemma errors_inD: "errors_in P r \<Longrightarrow> r = Inl e \<Longrightarrow> P e"
  by (simp add: errors_in_def)

lemma errors_in_simps [simp]: "errors_in P (Inr x)" "errors_in P (Inl e) \<longleftrightarrow> P e"
  "errors_in P (ok_or e v) \<longleftrightarrow> v \<noteq> None \<or> P e"
  "errors_in P (map_err g r) \<longleftrightarrow> errors_in (P \<circ> g) r"
  by (auto simp: errors_in_def ok_or_def map_err_eq_Inl split: option.split)

lemma errors_in_True [simp]: "errors_in (\<lambda>_. True) r"
  by (simp add: errors_in_def)

lemma errors_in_and_then:
  "errors_in P r \<Longrightarrow> (\<And>x. r = Inr x \<Longrightarrow> errors_in P (f x)) \<Longrightarrow> errors_in P (and_then r f)"
  by (cases r) (auto simp: errors_in_def)

lemma errors_in_branches:
  "(\<And>a b. errors_in P (g a b)) \<Longrightarrow> errors_in P (case x of (a, b) \<Rightarrow> g a b)"
  "(c \<Longrightarrow> errors_in P r) \<Longrightarrow> (\<not> c \<Longrightarrow> errors_in P s) \<Longrightarrow> errors_in P (if c then r else s)"
  by (auto split: prod.split)

lemmas errors_in_intros = errors_in_and_then errors_in_branches

end
