(* ===== verification/Exact.thy ===== *)
theory Exact
  imports Prelude Complex_Main "HOL-Library.Word"
begin

text \<open>
  The exact arithmetic of \<open>crates/openfrag-domain/src/exact.rs\<close>: reduced \<open>i64\<close> fractions
  computed through \<open>i128\<close> intermediates, their order, the unit interval and the rating's
  basis points. The specification is the field of rationals: every checked operation is
  \<open>encode\<close> of the mathematical result, that is the unique reduced representation or
  \<open>Overflow\<close> when it does not fit.
\<close>

section \<open>Types and operations\<close>

datatype exact_error = ZeroDenominator | Overflow | DivisionByZero | OutsideUnitInterval
  | OutsideRatingRange

record rational =
  numerator :: int
  denominator :: int

definition rat_zero :: rational where "rat_zero = \<lparr>numerator = 0, denominator = 1\<rparr>"

definition rat_one :: rational where "rat_one = \<lparr>numerator = 1, denominator = 1\<rparr>"

definition rat_half :: rational where "rat_half = \<lparr>numerator = 1, denominator = 2\<rparr>"

definition from_integer :: "int \<Rightarrow> rational" where
  "from_integer v = \<lparr>numerator = v, denominator = 1\<rparr>"

definition i64_try_from :: "int \<Rightarrow> (exact_error, int) result" where
  "i64_try_from x = (if i64_range x then Inr x else Inl Overflow)"

definition i128_checked_neg :: "int \<Rightarrow> (exact_error, int) result" where
  "i128_checked_neg x = (if i128_range (- x) then Inr (- x) else Inl Overflow)"

definition i128_try_from :: "nat \<Rightarrow> (exact_error, int) result" where
  "i128_try_from x = (if i128_range (int x) then Inr (int x) else Inl Overflow)"

fun gcd_loop :: "nat \<Rightarrow> nat \<Rightarrow> nat" where
  "gcd_loop l r = (if r = 0 then l else gcd_loop r (l mod r))"

declare gcd_loop.simps [simp del]

definition gcd_u128 :: "nat \<Rightarrow> nat \<Rightarrow> nat" where
  "gcd_u128 l r = (let g = gcd_loop l r in if g = 0 then 1 else g)"

definition rat_normalize :: "int \<Rightarrow> int \<Rightarrow> (exact_error, rational) result" where
  "rat_normalize n d =
     (if d = 0 then Inl ZeroDenominator
      else and_then
        (if d < 0
         then and_then (i128_checked_neg n) (\<lambda>n'.
              and_then (i128_checked_neg d) (\<lambda>d'. Inr (n', d')))
         else Inr (n, d))
        (\<lambda>(n, d).
          and_then (i128_try_from (gcd_u128 (nat \<bar>n\<bar>) (nat \<bar>d\<bar>))) (\<lambda>g.
          and_then (i64_try_from (trunc_div n g)) (\<lambda>n'.
          and_then (i64_try_from (trunc_div d g)) (\<lambda>d'.
          Inr \<lparr>numerator = n', denominator = d'\<rparr>)))))"

definition rational_new :: "int \<Rightarrow> int \<Rightarrow> (exact_error, rational) result" where
  "rational_new n d = rat_normalize n d"

definition checked_add :: "rational \<Rightarrow> rational \<Rightarrow> (exact_error, rational) result" where
  "checked_add a b =
     rat_normalize (numerator a * denominator b + numerator b * denominator a)
       (denominator a * denominator b)"

definition checked_neg :: "rational \<Rightarrow> (exact_error, rational) result" where
  "checked_neg a =
     and_then (i64_try_from (- numerator a)) (\<lambda>n. Inr (a\<lparr>numerator := n\<rparr>))"

definition checked_sub :: "rational \<Rightarrow> rational \<Rightarrow> (exact_error, rational) result" where
  "checked_sub a b = and_then (checked_neg b) (\<lambda>b'. checked_add a b')"

definition checked_mul :: "rational \<Rightarrow> rational \<Rightarrow> (exact_error, rational) result" where
  "checked_mul a b =
     rat_normalize (numerator a * numerator b) (denominator a * denominator b)"

definition checked_div :: "rational \<Rightarrow> rational \<Rightarrow> (exact_error, rational) result" where
  "checked_div a b =
     (if numerator b = 0 then Inl DivisionByZero
      else rat_normalize (numerator a * denominator b) (denominator a * numerator b))"

definition rat_abs :: "rational \<Rightarrow> (exact_error, rational) result" where
  "rat_abs a = (if numerator a < 0 then checked_neg a else Inr a)"

definition rat_le :: "rational \<Rightarrow> rational \<Rightarrow> bool" where
  "rat_le a b \<longleftrightarrow> numerator a * denominator b \<le> numerator b * denominator a"

definition rat_less :: "rational \<Rightarrow> rational \<Rightarrow> bool" where
  "rat_less a b \<longleftrightarrow> numerator a * denominator b < numerator b * denominator a"

text \<open>\<open>Ord::max\<close> and \<open>Ord::min\<close> with the standard library's choice on equal arguments.\<close>

definition rat_max :: "rational \<Rightarrow> rational \<Rightarrow> rational" where
  "rat_max a b = (if rat_less b a then a else b)"

definition rat_min :: "rational \<Rightarrow> rational \<Rightarrow> rational" where
  "rat_min a b = (if rat_less b a then b else a)"

definition rat_clamp :: "rational \<Rightarrow> rational \<Rightarrow> rational \<Rightarrow> rational" where
  "rat_clamp x lo hi = rat_min (rat_max x lo) hi"

definition round_half_up_nonnegative :: "rational \<Rightarrow> (exact_error, int) result" where
  "round_half_up_nonnegative a =
     (if numerator a < 0 then Inl OutsideRatingRange
      else i64_try_from
        (trunc_div (numerator a * 2 + denominator a) (denominator a * 2)))"

datatype unit_interval = UnitInterval (ui_exact: rational)

definition ui_new :: "rational \<Rightarrow> (exact_error, unit_interval) result" where
  "ui_new v = (if rat_le rat_zero v \<and> rat_le v rat_one then Inr (UnitInterval v)
               else Inl OutsideUnitInterval)"

definition ui_clamped :: "rational \<Rightarrow> unit_interval" where
  "ui_clamped v = UnitInterval (rat_clamp v rat_zero rat_one)"

datatype rating_bp = RatingBasisPoints (bp_get: "16 word")

definition rating_bp_max :: "16 word" where "rating_bp_max = 20000"

definition bp_new :: "16 word \<Rightarrow> (exact_error, rating_bp) result" where
  "bp_new v = (if v \<le> rating_bp_max then Inr (RatingBasisPoints v) else Inl OutsideRatingRange)"

definition bp_exact :: "rating_bp \<Rightarrow> rational" where
  "bp_exact b = \<lparr>numerator = uint (bp_get b), denominator = 1\<rparr>"

definition display_centi :: "rating_bp \<Rightarrow> 16 word" where
  "display_centi b = (bp_get b + 50) div 100"

section \<open>Specification: the rational a value denotes\<close>

definition rat_of :: "rational \<Rightarrow> rat" where
  "rat_of q = Fract (numerator q) (denominator q)"

definition valid_rational :: "rational \<Rightarrow> bool" where
  "valid_rational q \<longleftrightarrow> 0 < denominator q \<and> coprime (numerator q) (denominator q)
     \<and> i64_range (numerator q) \<and> i64_range (denominator q)"

definition encode :: "rat \<Rightarrow> (exact_error, rational) result" where
  "encode r = (let (n, d) = quotient_of r in
     if i64_range n \<and> i64_range d then Inr \<lparr>numerator = n, denominator = d\<rparr> else Inl Overflow)"

lemma encode_eq_Inr: "encode r = Inr q \<longleftrightarrow> valid_rational q \<and> rat_of q = r"
proof
  assume "encode r = Inr q"
  then have q: "quotient_of r = (numerator q, denominator q)"
      and rng: "i64_range (numerator q)" "i64_range (denominator q)"
    by (auto simp: encode_def split: prod.splits if_splits)
  from q have "r = Fract (numerator q) (denominator q)"
    by (metis Fract_of_int_quotient quotient_of_div)
  with rng show "valid_rational q \<and> rat_of q = r"
    using quotient_of_denom_pos [OF q] quotient_of_coprime [OF q]
    by (simp add: valid_rational_def rat_of_def)
next
  assume "valid_rational q \<and> rat_of q = r"
  then show "encode r = Inr q"
    by (cases q) (auto simp: encode_def rat_of_def valid_rational_def quotient_of_Fract
      Rat.normalize_def Let_def)
qed

lemma encode_rat_of [simp]: "valid_rational q \<Longrightarrow> encode (rat_of q) = Inr q"
  by (simp add: encode_eq_Inr)

lemma encode_eq_Inl: "encode r = Inl e \<longleftrightarrow> e = Overflow \<and> \<not> (\<exists>q. valid_rational q \<and> rat_of q = r)"
proof (cases "encode r")
  case (Inl d)
  then have "d = Overflow" by (auto simp: encode_def split: prod.splits if_splits)
  moreover from Inl have "\<nexists>q. encode r = Inr q" by simp
  ultimately show ?thesis using Inl by auto
next
  case (Inr q)
  then show ?thesis by (auto simp: encode_eq_Inr)
qed

lemma rat_of_inject:
  assumes "valid_rational a" "valid_rational b"
  shows "rat_of a = rat_of b \<longleftrightarrow> a = b"
proof
  assume eq: "rat_of a = rat_of b"
  have "Inr a = encode (rat_of a)" "Inr b = encode (rat_of b)" using assms by simp_all
  with eq show "a = b" by (metis sum.inject(2))
qed simp

section \<open>Euclid's loop and the normal form\<close>

lemma gcd_loop_gcd: "gcd_loop l r = gcd l r"
proof (induction l r rule: gcd_loop.induct)
  case (1 l r)
  show ?case
  proof (cases "r = 0")
    case True
    then show ?thesis by (subst gcd_loop.simps) simp
  next
    case False
    with 1 have "gcd_loop l r = gcd r (l mod r)" by (subst gcd_loop.simps) simp
    also have "\<dots> = gcd l r" by (rule gcd_red_nat [symmetric])
    finally show ?thesis .
  qed
qed

lemma gcd_u128_gcd:
  assumes "d \<noteq> 0"
  shows "gcd_u128 (nat \<bar>n\<bar>) (nat \<bar>d\<bar>) = nat (gcd n d)"
proof -
  have "nat (gcd n d) = gcd (nat \<bar>n\<bar>) (nat \<bar>d\<bar>)" by (simp only: gcd_int_def nat_int)
  moreover have "gcd (nat \<bar>n\<bar>) (nat \<bar>d\<bar>) \<noteq> 0"
    using assms by (simp only: gcd_eq_0_iff nat_eq_iff) simp
  ultimately show ?thesis by (simp only: gcd_u128_def gcd_loop_gcd Let_def if_False)
qed

lemma quotient_of_Fract_pos:
  assumes "0 < d"
  shows "quotient_of (Fract n d) = (n div gcd n d, d div gcd n d)"
  using assms by (simp add: quotient_of_Fract Rat.normalize_def Let_def)

lemma gcd_le_int: "0 < (d::int) \<Longrightarrow> gcd n d \<le> d"
  by (rule gcd_le2_int)

lemma rat_normalize_pos:
  assumes "0 < d" "d \<le> i128_max"
  shows "rat_normalize n d = encode (Fract n d)"
proof -
  let ?g = "gcd n d"
  have g: "0 < ?g" "?g \<le> d" using assms(1) by (auto intro: gcd_le_int)
  have "d \<noteq> 0" using assms(1) by simp
  then have u: "gcd_u128 (nat \<bar>n\<bar>) (nat \<bar>d\<bar>) = nat ?g" by (rule gcd_u128_gcd)
  have "i128_try_from (nat g) = Inr g" if "0 < g" "g \<le> i128_max" for g
    using that by (simp add: i128_try_from_def i128_range_def i128_min_def)
  from this [OF g(1)] have "i128_try_from (nat ?g) = Inr ?g" using assms(2) g(2) by linarith
  then have "i128_try_from (gcd_u128 (nat \<bar>n\<bar>) (nat \<bar>d\<bar>)) = Inr ?g"
    by (simp only: u)
  moreover have "trunc_div n ?g = n div ?g" "trunc_div d ?g = d div ?g"
    using g(1) by (simp_all only: trunc_div_exact gcd_dvd1 gcd_dvd2)
  moreover have "\<not> d < 0" "nat \<bar>d\<bar> = nat d" using assms(1) by simp_all
  ultimately show ?thesis using \<open>d \<noteq> 0\<close>
    by (simp add: rat_normalize_def encode_def quotient_of_Fract_pos [OF assms(1)] i64_try_from_def)
qed

text \<open>No intermediate of \<open>normalize\<close> leaves \<open>i128\<close> when its arguments' magnitudes fit.\<close>

lemma rat_normalize_encode:
  assumes "d \<noteq> 0" "\<bar>d\<bar> \<le> i128_max" "\<bar>n\<bar> \<le> i128_max"
  shows "rat_normalize n d = encode (Fract n d)"
proof (cases "0 < d")
  case True
  with assms show ?thesis by (simp add: rat_normalize_pos)
next
  case False
  with assms have d: "0 < - d" "- d \<le> i128_max" by auto
  have neg: "i128_checked_neg n = Inr (- n)" "i128_checked_neg d = Inr (- d)"
    using assms by (auto simp: i128_checked_neg_def i128_range_def i128_min_def i128_max_def)
  have "rat_normalize n d = rat_normalize (- n) (- d)"
    using d neg by (simp add: rat_normalize_def)
  also have "\<dots> = encode (Fract (- n) (- d))" by (rule rat_normalize_pos [OF d])
  finally show ?thesis by simp
qed

section \<open>Checked operations compute the exact result\<close>

lemma valid_rationalD:
  assumes "valid_rational q"
  shows "0 < denominator q" "denominator q \<noteq> 0" "\<bar>numerator q\<bar> \<le> 2 ^ 63"
    "denominator q \<le> 2 ^ 63 - 1"
  using assms by (auto simp: valid_rational_def i64_range_def i64_min_def i64_max_def)

lemma product_i128:
  fixes x y :: int
  assumes "\<bar>x\<bar> \<le> 2 ^ 63" "\<bar>y\<bar> \<le> 2 ^ 63 - 1"
  shows "\<bar>x * y\<bar> \<le> 2 ^ 63 * (2 ^ 63 - 1)"
  unfolding abs_mult using assms by (intro mult_mono) auto

lemma checked_add_encode:
  assumes "valid_rational a" "valid_rational b"
  shows "checked_add a b = encode (rat_of a + rat_of b)"
proof -
  note a = valid_rationalD [OF assms(1)] and b = valid_rationalD [OF assms(2)]
  have "\<bar>numerator a * denominator b\<bar> \<le> 2 ^ 63 * (2 ^ 63 - 1)"
    "\<bar>numerator b * denominator a\<bar> \<le> 2 ^ 63 * (2 ^ 63 - 1)"
    "\<bar>denominator a * denominator b\<bar> \<le> 2 ^ 63 * (2 ^ 63 - 1)"
    by (rule product_i128; use a b in simp)+
  then show ?thesis
    using a b by (simp add: checked_add_def rat_normalize_encode i128_max_def rat_of_def)
qed

lemma checked_mul_encode:
  assumes "valid_rational a" "valid_rational b"
  shows "checked_mul a b = encode (rat_of a * rat_of b)"
proof -
  note a = valid_rationalD [OF assms(1)] and b = valid_rationalD [OF assms(2)]
  have "\<bar>numerator a * numerator b\<bar> \<le> 2 ^ 63 * 2 ^ 63"
    unfolding abs_mult using a b by (intro mult_mono) auto
  moreover have "\<bar>denominator a * denominator b\<bar> \<le> 2 ^ 63 * (2 ^ 63 - 1)"
    by (rule product_i128; use a b in simp)
  ultimately show ?thesis
    using a b by (simp add: checked_mul_def rat_normalize_encode i128_max_def rat_of_def)
qed

lemma rat_of_eq_0: "valid_rational b \<Longrightarrow> rat_of b = 0 \<longleftrightarrow> numerator b = 0"
  using valid_rationalD(2) [of b] by (simp add: rat_of_def Zero_rat_def eq_rat)

lemma checked_div_encode:
  assumes "valid_rational a" "valid_rational b"
  shows "checked_div a b =
    (if rat_of b = 0 then Inl DivisionByZero else encode (rat_of a / rat_of b))"
proof -
  note a = valid_rationalD [OF assms(1)] and b = valid_rationalD [OF assms(2)]
  have "\<bar>numerator a * denominator b\<bar> \<le> 2 ^ 63 * (2 ^ 63 - 1)"
    "\<bar>numerator b * denominator a\<bar> \<le> 2 ^ 63 * (2 ^ 63 - 1)"
    by (rule product_i128; use a b in simp)+
  then show ?thesis
    using a b assms
    by (auto simp: checked_div_def rat_normalize_encode i128_max_def rat_of_eq_0 mult.commute)
      (simp add: rat_of_def mult.commute)
qed

lemma checked_neg_encode:
  assumes "valid_rational a"
  shows "checked_neg a = encode (- rat_of a)"
proof -
  have "quotient_of (- rat_of a) = (- numerator a, denominator a)"
    using assms
    by (simp add: rat_of_def valid_rational_def quotient_of_Fract Rat.normalize_def Let_def)
  with assms show ?thesis
    by (auto simp: checked_neg_def encode_def i64_try_from_def valid_rational_def)
qed

lemma checked_neg_cases:
  assumes "valid_rational a"
  shows "checked_neg a = (if numerator a = i64_min then Inl Overflow
    else Inr (a\<lparr>numerator := - numerator a\<rparr>))"
  using assms
  by (auto simp: checked_neg_def i64_try_from_def i64_range_def i64_min_def i64_max_def
    valid_rational_def)

text \<open>
  Subtraction negates first, so it reports \<open>Overflow\<close> for the numerator \<open>i64::MIN\<close> even where
  the difference fits.
\<close>

lemma checked_sub_encode:
  assumes "valid_rational a" "valid_rational b"
  shows "checked_sub a b =
    (if numerator b = i64_min then Inl Overflow else encode (rat_of a - rat_of b))"
proof (cases "numerator b = i64_min")
  case True
  with assms show ?thesis by (simp add: checked_sub_def checked_neg_cases)
next
  case False
  let ?b = "b\<lparr>numerator := - numerator b\<rparr>"
  have "checked_neg b = Inr ?b" using assms(2) False by (simp add: checked_neg_cases)
  moreover from this have "valid_rational ?b" "rat_of ?b = - rat_of b"
    using checked_neg_encode [OF assms(2)] by (simp_all add: encode_eq_Inr)
  ultimately show ?thesis
    using False assms(1) by (simp add: checked_sub_def checked_add_encode)
qed

lemma rat_abs_encode:
  assumes "valid_rational a"
  shows "rat_abs a = encode \<bar>rat_of a\<bar>"
proof -
  have "rat_of a < 0 \<longleftrightarrow> numerator a < 0"
    using valid_rationalD(1) [OF assms] by (simp add: rat_of_def Fract_less_zero_iff)
  moreover have "encode (rat_of a) = Inr a" using assms by simp
  ultimately show ?thesis using assms by (simp add: rat_abs_def checked_neg_encode abs_if)
qed

section \<open>Order\<close>

lemma rat_le_iff:
  "valid_rational a \<Longrightarrow> valid_rational b \<Longrightarrow> rat_le a b \<longleftrightarrow> rat_of a \<le> rat_of b"
  using valid_rationalD(1) [of a] valid_rationalD(1) [of b]
  by (simp add: rat_le_def rat_of_def)

lemma rat_less_iff:
  "valid_rational a \<Longrightarrow> valid_rational b \<Longrightarrow> rat_less a b \<longleftrightarrow> rat_of a < rat_of b"
  using valid_rationalD(1) [of a] valid_rationalD(1) [of b]
  by (simp add: rat_less_def rat_of_def)

interpretation rational_order: keyed_order_on valid_rational rat_of rat_le
  by unfold_locales (rule rat_le_iff)

lemma valid_constants [simp]:
  "valid_rational rat_zero" "valid_rational rat_one" "valid_rational rat_half"
  by (simp_all add: valid_rational_def rat_zero_def rat_one_def rat_half_def i64_range_def
    i64_min_def i64_max_def)

lemma rat_of_constants [simp]:
  "rat_of rat_zero = 0" "rat_of rat_one = 1" "rat_of rat_half = 1 / 2"
  "rat_of (from_integer v) = of_int v"
  by (simp_all add: rat_of_def rat_zero_def rat_one_def rat_half_def from_integer_def
    Fract_of_int_quotient)

lemma valid_from_integer [simp]: "valid_rational (from_integer v) \<longleftrightarrow> i64_range v"
  by (auto simp: valid_rational_def from_integer_def i64_range_def i64_min_def i64_max_def)

lemma valid_rat_clamp:
  "valid_rational x \<Longrightarrow> valid_rational lo \<Longrightarrow> valid_rational hi \<Longrightarrow> valid_rational (rat_clamp x lo hi)"
  by (simp add: rat_clamp_def rat_max_def rat_min_def)

lemma rat_of_clamp:
  assumes "valid_rational x" "valid_rational lo" "valid_rational hi"
  shows "rat_of (rat_clamp x lo hi) = min (max (rat_of x) (rat_of lo)) (rat_of hi)"
  using assms by (auto simp: rat_clamp_def rat_max_def rat_min_def rat_less_iff max_def min_def)

section \<open>Rounding, the unit interval and basis points\<close>

lemma half_up_floor:
  assumes "0 < (d::int)"
  shows "(n * 2 + d) div (d * 2) = \<lfloor>Fract n d + 1 / 2\<rfloor>"
proof -
  have "Fract n d + 1 / 2 = Fract (n * 2 + d) (d * 2)"
    using assms by (simp add: Fract_of_int_quotient field_simps)
  then show ?thesis by (simp add: floor_Fract)
qed

lemma round_half_up_floor:
  assumes "valid_rational a" "0 \<le> rat_of a"
  shows "round_half_up_nonnegative a = i64_try_from \<lfloor>rat_of a + 1 / 2\<rfloor>"
proof -
  note d = valid_rationalD(1) [OF assms(1)]
  have "0 \<le> numerator a"
    using assms(2) d by (simp add: rat_of_def zero_le_Fract_iff)
  with d show ?thesis
    by (simp add: round_half_up_nonnegative_def trunc_div_nonneg half_up_floor rat_of_def)
qed

definition valid_ui :: "unit_interval \<Rightarrow> bool" where
  "valid_ui u \<longleftrightarrow> valid_rational (ui_exact u) \<and> 0 \<le> rat_of (ui_exact u) \<and> rat_of (ui_exact u) \<le> 1"

abbreviation ui_val :: "unit_interval \<Rightarrow> rat" where
  "ui_val u \<equiv> rat_of (ui_exact u)"

lemma ui_new_eq:
  assumes "valid_rational v"
  shows "ui_new v = (if 0 \<le> rat_of v \<and> rat_of v \<le> 1 then Inr (UnitInterval v)
    else Inl OutsideUnitInterval)"
  using assms by (simp add: ui_new_def rat_le_iff)

lemma valid_ui_new: "valid_rational v \<Longrightarrow> ui_new v = Inr u \<Longrightarrow> valid_ui u \<and> ui_exact u = v"
  by (auto simp: ui_new_eq valid_ui_def split: if_splits)

lemma ui_clamped_valid:
  "valid_rational v \<Longrightarrow> valid_ui (ui_clamped v) \<and> ui_val (ui_clamped v) = min (max (rat_of v) 0) 1"
  by (simp add: ui_clamped_def valid_ui_def valid_rat_clamp rat_of_clamp)

definition valid_bp :: "rating_bp \<Rightarrow> bool" where
  "valid_bp b \<longleftrightarrow> bp_get b \<le> rating_bp_max"

lemma bp_new_eq_Inr: "bp_new v = Inr b \<longleftrightarrow> b = RatingBasisPoints v \<and> valid_bp b"
  by (auto simp: bp_new_def valid_bp_def)

lemma valid_bp_exact: "valid_rational (bp_exact b)" "rat_of (bp_exact b) = of_int (uint (bp_get b))"
proof -
  have "i64_range u" if "0 \<le> u" "u < 2 ^ 16" for u
    using that by (simp add: i64_range_def i64_min_def i64_max_def)
  then have "i64_range (uint (bp_get b))"
    using uint_lt2p [of "bp_get b"] by simp
  then show "valid_rational (bp_exact b)" "rat_of (bp_exact b) = of_int (uint (bp_get b))"
    by (simp_all add: valid_rational_def bp_exact_def i64_range_def
      i64_min_def i64_max_def rat_of_def Fract_of_int_quotient)
qed

section \<open>Properties\<close>

text \<open>
  Every checked operation on reduced fractions returns exactly the reduced representation of
  the mathematical result, and an error only for division by zero or a result that does not fit
  \<open>i64\<close>; subtraction also refuses the numerator \<open>i64::MIN\<close>. No \<open>i128\<close> intermediate overflows.
\<close>
theorem exact_arithmetic:
  assumes "valid_rational a" and "valid_rational b"
  shows "checked_add a b = encode (rat_of a + rat_of b)
    \<and> checked_mul a b = encode (rat_of a * rat_of b)
    \<and> checked_div a b =
      (if rat_of b = 0 then Inl DivisionByZero else encode (rat_of a / rat_of b))
    \<and> checked_sub a b =
      (if numerator b = i64_min then Inl Overflow else encode (rat_of a - rat_of b))"
  using assms
  by (simp_all add: checked_add_encode checked_mul_encode checked_div_encode checked_sub_encode)

theorem exact_arithmetic_witness:
  "checked_add \<lparr>numerator = 1, denominator = 6\<rparr> \<lparr>numerator = 1, denominator = 3\<rparr> = Inr rat_half
   \<and> checked_sub rat_zero (from_integer i64_min) = Inl Overflow"
proof -
  let ?a = "\<lparr>numerator = 1, denominator = 6\<rparr>" and ?b = "\<lparr>numerator = 1, denominator = 3\<rparr>"
  have v: "valid_rational ?a" "valid_rational ?b" "valid_rational (from_integer i64_min)"
    by (simp_all add: valid_rational_def from_integer_def i64_range_def i64_min_def i64_max_def)
  have "rat_of ?a + rat_of ?b = rat_of rat_half"
    by (simp add: rat_of_def rat_half_def Fract_of_int_quotient)
  moreover have "checked_add ?a ?b = encode (rat_of ?a + rat_of ?b)"
    using exact_arithmetic [OF v(1,2)] by blast
  ultimately have "checked_add ?a ?b = Inr rat_half" by (simp only: encode_rat_of valid_constants)
  moreover have "checked_sub rat_zero (from_integer i64_min) = Inl Overflow"
    using exact_arithmetic [OF valid_constants(1) v(3)] by (simp add: from_integer_def)
  ultimately show ?thesis by simp
qed

text \<open>
  \<open>Rational::new\<close> is total on \<open>i64\<close> pairs up to its two errors: a zero denominator, or a
  reduced fraction that does not fit; otherwise the result is valid (positive denominator,
  lowest terms) and denotes the fraction.
\<close>
theorem rational_new_exact:
  assumes "i64_range n" and "i64_range d"
  shows "rational_new n d =
    (if d = 0 then Inl ZeroDenominator else encode (Fract n d))"
  using assms
  by (auto simp: rational_new_def rat_normalize_encode i64_range_def i64_min_def i64_max_def
    i128_max_def) (simp add: rat_normalize_def)

theorem rational_new_exact_witness:
  "rational_new 2 4 = Inr rat_half \<and> rational_new i64_min (-1) = Inl Overflow"
proof -
  have r: "i64_range 2" "i64_range 4" "i64_range i64_min" "i64_range (-1)"
    by (simp_all add: i64_range_def i64_min_def i64_max_def)
  have "encode (Fract 2 4) = Inr rat_half"
    by (simp add: encode_def quotient_of_Fract Rat.normalize_def Let_def rat_half_def
      i64_range_def i64_min_def i64_max_def)
  moreover have "encode (Fract i64_min (-1)) = Inl Overflow"
    by (simp add: encode_def quotient_of_Fract Rat.normalize_def Let_def
      i64_range_def i64_min_def i64_max_def)
  ultimately show ?thesis
    using rational_new_exact [OF r(1,2)] rational_new_exact [OF r(3,4)] by simp
qed

text \<open>
  The cross-multiplying order on reduced fractions is the order of the rationals they denote: total,
  and equal only for structurally equal values, so derived equality and \<open>cmp\<close> agree, and
  sorting a list of fractions is sorting by value.
\<close>
theorem exact_order:
  assumes "\<forall>x\<in>set xs. valid_rational x" and "a \<in> set xs" and "b \<in> set xs"
  shows "(rat_le a b \<or> rat_le b a) \<and> (rat_le a b \<and> rat_le b a \<longleftrightarrow> a = b)
    \<and> (rat_less a b \<longleftrightarrow> rat_le a b \<and> a \<noteq> b)
    \<and> map rat_of (sort_by rat_le xs) = sort (map rat_of xs)"
proof -
  have v: "valid_rational a" "valid_rational b" using assms by auto
  have "map rat_of (sort_by rat_le xs) = sort (map rat_of xs)"
    by (rule properties_for_sort [symmetric])
      (auto simp: rational_order.sort_by_key [OF assms(1)])
  with v show ?thesis
    using rat_of_inject [OF v] by (auto simp: rat_le_iff rat_less_iff)
qed

theorem exact_order_witness:
  "map rat_of (sort_by rat_le [rat_one, rat_zero, rat_half]) = sort (map rat_of [rat_one, rat_zero, rat_half])"
  using exact_order [of "[rat_one, rat_zero, rat_half]" rat_one rat_zero] by simp

text \<open>
  The displayed rating rounds half up from basis points to hundredths, without wrapping
  \<open>u16\<close>, and is at most 2.00.
\<close>
theorem display_centi_half_up:
  assumes "valid_bp b"
  shows "uint (display_centi b) = \<lfloor>rat_of (bp_exact b) / 100 + 1 / 2\<rfloor>
    \<and> uint (display_centi b) \<le> 200"
proof -
  let ?v = "uint (bp_get b)"
  have v: "0 \<le> ?v" "?v \<le> 20000"
    using assms by (auto simp: valid_bp_def rating_bp_max_def word_le_def)
  then have "uint (bp_get b + 50) = ?v + 50" by (simp add: uint_word_ariths)
  then have d: "uint (display_centi b) = (?v + 50) div 100"
    by (simp add: display_centi_def uint_div)
  have "rat_of (bp_exact b) / 100 + 1 / 2 = Fract (?v + 50) 100"
    by (simp add: valid_bp_exact Fract_of_int_quotient)
  with d v show ?thesis by (simp add: floor_Fract)
qed

theorem display_centi_half_up_witness:
  "uint (display_centi (RatingBasisPoints 10250)) = 103"
proof -
  have "valid_bp (RatingBasisPoints 10250)" by (simp add: valid_bp_def rating_bp_max_def)
  from display_centi_half_up [OF this] show ?thesis
    by (simp add: valid_bp_exact floor_eq_iff)
qed

end
