(* ===== verification/Identity.thy ===== *)
theory Identity
  imports Prelude
begin

text \<open>
  The calculation identities of \<open>crates/openfrag-domain/src/identity.rs\<close>: which demo, parser,
  schema and evidence semantics a rating was computed with, and which series of ratings a
  match belongs to. The accessors of the code are the record fields.
\<close>

definition OFR_V1_FORMULA :: string where "OFR_V1_FORMULA = ''ofr-1.0.0''"

record calculation_identity =
  ci_demo_hash :: string
  ci_parser_commit :: string
  ci_parser_build :: string
  ci_generated_proto_build :: string
  ci_requested_schema_hash :: string
  ci_metric_definition_version :: string
  ci_evidence_semantics_epoch :: string

definition ofr_v1_identity ::
  "string \<Rightarrow> string \<Rightarrow> string \<Rightarrow> string \<Rightarrow> string \<Rightarrow> string \<Rightarrow> string \<Rightarrow> calculation_identity" where
  "ofr_v1_identity demo commit build proto schema metric epoch =
     \<lparr>ci_demo_hash = demo, ci_parser_commit = commit, ci_parser_build = build,
      ci_generated_proto_build = proto, ci_requested_schema_hash = schema,
      ci_metric_definition_version = metric, ci_evidence_semantics_epoch = epoch\<rparr>"

definition ci_formula_version :: "calculation_identity \<Rightarrow> string" where
  "ci_formula_version i = OFR_V1_FORMULA"

record calculation_series =
  cs_local_player_id :: string
  cs_parser_commit :: string
  cs_parser_build :: string
  cs_generated_proto_build :: string
  cs_requested_schema_hash :: string
  cs_metric_definition_version :: string
  cs_evidence_semantics_epoch :: string

definition ofr_v1_series ::
  "string \<Rightarrow> string \<Rightarrow> string \<Rightarrow> string \<Rightarrow> string \<Rightarrow> string \<Rightarrow> string \<Rightarrow> calculation_series" where
  "ofr_v1_series player commit build proto schema metric epoch =
     \<lparr>cs_local_player_id = player, cs_parser_commit = commit, cs_parser_build = build,
      cs_generated_proto_build = proto, cs_requested_schema_hash = schema,
      cs_metric_definition_version = metric, cs_evidence_semantics_epoch = epoch\<rparr>"

definition cs_formula_version :: "calculation_series \<Rightarrow> string" where
  "cs_formula_version s = OFR_V1_FORMULA"

definition is_parser_only_rebind_to :: "calculation_series \<Rightarrow> calculation_series \<Rightarrow> bool" where
  "is_parser_only_rebind_to a b \<longleftrightarrow>
     cs_local_player_id a = cs_local_player_id b
   \<and> cs_generated_proto_build a = cs_generated_proto_build b
   \<and> cs_requested_schema_hash a = cs_requested_schema_hash b
   \<and> cs_metric_definition_version a = cs_metric_definition_version b
   \<and> cs_evidence_semantics_epoch a = cs_evidence_semantics_epoch b
   \<and> (cs_parser_commit a \<noteq> cs_parser_commit b \<or> cs_parser_build a \<noteq> cs_parser_build b)"

lemma rebind_iff_update:
  "is_parser_only_rebind_to a b \<longleftrightarrow>
     a \<noteq> b \<and> b = a\<lparr>cs_parser_commit := cs_parser_commit b, cs_parser_build := cs_parser_build b\<rparr>"
  by (cases a; cases b) (auto simp: is_parser_only_rebind_to_def)

text \<open>
  A parser-only rebind relates two different series exactly when replacing the parser commit
  and build of one gives the other; it is irreflexive and symmetric, and two rebinds compose
  to a rebind unless they return to the starting series.
\<close>
theorem parser_only_rebind_characterised:
  "(is_parser_only_rebind_to a b \<longleftrightarrow>
      a \<noteq> b \<and> b = a\<lparr>cs_parser_commit := cs_parser_commit b, cs_parser_build := cs_parser_build b\<rparr>)
   \<and> (is_parser_only_rebind_to a b \<longleftrightarrow> is_parser_only_rebind_to b a)
   \<and> \<not> is_parser_only_rebind_to a a
   \<and> (is_parser_only_rebind_to a b \<and> is_parser_only_rebind_to b c \<and> a \<noteq> c
        \<longrightarrow> is_parser_only_rebind_to a c)"
  by (cases a; cases b; cases c) (auto simp: is_parser_only_rebind_to_def)

theorem parser_only_rebind_characterised_witness:
  "is_parser_only_rebind_to (ofr_v1_series ''p'' ''c1'' ''b'' ''g'' ''s'' ''m'' ''e'')
     (ofr_v1_series ''p'' ''c3'' ''b'' ''g'' ''s'' ''m'' ''e'')"
proof -
  let ?s = "\<lambda>c. ofr_v1_series ''p'' c ''b'' ''g'' ''s'' ''m'' ''e''"
  have "is_parser_only_rebind_to (?s ''c1'') (?s ''c2'')"
    "is_parser_only_rebind_to (?s ''c2'') (?s ''c3'')" "?s ''c1'' \<noteq> ?s ''c3''"
    by (simp_all add: is_parser_only_rebind_to_def ofr_v1_series_def)
  then show ?thesis
    using parser_only_rebind_characterised [of "?s ''c1''" "?s ''c2''" "?s ''c3''"] by blast
qed

end
