(* ===== verification/Highlight.thy ===== *)
theory Highlight
  imports Prelude
begin

text \<open>
  Highlight candidates of \<open>crates/openfrag-domain/src/highlight.rs\<close>: the provisional moments of
  a round, the loop that merges them, and the labels that demo evidence gives them. A
  \<open>BTreeSet\<close> is a finite set; its order is that of \<open>sorted_list_of_fset\<close>.
\<close>

section \<open>Types\<close>

definition HIGHLIGHT_RULE_VERSION :: string where
  "HIGHLIGHT_RULE_VERSION = ''highlight-rules-1''"

definition CANDIDATE_MERGE_GAP_MS :: nat where "CANDIDATE_MERGE_GAP_MS = 10000"

record time_range =
  tr_start :: nat
  tr_end :: nat

definition tr_overlaps :: "time_range \<Rightarrow> time_range \<Rightarrow> bool" where
  "tr_overlaps a b \<longleftrightarrow> tr_start a \<le> tr_end b \<and> tr_start b \<le> tr_end a"

datatype candidate_trigger = KillMilestone | PossibleKnife | OfficialRoundEndCapture

datatype final_label = Multikill | FourKill | Ace | Clutch | Knife

text \<open>The derived \<open>Ord\<close> of the two enums follows the declaration order.\<close>

fun trigger_index :: "candidate_trigger \<Rightarrow> nat" where
  "trigger_index KillMilestone = 0"
| "trigger_index PossibleKnife = 1"
| "trigger_index OfficialRoundEndCapture = 2"

fun label_index :: "final_label \<Rightarrow> nat" where
  "label_index Multikill = 0"
| "label_index FourKill = 1"
| "label_index Ace = 2"
| "label_index Clutch = 3"
| "label_index Knife = 4"

lemma trigger_index_inject: "trigger_index a = trigger_index b \<Longrightarrow> a = b"
  by (cases a; cases b) simp_all

lemma label_index_inject: "label_index a = label_index b \<Longrightarrow> a = b"
  by (cases a; cases b) simp_all

instantiation candidate_trigger :: linorder
begin

definition less_eq_candidate_trigger :: "candidate_trigger \<Rightarrow> candidate_trigger \<Rightarrow> bool" where
  "less_eq_candidate_trigger a b \<longleftrightarrow> trigger_index a \<le> trigger_index b"

definition less_candidate_trigger :: "candidate_trigger \<Rightarrow> candidate_trigger \<Rightarrow> bool" where
  "less_candidate_trigger a b \<longleftrightarrow> trigger_index a < trigger_index b"

instance
  by standard (auto simp: less_eq_candidate_trigger_def less_candidate_trigger_def
    intro: trigger_index_inject)

end

instantiation final_label :: linorder
begin

definition less_eq_final_label :: "final_label \<Rightarrow> final_label \<Rightarrow> bool" where
  "less_eq_final_label a b \<longleftrightarrow> label_index a \<le> label_index b"

definition less_final_label :: "final_label \<Rightarrow> final_label \<Rightarrow> bool" where
  "less_final_label a b \<longleftrightarrow> label_index a < label_index b"

instance
  by standard (auto simp: less_eq_final_label_def less_final_label_def intro: label_index_inject)

end

definition live_kill_trigger :: "bool \<Rightarrow> nat \<Rightarrow> candidate_trigger option" where
  "live_kill_trigger local_identity_valid round_kills =
     (if local_identity_valid \<and> round_kills \<ge> 3 then Some KillMilestone else None)"

record highlight_candidate =
  hc_session :: string
  hc_round :: string
  hc_version :: string
  hc_range :: time_range
  hc_starts :: "nat fset"
  hc_triggers :: "candidate_trigger fset"
  hc_receipts :: "string fset"

datatype highlight_error = ReversedRange

definition candidate_new ::
  "string \<Rightarrow> string \<Rightarrow> time_range \<Rightarrow> candidate_trigger \<Rightarrow> string
     \<Rightarrow> (highlight_error, highlight_candidate) result" where
  "candidate_new session rid span trigger receipt =
     (if tr_start span > tr_end span then Inl ReversedRange
      else Inr \<lparr>hc_session = session, hc_round = rid, hc_version = HIGHLIGHT_RULE_VERSION,
        hc_range = span, hc_starts = {|tr_start span|}, hc_triggers = {|trigger|},
        hc_receipts = {|receipt|}\<rparr>)"

section \<open>Merging\<close>

definition can_merge :: "highlight_candidate \<Rightarrow> highlight_candidate \<Rightarrow> bool" where
  "can_merge a b =
     (if hc_session a \<noteq> hc_session b \<or> hc_round a \<noteq> hc_round b \<or> hc_version a \<noteq> hc_version b
      then False
      else tr_overlaps (hc_range a) (hc_range b)
        \<or> fBex (hc_starts a) (\<lambda>l. fBex (hc_starts b)
            (\<lambda>r. abs_diff l r \<le> CANDIDATE_MERGE_GAP_MS)))"

definition merged :: "highlight_candidate \<Rightarrow> highlight_candidate \<Rightarrow> highlight_candidate" where
  "merged a b = a\<lparr>
     hc_range := \<lparr>tr_start = min (tr_start (hc_range a)) (tr_start (hc_range b)),
                  tr_end = max (tr_end (hc_range a)) (tr_end (hc_range b))\<rparr>,
     hc_starts := hc_starts a |\<union>| hc_starts b,
     hc_triggers := hc_triggers a |\<union>| hc_triggers b,
     hc_receipts := hc_receipts a |\<union>| hc_receipts b\<rparr>"

text \<open>\<open>candidate_order\<close> compares a tuple; \<open>BTreeSet\<close>s compare as their sorted elements.\<close>

type_synonym candidate_key = "string \<times> string \<times> string \<times> (nat \<times> nat) \<times> string list"

definition candidate_key :: "highlight_candidate \<Rightarrow> candidate_key" where
  "candidate_key c = (hc_session c, hc_round c, hc_version c,
     (tr_start (hc_range c), tr_end (hc_range c)), sorted_list_of_fset (hc_receipts c))"

definition candidate_order :: "highlight_candidate \<Rightarrow> highlight_candidate \<Rightarrow> bool" where
  "candidate_order a b \<longleftrightarrow> candidate_key a \<le> candidate_key b"

definition find_merge_pair :: "highlight_candidate list \<Rightarrow> (nat \<times> nat) option" where
  "find_merge_pair cs =
     List.find (\<lambda>(l, r). can_merge (cs ! l) (cs ! r)) (index_pairs (length cs))"

definition merge_at :: "nat \<Rightarrow> nat \<Rightarrow> highlight_candidate list \<Rightarrow> highlight_candidate list" where
  "merge_at l r cs =
     (let other = cs ! r; cs1 = remove_at r cs; current = cs1 ! l; cs2 = remove_at l cs1
      in sort_by candidate_order (cs2 @ [merged current other]))"

lemma find_merge_pair_Some:
  assumes "find_merge_pair cs = Some (l, r)"
  shows "l < r" "r < length cs" "can_merge (cs ! l) (cs ! r)"
  using find_SomeD [OF assms [unfolded find_merge_pair_def]] by (auto simp: set_index_pairs)

lemma find_merge_pair_None:
  assumes "find_merge_pair cs = None" "l < r" "r < length cs"
  shows "\<not> can_merge (cs ! l) (cs ! r)"
  using find_NoneD [OF assms(1) [unfolded find_merge_pair_def], of "(l, r)"] assms(2,3)
  by (simp add: set_index_pairs)

lemma length_merge_at:
  "l < r \<Longrightarrow> r < length cs \<Longrightarrow> length (merge_at l r cs) = length cs - 1"
  by (simp add: merge_at_def Let_def length_remove_at)

function merge_loop :: "highlight_candidate list \<Rightarrow> highlight_candidate list" where
  "merge_loop cs =
     (case find_merge_pair cs of
        None \<Rightarrow> cs
      | Some (l, r) \<Rightarrow> merge_loop (merge_at l r cs))"
  by pat_completeness auto
termination
proof (relation "measure length", goal_cases)
  case 1
  show ?case by simp
next
  case (2 cs p l r)
  then show ?case
    using find_merge_pair_Some [of cs l r] by (auto simp: length_merge_at)
qed

declare merge_loop.simps [simp del]

definition merge_candidates :: "highlight_candidate list \<Rightarrow> highlight_candidate list" where
  "merge_candidates cs = merge_loop (remdups_adj (sort_by candidate_order cs))"

section \<open>The merge as a join of candidates\<close>

text \<open>
  A candidate is below another when it is of the same session, round and rule version and all it
  holds (span, contributing starts, triggers, receipts) is in the other: nothing was lost.
\<close>

definition absorbed_by :: "highlight_candidate \<Rightarrow> highlight_candidate \<Rightarrow> bool" where
  "absorbed_by a b \<longleftrightarrow>
     hc_session a = hc_session b \<and> hc_round a = hc_round b \<and> hc_version a = hc_version b
   \<and> tr_start (hc_range b) \<le> tr_start (hc_range a) \<and> tr_end (hc_range a) \<le> tr_end (hc_range b)
   \<and> hc_starts a |\<subseteq>| hc_starts b \<and> hc_triggers a |\<subseteq>| hc_triggers b
   \<and> hc_receipts a |\<subseteq>| hc_receipts b"

definition candidate_ok :: "highlight_candidate \<Rightarrow> bool" where
  "candidate_ok c \<longleftrightarrow> tr_start (hc_range c) \<le> tr_end (hc_range c)"

lemma can_merge_iff:
  "can_merge a b \<longleftrightarrow>
     hc_session a = hc_session b \<and> hc_round a = hc_round b \<and> hc_version a = hc_version b
   \<and> (tr_overlaps (hc_range a) (hc_range b)
      \<or> (\<exists>l r. l |\<in>| hc_starts a \<and> r |\<in>| hc_starts b \<and> abs_diff l r \<le> CANDIDATE_MERGE_GAP_MS))"
  by (auto simp: can_merge_def)

lemma can_merge_sym: "can_merge a b \<Longrightarrow> can_merge b a"
  unfolding can_merge_iff tr_overlaps_def by (metis abs_diff_commute)

lemma can_merge_mono:
  "can_merge a b \<Longrightarrow> absorbed_by a a' \<Longrightarrow> absorbed_by b b' \<Longrightarrow> can_merge a' b'"
  unfolding can_merge_iff absorbed_by_def tr_overlaps_def
  by (elim conjE disjE) (auto dest: fsubsetD)

lemma absorbed_by_antisym: "absorbed_by a b \<Longrightarrow> absorbed_by b a \<Longrightarrow> a = b"
  by (intro highlight_candidate.equality time_range.equality)
    (auto simp: absorbed_by_def)

lemma absorbed_by_merged: "can_merge a b \<Longrightarrow> absorbed_by a (merged a b) \<and> absorbed_by b (merged a b)"
  by (auto simp: absorbed_by_def merged_def can_merge_iff)

lemma merged_least: "absorbed_by a c \<Longrightarrow> absorbed_by b c \<Longrightarrow> absorbed_by (merged a b) c"
  by (simp add: absorbed_by_def merged_def)

lemma candidate_ok_merged: "candidate_ok a \<Longrightarrow> candidate_ok (merged a b)"
  by (auto simp: candidate_ok_def merged_def)

lemma absorbed_by_refl: "absorbed_by a a"
  by (simp add: absorbed_by_def)

lemma absorbed_by_trans: "absorbed_by a b \<Longrightarrow> absorbed_by b c \<Longrightarrow> absorbed_by a c"
  unfolding absorbed_by_def by (intro conjI) auto

lemma can_merge_self: "candidate_ok a \<Longrightarrow> can_merge a a"
  by (simp add: candidate_ok_def can_merge_iff tr_overlaps_def)

interpretation candidates: join_semantics candidate_ok absorbed_by can_merge merged
  by (unfold_locales; (rule absorbed_by_refl absorbed_by_antisym absorbed_by_trans absorbed_by_merged
      merged_least can_merge_mono can_merge_sym can_merge_self candidate_ok_merged; assumption))

interpretation candidate_sorting: keyed_order_on "\<lambda>_. True" candidate_key candidate_order
  by unfold_locales (simp add: candidate_order_def)

lemma merge_at_step:
  assumes "find_merge_pair cs = Some (l, r)"
  obtains K where "mset cs = add_mset (cs ! l) (add_mset (cs ! r) K)"
    "mset (merge_at l r cs) = add_mset (merged (cs ! l) (cs ! r)) K"
proof -
  note p = find_merge_pair_Some [OF assms]
  let ?cs = "remove_at r cs"
  have l: "l < length ?cs" "?cs ! l = cs ! l"
    using p by (simp_all add: length_remove_at nth_remove_at)
  show ?thesis
  proof (rule that [of "mset (remove_at l ?cs)"])
    show "mset cs = add_mset (cs ! l) (add_mset (cs ! r) (mset (remove_at l ?cs)))"
      using mset_remove_at [OF p(2)] mset_remove_at [OF l(1)] l(2)
      by (metis add_mset_commute)
    show "mset (merge_at l r cs) = add_mset (merged (cs ! l) (cs ! r)) (mset (remove_at l ?cs))"
      using l(2) by (simp add: merge_at_def Let_def)
  qed
qed

lemma merge_loop_steps: "join_steps can_merge merged (mset cs) (mset (merge_loop cs))"
proof (induction cs rule: merge_loop.induct)
  case (1 cs)
  show ?case
  proof (cases "find_merge_pair cs")
    case None
    then show ?thesis by (subst merge_loop.simps) (simp add: join_steps.join_refl)
  next
    case (Some p)
    obtain l r where p: "p = (l, r)" by (cases p)
    with Some obtain K where K: "mset cs = add_mset (cs ! l) (add_mset (cs ! r) K)"
      "mset (merge_at l r cs) = add_mset (merged (cs ! l) (cs ! r)) K"
      by (auto elim: merge_at_step)
    have "join_steps can_merge merged (mset (merge_at l r cs)) (mset (merge_loop (merge_at l r cs)))"
      using 1 [OF Some p [symmetric]] .
    then show ?thesis
      using K find_merge_pair_Some [of cs l r] Some p
      by (subst merge_loop.simps) (simp add: join_steps.join_step)
  qed
qed

lemma merge_loop_pairless: "find_merge_pair (merge_loop cs) = None"
proof (induction cs rule: merge_loop.induct)
  case (1 cs)
  then show ?case
    by (subst merge_loop.simps, cases "find_merge_pair cs") auto
qed

lemma merge_loop_closed: "join_closed can_merge (mset (merge_loop cs))"
  unfolding join_closed_def
proof (intro allI impI)
  fix x y K
  assume "mset (merge_loop cs) = add_mset x (add_mset y K)"
  then obtain l r where "l < r" "r < length (merge_loop cs)"
    "(merge_loop cs ! l = x \<and> merge_loop cs ! r = y) \<or> (merge_loop cs ! l = y \<and> merge_loop cs ! r = x)"
    by (rule two_elements_indices)
  then show "\<not> can_merge x y"
    using find_merge_pair_None [OF merge_loop_pairless] can_merge_sym by blast
qed

lemma merge_loop_sorted:
  "sorted_wrt candidate_order cs \<Longrightarrow> sorted_wrt candidate_order (merge_loop cs)"
proof (induction cs rule: merge_loop.induct)
  case (1 cs)
  have "sorted_wrt candidate_order (merge_at l r cs)" for l r
    unfolding merge_at_def Let_def by (intro candidate_sorting.preorder.sort_by_sorted) simp
  with 1 show ?case
    by (subst merge_loop.simps, cases "find_merge_pair cs") auto
qed

lemma sorted_wrt_remdups_adj: "sorted_wrt le xs \<Longrightarrow> sorted_wrt le (remdups_adj xs)"
  by (induction xs rule: remdups_adj.induct) auto

lemma merge_candidates_sorted: "sorted_wrt candidate_order (merge_candidates cs)"
  unfolding merge_candidates_def
  by (intro merge_loop_sorted sorted_wrt_remdups_adj candidate_sorting.preorder.sort_by_sorted) simp

lemma merge_candidates_steps:
  "join_steps can_merge merged (mset (remdups_adj (sort_by candidate_order cs))) (mset (merge_candidates cs))"
  unfolding merge_candidates_def by (rule merge_loop_steps)

lemma merge_candidates_closed: "join_closed can_merge (mset (merge_candidates cs))"
  unfolding merge_candidates_def by (rule merge_loop_closed)

lemma same_key_can_merge:
  "candidate_ok a \<Longrightarrow> candidate_key a = candidate_key b \<Longrightarrow> can_merge a b"
  by (auto simp: candidate_key_def can_merge_iff tr_overlaps_def candidate_ok_def)

lemma merge_candidates_ok:
  assumes "\<forall>c\<in>set cs. candidate_ok c"
  shows "\<forall>c\<in>set (merge_candidates cs). candidate_ok c"
  using candidates.steps_ok [OF merge_candidates_steps] assms by simp

lemma merge_candidates_eqI:
  assumes "mset (merge_candidates cs) = mset ds" "sorted_wrt candidate_order ds"
    and ok: "\<forall>c\<in>set cs. candidate_ok c"
  shows "merge_candidates cs = ds"
proof (rule candidate_sorting.preorder.sorted_unique [OF assms(1) merge_candidates_sorted assms(2)])
  show "\<forall>x\<in>set (merge_candidates cs). \<forall>y\<in>set (merge_candidates cs).
    candidate_order x y \<longrightarrow> candidate_order y x \<longrightarrow> x = y"
  proof (intro ballI impI)
    fix x y
    assume xy: "x \<in> set (merge_candidates cs)" "y \<in> set (merge_candidates cs)"
      and "candidate_order x y" "candidate_order y x"
    then have "candidate_key x = candidate_key y" by (simp add: candidate_order_def)
    then have "can_merge x y"
      using merge_candidates_ok [OF ok] xy same_key_can_merge by blast
    with xy show "x = y" using candidates.closed_pairwise [OF merge_candidates_closed] by simp
  qed
qed simp

lemma merge_candidates_set_cong:
  assumes ok: "\<forall>c\<in>set xs. candidate_ok c" and "set xs = set ys"
  shows "merge_candidates xs = merge_candidates ys"
proof (rule merge_candidates_eqI [OF _ merge_candidates_sorted ok])
  show "mset (merge_candidates xs) = mset (merge_candidates ys)"
    using assms
    by (intro candidates.closed_unique [OF merge_candidates_steps merge_candidates_closed
        merge_candidates_steps merge_candidates_closed]) simp_all
qed

lemma merge_loop_pairless_id: "find_merge_pair cs = None \<Longrightarrow> merge_loop cs = cs"
  by (subst merge_loop.simps) simp

lemma steps_contents:
  "join_steps can_merge merged M N \<Longrightarrow>
     (\<Union>c\<in>set_mset N. f c) = (\<Union>c\<in>set_mset M. f c)"
  if "\<And>a b. f (merged a b) = f a \<union> f b"
  by (induction rule: join_steps.induct) (auto simp: that)

lemma merge_candidates_identity:
  assumes "c \<in> set (merge_candidates cs)"
  shows "\<exists>a\<in>set cs. hc_session c = hc_session a \<and> hc_round c = hc_round a"
proof -
  have "join_steps can_merge merged M N \<Longrightarrow>
      \<forall>c\<in>#N. \<exists>a\<in>#M. hc_session c = hc_session a \<and> hc_round c = hc_round a" for M N
    by (induction rule: join_steps.induct) (force simp: merged_def)+
  from this [OF merge_candidates_steps [of cs]] assms show ?thesis by fastforce
qed

lemma merge_candidates_covers:
  assumes "a \<in> set cs" shows "\<exists>c\<in>set (merge_candidates cs). absorbed_by a c"
  using candidates.steps_grow [OF merge_candidates_steps [of cs]] assms by simp

lemma merge_candidates_pair:
  assumes "can_merge a b" "candidate_ok a" "candidate_ok b"
  shows "merge_candidates [a, b] = [merged a b]"
proof (rule merge_candidates_eqI)
  have "join_steps can_merge merged (mset [a, b]) (mset [merged a b])"
    using join_step [where joinable = can_merge and join = merged and K = "{#}", OF assms(1)]
      join_refl [of can_merge merged] by simp
  moreover have "join_closed can_merge (mset [merged a b])" by (simp add: join_closed_def)
  ultimately show "mset (merge_candidates [a, b]) = mset [merged a b]"
    using assms by (intro candidates.closed_unique [OF merge_candidates_steps merge_candidates_closed]) auto
qed (use assms in auto)

section \<open>Labels\<close>

record demo_evidence =
  de_enemy_kills :: nat
  de_clutch_opponents :: "nat option"
  de_team_won :: bool
  de_knife_kill :: bool

definition final_labels :: "demo_evidence \<Rightarrow> final_label fset" where
  "final_labels e =
     (let labels0 = {||};
          labels1 = (if de_enemy_kills e \<ge> 5 then finsert Ace labels0
                     else if de_enemy_kills e = 4 then finsert FourKill labels0
                     else if de_enemy_kills e = 3 then finsert Multikill labels0
                     else labels0);
          labels2 = (if de_team_won e
                        \<and> (case de_clutch_opponents e of None \<Rightarrow> False | Some n \<Rightarrow> n \<ge> 2)
                     then finsert Clutch labels1 else labels1)
      in if de_knife_kill e then finsert Knife labels2 else labels2)"

lemma final_labels_member [simp]:
  "Ace |\<in>| final_labels e \<longleftrightarrow> de_enemy_kills e \<ge> 5"
  "FourKill |\<in>| final_labels e \<longleftrightarrow> de_enemy_kills e = 4"
  "Multikill |\<in>| final_labels e \<longleftrightarrow> de_enemy_kills e = 3"
  "Clutch |\<in>| final_labels e \<longleftrightarrow> de_team_won e \<and> (\<exists>n \<ge> 2. de_clutch_opponents e = Some n)"
  "Knife |\<in>| final_labels e \<longleftrightarrow> de_knife_kill e"
  by (auto simp: final_labels_def Let_def split: option.splits)

lemma candidate_new_ok: "candidate_new s r t g i = Inr c \<Longrightarrow> candidate_ok c"
  by (auto simp: candidate_new_def candidate_ok_def split: if_splits)

text \<open>Three candidates of one round, nine seconds apart, as the repository's own test has them.\<close>

definition sample_candidate :: "string \<Rightarrow> nat \<Rightarrow> highlight_candidate" where
  "sample_candidate rid start =
     \<lparr>hc_session = ''session'', hc_round = rid, hc_version = HIGHLIGHT_RULE_VERSION,
      hc_range = \<lparr>tr_start = start, tr_end = start + 1000\<rparr>, hc_starts = {|start|},
      hc_triggers = {|KillMilestone|}, hc_receipts = {|rid|}\<rparr>"

lemma sample_candidate_ok [simp]: "candidate_ok (sample_candidate rid start)"
  by (simp add: sample_candidate_def candidate_ok_def)

lemma sample_merge:
  "merge_candidates [sample_candidate ''r1'' 18000, sample_candidate ''r1'' 9000]
   = [(sample_candidate ''r1'' 9000)
        \<lparr>hc_range := \<lparr>tr_start = 9000, tr_end = 19000\<rparr>, hc_starts := {|18000, 9000|}\<rparr>]"
proof -
  let ?a = "sample_candidate ''r1'' 9000" and ?b = "sample_candidate ''r1'' 18000"
  have "sort_by candidate_order [?b, ?a] = [?a, ?b]" and "?a \<noteq> ?b"
    by (simp_all add: candidate_order_def candidate_key_def sample_candidate_def)
  then have "merge_candidates [?b, ?a] = merge_loop [?a, ?b]" by (simp add: merge_candidates_def)
  also have "find_merge_pair [?a, ?b] = Some (0, 1)"
    by (simp add: find_merge_pair_def index_pairs_def sample_candidate_def can_merge_def
      tr_overlaps_def abs_diff_def CANDIDATE_MERGE_GAP_MS_def upt_rec)
  then have "merge_loop [?a, ?b] = merge_loop [merged ?a ?b]"
    by (subst merge_loop.simps) (simp add: merge_at_def Let_def remove_at_def)
  also have "\<dots> = [merged ?a ?b]"
    by (subst merge_loop.simps) (simp add: find_merge_pair_def index_pairs_def)
  finally show ?thesis
    by (simp add: merged_def sample_candidate_def)
qed

section \<open>Properties\<close>

text \<open>
  C5: Merging is independent of the order and the multiplicity of the candidates: any two lists of
  well-formed candidates with the same elements merge to the same list. The code's first-pair
  loop with its sorts and its \<open>dedup\<close> therefore computes the unique closure.
\<close>
theorem merge_order_independent:
  assumes "\<forall>c\<in>set xs. candidate_ok c" and "set xs = set ys"
  shows "merge_candidates xs = merge_candidates ys"
  using assms by (rule merge_candidates_set_cong)

theorem merge_order_independent_witness:
  "length (merge_candidates [sample_candidate ''r1'' 9000, sample_candidate ''r1'' 18000,
     sample_candidate ''r1'' 9000]) = 1"
  using merge_order_independent [of "[sample_candidate ''r1'' 9000, sample_candidate ''r1'' 18000,
     sample_candidate ''r1'' 9000]" "[sample_candidate ''r1'' 18000, sample_candidate ''r1'' 9000]"]
  by (simp add: sample_merge insert_commute)

text \<open>
  Merging is idempotent, and its result is sorted, without duplicates, and has no two candidates
  that could still be merged (the loop runs to completion).
\<close>
theorem merge_idempotent:
  assumes "\<forall>c\<in>set cs. candidate_ok c"
  shows "merge_candidates (merge_candidates cs) = merge_candidates cs
    \<and> sorted_wrt candidate_order (merge_candidates cs) \<and> distinct (merge_candidates cs)
    \<and> (\<forall>a\<in>set (merge_candidates cs). \<forall>b\<in>set (merge_candidates cs). can_merge a b \<longrightarrow> a = b)"
proof -
  let ?m = "merge_candidates cs"
  have ok: "\<forall>c\<in>set ?m. candidate_ok c" by (rule merge_candidates_ok [OF assms])
  have d: "distinct ?m"
    using candidates.closed_distinct [OF merge_candidates_closed, of cs] ok
    by (auto simp: distinct_count_atmost_1 not_in_iff le_Suc_eq intro: le_antisym)
  have "mset (merge_candidates ?m) = mset ?m"
  proof (rule candidates.closed_unique [OF merge_candidates_steps merge_candidates_closed
        join_steps.join_refl merge_candidates_closed])
    show "set_mset (mset (remdups_adj (sort_by candidate_order ?m))) = set_mset (mset ?m)" by simp
  qed (use ok in simp)
  then have "merge_candidates ?m = ?m"
    by (rule merge_candidates_eqI [OF _ merge_candidates_sorted ok])
  with d show ?thesis
    using merge_candidates_sorted [of cs] candidates.closed_pairwise [OF merge_candidates_closed, of _ cs]
    by auto
qed

theorem merge_idempotent_witness:
  "merge_candidates (merge_candidates [sample_candidate ''r1'' 18000, sample_candidate ''r1'' 9000])
   = merge_candidates [sample_candidate ''r1'' 18000, sample_candidate ''r1'' 9000]"
  using merge_idempotent [of "[sample_candidate ''r1'' 18000, sample_candidate ''r1'' 9000]"] by simp

text \<open>
  Merging loses and invents nothing: every candidate is contained (span, starts, triggers,
  receipts, same session, round and rule version) in exactly one merged candidate, and the
  receipts and triggers of the result are those of the input.
\<close>
theorem merge_conserves:
  assumes "\<forall>c\<in>set cs. candidate_ok c"
  shows "(\<forall>c\<in>set cs. \<exists>!m. m \<in> set (merge_candidates cs) \<and> absorbed_by c m)
    \<and> (\<Union>m\<in>set (merge_candidates cs). fset (hc_receipts m)) = (\<Union>c\<in>set cs. fset (hc_receipts c))
    \<and> (\<Union>m\<in>set (merge_candidates cs). fset (hc_triggers m)) = (\<Union>c\<in>set cs. fset (hc_triggers c))"
proof (intro conjI ballI)
  fix c
  assume "c \<in> set cs"
  then show "\<exists>!m. m \<in> set (merge_candidates cs) \<and> absorbed_by c m"
    using candidates.absorbed_once [OF merge_candidates_steps merge_candidates_closed, of cs c] assms
    by simp
next
  show "(\<Union>m\<in>set (merge_candidates cs). fset (hc_receipts m)) = (\<Union>c\<in>set cs. fset (hc_receipts c))"
    using steps_contents [of "\<lambda>c. fset (hc_receipts c)", OF _ merge_candidates_steps [of cs]]
    by (simp add: merged_def)
  show "(\<Union>m\<in>set (merge_candidates cs). fset (hc_triggers m)) = (\<Union>c\<in>set cs. fset (hc_triggers c))"
    using steps_contents [of "\<lambda>c. fset (hc_triggers c)", OF _ merge_candidates_steps [of cs]]
    by (simp add: merged_def)
qed

theorem merge_conserves_witness:
  "\<exists>!m. m \<in> set (merge_candidates [sample_candidate ''r1'' 18000, sample_candidate ''r1'' 9000])
     \<and> absorbed_by (sample_candidate ''r1'' 9000) m"
  using merge_conserves [of "[sample_candidate ''r1'' 18000, sample_candidate ''r1'' 9000]"] by simp

end
