(* ===== verification/Capture_Window.thy ===== *)
theory Capture_Window
  imports Highlight
begin

text \<open>
  The capture windows and the retention policy of \<open>crates/openfrag-domain/src/highlight.rs\<close>:
  which part of the replay buffer a save asks for, and which provisional media is kept.
\<close>

section \<open>Capture windows\<close>

definition REPLAY_BUFFER_MS :: nat where "REPLAY_BUFFER_MS = 60000"

definition AUTO_POST_ROLL_MS :: nat where "AUTO_POST_ROLL_MS = 10000"

definition DESIRED_PRE_ROLL_MS :: nat where "DESIRED_PRE_ROLL_MS = 15000"

record capture_window =
  cw_requested_at :: nat
  cw_desired :: time_range
  cw_available :: time_range
  cw_truncated :: bool

datatype auto_capture_decision = AwaitingRoundEnd | SaveWindow capture_window

definition auto_capture_window :: "nat \<Rightarrow> nat option \<Rightarrow> nat \<Rightarrow> auto_capture_decision" where
  "auto_capture_window candidate_start round_end recorder_from =
     (case round_end of
        None \<Rightarrow> AwaitingRoundEnd
      | Some e \<Rightarrow>
          (let requested_at = saturating_add_u64 e AUTO_POST_ROLL_MS;
               desired = \<lparr>tr_start = saturating_sub candidate_start DESIRED_PRE_ROLL_MS,
                          tr_end = requested_at\<rparr>;
               buffer_start = saturating_sub requested_at REPLAY_BUFFER_MS;
               available_start = max (max (tr_start desired) buffer_start) recorder_from
           in SaveWindow \<lparr>cw_requested_at = requested_at, cw_desired = desired,
                cw_available = \<lparr>tr_start = available_start, tr_end = requested_at\<rparr>,
                cw_truncated = (available_start > tr_start desired)\<rparr>))"

definition manual_capture_window :: "nat \<Rightarrow> nat \<Rightarrow> capture_window" where
  "manual_capture_window flag recorder_from =
     (let desired = \<lparr>tr_start = saturating_sub flag DESIRED_PRE_ROLL_MS, tr_end = flag\<rparr>;
          available_start = max (tr_start desired) recorder_from
      in \<lparr>cw_requested_at = flag, cw_desired = desired,
          cw_available = \<lparr>tr_start = available_start, tr_end = flag\<rparr>,
          cw_truncated = (available_start > tr_start desired)\<rparr>)"

definition within :: "time_range \<Rightarrow> time_range \<Rightarrow> bool" where
  "within a b \<longleftrightarrow> tr_start b \<le> tr_start a \<and> tr_start a \<le> tr_end a \<and> tr_end a \<le> tr_end b"

section \<open>Retention\<close>

definition PROVISIONAL_RETENTION_MS :: nat where
  "PROVISIONAL_RETENTION_MS = 30 * 24 * 60 * 60 * 1000"

definition CAPTURE_SESSION_BUDGET_BYTES :: nat where
  "CAPTURE_SESSION_BUDGET_BYTES = 2 * 1024 * 1024 * 1024"

record provisional_media =
  pm_id :: string
  pm_created_at :: nat
  pm_bytes :: nat
  pm_confirmed :: bool

datatype retention_reason = Retain | ExpiredAfterThirtyDays | EvictedBySessionBudget

definition initial_reason :: "nat \<Rightarrow> provisional_media \<Rightarrow> retention_reason" where
  "initial_reason now item =
     (if \<not> pm_confirmed item \<and> saturating_sub now (pm_created_at item) \<ge> PROVISIONAL_RETENTION_MS
      then ExpiredAfterThirtyDays else Retain)"

definition eviction_order :: "nat \<times> provisional_media \<Rightarrow> nat \<times> provisional_media \<Rightarrow> bool" where
  "eviction_order a b \<longleftrightarrow>
     (pm_created_at (snd a), pm_id (snd a)) \<le> (pm_created_at (snd b), pm_id (snd b))"

fun evict_loop :: "(nat \<times> provisional_media) list \<Rightarrow> nat \<Rightarrow> (string \<times> retention_reason) list
    \<Rightarrow> (string \<times> retention_reason) list" where
  "evict_loop [] retained decisions = decisions"
| "evict_loop ((index, item) # rest) retained decisions =
     (if retained \<le> CAPTURE_SESSION_BUDGET_BYTES then decisions
      else evict_loop rest (saturating_sub retained (pm_bytes item))
        (decisions[index := (fst (decisions ! index), EvictedBySessionBudget)]))"

definition retention_decisions ::
  "provisional_media list \<Rightarrow> nat \<Rightarrow> (string \<times> retention_reason) list" where
  "retention_decisions items now =
     (let decisions = map (\<lambda>item. (pm_id item, initial_reason now item)) items;
          retained = foldl saturating_add_u64 0
            (map (\<lambda>(item, _). pm_bytes item)
              (filter (\<lambda>(item, d). \<not> pm_confirmed item \<and> snd d = Retain) (zip items decisions)));
          candidates = filter
            (\<lambda>(index, item). \<not> pm_confirmed item \<and> snd (decisions ! index) = Retain)
            (List.enumerate 0 items)
      in evict_loop (sort_by eviction_order candidates) retained decisions)"

section \<open>The eviction loop removes a shortest prefix of the oldest\<close>

definition evictable :: "nat \<Rightarrow> provisional_media \<Rightarrow> bool" where
  "evictable now item \<longleftrightarrow> \<not> pm_confirmed item \<and> initial_reason now item = Retain"

definition eviction_queue :: "provisional_media list \<Rightarrow> nat \<Rightarrow> (nat \<times> provisional_media) list" where
  "eviction_queue items now =
     sort_by eviction_order (filter (\<lambda>(i, item). evictable now item) (List.enumerate 0 items))"

abbreviation queue_bytes :: "(nat \<times> provisional_media) list \<Rightarrow> nat" where
  "queue_bytes q \<equiv> sum_list (map (\<lambda>(i, item). pm_bytes item) q)"

interpretation eviction: keyed_order_on "\<lambda>_. True" "\<lambda>x. (pm_created_at (snd x), pm_id (snd x))" eviction_order
  by unfold_locales (simp add: eviction_order_def)

definition evicts_prefix :: "(nat \<times> provisional_media) list \<Rightarrow> nat \<Rightarrow>
    (string \<times> retention_reason) list \<Rightarrow> (string \<times> retention_reason) list \<Rightarrow> nat \<Rightarrow> bool" where
  "evicts_prefix q r ds ds' k \<longleftrightarrow> k \<le> length q \<and> length ds' = length ds
     \<and> (\<forall>j<k. r - queue_bytes (take j q) > CAPTURE_SESSION_BUDGET_BYTES)
     \<and> (k < length q \<longrightarrow> r - queue_bytes (take k q) \<le> CAPTURE_SESSION_BUDGET_BYTES)
     \<and> (\<forall>i<length ds. ds' ! i =
          (fst (ds ! i), if i \<in> fst ` set (take k q) then EvictedBySessionBudget else snd (ds ! i)))"

lemma evicts_prefix_Cons:
  assumes "evicts_prefix q (saturating_sub r (pm_bytes item))
      (ds[i := (fst (ds ! i), EvictedBySessionBudget)]) ds' k"
    and "i < length ds" and "r > CAPTURE_SESSION_BUDGET_BYTES"
  shows "evicts_prefix ((i, item) # q) r ds ds' (Suc k)"
  using assms
  by (auto simp: evicts_prefix_def less_Suc_eq_0_disj saturating_sub_def nth_list_update)

lemma evict_loop_prefix:
  assumes "\<forall>x\<in>set q. fst x < length ds"
  shows "\<exists>k. evicts_prefix q r ds (evict_loop q r ds) k"
  using assms
proof (induction q r ds rule: evict_loop.induct)
  case (1 r ds)
  show ?case by (intro exI [of _ 0]) (simp add: evicts_prefix_def)
next
  case (2 index item rest r ds)
  show ?case
  proof (cases "r \<le> CAPTURE_SESSION_BUDGET_BYTES")
    case True
    then show ?thesis by (intro exI [of _ 0]) (simp add: evicts_prefix_def)
  next
    case False
    moreover from this obtain k where
      "evicts_prefix rest (saturating_sub r (pm_bytes item))
        (ds[index := (fst (ds ! index), EvictedBySessionBudget)])
        (evict_loop rest (saturating_sub r (pm_bytes item))
          (ds[index := (fst (ds ! index), EvictedBySessionBudget)])) k"
      using 2 by auto
    ultimately show ?thesis
      using 2 evicts_prefix_Cons by (intro exI [of _ "Suc k"]) simp
  qed
qed

lemma foldl_saturating_add_u64:
  "a + sum_list xs \<le> u64_max \<Longrightarrow> foldl saturating_add_u64 a xs = a + sum_list xs"
  by (induction xs arbitrary: a) (simp_all add: saturating_add_u64_exact)

lemma retained_unconfirmed_eq:
  "map (\<lambda>(item, _). pm_bytes item)
     (filter (\<lambda>(item, d). \<not> pm_confirmed item \<and> snd d = Retain)
       (zip items (map (\<lambda>item. (pm_id item, initial_reason now item)) items)))
   = map pm_bytes (filter (evictable now) items)"
  by (induction items) (auto simp: evictable_def)

lemma enumerate_filter_eq:
  "filter (\<lambda>(index, item). \<not> pm_confirmed item
       \<and> snd (map (\<lambda>item. (pm_id item, initial_reason now item)) items ! index) = Retain)
     (List.enumerate 0 items)
   = filter (\<lambda>(i, item). evictable now item) (List.enumerate 0 items)"
  by (rule filter_cong) (auto simp: evictable_def in_set_enumerate_eq)

lemma retention_decisions_eq:
  assumes "sum_list (map pm_bytes (filter (evictable now) items)) \<le> u64_max"
  shows "retention_decisions items now =
    evict_loop (eviction_queue items now) (sum_list (map pm_bytes (filter (evictable now) items)))
      (map (\<lambda>item. (pm_id item, initial_reason now item)) items)"
  using assms
  by (simp add: retention_decisions_def Let_def retained_unconfirmed_eq enumerate_filter_eq
    foldl_saturating_add_u64 eviction_queue_def)

lemma eviction_queue_index:
  "x \<in> set (eviction_queue items now) \<longleftrightarrow>
     fst x < length items \<and> snd x = items ! fst x \<and> evictable now (items ! fst x)"
  by (cases x) (auto simp: eviction_queue_def in_set_enumerate_eq)

lemma eviction_queue_indices:
  "fst ` set (eviction_queue items now) = {i. i < length items \<and> evictable now (items ! i)}"
proof -
  have "set (eviction_queue items now)
      = (\<lambda>i. (i, items ! i)) ` {i. i < length items \<and> evictable now (items ! i)}"
    using eviction_queue_index by (fastforce simp: image_iff)
  then show ?thesis by (simp add: image_image)
qed

lemma distinct_eviction_queue: "distinct (map fst (eviction_queue items now))"
proof -
  have "distinct (map fst (filter P (List.enumerate 0 items)))" for P
    by (simp add: distinct_map_filter)
  moreover have "mset (map fst (eviction_queue items now)) =
      mset (map fst (filter (\<lambda>(i, item). evictable now item) (List.enumerate 0 items)))"
    by (simp add: eviction_queue_def)
  ultimately show ?thesis by (metis mset_eq_imp_distinct_iff)
qed

lemma queue_bytes_total:
  "queue_bytes (eviction_queue items now) = sum_list (map pm_bytes (filter (evictable now) items))"
proof -
  have "queue_bytes (eviction_queue items now)
      = queue_bytes (filter (\<lambda>(i, item). evictable now item) (List.enumerate 0 items))"
    unfolding sum_mset_sum_list [symmetric] by (simp add: eviction_queue_def)
  also have "queue_bytes (filter (\<lambda>(i, item). evictable now item) (List.enumerate n items))
      = sum_list (map pm_bytes (filter (evictable now) items))" for n
    by (induction items arbitrary: n) auto
  finally show ?thesis .
qed

lemma queue_bytes_indices:
  assumes "distinct (map fst xs)" "\<forall>x\<in>set xs. snd x = items ! fst x"
  shows "queue_bytes xs = (\<Sum>i\<in>fst ` set xs. pm_bytes (items ! i))"
proof -
  have "map (\<lambda>(i, item). pm_bytes item) xs = map (\<lambda>i. pm_bytes (items ! i)) (map fst xs)"
    using assms(2) by auto
  then have "queue_bytes xs = sum_list (map (\<lambda>i. pm_bytes (items ! i)) (map fst xs))"
    by (rule arg_cong [where f = sum_list])
  also have "\<dots> = (\<Sum>i\<in>set (map fst xs). pm_bytes (items ! i))"
    by (rule sum_list_distinct_conv_sum_set [OF assms(1)])
  finally show ?thesis by simp
qed

text \<open>The bytes of the unconfirmed media that the decisions keep.\<close>

definition kept_bytes :: "provisional_media list \<Rightarrow> (string \<times> retention_reason) list \<Rightarrow> nat" where
  "kept_bytes items ds = sum_list (map (\<lambda>(item, d). pm_bytes item)
     (filter (\<lambda>(item, d). \<not> pm_confirmed item \<and> snd d = Retain) (zip items ds)))"

lemma kept_bytes_sum:
  "length ds = length items \<Longrightarrow> kept_bytes items ds =
     (\<Sum>i | i < length items \<and> \<not> pm_confirmed (items ! i) \<and> snd (ds ! i) = Retain. pm_bytes (items ! i))"
  unfolding kept_bytes_def sum_list_filter_nth by (intro sum.cong) auto

text \<open>The decisions, pointwise: a prefix of the queue is evicted, the rest is as first decided.\<close>

lemma retention_decisions_prefix:
  fixes items now
  defines "q \<equiv> eviction_queue items now" and "ds \<equiv> retention_decisions items now"
  assumes "sum_list (map pm_bytes (filter (evictable now) items)) \<le> u64_max"
  obtains k where "k \<le> length q" "length ds = length items"
    "\<forall>j<k. queue_bytes (drop j q) > CAPTURE_SESSION_BUDGET_BYTES"
    "queue_bytes (drop k q) \<le> CAPTURE_SESSION_BUDGET_BYTES"
    "\<forall>i<length items. ds ! i = (pm_id (items ! i),
       if i \<in> fst ` set (take k q) then EvictedBySessionBudget else initial_reason now (items ! i))"
proof -
  let ?r = "sum_list (map pm_bytes (filter (evictable now) items))"
  let ?ds = "map (\<lambda>item. (pm_id item, initial_reason now item)) items"
  have idx: "\<forall>x\<in>set q. fst x < length ?ds" by (simp add: q_def eviction_queue_index)
  obtain k where k: "evicts_prefix q ?r ?ds ds k"
    using evict_loop_prefix [OF idx] retention_decisions_eq [OF assms(3)] by (auto simp: q_def ds_def)
  have rest: "?r - queue_bytes (take j q) = queue_bytes (drop j q)" for j
  proof -
    have "queue_bytes (take j q @ drop j q) = queue_bytes (take j q) + queue_bytes (drop j q)"
      by (simp only: map_append sum_list_append)
    then show ?thesis by (simp add: q_def queue_bytes_total)
  qed
  show thesis
    by (rule that [of k]; use k in \<open>cases "k < length q"; simp add: evicts_prefix_def rest\<close>)
qed

text \<open>Hence the kept media are the rest of the queue.\<close>

lemma kept_indices:
  assumes "length ds = length items"
    and "\<forall>i<length items. ds ! i = (pm_id (items ! i),
       if i \<in> fst ` set (take k (eviction_queue items now)) then EvictedBySessionBudget
       else initial_reason now (items ! i))"
  shows "{i. i < length items \<and> \<not> pm_confirmed (items ! i) \<and> snd (ds ! i) = Retain}
      = fst ` set (drop k (eviction_queue items now))" (is "_ = ?D")
proof -
  let ?q = "eviction_queue items now"
  define T where "T = fst ` set (take k ?q)"
  have union: "T \<union> ?D = {i. i < length items \<and> evictable now (items ! i)}"
    unfolding T_def by (metis append_take_drop_id image_Un set_append eviction_queue_indices)
  have disj: "T \<inter> ?D = {}"
    unfolding T_def using distinct_eviction_queue [of items now]
    by (metis append_take_drop_id distinct_append list.set_map map_append)
  have ds: "snd (ds ! i) = (if i \<in> T then EvictedBySessionBudget else initial_reason now (items ! i))"
    if "i < length items" for i
    using assms(2) that by (simp add: T_def)
  have "?D = {i. i < length items \<and> evictable now (items ! i) \<and> i \<notin> T}"
    using union disj by blast
  moreover have "{i. i < length items \<and> \<not> pm_confirmed (items ! i) \<and> snd (ds ! i) = Retain}
      = {i. i < length items \<and> evictable now (items ! i) \<and> i \<notin> T}"
    by (auto simp: ds evictable_def split: if_splits)
  ultimately show ?thesis by simp
qed

lemma kept_bytes_queue:
  assumes "length ds = length items"
    and "\<forall>i<length items. ds ! i = (pm_id (items ! i),
       if i \<in> fst ` set (take k (eviction_queue items now)) then EvictedBySessionBudget
       else initial_reason now (items ! i))"
  shows "kept_bytes items ds = queue_bytes (drop k (eviction_queue items now))"
proof -
  have "distinct (map fst (drop k (eviction_queue items now)))"
    using distinct_eviction_queue [of items now] by (simp add: drop_map [symmetric])
  then have "queue_bytes (drop k (eviction_queue items now))
      = (\<Sum>i\<in>fst ` set (drop k (eviction_queue items now)). pm_bytes (items ! i))"
    by (rule queue_bytes_indices) (auto simp: eviction_queue_index dest: in_set_dropD)
  then show ?thesis by (simp only: kept_bytes_sum [OF assms(1)] kept_indices [OF assms])
qed

section \<open>Properties\<close>

text \<open>
  Retention keeps the order and the ids of its items, never touches confirmed media, expires exactly
  the unconfirmed media of at least thirty days, and leaves at most the session budget of
  unconfirmed bytes.
\<close>
theorem retention_within_budget:
  assumes "sum_list (map pm_bytes (filter (evictable now) items)) \<le> u64_max"
  shows "map fst (retention_decisions items now) = map pm_id items
    \<and> (\<forall>i<length items. pm_confirmed (items ! i) \<longrightarrow> snd (retention_decisions items now ! i) = Retain)
    \<and> (\<forall>i<length items. snd (retention_decisions items now ! i) = ExpiredAfterThirtyDays
         \<longleftrightarrow> \<not> pm_confirmed (items ! i) \<and> PROVISIONAL_RETENTION_MS \<le> now - pm_created_at (items ! i))
    \<and> kept_bytes items (retention_decisions items now) \<le> CAPTURE_SESSION_BUDGET_BYTES"
proof -
  let ?q = "eviction_queue items now" and ?ds = "retention_decisions items now"
  obtain k where k: "k \<le> length ?q" "length ?ds = length items"
    "queue_bytes (drop k ?q) \<le> CAPTURE_SESSION_BUDGET_BYTES"
    "\<forall>i<length items. ?ds ! i = (pm_id (items ! i),
       if i \<in> fst ` set (take k ?q) then EvictedBySessionBudget else initial_reason now (items ! i))"
    by (rule retention_decisions_prefix [OF assms]) blast
  have taken: "evictable now (items ! i)" if "i \<in> fst ` set (take k ?q)" for i
    using that by (auto simp: eviction_queue_index dest: in_set_takeD)
  have "kept_bytes items ?ds \<le> CAPTURE_SESSION_BUDGET_BYTES"
    using kept_bytes_queue [OF k(2,4)] k(3) by simp
  moreover have "map fst ?ds = map pm_id items"
    by (rule nth_equalityI) (simp_all add: k)
  moreover have "pm_confirmed (items ! i) \<longrightarrow> snd (?ds ! i) = Retain"
    "snd (?ds ! i) = ExpiredAfterThirtyDays \<longleftrightarrow>
      \<not> pm_confirmed (items ! i) \<and> PROVISIONAL_RETENTION_MS \<le> now - pm_created_at (items ! i)"
    if "i < length items" for i
  proof -
    have "snd (?ds ! i) = (if i \<in> fst ` set (take k ?q) then EvictedBySessionBudget
      else initial_reason now (items ! i))" using k(4) that by simp
    with taken [of i] show "pm_confirmed (items ! i) \<longrightarrow> snd (?ds ! i) = Retain"
      "snd (?ds ! i) = ExpiredAfterThirtyDays \<longleftrightarrow>
        \<not> pm_confirmed (items ! i) \<and> PROVISIONAL_RETENTION_MS \<le> now - pm_created_at (items ! i)"
      by (auto simp: evictable_def initial_reason_def saturating_sub_def split: if_splits)
  qed
  ultimately show ?thesis by blast
qed

text \<open>Two unconfirmed items, one byte and the whole budget: only the older one has to go.\<close>

definition sample_media :: "provisional_media list" where
  "sample_media =
     [\<lparr>pm_id = ''old'', pm_created_at = 0, pm_bytes = 1, pm_confirmed = False\<rparr>,
      \<lparr>pm_id = ''a'', pm_created_at = PROVISIONAL_RETENTION_MS, pm_bytes = CAPTURE_SESSION_BUDGET_BYTES, pm_confirmed = False\<rparr>,
      \<lparr>pm_id = ''b'', pm_created_at = PROVISIONAL_RETENTION_MS + 1, pm_bytes = 1, pm_confirmed = False\<rparr>]"

lemma sample_media_total:
  "sum_list (map pm_bytes (filter (evictable (PROVISIONAL_RETENTION_MS + 1)) sample_media)) \<le> u64_max"
  by (simp add: sample_media_def evictable_def initial_reason_def saturating_sub_def
    PROVISIONAL_RETENTION_MS_def CAPTURE_SESSION_BUDGET_BYTES_def u64_max_def)

lemma sample_media_decisions:
  "retention_decisions sample_media (PROVISIONAL_RETENTION_MS + 1) =
     [(''old'', ExpiredAfterThirtyDays), (''a'', EvictedBySessionBudget), (''b'', Retain)]"
  by (simp add: retention_decisions_def sample_media_def initial_reason_def saturating_sub_def
    saturating_add_u64_def eviction_order_def
    PROVISIONAL_RETENTION_MS_def CAPTURE_SESSION_BUDGET_BYTES_def u64_max_def)

theorem retention_within_budget_witness:
  "kept_bytes sample_media (retention_decisions sample_media (PROVISIONAL_RETENTION_MS + 1))
     \<le> CAPTURE_SESSION_BUDGET_BYTES
   \<and> retention_decisions sample_media (PROVISIONAL_RETENTION_MS + 1) ! 1 = (''a'', EvictedBySessionBudget)"
  using retention_within_budget [OF sample_media_total] sample_media_decisions by simp

text \<open>
  Eviction takes the oldest media first and no more than it must: an evicted item is not newer
  (by creation time, then id) than any unconfirmed item that is kept, and without the last
  eviction the kept bytes would still exceed the budget.
\<close>
theorem retention_evicts_oldest:
  assumes "sum_list (map pm_bytes (filter (evictable now) items)) \<le> u64_max"
    and "i < length items" and "snd (retention_decisions items now ! i) = EvictedBySessionBudget"
  shows "(\<forall>j<length items. \<not> pm_confirmed (items ! j)
        \<and> snd (retention_decisions items now ! j) = Retain
        \<longrightarrow> (pm_created_at (items ! i), pm_id (items ! i)) \<le> (pm_created_at (items ! j), pm_id (items ! j)))
    \<and> (\<exists>last<length items. snd (retention_decisions items now ! last) = EvictedBySessionBudget
        \<and> kept_bytes items (retention_decisions items now) + pm_bytes (items ! last) > CAPTURE_SESSION_BUDGET_BYTES)"
proof -
  let ?q = "eviction_queue items now" and ?ds = "retention_decisions items now"
  obtain k where k: "k \<le> length ?q" "length ?ds = length items"
    "\<forall>j<k. queue_bytes (drop j ?q) > CAPTURE_SESSION_BUDGET_BYTES"
    "\<forall>i<length items. ?ds ! i = (pm_id (items ! i),
       if i \<in> fst ` set (take k ?q) then EvictedBySessionBudget else initial_reason now (items ! i))"
    by (rule retention_decisions_prefix [OF assms(1)]) blast
  have evicted: "snd (?ds ! j) = EvictedBySessionBudget \<longleftrightarrow> j \<in> fst ` set (take k ?q)"
    if "j < length items" for j
    using k(4) that by (simp add: initial_reason_def)
  have i: "i \<in> fst ` set (take k ?q)" using evicted assms(2,3) by simp
  have sorted: "sorted_wrt eviction_order (take k ?q @ drop k ?q)"
    using eviction.preorder.sort_by_sorted by (simp add: eviction_queue_def)
  have order: "(pm_created_at (items ! i), pm_id (items ! i)) \<le> (pm_created_at (items ! j), pm_id (items ! j))"
    if "j \<in> fst ` set (drop k ?q)" for j
  proof -
    note j = that
    obtain a where a: "a \<in> set (take k ?q)" "fst a = i" using i by blast
    obtain b where b: "b \<in> set (drop k ?q)" "fst b = j" using j by blast
    have ab: "snd a = items ! i" "snd b = items ! j"
      using eviction_queue_index [of a items now] eviction_queue_index [of b items now]
        in_set_takeD [OF a(1)] in_set_dropD [OF b(1)] a(2) b(2) by simp_all
    from sorted a(1) b(1) have "eviction_order a b" by (simp only: sorted_wrt_append)
    with ab show ?thesis by (simp add: eviction_order_def)
  qed
  obtain k' where k': "k = Suc k'" using i by (cases k) auto
  let ?last = "?q ! k'"
  have last: "?last \<in> set (take k ?q)" "k' < length ?q" using k k' by (auto simp: in_set_conv_nth)
  then have item: "fst ?last < length items" "snd ?last = items ! fst ?last"
    using eviction_queue_index [of ?last items now] by (auto dest: in_set_takeD)
  have "queue_bytes (drop k' ?q) = pm_bytes (items ! fst ?last) + queue_bytes (drop k ?q)"
    unfolding item(2) [symmetric] using Cons_nth_drop_Suc [OF last(2)] k' by (metis (no_types, lifting) case_prod_beta list.simps(9) sum_list.Cons)
  moreover have "queue_bytes (drop k' ?q) > CAPTURE_SESSION_BUDGET_BYTES"
    using k(3) k' by blast
  ultimately have "kept_bytes items ?ds + pm_bytes (items ! fst ?last) > CAPTURE_SESSION_BUDGET_BYTES"
    using kept_bytes_queue [OF k(2,4)] by linarith
  moreover have "snd (?ds ! fst ?last) = EvictedBySessionBudget" using evicted item last by simp
  ultimately show ?thesis
    using order kept_indices [OF k(2,4)] item by blast
qed

theorem retention_evicts_oldest_witness:
  "kept_bytes sample_media (retention_decisions sample_media (PROVISIONAL_RETENTION_MS + 1)) = 1
   \<and> (\<exists>last<length sample_media. pm_bytes (sample_media ! last) \<ge> CAPTURE_SESSION_BUDGET_BYTES)"
proof -
  have "1 < length sample_media" by (simp add: sample_media_def)
  moreover have "snd (retention_decisions sample_media (PROVISIONAL_RETENTION_MS + 1) ! 1) = EvictedBySessionBudget"
    by (simp only: sample_media_decisions) simp
  moreover have "kept_bytes sample_media (retention_decisions sample_media (PROVISIONAL_RETENTION_MS + 1)) = 1"
    by (simp only: sample_media_decisions) (simp add: kept_bytes_def sample_media_def)
  ultimately show ?thesis
    using retention_evicts_oldest [OF sample_media_total, of 1]
    by (metis (no_types, lifting) add.commute less_Suc_eq_le plus_1_eq_Suc)
qed

text \<open>
  An automatic save waits for the round's end; then the recorded window lies within the desired
  one, ends ten seconds after the round's end, is at most the replay buffer long, and is marked
  truncated exactly when its start is cut. This holds whenever the recorder was already
  running when the post-roll ended.
\<close>
theorem auto_capture_window_sound:
  assumes "e + AUTO_POST_ROLL_MS \<le> u64_max" and "candidate_start \<le> e"
    and "recorder_from \<le> e + AUTO_POST_ROLL_MS"
  shows "auto_capture_window candidate_start None recorder_from = AwaitingRoundEnd
    \<and> (\<exists>w. auto_capture_window candidate_start (Some e) recorder_from = SaveWindow w
        \<and> cw_requested_at w = e + AUTO_POST_ROLL_MS
        \<and> within (cw_available w) (cw_desired w)
        \<and> tr_end (cw_available w) = e + AUTO_POST_ROLL_MS
        \<and> tr_end (cw_available w) - tr_start (cw_available w) \<le> REPLAY_BUFFER_MS
        \<and> recorder_from \<le> tr_start (cw_available w)
        \<and> (cw_truncated w \<longleftrightarrow> cw_available w \<noteq> cw_desired w)
        \<and> (\<not> cw_truncated w \<longrightarrow> tr_start (cw_available w) = candidate_start - DESIRED_PRE_ROLL_MS))"
  using assms
  by (auto simp: auto_capture_window_def Let_def saturating_add_u64_exact saturating_sub_def within_def)
    (simp add: max_def split: if_splits)

theorem auto_capture_window_sound_witness:
  "auto_capture_window 10000 (Some 70000) 30000 = SaveWindow
     \<lparr>cw_requested_at = 80000, cw_desired = \<lparr>tr_start = 0, tr_end = 80000\<rparr>,
      cw_available = \<lparr>tr_start = 30000, tr_end = 80000\<rparr>, cw_truncated = True\<rparr>
   \<and> (\<exists>w. auto_capture_window 10000 (Some 70000) 30000 = SaveWindow w
        \<and> within (cw_available w) (cw_desired w))"
proof -
  have "(70000::nat) + AUTO_POST_ROLL_MS \<le> u64_max" "(10000::nat) \<le> 70000"
    "(30000::nat) \<le> 70000 + AUTO_POST_ROLL_MS"
    by (simp_all add: AUTO_POST_ROLL_MS_def u64_max_def)
  from auto_capture_window_sound [OF this] show ?thesis
    by (auto simp: auto_capture_window_def Let_def saturating_add_u64_def saturating_sub_def
      AUTO_POST_ROLL_MS_def DESIRED_PRE_ROLL_MS_def REPLAY_BUFFER_MS_def u64_max_def)
qed

text \<open>
  When the recorder only became available after the post-roll had ended (it was restarted before
  a retry), the automatic window is reversed: the available range starts after it ends. The
  range is well formed exactly when the recorder was available by then.
\<close>
theorem auto_capture_window_reversed_iff:
  assumes "e + AUTO_POST_ROLL_MS \<le> u64_max" and "candidate_start \<le> e"
    and "auto_capture_window candidate_start (Some e) recorder_from = SaveWindow w"
  shows "tr_end (cw_available w) < tr_start (cw_available w) \<longleftrightarrow> e + AUTO_POST_ROLL_MS < recorder_from"
  using assms
  by (auto simp: auto_capture_window_def Let_def saturating_add_u64_exact saturating_sub_def)

theorem auto_capture_window_reversed_iff_witness:
  "\<exists>w. auto_capture_window 10000 (Some 70000) 90000 = SaveWindow w
     \<and> tr_end (cw_available w) = 80000 \<and> tr_start (cw_available w) = 90000
     \<and> tr_end (cw_available w) < tr_start (cw_available w)"
proof -
  obtain w where w: "auto_capture_window 10000 (Some 70000) 90000 = SaveWindow w"
    "tr_end (cw_available w) = 80000" "tr_start (cw_available w) = 90000"
    by (simp add: auto_capture_window_def Let_def saturating_add_u64_def saturating_sub_def
      AUTO_POST_ROLL_MS_def DESIRED_PRE_ROLL_MS_def REPLAY_BUFFER_MS_def u64_max_def)
  have "(70000::nat) + AUTO_POST_ROLL_MS \<le> u64_max" "(10000::nat) \<le> 70000"
    by (simp_all add: AUTO_POST_ROLL_MS_def u64_max_def)
  from auto_capture_window_reversed_iff [OF this w(1)] w show ?thesis
    by (auto simp: AUTO_POST_ROLL_MS_def)
qed

end
