(* ===== verification/Rating.thy ===== *)
theory Rating
  imports Exact Identity
begin

text \<open>
  The rating of \<open>crates/openfrag-domain/src/rating.rs\<close>: six components of a match in the unit
  interval, their published weights, the evidence a rating needs, and the receipt that says how
  it was computed or why it was not.
\<close>

section \<open>Types\<close>

datatype component_kind = DirectDamage | FragBalance | OpeningDuels | TradeKills | Utility
  | ClutchConversion

record component_vector =
  cv_direct_damage :: unit_interval
  cv_frag_balance :: unit_interval
  cv_opening_duels :: unit_interval
  cv_trade_kills :: unit_interval
  cv_utility :: unit_interval
  cv_clutch_conversion :: unit_interval

fun cv_get :: "component_vector \<Rightarrow> component_kind \<Rightarrow> unit_interval" where
  "cv_get v DirectDamage = cv_direct_damage v"
| "cv_get v FragBalance = cv_frag_balance v"
| "cv_get v OpeningDuels = cv_opening_duels v"
| "cv_get v TradeKills = cv_trade_kills v"
| "cv_get v Utility = cv_utility v"
| "cv_get v ClutchConversion = cv_clutch_conversion v"

text \<open>The counters are \<open>u32\<close>.\<close>

record rating_metrics =
  m_eligible_rounds :: nat
  m_direct_damage :: nat
  m_kills :: nat
  m_deaths :: nat
  m_opening_wins :: nat
  m_opening_losses :: nat
  m_trade_kills :: nat
  m_utility_damage :: nat
  m_flash_assists :: nat
  m_clutch_wins :: nat
  m_clutch_opportunities :: nat

record match_irregularities =
  ir_missed_live_round :: bool
  ir_roster_imbalanced :: bool
  ir_surrender :: bool
  ir_forfeit_without_canonical_winner :: bool
  ir_overtime :: bool

datatype evidence_failure = MissingRequiredStream | MalformedEvent | ContradictoryAttribution
  | FailedReconciliation

datatype required_evidence = EligibleRoundLedger | ExcludedRoundLedger
  | ComponentEvidence component_kind

type_synonym receipt_evidence_set = "string list"

record rating_evidence =
  ev_eligible_round_ledger :: receipt_evidence_set
  ev_excluded_round_ledger :: receipt_evidence_set
  ev_direct_damage :: receipt_evidence_set
  ev_frag_balance :: receipt_evidence_set
  ev_opening_duels :: receipt_evidence_set
  ev_trade_kills :: receipt_evidence_set
  ev_utility :: receipt_evidence_set
  ev_clutch_conversion :: receipt_evidence_set

fun component_evidence :: "rating_evidence \<Rightarrow> component_kind \<Rightarrow> receipt_evidence_set" where
  "component_evidence e DirectDamage = ev_direct_damage e"
| "component_evidence e FragBalance = ev_frag_balance e"
| "component_evidence e OpeningDuels = ev_opening_duels e"
| "component_evidence e TradeKills = ev_trade_kills e"
| "component_evidence e Utility = ev_utility e"
| "component_evidence e ClutchConversion = ev_clutch_conversion e"

text \<open>\<open>find_map\<close> over the required kinds, in the code's order.\<close>

definition first_missing :: "rating_evidence \<Rightarrow> required_evidence option" where
  "first_missing e = map_option fst (List.find (\<lambda>(kind, ids). ids = [])
     [(EligibleRoundLedger, ev_eligible_round_ledger e),
      (ExcludedRoundLedger, ev_excluded_round_ledger e),
      (ComponentEvidence DirectDamage, ev_direct_damage e),
      (ComponentEvidence FragBalance, ev_frag_balance e),
      (ComponentEvidence OpeningDuels, ev_opening_duels e),
      (ComponentEvidence TradeKills, ev_trade_kills e),
      (ComponentEvidence Utility, ev_utility e),
      (ComponentEvidence ClutchConversion, ev_clutch_conversion e)])"

record rating_input =
  in_identity :: calculation_identity
  in_game_build :: string
  in_metrics :: rating_metrics
  in_irregularities :: match_irregularities
  in_evidence_failure :: "evidence_failure option"
  in_evidence :: rating_evidence

datatype unavailable_reason = InsufficientEligibleRounds nat nat
  | EvidenceUnavailableFor evidence_failure
  | MissingRequiredEvidence required_evidence
  | ForfeitWithoutCanonicalWinner

datatype preview_reason = ShortSample nat nat | MissedLiveRound | Surrender

datatype trend_exclusion = PreviewExclusion | RosterImbalancedExclusion | UnavailableExclusion

datatype rating_status = Unavailable unavailable_reason | Preview "preview_reason list" | Rated

record component_receipt =
  cr_kind :: component_kind
  cr_exact_numerator :: int
  cr_exact_denominator :: int
  cr_weight :: rational
  cr_evidence_ids :: "string list"

record rating_receipt =
  rr_identity :: calculation_identity
  rr_game_build :: string
  rr_inputs :: rating_metrics
  rr_irregularities :: match_irregularities
  rr_evidence :: rating_evidence
  rr_status :: rating_status
  rr_trend_exclusions :: "trend_exclusion list"
  rr_components :: "component_vector option"
  rr_component_receipts :: "component_receipt list option"
  rr_rating_exact :: "rational option"
  rr_rating_bp :: "rating_bp option"

definition trend_eligible :: "rating_receipt \<Rightarrow> bool" where
  "trend_eligible r \<longleftrightarrow> rr_status r = Rated \<and> rr_trend_exclusions r = []"

datatype rating_input_error = ClutchWinsExceedOpportunities | ExactError exact_error

section \<open>The calculation\<close>

definition component_receipts ::
  "component_vector \<Rightarrow> rating_evidence \<Rightarrow> (exact_error, component_receipt list) result" where
  "component_receipts components evidence =
     and_then (collect_results
       (\<lambda>(kind, n, d). and_then (rational_new n d) (\<lambda>w. Inr (kind, w)))
       [(DirectDamage, 3, 10), (FragBalance, 3, 10), (OpeningDuels, 3, 20), (TradeKills, 1, 10),
        (Utility, 1, 10), (ClutchConversion, 1, 20)])
     (\<lambda>definitions. Inr (map (\<lambda>(kind, weight).
        let exact = ui_exact (cv_get components kind)
        in \<lparr>cr_kind = kind, cr_exact_numerator = numerator exact,
            cr_exact_denominator = denominator exact, cr_weight = weight,
            cr_evidence_ids = component_evidence evidence kind\<rparr>) definitions))"

definition component_vector_of :: "rating_metrics \<Rightarrow> (exact_error, component_vector) result" where
  "component_vector_of m =
     (let rounds = int (m_eligible_rounds m) in
      and_then (rational_new (int (m_direct_damage m)) (160 * rounds)) (\<lambda>dd.
      let direct_damage = ui_clamped dd;
          frag_delta = int (m_kills m) - int (m_deaths m) in
      and_then (rational_new frag_delta (2 * rounds)) (\<lambda>fd.
      and_then (checked_add rat_half fd) (\<lambda>fb.
      let frag_balance = ui_clamped fb;
          opening_total = int (m_opening_wins m) + int (m_opening_losses m) in
      and_then
        (if opening_total = 0 then ui_new rat_half
         else and_then (rational_new (int (m_opening_wins m)) opening_total) ui_new)
        (\<lambda>opening_duels.
      and_then (rational_new (2 * int (m_trade_kills m)) rounds) (\<lambda>tk.
      let trade_kills = ui_clamped tk in
      and_then (rational_new (int (m_utility_damage m)) (30 * rounds)) (\<lambda>ud.
      let utility_damage = ui_clamped ud in
      and_then (rational_new (2 * int (m_flash_assists m)) rounds) (\<lambda>fa.
      let flash_assists = ui_clamped fa in
      and_then (rational_new 7 10) (\<lambda>w7.
      and_then (checked_mul (ui_exact utility_damage) w7) (\<lambda>u7.
      and_then (rational_new 3 10) (\<lambda>w3.
      and_then (checked_mul (ui_exact flash_assists) w3) (\<lambda>f3.
      and_then (checked_add u7 f3) (\<lambda>uf.
      and_then (ui_new uf) (\<lambda>utility.
      and_then
        (if m_clutch_opportunities m = 0 then ui_new rat_half
         else and_then (rational_new (int (m_clutch_wins m)) (int (m_clutch_opportunities m))) ui_new)
        (\<lambda>clutch_conversion.
      Inr \<lparr>cv_direct_damage = direct_damage, cv_frag_balance = frag_balance,
        cv_opening_duels = opening_duels, cv_trade_kills = trade_kills,
        cv_utility = utility, cv_clutch_conversion = clutch_conversion\<rparr>)))))))))))))))"

text \<open>One term of the sum: \<open>component.exact().checked_mul(Rational::new(n, d)?)?\<close>.\<close>

definition weighted_term :: "unit_interval \<Rightarrow> int \<Rightarrow> int \<Rightarrow> (exact_error, rational) result" where
  "weighted_term u n d = and_then (rational_new n d) (\<lambda>w. checked_mul (ui_exact u) w)"

definition add_term ::
  "(exact_error, rational) result \<Rightarrow> unit_interval \<Rightarrow> int \<Rightarrow> int \<Rightarrow> (exact_error, rational) result" where
  "add_term acc u n d = and_then acc (\<lambda>a. and_then (weighted_term u n d) (\<lambda>t. checked_add a t))"

definition weighted_rating :: "component_vector \<Rightarrow> (exact_error, rational) result" where
  "weighted_rating v =
     and_then
       (add_term (add_term (add_term (add_term (add_term
          (weighted_term (cv_direct_damage v) 3 10)
          (cv_frag_balance v) 3 10)
          (cv_opening_duels v) 3 20)
          (cv_trade_kills v) 1 10)
          (cv_utility v) 1 10)
          (cv_clutch_conversion v) 1 20)
       (\<lambda>weighted. checked_mul weighted (from_integer 2))"

definition unavailable_reason_of :: "rating_input \<Rightarrow> unavailable_reason option" where
  "unavailable_reason_of i =
     (case first_missing (in_evidence i) of
        Some kind \<Rightarrow> Some (MissingRequiredEvidence kind)
      | None \<Rightarrow>
          (case in_evidence_failure i of
             Some failure \<Rightarrow> Some (EvidenceUnavailableFor failure)
           | None \<Rightarrow>
               if ir_forfeit_without_canonical_winner (in_irregularities i)
               then Some ForfeitWithoutCanonicalWinner
               else if m_eligible_rounds (in_metrics i) < 8
               then Some (InsufficientEligibleRounds (m_eligible_rounds (in_metrics i)) 8)
               else None))"

definition preview_reasons :: "rating_input \<Rightarrow> preview_reason list" where
  "preview_reasons i =
     (if m_eligible_rounds (in_metrics i) < 12
      then [ShortSample (m_eligible_rounds (in_metrics i)) 12] else [])
     @ (if ir_missed_live_round (in_irregularities i) then [MissedLiveRound] else [])
     @ (if ir_surrender (in_irregularities i) then [Surrender] else [])"

definition to_basis_points :: "rational \<Rightarrow> (exact_error, rating_bp) result" where
  "to_basis_points rating_exact =
     and_then (checked_mul rating_exact (from_integer 10000)) (\<lambda>scaled.
     and_then (round_half_up_nonnegative scaled) (\<lambda>rounded.
     and_then (if 0 \<le> rounded \<and> rounded < 2 ^ 16 then Inr (word_of_int rounded)
               else Inl OutsideRatingRange) bp_new))"

definition calculate_rating :: "rating_input \<Rightarrow> (rating_input_error, rating_receipt) result" where
  "calculate_rating i =
     (if m_clutch_wins (in_metrics i) > m_clutch_opportunities (in_metrics i)
      then Inl ClutchWinsExceedOpportunities
      else case unavailable_reason_of i of
        Some reason \<Rightarrow> Inr \<lparr>rr_identity = in_identity i, rr_game_build = in_game_build i,
          rr_inputs = in_metrics i, rr_irregularities = in_irregularities i,
          rr_evidence = in_evidence i, rr_status = Unavailable reason,
          rr_trend_exclusions = [UnavailableExclusion], rr_components = None,
          rr_component_receipts = None, rr_rating_exact = None, rr_rating_bp = None\<rparr>
      | None \<Rightarrow>
          map_err ExactError
            (and_then (component_vector_of (in_metrics i)) (\<lambda>components.
             and_then (component_receipts components (in_evidence i)) (\<lambda>receipts.
             and_then (weighted_rating components) (\<lambda>rating_exact.
             and_then (to_basis_points rating_exact) (\<lambda>rating_bp.
             let status = (if preview_reasons i = [] then Rated else Preview (preview_reasons i));
                 exclusions =
                   (case status of Preview _ \<Rightarrow> [PreviewExclusion] | _ \<Rightarrow> [])
                   @ (if ir_roster_imbalanced (in_irregularities i)
                      then [RosterImbalancedExclusion] else [])
             in Inr \<lparr>rr_identity = in_identity i, rr_game_build = in_game_build i,
                rr_inputs = in_metrics i, rr_irregularities = in_irregularities i,
                rr_evidence = in_evidence i, rr_status = status,
                rr_trend_exclusions = exclusions, rr_components = Some components,
                rr_component_receipts = Some receipts, rr_rating_exact = Some rating_exact,
                rr_rating_bp = Some rating_bp\<rparr>))))))"

section \<open>Specification: the published formula\<close>

definition clamp01 :: "rat \<Rightarrow> rat" where
  "clamp01 x = min (max x 0) 1"

definition share :: "nat \<Rightarrow> nat \<Rightarrow> rat" where
  "share won played = (if played = 0 then 1 / 2 else of_nat won / of_nat played)"

definition component_value :: "rating_metrics \<Rightarrow> component_kind \<Rightarrow> rat" where
  "component_value m kind = (let r = of_nat (m_eligible_rounds m) in
     case kind of
       DirectDamage \<Rightarrow> clamp01 (of_nat (m_direct_damage m) / (160 * r))
     | FragBalance \<Rightarrow> clamp01 (1 / 2 + (of_nat (m_kills m) - of_nat (m_deaths m)) / (2 * r))
     | OpeningDuels \<Rightarrow> share (m_opening_wins m) (m_opening_wins m + m_opening_losses m)
     | TradeKills \<Rightarrow> clamp01 (2 * of_nat (m_trade_kills m) / r)
     | Utility \<Rightarrow> 7 / 10 * clamp01 (of_nat (m_utility_damage m) / (30 * r))
         + 3 / 10 * clamp01 (2 * of_nat (m_flash_assists m) / r)
     | ClutchConversion \<Rightarrow> share (m_clutch_wins m) (m_clutch_opportunities m))"

definition rating_value :: "rating_metrics \<Rightarrow> rat" where
  "rating_value m = 2 *
     (3 / 10 * component_value m DirectDamage + 3 / 10 * component_value m FragBalance
      + 3 / 20 * component_value m OpeningDuels + 1 / 10 * component_value m TradeKills
      + 1 / 10 * component_value m Utility + 1 / 20 * component_value m ClutchConversion)"

definition u32_metrics :: "rating_metrics \<Rightarrow> bool" where
  "u32_metrics m \<longleftrightarrow> m_eligible_rounds m \<le> u32_max \<and> m_direct_damage m \<le> u32_max
     \<and> m_kills m \<le> u32_max \<and> m_deaths m \<le> u32_max \<and> m_opening_wins m \<le> u32_max
     \<and> m_opening_losses m \<le> u32_max \<and> m_trade_kills m \<le> u32_max
     \<and> m_utility_damage m \<le> u32_max \<and> m_flash_assists m \<le> u32_max
     \<and> m_clutch_wins m \<le> u32_max \<and> m_clutch_opportunities m \<le> u32_max"

text \<open>
  A common denominator of every intermediate sum: the rounds, the opening duels and the clutch
  opportunities times the constants of the weights. Bounding their product by \<open>2^33\<close> (a match
  has a few dozen of each) keeps every reduced fraction in \<open>i64\<close>.
\<close>

definition rating_scale :: "rating_metrics \<Rightarrow> nat" where
  "rating_scale m = m_eligible_rounds m * max 1 (m_opening_wins m + m_opening_losses m)
     * max 1 (m_clutch_opportunities m)"

definition multiple_of :: "int \<Rightarrow> rat \<Rightarrow> bool" where
  "multiple_of d x \<longleftrightarrow> x * of_int d \<in> \<int>"

definition denotes :: "rational \<Rightarrow> rat \<Rightarrow> bool" where
  "denotes q x \<longleftrightarrow> valid_rational q \<and> rat_of q = x"

named_theorems rating_steps "each checked operation of the rating, on values that fit"

section \<open>Fractions over a common denominator\<close>

lemma multiple_of_add: "multiple_of d x \<Longrightarrow> multiple_of d y \<Longrightarrow> multiple_of d (x + y)"
  by (simp add: multiple_of_def distrib_right)

lemma multiple_of_quotient: "0 < e \<Longrightarrow> e dvd d \<Longrightarrow> multiple_of d (of_int n / of_int e)"
  by (auto simp: multiple_of_def elim!: dvdE)

lemma multiple_of_clamp01: "multiple_of d x \<Longrightarrow> multiple_of d (clamp01 x)"
  by (auto simp: multiple_of_def clamp01_def min_def max_def)

lemma multiple_of_scale:
  assumes "multiple_of d x" "0 < e"
  shows "multiple_of (d * e) (of_int n / of_int e * x)"
proof -
  have "of_int n / of_int e * x * of_int (d * e) = of_int n * (x * of_int d)"
    using assms(2) by simp
  with assms(1) show ?thesis by (simp only: multiple_of_def) (simp del: of_int_mult)
qed

lemma multiple_of_dvd:
  assumes "multiple_of d x" "d dvd e"
  shows "multiple_of e x"
proof -
  from assms(2) obtain k where "e = d * k" ..
  then have "x * of_int e = (x * of_int d) * of_int k" by simp
  with assms(1) show ?thesis by (simp only: multiple_of_def Ints_mult Ints_of_int)
qed

lemma encode_fits:
  assumes "multiple_of d x" "0 < d" "d \<le> i64_max" "\<bar>x\<bar> * of_int d \<le> of_int i64_max"
  shows "\<exists>q. encode x = Inr q \<and> denotes q x"
proof -
  from assms(1) obtain n where n: "x * of_int d = of_int n"
    by (auto simp: multiple_of_def elim: Ints_cases)
  then have x: "x = Fract n d"
    using assms(2) by (simp add: Fract_of_int_quotient field_simps)
  have "\<bar>x\<bar> * of_int d = \<bar>x * of_int d\<bar>" using assms(2) by (simp add: abs_mult)
  then have nb: "\<bar>n\<bar> \<le> i64_max" using n assms(4)
    by (metis of_int_abs of_int_le_iff)
  let ?g = "gcd n d"
  have g: "1 \<le> ?g" using assms(2) by (simp add: int_one_le_iff_zero_less)
  have shrink: "\<bar>k div g\<bar> \<le> \<bar>k\<bar>" if "1 \<le> g" "g dvd k" for g k :: int
  proof -
    from that(2) obtain j where j: "k = g * j" ..
    have "1 * \<bar>j\<bar> \<le> g * \<bar>j\<bar>" using that(1) by (intro mult_right_mono) auto
    with j that(1) show ?thesis by (simp add: abs_mult)
  qed
  have "i64_range (n div ?g)" "i64_range (d div ?g)"
    using shrink [OF g, of n] shrink [OF g, of d] nb assms(2,3)
    by (auto simp: i64_range_def i64_min_def i64_max_def)
  then have "\<exists>q. encode x = Inr q"
    by (simp add: x encode_def quotient_of_Fract_pos [OF assms(2)])
  then show ?thesis by (auto simp: encode_eq_Inr denotes_def)
qed

lemma encode_fits_unit:
  assumes "multiple_of d x" "0 < d" "d \<le> 2 ^ 62 - 1" "\<bar>x\<bar> \<le> 2"
  shows "\<exists>q. encode x = Inr q \<and> denotes q x"
proof (rule encode_fits [OF assms(1,2)])
  have "\<bar>x\<bar> * of_int d \<le> 2 * of_int d" using assms by (intro mult_right_mono) auto
  also have "\<dots> = of_int (2 * d)" by simp
  also have "\<dots> \<le> of_int i64_max"
    using assms(3) by (subst of_int_le_iff) (simp add: i64_max_def)
  finally show "\<bar>x\<bar> * of_int d \<le> of_int i64_max" .
qed (use assms(3) in \<open>simp add: i64_max_def\<close>)

lemma new_denotes:
  assumes "\<bar>n\<bar> \<le> i64_max" "0 < d" "d \<le> i64_max"
  shows "\<exists>q. rational_new n d = Inr q \<and> denotes q (of_int n / of_int d)"
proof -
  have "multiple_of d (of_int n / of_int d)"
    by (rule multiple_of_quotient) (use assms in auto)
  moreover have "\<bar>of_int n / of_int d\<bar> * of_int d = (of_int \<bar>n\<bar> :: rat)"
    using assms(2) by (simp add: abs_divide)
  moreover from assms(1) have "(of_int \<bar>n\<bar> :: rat) \<le> of_int i64_max"
    by (simp only: of_int_le_iff)
  ultimately obtain q :: rational where "encode (of_int n / of_int d) = Inr q"
      "denotes q (of_int n / of_int d)"
    using encode_fits [of d "of_int n / of_int d"] assms by auto
  moreover have "rational_new n d = encode (Fract n d)"
    unfolding rational_new_def
    by (rule rat_normalize_encode) (use assms in \<open>auto simp: i64_max_def i128_max_def\<close>)
  ultimately show ?thesis by (auto simp: Fract_of_int_quotient)
qed

lemma add_denotes:
  assumes "denotes a x" "denotes b y" "multiple_of d x" "multiple_of d y"
    "0 < d" "d \<le> 2 ^ 62 - 1" "\<bar>x + y\<bar> \<le> 2"
  shows "\<exists>q. checked_add a b = Inr q \<and> denotes q (x + y) \<and> multiple_of d (x + y)"
  using encode_fits_unit [of d "x + y"] assms multiple_of_add [of d x y]
  by (auto simp: denotes_def checked_add_encode)

lemma mul_denotes:
  assumes "denotes a x" "denotes b y" "multiple_of d (x * y)"
    "0 < d" "d \<le> 2 ^ 62 - 1" "\<bar>x * y\<bar> \<le> 2"
  shows "\<exists>q. checked_mul a b = Inr q \<and> denotes q (x * y)"
  using encode_fits_unit [of d "x * y"] assms
  by (auto simp: denotes_def checked_mul_encode)

lemma clamp_denotes:
  "denotes q x \<Longrightarrow> denotes (ui_exact (ui_clamped q)) (clamp01 x)"
  using ui_clamped_valid [of q] by (auto simp: denotes_def valid_ui_def clamp01_def)

lemma unit_denotes:
  "denotes q x \<Longrightarrow> 0 \<le> x \<Longrightarrow> x \<le> 1 \<Longrightarrow> \<exists>u. ui_new q = Inr u \<and> ui_exact u = q"
  by (auto simp: denotes_def ui_new_eq)

lemma clamp01_bounds [simp]: "0 \<le> clamp01 x" "clamp01 x \<le> 1"
  by (simp_all add: clamp01_def)

lemma share_bounds: "won \<le> played \<Longrightarrow> 0 \<le> share won played \<and> share won played \<le> 1"
  by (auto simp: share_def divide_le_eq_1)

section \<open>Every step of the calculation fits\<close>

definition rateable :: "rating_metrics \<Rightarrow> bool" where
  "rateable m \<longleftrightarrow> u32_metrics m \<and> 8 \<le> m_eligible_rounds m
     \<and> m_clutch_wins m \<le> m_clutch_opportunities m \<and> rating_scale m \<le> 2 ^ 33"

abbreviation component_scale :: "rating_metrics \<Rightarrow> int" where
  "component_scale m \<equiv> 2400 * int (rating_scale m)"

lemma rating_scale_ge:
  assumes "rateable m"
  shows "m_eligible_rounds m \<le> rating_scale m"
    "m_opening_wins m + m_opening_losses m \<le> rating_scale m"
    "m_clutch_opportunities m \<le> rating_scale m" "1 \<le> rating_scale m"
proof -
  let ?r = "m_eligible_rounds m" and ?o = "max 1 (m_opening_wins m + m_opening_losses m)"
    and ?c = "max 1 (m_clutch_opportunities m)"
  have r: "1 \<le> ?r" using assms by (simp add: rateable_def)
  have oc: "1 \<le> ?o" "1 \<le> ?c" by simp_all
  have "?r * 1 * 1 \<le> rating_scale m" "1 * ?o * 1 \<le> rating_scale m" "1 * 1 * ?c \<le> rating_scale m"
    unfolding rating_scale_def using r oc by (intro mult_le_mono; simp)+
  moreover have "n \<le> max 1 n" for n :: nat by simp
  ultimately show "m_eligible_rounds m \<le> rating_scale m"
    "m_opening_wins m + m_opening_losses m \<le> rating_scale m"
    "m_clutch_opportunities m \<le> rating_scale m" "1 \<le> rating_scale m"
    using r by (auto intro: order_trans simp del: max.cobounded2)
qed

lemma rating_scale_dvd:
  "int (m_eligible_rounds m) dvd int (rating_scale m)"
  "int (max 1 (m_opening_wins m + m_opening_losses m)) dvd int (rating_scale m)"
  "int (max 1 (m_clutch_opportunities m)) dvd int (rating_scale m)"
  unfolding int_dvd_int_iff by (auto simp: rating_scale_def)

lemma share_multiple_of:
  assumes "int (max 1 played) dvd s"
  shows "multiple_of (2400 * s) (share won played)"
proof (cases "played = 0")
  case True
  have "multiple_of (2400 * s) (of_int 1 / of_int 2)"
    by (rule multiple_of_quotient) auto
  with True show ?thesis by (simp add: share_def)
next
  case False
  then have "int played dvd 2400 * s" using assms by (simp add: max_def split: if_splits)
  with False have "multiple_of (2400 * s) (of_int (int won) / of_int (int played))"
    by (intro multiple_of_quotient) auto
  with False show ?thesis by (simp add: share_def)
qed

lemma per_round_multiple_of:
  assumes "0 < r" "int r dvd s" "k dvd 2400" "0 < k"
  shows "multiple_of (2400 * s) (of_int n / (of_int k * of_nat r))"
proof -
  have "k * int r dvd 2400 * s" using assms by (intro mult_dvd_mono)
  then have "multiple_of (2400 * s) (of_int n / of_int (k * int r))"
    using assms by (intro multiple_of_quotient) auto
  then show ?thesis by simp
qed

lemma component_multiple_of:
  assumes "rateable m"
  shows "multiple_of (component_scale m) (component_value m kind)"
proof -
  let ?r = "m_eligible_rounds m" and ?s = "int (rating_scale m)"
  have r: "0 < ?r" using assms by (simp add: rateable_def)
  note quot = per_round_multiple_of [OF r rating_scale_dvd(1)]
  show ?thesis
  proof (cases kind)
    case DirectDamage
    then show ?thesis
      using quot [of 160 "int (m_direct_damage m)"]
      by (simp add: component_value_def multiple_of_clamp01)
  next
    case FragBalance
    have "multiple_of (2400 * ?s) (of_int 1 / of_int 2)" by (rule multiple_of_quotient) auto
    from multiple_of_add [OF this quot [of 2 "int (m_kills m) - int (m_deaths m)"]]
    show ?thesis using FragBalance by (simp add: component_value_def multiple_of_clamp01)
  next
    case OpeningDuels
    then show ?thesis
      by (simp add: component_value_def share_multiple_of [OF rating_scale_dvd(2)])
  next
    case TradeKills
    then show ?thesis
      using quot [of 1 "2 * int (m_trade_kills m)"]
      by (simp add: component_value_def multiple_of_clamp01)
  next
    case Utility
    have dvd: "(30 * int ?r) * 10 dvd 2400 * ?s" "int ?r * 10 dvd 2400 * ?s"
      using rating_scale_dvd(1) [of m] by (auto elim!: dvdE)
    have "multiple_of (30 * int ?r) (of_int (int (m_utility_damage m)) / of_int (30 * int ?r))"
      "multiple_of (int ?r) (of_int (2 * int (m_flash_assists m)) / of_int (int ?r))"
      using r by (intro multiple_of_quotient; simp)+
    then have "multiple_of (2400 * ?s) (of_int 7 / of_int 10 *
        clamp01 (of_int (int (m_utility_damage m)) / of_int (30 * int ?r)))"
      "multiple_of (2400 * ?s) (of_int 3 / of_int 10 *
        clamp01 (of_int (2 * int (m_flash_assists m)) / of_int (int ?r)))"
      using dvd by (intro multiple_of_dvd [OF multiple_of_scale, rotated 2] multiple_of_clamp01;
        simp)+
    from multiple_of_add [OF this] show ?thesis using Utility
      by (simp add: component_value_def Let_def)
  next
    case ClutchConversion
    then show ?thesis
      by (simp add: component_value_def share_multiple_of [OF rating_scale_dvd(3)])
  qed
qed

lemma component_bounds:
  assumes "rateable m"
  shows "0 \<le> component_value m kind \<and> component_value m kind \<le> 1"
proof (cases kind)
  case Utility
  have "7 / 10 * clamp01 x + 3 / 10 * clamp01 y \<le> 1" "0 \<le> 7 / 10 * clamp01 x + 3 / 10 * clamp01 y"
    for x y using clamp01_bounds [of x] clamp01_bounds [of y] by linarith+
  with Utility show ?thesis by (simp add: component_value_def Let_def)
qed (use assms in \<open>simp_all add: component_value_def share_bounds rateable_def\<close>)

lemma denotes_constants [simp]:
  "denotes rat_half (1 / 2)" "denotes rat_one 1" "denotes rat_zero 0"
  "denotes (from_integer v) (of_int v) \<longleftrightarrow> i64_range v"
  by (simp_all add: denotes_def)

lemma rational_new_ok:
  assumes "\<bar>n\<bar> \<le> i64_max" "0 < d" "d \<le> i64_max" "x = of_int n / of_int d"
  obtains q where "rational_new n d = Inr q" "denotes q x"
  using new_denotes [OF assms(1-3)] assms(4) by blast

lemma share_ok:
  assumes "won \<le> played" "played \<le> 2 ^ 33"
  obtains u where
    "(if int played = 0 then ui_new rat_half
      else and_then (rational_new (int won) (int played)) ui_new) = Inr u"
    "denotes (ui_exact u) (share won played)"
proof (cases "played = 0")
  case True
  then obtain u where "ui_new rat_half = Inr u" "ui_exact u = rat_half"
    using unit_denotes [of rat_half "1 / 2"] by auto
  with True show thesis by (intro that [of u]) (simp_all add: share_def)
next
  case False
  then obtain q where q: "rational_new (int won) (int played) = Inr q" "denotes q (share won played)"
    by (rule_tac rational_new_ok [of "int won" "int played" "share won played"])
      (use assms in \<open>auto simp: i64_max_def share_def\<close>)
  then obtain u where "ui_new q = Inr u" "ui_exact u = q"
    using unit_denotes [OF q(2)] share_bounds [OF assms(1)] by auto
  with False q show thesis by (intro that [of u]) simp_all
qed

lemma weighted_term_ok:
  assumes "denotes (ui_exact u) x" "multiple_of e x" "0 \<le> x" "x \<le> 1"
    and "0 < n" "n \<le> k" "k \<le> 20" "e * k dvd d" "0 < d" "d \<le> 2 ^ 62 - 1"
  obtains q where "weighted_term u n k = Inr q" "denotes q (of_int n / of_int k * x)"
    "multiple_of d (of_int n / of_int k * x)"
proof -
  have m: "multiple_of d (of_int n / of_int k * x)"
    by (rule multiple_of_dvd [OF multiple_of_scale [OF assms(2)]]) (use assms in auto)
  obtain w where w: "rational_new n k = Inr w" "denotes w (of_int n / of_int k)"
    by (rule rational_new_ok [of n k "of_int n / of_int k"])
      (use assms in \<open>auto simp: i64_max_def\<close>)
  have nk: "0 \<le> (of_int n / of_int k :: rat)" "of_int n / of_int k \<le> (1 :: rat)"
    using assms by (auto simp: divide_le_eq_1)
  then have "0 \<le> of_int n / of_int k * x" "of_int n / of_int k * x \<le> 1"
    using assms(3,4) by (simp_all only: mult_nonneg_nonneg mult_le_one)
  then have "\<bar>x * (of_int n / of_int k)\<bar> \<le> 2" by (simp add: mult.commute)
  moreover have "multiple_of d (x * (of_int n / of_int k))" using m by (simp only: mult.commute)
  ultimately obtain q where "checked_mul (ui_exact u) w = Inr q" "denotes q (of_int n / of_int k * x)"
    using mul_denotes [OF assms(1) w(2), of d] assms(9,10)
    by (metis mult.commute)
  with w m show thesis by (intro that [of q]) (simp_all add: weighted_term_def)
qed

lemma denotes_encode: "denotes q x \<longleftrightarrow> encode x = Inr q"
  by (auto simp: denotes_def encode_eq_Inr)

lemma rational_new_per_round:
  assumes "\<bar>n\<bar> \<le> 2 ^ 34" "0 < k" "k \<le> 160" "0 < r" "r \<le> u32_max"
  shows "\<exists>q. rational_new n (k * int r) = Inr q \<and> denotes q (of_int n / (of_int k * of_nat r))"
proof -
  have "k * int r \<le> 160 * 2 ^ 32" using assms by (intro mult_mono) (auto simp: u32_max_def)
  moreover have "0 < k * int r" using assms by simp
  ultimately show ?thesis
    using new_denotes [of n "k * int r"] assms(1) by (simp add: i64_max_def)
qed

lemma frag_balance_ok:
  assumes "denotes fd ((of_nat a - of_nat b) / (2 * of_nat r))"
    and "a \<le> u32_max" "b \<le> u32_max" "0 < r" "r \<le> u32_max"
  shows "\<exists>q. checked_add rat_half fd = Inr q
    \<and> denotes q (1 / 2 + (of_nat a - of_nat b) / (2 * of_nat r))"
proof -
  have "checked_add rat_half fd = encode (1 / 2 + (of_nat a - of_nat b) / (2 * of_nat r))"
    using assms(1) by (simp add: denotes_def checked_add_encode)
  moreover have "1 / 2 + (of_nat a - of_nat b) / (2 * of_nat r)
      = of_int (int r + int a - int b) / (of_int 2 * of_nat r :: rat)"
    using assms(4) by (simp add: field_simps)
  moreover have "\<exists>q. denotes q (of_int (int r + int a - int b) / (of_int 2 * of_nat r))"
    by (rule exE [OF rational_new_per_round [of "int r + int a - int b" 2 r]])
      (use assms in \<open>auto simp: u32_max_def abs_if simp del: of_int_add of_int_diff\<close>)
  ultimately show ?thesis by (auto simp: denotes_encode)
qed

lemma utility_ok:
  assumes "denotes (ui_exact u) x" "denotes (ui_exact f) y"
    and "multiple_of (30 * int r) x" "multiple_of (int r) y"
    and "0 \<le> x" "x \<le> 1" "0 \<le> y" "y \<le> 1" "0 < r" "r \<le> u32_max"
  obtains w7 u7 w3 f3 uf ui where
    "rational_new 7 10 = Inr w7" "checked_mul (ui_exact u) w7 = Inr u7"
    "rational_new 3 10 = Inr w3" "checked_mul (ui_exact f) w3 = Inr f3"
    "checked_add u7 f3 = Inr uf" "ui_new uf = Inr ui" "denotes (ui_exact ui) (7 / 10 * x + 3 / 10 * y)"
proof -
  have r: "0 < 300 * int r" "300 * int r \<le> 2 ^ 62 - 1" using assms by (auto simp: u32_max_def)
  obtain u7 where u7: "weighted_term u 7 10 = Inr u7" "denotes u7 (of_int 7 / of_int 10 * x)"
      "multiple_of (300 * int r) (of_int 7 / of_int 10 * x)"
    by (rule weighted_term_ok [OF assms(1,3,5,6), of 7 10 "300 * int r"]) (use r in auto)
  obtain f3 where f3: "weighted_term f 3 10 = Inr f3" "denotes f3 (of_int 3 / of_int 10 * y)"
      "multiple_of (300 * int r) (of_int 3 / of_int 10 * y)"
    by (rule weighted_term_ok [OF assms(2,4,7,8), of 3 10 "300 * int r"]) (use r in auto)
  have b: "0 \<le> 7 / 10 * x + 3 / 10 * y" "7 / 10 * x + 3 / 10 * y \<le> 1"
    using assms(5-8) by linarith+
  then have "\<bar>of_int 7 / of_int 10 * x + of_int 3 / of_int 10 * y\<bar> \<le> 2" by simp
  then obtain uf where uf: "checked_add u7 f3 = Inr uf" "denotes uf (7 / 10 * x + 3 / 10 * y)"
    using add_denotes [OF u7(2) f3(2) u7(3) f3(3) r] by auto
  obtain ui where ui: "ui_new uf = Inr ui" "ui_exact ui = uf"
    using unit_denotes [OF uf(2) b] by blast
  from u7(1) f3(1) obtain w7 w3 where "rational_new 7 10 = Inr w7" "rational_new 3 10 = Inr w3"
      "checked_mul (ui_exact u) w7 = Inr u7" "checked_mul (ui_exact f) w3 = Inr f3"
    by (auto simp: weighted_term_def and_then_eq_Inr)
  moreover have "denotes (ui_exact ui) (7 / 10 * x + 3 / 10 * y)" using uf(2) by (simp only: ui(2))
  ultimately show thesis using uf(1) ui(1) by (intro that)
qed

lemma component_vector_of_ok:
  assumes "rateable m"
  obtains v where "component_vector_of m = Inr v"
    "\<And>kind. denotes (ui_exact (cv_get v kind)) (component_value m kind)"
proof -
  let ?r = "m_eligible_rounds m"
  have r: "0 < ?r" "?r \<le> u32_max" and c: "m_clutch_wins m \<le> m_clutch_opportunities m"
    using assms by (auto simp: rateable_def u32_metrics_def)
  have b: "m_direct_damage m \<le> u32_max" "m_kills m \<le> u32_max" "m_deaths m \<le> u32_max"
    "m_trade_kills m \<le> u32_max" "m_utility_damage m \<le> u32_max" "m_flash_assists m \<le> u32_max"
    using assms by (auto simp: rateable_def u32_metrics_def)
  have small: "m_opening_wins m + m_opening_losses m \<le> 2 ^ 33" "m_clutch_opportunities m \<le> 2 ^ 33"
    using assms rating_scale_ge [OF assms] by (auto simp: rateable_def)
  note counts = rational_new_per_round [OF _ _ _ r]
  have kd: "\<bar>int (m_kills m) - int (m_deaths m)\<bar> \<le> 2 ^ 34"
    using b(2,3) by (simp add: u32_max_def abs_le_iff)
  obtain dd where dd: "rational_new (int (m_direct_damage m)) (160 * int ?r) = Inr dd"
      "denotes dd (of_nat (m_direct_damage m) / (160 * of_nat ?r))"
    using counts [of "int (m_direct_damage m)" 160] b by (auto simp: u32_max_def)
  obtain fd where fd: "rational_new (int (m_kills m) - int (m_deaths m)) (2 * int ?r) = Inr fd"
      "denotes fd ((of_nat (m_kills m) - of_nat (m_deaths m)) / (2 * of_nat ?r))"
    using counts [OF kd, of 2] by auto
  obtain fb where fb: "checked_add rat_half fd = Inr fb"
      "denotes fb (1 / 2 + (of_nat (m_kills m) - of_nat (m_deaths m)) / (2 * of_nat ?r))"
    using frag_balance_ok [OF fd(2) b(2,3) r] by blast
  obtain tk where tk: "rational_new (2 * int (m_trade_kills m)) (int ?r) = Inr tk"
      "denotes tk (2 * of_nat (m_trade_kills m) / of_nat ?r)"
    using counts [of "2 * int (m_trade_kills m)" 1] b by (auto simp: u32_max_def)
  obtain ud where ud: "rational_new (int (m_utility_damage m)) (30 * int ?r) = Inr ud"
      "denotes ud (of_nat (m_utility_damage m) / (30 * of_nat ?r))"
    using counts [of "int (m_utility_damage m)" 30] b by (auto simp: u32_max_def)
  obtain fa where fa: "rational_new (2 * int (m_flash_assists m)) (int ?r) = Inr fa"
      "denotes fa (2 * of_nat (m_flash_assists m) / of_nat ?r)"
    using counts [of "2 * int (m_flash_assists m)" 1] b by (auto simp: u32_max_def)
  obtain od where od: "(if int (m_opening_wins m) + int (m_opening_losses m) = 0 then ui_new rat_half
      else and_then (rational_new (int (m_opening_wins m))
        (int (m_opening_wins m) + int (m_opening_losses m))) ui_new) = Inr od"
      "denotes (ui_exact od) (share (m_opening_wins m) (m_opening_wins m + m_opening_losses m))"
    by (rule share_ok [OF le_add1 small(1)]) (simp only: of_nat_add)
  obtain cc where cc: "(if m_clutch_opportunities m = 0 then ui_new rat_half
      else and_then (rational_new (int (m_clutch_wins m)) (int (m_clutch_opportunities m))) ui_new)
        = Inr cc"
      "denotes (ui_exact cc) (share (m_clutch_wins m) (m_clutch_opportunities m))"
    by (rule share_ok [OF c small(2)]) (simp only: of_nat_eq_0_iff)
  let ?x = "clamp01 (of_nat (m_utility_damage m) / (30 * of_nat ?r))"
    and ?y = "clamp01 (2 * of_nat (m_flash_assists m) / of_nat ?r)"
  have "multiple_of (30 * int ?r) (of_int (int (m_utility_damage m)) / of_int (30 * int ?r))"
    "multiple_of (int ?r) (of_int (2 * int (m_flash_assists m)) / of_int (int ?r))"
    using r by (intro multiple_of_quotient; simp)+
  then have mult: "multiple_of (30 * int ?r) ?x" "multiple_of (int ?r) ?y"
    by (simp_all add: multiple_of_clamp01)
  obtain w7 u7 w3 f3 uf ui where u: "rational_new 7 10 = Inr w7"
      "checked_mul (ui_exact (ui_clamped ud)) w7 = Inr u7" "rational_new 3 10 = Inr w3"
      "checked_mul (ui_exact (ui_clamped fa)) w3 = Inr f3" "checked_add u7 f3 = Inr uf"
      "ui_new uf = Inr ui" "denotes (ui_exact ui) (7 / 10 * ?x + 3 / 10 * ?y)"
    by (rule utility_ok [OF clamp_denotes [OF ud(2)] clamp_denotes [OF fa(2)] mult _ _ _ _ r])
      simp_all
  let ?v = "\<lparr>cv_direct_damage = ui_clamped dd, cv_frag_balance = ui_clamped fb,
    cv_opening_duels = od, cv_trade_kills = ui_clamped tk, cv_utility = ui,
    cv_clutch_conversion = cc\<rparr>"
  have "component_vector_of m = Inr ?v"
    by (simp only: component_vector_of_def Let_def dd(1) fd(1) fb(1) od(1) tk(1) ud(1) fa(1)
      u(1-6) cc(1) and_then.simps)
  moreover have "denotes (ui_exact (cv_get ?v kind)) (component_value m kind)" for kind
    using clamp_denotes [OF dd(2)] clamp_denotes [OF fb(2)] clamp_denotes [OF tk(2)] od(2) cc(2) u(7)
    by (cases kind) (simp_all add: component_value_def Let_def)
  ultimately show thesis by (rule that)
qed

text \<open>The scale is small enough for the sum, and for its ten-thousandfold.\<close>

lemma add_term_ok:
  assumes "acc = Inr a" "denotes a x" "multiple_of d x" "0 \<le> x" "x \<le> 1"
    and "denotes (ui_exact u) y" "multiple_of e y" "0 \<le> y" "y \<le> 1"
    and "0 < n" "n \<le> k" "k \<le> 20" "e * k dvd d" "0 < d" "d \<le> 2 ^ 62 - 1"
  obtains q where "add_term acc u n k = Inr q" "denotes q (x + of_int n / of_int k * y)"
    "multiple_of d (x + of_int n / of_int k * y)"
proof -
  obtain t where t: "weighted_term u n k = Inr t" "denotes t (of_int n / of_int k * y)"
      "multiple_of d (of_int n / of_int k * y)"
    by (rule weighted_term_ok [OF assms(6-15)])
  have "0 \<le> (of_int n / of_int k :: rat)" "of_int n / of_int k \<le> (1 :: rat)"
    using assms by (auto simp: divide_le_eq_1)
  then have "0 \<le> of_int n / of_int k * y" "of_int n / of_int k * y \<le> 1"
    using assms(8,9) by (simp_all only: mult_nonneg_nonneg mult_le_one)
  then have "\<bar>x + of_int n / of_int k * y\<bar> \<le> 2" using assms(4,5) by linarith
  from add_denotes [OF assms(2) t(2) assms(3) t(3) assms(14,15) this]
  obtain q where "checked_add a t = Inr q" "denotes q (x + of_int n / of_int k * y)"
    "multiple_of d (x + of_int n / of_int k * y)" by blast
  with t(1) assms(1) show thesis by (intro that) (simp_all add: add_term_def)
qed

lemma rating_value_bounds:
  assumes "rateable m"
  shows "0 \<le> rating_value m" "rating_value m \<le> 2"
  using component_bounds [OF assms, of DirectDamage] component_bounds [OF assms, of FragBalance]
    component_bounds [OF assms, of OpeningDuels] component_bounds [OF assms, of TradeKills]
    component_bounds [OF assms, of Utility] component_bounds [OF assms, of ClutchConversion]
  by (auto simp: rating_value_def)

lemma weighted_rating_ok:
  assumes m: "rateable m" and v: "\<And>kind. denotes (ui_exact (cv_get v kind)) (component_value m kind)"
  obtains q where "weighted_rating v = Inr q" "denotes q (rating_value m)"
    "multiple_of (48000 * int (rating_scale m)) (rating_value m)"
proof -
  let ?d = "48000 * int (rating_scale m)" and ?c = "component_value m"
  have d: "0 < ?d" "?d \<le> 2 ^ 62 - 1"
    using rating_scale_ge(4) [OF m] m by (auto simp: rateable_def)
  have dvd: "component_scale m * 10 dvd ?d" "component_scale m * 20 dvd ?d" by auto
  note mult = component_multiple_of [OF m] and b = component_bounds [OF m, THEN conjunct1]
    component_bounds [OF m, THEN conjunct2]
  note bounds = b(1) [of DirectDamage] b(2) [of DirectDamage] b(1) [of FragBalance]
    b(2) [of FragBalance] b(1) [of OpeningDuels] b(2) [of OpeningDuels] b(1) [of TradeKills]
    b(2) [of TradeKills] b(1) [of Utility] b(2) [of Utility]
  obtain q1 where q1: "weighted_term (cv_direct_damage v) 3 10 = Inr q1"
      "denotes q1 (of_int 3 / of_int 10 * ?c DirectDamage)"
      "multiple_of ?d (of_int 3 / of_int 10 * ?c DirectDamage)"
    by (rule weighted_term_ok [OF v [of DirectDamage, simplified] mult b, of 3 10 ?d])
      (use d dvd in simp_all)
  let ?x1 = "of_int 3 / of_int 10 * ?c DirectDamage"
  obtain q2 where q2: "add_term (Inr q1) (cv_frag_balance v) 3 10 = Inr q2"
      "denotes q2 (?x1 + of_int 3 / of_int 10 * ?c FragBalance)"
      "multiple_of ?d (?x1 + of_int 3 / of_int 10 * ?c FragBalance)"
    by (rule add_term_ok [OF refl q1(2,3) _ _ v [of FragBalance, simplified] mult b, of 3 10])
      (use d dvd bounds in simp_all)
  let ?x2 = "?x1 + of_int 3 / of_int 10 * ?c FragBalance"
  obtain q3 where q3: "add_term (Inr q2) (cv_opening_duels v) 3 20 = Inr q3"
      "denotes q3 (?x2 + of_int 3 / of_int 20 * ?c OpeningDuels)"
      "multiple_of ?d (?x2 + of_int 3 / of_int 20 * ?c OpeningDuels)"
    by (rule add_term_ok [OF refl q2(2,3) _ _ v [of OpeningDuels, simplified] mult b, of 3 20])
      (use d dvd bounds in simp_all)
  let ?x3 = "?x2 + of_int 3 / of_int 20 * ?c OpeningDuels"
  obtain q4 where q4: "add_term (Inr q3) (cv_trade_kills v) 1 10 = Inr q4"
      "denotes q4 (?x3 + of_int 1 / of_int 10 * ?c TradeKills)"
      "multiple_of ?d (?x3 + of_int 1 / of_int 10 * ?c TradeKills)"
    by (rule add_term_ok [OF refl q3(2,3) _ _ v [of TradeKills, simplified] mult b, of 1 10])
      (use d dvd bounds in simp_all)
  let ?x4 = "?x3 + of_int 1 / of_int 10 * ?c TradeKills"
  obtain q5 where q5: "add_term (Inr q4) (cv_utility v) 1 10 = Inr q5"
      "denotes q5 (?x4 + of_int 1 / of_int 10 * ?c Utility)"
      "multiple_of ?d (?x4 + of_int 1 / of_int 10 * ?c Utility)"
    by (rule add_term_ok [OF refl q4(2,3) _ _ v [of Utility, simplified] mult b, of 1 10])
      (use d dvd bounds in simp_all)
  let ?x5 = "?x4 + of_int 1 / of_int 10 * ?c Utility"
  obtain q6 where q6: "add_term (Inr q5) (cv_clutch_conversion v) 1 20 = Inr q6"
      "denotes q6 (?x5 + of_int 1 / of_int 20 * ?c ClutchConversion)"
      "multiple_of ?d (?x5 + of_int 1 / of_int 20 * ?c ClutchConversion)"
    by (rule add_term_ok [OF refl q5(2,3) _ _ v [of ClutchConversion, simplified] mult b, of 1 20])
      (use d dvd bounds in simp_all)
  let ?x6 = "?x5 + of_int 1 / of_int 20 * ?c ClutchConversion"
  have val: "?x6 * of_int 2 = rating_value m" by (simp add: rating_value_def)
  have mv: "multiple_of ?d (rating_value m)"
    using multiple_of_add [OF q6(3) q6(3)] by (simp only: val [symmetric] mult_2_right of_int_numeral)
  have "\<bar>?x6 * of_int 2\<bar> \<le> 2" using rating_value_bounds [OF m] by (simp only: val)
  then obtain q where "checked_mul q6 (from_integer 2) = Inr q" "denotes q (?x6 * of_int 2)"
    using mul_denotes [OF q6(2) _ _ d, of "from_integer 2" "of_int 2"] mv
    by (simp only: val denotes_constants) (auto simp: i64_range_def i64_min_def i64_max_def)
  with mv show thesis
    by (intro that [of q]) (simp_all only: weighted_rating_def q1 q2 q3 q4 q5 q6 val and_then.simps)
qed

lemma to_basis_points_ok:
  assumes m: "rateable m" and q: "denotes q (rating_value m)"
    and mult: "multiple_of (48000 * int (rating_scale m)) (rating_value m)"
  obtains b where "to_basis_points q = Inr b" "valid_bp b"
    "uint (bp_get b) = \<lfloor>10000 * rating_value m + 1 / 2\<rfloor>"
proof -
  let ?d = "48000 * int (rating_scale m)" and ?x = "rating_value m * 10000"
  have d: "0 < ?d" "?d \<le> 48000 * 2 ^ 33"
    using rating_scale_ge(4) [OF m] m by (auto simp: rateable_def)
  note b = rating_value_bounds [OF m]
  have "\<bar>?x\<bar> \<le> 20000" using b by simp
  moreover have "(of_int ?d :: rat) \<le> of_int (48000 * 2 ^ 33)" "(0 :: rat) \<le> of_int ?d"
    using d by (simp_all only: of_int_le_iff of_int_0_le_iff)
  ultimately have "\<bar>?x\<bar> * of_int ?d \<le> 20000 * of_int (48000 * 2 ^ 33)"
    by (intro mult_mono) auto
  also have "\<dots> \<le> of_int i64_max" by (simp add: i64_max_def)
  finally have fit: "\<bar>?x\<bar> * of_int ?d \<le> of_int i64_max" .
  have "?x * of_int ?d = 10000 * (rating_value m * of_int ?d)" by simp
  then have "multiple_of ?d ?x"
    using mult unfolding multiple_of_def by (simp only: Ints_mult Ints_numeral)
  moreover have "?d \<le> i64_max" using d by (simp add: i64_max_def)
  ultimately obtain s where s: "encode ?x = Inr s" "denotes s ?x"
    using encode_fits [of ?d ?x] d fit by blast
  have "checked_mul q (from_integer 10000) = Inr s"
    using checked_mul_encode [of q "from_integer 10000"] q s(1)
    by (auto simp: denotes_def i64_range_def i64_min_def i64_max_def)
  moreover have x: "0 \<le> \<lfloor>?x + 1 / 2\<rfloor>" "\<lfloor>?x + 1 / 2\<rfloor> \<le> 20000"
    using b by (simp, linarith)
  moreover have "round_half_up_nonnegative s = Inr \<lfloor>?x + 1 / 2\<rfloor>"
  proof -
    have "i64_range k" if "0 \<le> k" "k \<le> 20000" for k
      using that by (simp add: i64_range_def i64_min_def i64_max_def)
    then show ?thesis
      using round_half_up_floor [of s] s(2) b x by (auto simp: denotes_def i64_try_from_def)
  qed
  moreover obtain w :: "16 word" where w: "w = word_of_int \<lfloor>?x + 1 / 2\<rfloor>"
      "uint w = \<lfloor>?x + 1 / 2\<rfloor>"
    using x by (simp add: uint_word_of_int_eq take_bit_int_eq_self)
  moreover have "valid_bp (RatingBasisPoints w)"
    using w x by (simp add: valid_bp_def rating_bp_max_def word_le_def)
  ultimately show thesis
    by (intro that [of "RatingBasisPoints w"])
      (simp_all add: to_basis_points_def bp_new_eq_Inr ac_simps)
qed

definition published_weights :: "(component_kind \<times> int \<times> int) list" where
  "published_weights = [(DirectDamage, 3, 10), (FragBalance, 3, 10), (OpeningDuels, 3, 20),
     (TradeKills, 1, 10), (Utility, 1, 10), (ClutchConversion, 1, 20)]"

lemma component_receipts_ok:
  obtains rs where "component_receipts v e = Inr rs"
    "map (\<lambda>r. (cr_kind r, rat_of (cr_weight r))) rs
      = map (\<lambda>(kind, n, d). (kind, of_int n / of_int d)) published_weights"
    "\<forall>r\<in>set rs. \<lparr>numerator = cr_exact_numerator r, denominator = cr_exact_denominator r\<rparr>
        = ui_exact (cv_get v (cr_kind r)) \<and> cr_evidence_ids r = component_evidence e (cr_kind r)"
proof -
  have new: "\<exists>w. rational_new n d = Inr w \<and> denotes w (of_int n / of_int d)"
    if "0 < n" "n < 10" "0 < d" "d < 100" for n d
    using that new_denotes [of n d] by (simp add: i64_max_def)
  obtain a b c d where w:
      "rational_new 3 10 = Inr a" "denotes a (3 / 10)" "rational_new 3 20 = Inr b" "denotes b (3 / 20)"
      "rational_new 1 10 = Inr c" "denotes c (1 / 10)" "rational_new 1 20 = Inr d" "denotes d (1 / 20)"
    using new [of 3 10] new [of 3 20] new [of 1 10] new [of 1 20] by auto
  show thesis
    by (rule that [unfolded component_receipts_def, simplified w collect_results.simps
      and_then.simps prod.case list.map, OF refl])
      (use w in \<open>auto simp: published_weights_def denotes_def Let_def\<close>)
qed

lemma calculate_rating_ok:
  assumes "rateable (in_metrics i)" "unavailable_reason_of i = None"
  obtains r v rs q b where "calculate_rating i = Inr r"
    "rr_components r = Some v" "\<And>k. ui_val (cv_get v k) = component_value (in_metrics i) k"
    "rr_component_receipts r = Some rs" "component_receipts v (in_evidence i) = Inr rs"
    "rr_rating_exact r = Some q" "denotes q (rating_value (in_metrics i))"
    "rr_rating_bp r = Some b" "valid_bp b"
    "uint (bp_get b) = \<lfloor>10000 * rating_value (in_metrics i) + 1 / 2\<rfloor>"
proof -
  let ?m = "in_metrics i"
  obtain v where v: "component_vector_of ?m = Inr v"
      "\<And>k. denotes (ui_exact (cv_get v k)) (component_value ?m k)"
    using component_vector_of_ok [OF assms(1)] by metis
  obtain q where q: "weighted_rating v = Inr q" "denotes q (rating_value ?m)"
      "multiple_of (48000 * int (rating_scale ?m)) (rating_value ?m)"
    by (rule weighted_rating_ok [OF assms(1) v(2)])
  obtain b where b: "to_basis_points q = Inr b" "valid_bp b"
      "uint (bp_get b) = \<lfloor>10000 * rating_value ?m + 1 / 2\<rfloor>"
    by (rule to_basis_points_ok [OF assms(1) q(2,3)])
  obtain rs where rs: "component_receipts v (in_evidence i) = Inr rs"
    by (rule component_receipts_ok)
  have "\<not> m_clutch_wins ?m > m_clutch_opportunities ?m"
    using assms(1) by (simp add: rateable_def)
  then have "\<exists>r. calculate_rating i = Inr r \<and> rr_components r = Some v
      \<and> rr_component_receipts r = Some rs \<and> rr_rating_exact r = Some q \<and> rr_rating_bp r = Some b"
    by (simp add: calculate_rating_def assms(2) v(1) q(1) b(1) rs Let_def)
  then obtain r where "calculate_rating i = Inr r" "rr_components r = Some v"
      "rr_component_receipts r = Some rs" "rr_rating_exact r = Some q" "rr_rating_bp r = Some b"
    by blast
  moreover have "ui_val (cv_get v k) = component_value ?m k" for k using v(2) by (simp add: denotes_def)
  ultimately show thesis using that rs q(2) b(2,3) by blast
qed

lemma calculate_rating_Inr:
  assumes "calculate_rating i = Inr r"
  shows "rr_inputs r = in_metrics i \<and> rr_evidence r = in_evidence i
    \<and> rr_identity r = in_identity i \<and> rr_irregularities r = in_irregularities i"
    and "\<And>reason. unavailable_reason_of i = Some reason \<Longrightarrow> rr_status r = Unavailable reason
      \<and> rr_trend_exclusions r = [UnavailableExclusion] \<and> rr_components r = None
      \<and> rr_component_receipts r = None \<and> rr_rating_exact r = None \<and> rr_rating_bp r = None"
    and "unavailable_reason_of i = None \<Longrightarrow>
      rr_status r = (if preview_reasons i = [] then Rated else Preview (preview_reasons i))
      \<and> rr_trend_exclusions r = (if preview_reasons i = [] then [] else [PreviewExclusion])
        @ (if ir_roster_imbalanced (in_irregularities i) then [RosterImbalancedExclusion] else [])
      \<and> rr_rating_exact r \<noteq> None \<and> rr_rating_bp r \<noteq> None"
  using assms
  by (auto simp: calculate_rating_def map_err_eq_Inr and_then_eq_Inr Let_def
    split: if_splits option.splits)

section \<open>Monotonicity of the published formula\<close>

definition no_worse :: "rating_metrics \<Rightarrow> rating_metrics \<Rightarrow> bool" where
  "no_worse m m' \<longleftrightarrow> m_eligible_rounds m = m_eligible_rounds m'
     \<and> m_opening_wins m + m_opening_losses m = m_opening_wins m' + m_opening_losses m'
     \<and> m_clutch_opportunities m = m_clutch_opportunities m'
     \<and> m_direct_damage m \<le> m_direct_damage m' \<and> m_kills m \<le> m_kills m'
     \<and> m_deaths m' \<le> m_deaths m \<and> m_opening_wins m \<le> m_opening_wins m'
     \<and> m_trade_kills m \<le> m_trade_kills m' \<and> m_utility_damage m \<le> m_utility_damage m'
     \<and> m_flash_assists m \<le> m_flash_assists m' \<and> m_clutch_wins m \<le> m_clutch_wins m'"

lemma clamp01_mono: "x \<le> y \<Longrightarrow> clamp01 x \<le> clamp01 y"
  by (auto simp: clamp01_def min_def max_def)

lemma share_mono: "won \<le> won' \<Longrightarrow> share won n \<le> share won' n"
  by (simp add: share_def divide_right_mono)

lemma component_value_mono:
  assumes "no_worse m m'"
  shows "component_value m k \<le> component_value m' k"
proof (cases k)
  case FragBalance
  have "(of_nat (m_kills m) - of_nat (m_deaths m)) / (2 * of_nat r)
      \<le> (of_nat (m_kills m') - of_nat (m_deaths m')) / (2 * of_nat r :: rat)" for r
    using assms by (intro divide_right_mono diff_mono) (auto simp: no_worse_def)
  then show ?thesis
    using assms FragBalance
    by (auto simp: component_value_def Let_def no_worse_def intro!: clamp01_mono)
next
  case Utility
  have "7 / 10 * clamp01 a + 3 / 10 * clamp01 b \<le> 7 / 10 * clamp01 a' + 3 / 10 * clamp01 b'"
    if "a \<le> a'" "b \<le> b'" for a a' b b'
    using clamp01_mono [OF that(1)] clamp01_mono [OF that(2)] by linarith
  then show ?thesis
    using assms Utility
    by (simp add: component_value_def Let_def no_worse_def divide_right_mono)
qed (use assms in \<open>auto simp: component_value_def Let_def no_worse_def
  intro!: clamp01_mono share_mono divide_right_mono\<close>)

lemma rating_value_mono: "no_worse m m' \<Longrightarrow> rating_value m \<le> rating_value m'"
  using component_value_mono [of m m' DirectDamage] component_value_mono [of m m' FragBalance]
    component_value_mono [of m m' OpeningDuels] component_value_mono [of m m' TradeKills]
    component_value_mono [of m m' Utility] component_value_mono [of m m' ClutchConversion]
  by (simp add: rating_value_def)

section \<open>Properties\<close>

text \<open>The match of the repository's worked example.\<close>

definition worked_metrics :: rating_metrics where
  "worked_metrics = \<lparr>m_eligible_rounds = 20, m_direct_damage = 1600, m_kills = 18, m_deaths = 16,
     m_opening_wins = 3, m_opening_losses = 2, m_trade_kills = 4, m_utility_damage = 300,
     m_flash_assists = 2, m_clutch_wins = 1, m_clutch_opportunities = 2\<rparr>"

definition worked_input :: "rating_metrics \<Rightarrow> rating_input" where
  "worked_input m = \<lparr>
     in_identity = ofr_v1_identity ''demo'' ''commit'' ''parser'' ''proto'' ''schema'' ''metrics'' ''epoch'',
     in_game_build = ''game'', in_metrics = m,
     in_irregularities = \<lparr>ir_missed_live_round = False, ir_roster_imbalanced = False,
       ir_surrender = False, ir_forfeit_without_canonical_winner = False, ir_overtime = False\<rparr>,
     in_evidence_failure = None,
     in_evidence = \<lparr>ev_eligible_round_ledger = [''eligible''], ev_excluded_round_ledger = [''excluded''],
       ev_direct_damage = [''damage''], ev_frag_balance = [''frag''], ev_opening_duels = [''opening''],
       ev_trade_kills = [''trade''], ev_utility = [''utility''], ev_clutch_conversion = [''clutch'']\<rparr>\<rparr>"

lemma worked_rateable [simp]: "rateable worked_metrics"
  "rateable (worked_metrics\<lparr>m_kills := 19\<rparr>)"
  by (simp_all add: rateable_def u32_metrics_def u32_max_def rating_scale_def worked_metrics_def)

lemma worked_available [simp]: "m_eligible_rounds m = 20 \<Longrightarrow> unavailable_reason_of (worked_input m) = None"
  by (simp add: unavailable_reason_of_def worked_input_def first_missing_def)

lemma worked_input_metrics [simp]: "in_metrics (worked_input m) = m"
  by (simp add: worked_input_def)

lemma worked_rounds [simp]: "m_eligible_rounds worked_metrics = 20"
  by (simp add: worked_metrics_def)

lemma worked_value: "rating_value worked_metrics = 511 / 500"
  by (simp add: rating_value_def component_value_def worked_metrics_def share_def clamp01_def)

text \<open>
  C1: For every match whose evidence makes a rating available and whose counts fit (any realistic
  one: rounds times opening duels times clutch opportunities up to \<open>2^33\<close>), the calculation
  succeeds without overflow; its exact rating is the published formula in the field of
  rationals, lies between 0 and 2, and its basis points are the value rounded half up; the
  component receipts carry the published weights, the exact components and their evidence.
\<close>
theorem rating_is_published_formula:
  assumes "rateable (in_metrics i)" and "unavailable_reason_of i = None"
  shows "\<exists>r q b rs. calculate_rating i = Inr r
    \<and> rr_rating_exact r = Some q \<and> valid_rational q \<and> rat_of q = rating_value (in_metrics i)
    \<and> 0 \<le> rat_of q \<and> rat_of q \<le> 2
    \<and> rr_rating_bp r = Some b \<and> valid_bp b
    \<and> uint (bp_get b) = \<lfloor>10000 * rating_value (in_metrics i) + 1 / 2\<rfloor>
    \<and> rr_component_receipts r = Some rs
    \<and> map (\<lambda>c. (cr_kind c, rat_of (cr_weight c))) rs
      = map (\<lambda>(kind, n, d). (kind, of_int n / of_int d)) published_weights
    \<and> (\<forall>c\<in>set rs. rat_of \<lparr>numerator = cr_exact_numerator c, denominator = cr_exact_denominator c\<rparr>
          = component_value (in_metrics i) (cr_kind c)
        \<and> cr_evidence_ids c = component_evidence (in_evidence i) (cr_kind c))"
proof -
  obtain r v rs q b where r: "calculate_rating i = Inr r"
      "\<And>k. ui_val (cv_get v k) = component_value (in_metrics i) k"
      "rr_component_receipts r = Some rs" "component_receipts v (in_evidence i) = Inr rs"
      "rr_rating_exact r = Some q" "denotes q (rating_value (in_metrics i))"
      "rr_rating_bp r = Some b" "valid_bp b"
      "uint (bp_get b) = \<lfloor>10000 * rating_value (in_metrics i) + 1 / 2\<rfloor>"
    using calculate_rating_ok [OF assms] by metis
  obtain rs' where rs': "component_receipts v (in_evidence i) = Inr rs'"
      "map (\<lambda>c. (cr_kind c, rat_of (cr_weight c))) rs'
        = map (\<lambda>(kind, n, d). (kind, of_int n / of_int d)) published_weights"
      "\<forall>c\<in>set rs'. \<lparr>numerator = cr_exact_numerator c, denominator = cr_exact_denominator c\<rparr>
        = ui_exact (cv_get v (cr_kind c)) \<and> cr_evidence_ids c = component_evidence (in_evidence i) (cr_kind c)"
    by (rule component_receipts_ok [of v "in_evidence i"])
  from rs'(1) r(4) have "rs' = rs" by simp
  with r rs'(2,3) rating_value_bounds [OF assms(1)] show ?thesis
    by (intro exI [of _ r] exI [of _ q] exI [of _ b] exI [of _ rs]) (simp add: denotes_def)
qed

theorem rating_is_published_formula_witness:
  "\<exists>r q b. calculate_rating (worked_input worked_metrics) = Inr r
    \<and> rr_rating_exact r = Some q \<and> rat_of q = 511 / 500
    \<and> rr_rating_bp r = Some b \<and> uint (bp_get b) = 10220"
proof -
  have "\<lfloor>10000 * rating_value worked_metrics + 1 / 2\<rfloor> = 10220"
    by (simp add: worked_value floor_eq_iff)
  then show ?thesis
    using rating_is_published_formula [of "worked_input worked_metrics"] by (auto simp: worked_value)
qed

text \<open>
  Whatever the metrics, a successful calculation echoes its input and is classified exactly:
  unavailable with the first applicable reason (missing evidence, failed evidence, forfeit, fewer
  than eight rounds, in this precedence) and then no rating at all, otherwise rated or a preview
  with all its reasons; it counts for trends if and only if it is available, has twelve rounds
  and no missed round, surrender or roster imbalance.
\<close>
theorem rating_status_classified:
  assumes "calculate_rating i = Inr r"
  shows "rr_inputs r = in_metrics i \<and> rr_evidence r = in_evidence i \<and> rr_identity r = in_identity i
    \<and> (rr_rating_bp r = None \<longleftrightarrow> (\<exists>reason. rr_status r = Unavailable reason))
    \<and> (rr_rating_exact r = None \<longleftrightarrow> rr_rating_bp r = None)
    \<and> (\<forall>reason. rr_status r = Unavailable reason \<longleftrightarrow> unavailable_reason_of i = Some reason)
    \<and> (\<forall>reasons. rr_status r = Preview reasons \<longleftrightarrow>
        unavailable_reason_of i = None \<and> reasons = preview_reasons i \<and> reasons \<noteq> [])
    \<and> (trend_eligible r \<longleftrightarrow> unavailable_reason_of i = None
        \<and> 12 \<le> m_eligible_rounds (in_metrics i)
        \<and> \<not> ir_missed_live_round (in_irregularities i) \<and> \<not> ir_surrender (in_irregularities i)
        \<and> \<not> ir_roster_imbalanced (in_irregularities i))"
proof (cases "unavailable_reason_of i")
  case None
  with calculate_rating_Inr(1,3) [OF assms] show ?thesis
    by (auto simp: trend_eligible_def preview_reasons_def)
next
  case (Some reason)
  with calculate_rating_Inr(1,2) [OF assms] show ?thesis by (auto simp: trend_eligible_def)
qed

theorem rating_status_classified_witness:
  "\<exists>r. calculate_rating (worked_input worked_metrics) = Inr r \<and> trend_eligible r"
proof -
  obtain r where r: "calculate_rating (worked_input worked_metrics) = Inr r"
    using calculate_rating_ok [of "worked_input worked_metrics"] by auto
  have "\<not> ir_missed_live_round (in_irregularities (worked_input worked_metrics))"
    "\<not> ir_surrender (in_irregularities (worked_input worked_metrics))"
    "\<not> ir_roster_imbalanced (in_irregularities (worked_input worked_metrics))"
    by (simp_all add: worked_input_def)
  then have "trend_eligible r" using rating_status_classified [OF r] by simp
  with r show ?thesis by blast
qed

text \<open>
  The rating is monotone: with the same rounds, opening duels and clutch opportunities, a
  match with no fewer kills, damage, trades, utility, flashes, duel and clutch wins and no more
  deaths never gets fewer basis points.
\<close>
theorem rating_monotone:
  assumes "rateable (in_metrics i)" and "rateable (in_metrics j)"
    and "calculate_rating i = Inr r" and "calculate_rating j = Inr r'"
    and "unavailable_reason_of i = None" and "unavailable_reason_of j = None"
    and "no_worse (in_metrics i) (in_metrics j)"
  shows "\<exists>b b'. rr_rating_bp r = Some b \<and> rr_rating_bp r' = Some b' \<and> bp_get b \<le> bp_get b'"
proof -
  obtain b where b: "rr_rating_bp r = Some b"
      "uint (bp_get b) = \<lfloor>10000 * rating_value (in_metrics i) + 1 / 2\<rfloor>"
    using calculate_rating_ok [OF assms(1,5)] assms(3) by (metis sum.inject(2))
  obtain b' where b': "rr_rating_bp r' = Some b'"
      "uint (bp_get b') = \<lfloor>10000 * rating_value (in_metrics j) + 1 / 2\<rfloor>"
    using calculate_rating_ok [OF assms(2,6)] assms(4) by (metis sum.inject(2))
  have "\<lfloor>10000 * rating_value (in_metrics i) + 1 / 2\<rfloor> \<le> \<lfloor>10000 * rating_value (in_metrics j) + 1 / 2\<rfloor>"
    by (rule floor_mono) (use rating_value_mono [OF assms(7)] in linarith)
  with b b' show ?thesis by (simp add: word_le_def)
qed

theorem rating_monotone_witness:
  "\<exists>r r' b b'. calculate_rating (worked_input worked_metrics) = Inr r
    \<and> calculate_rating (worked_input (worked_metrics\<lparr>m_kills := 19\<rparr>)) = Inr r'
    \<and> rr_rating_bp r = Some b \<and> rr_rating_bp r' = Some b' \<and> bp_get b \<le> bp_get b'"
proof -
  let ?i = "worked_input worked_metrics" and ?j = "worked_input (worked_metrics\<lparr>m_kills := 19\<rparr>)"
  have m: "rateable (in_metrics ?i)" "rateable (in_metrics ?j)" by simp_all
  have a: "unavailable_reason_of ?i = None" "unavailable_reason_of ?j = None" by simp_all
  obtain r where r: "calculate_rating ?i = Inr r" using calculate_rating_ok [OF m(1) a(1)] by metis
  obtain r' where r': "calculate_rating ?j = Inr r'" using calculate_rating_ok [OF m(2) a(2)] by metis
  have "no_worse (in_metrics ?i) (in_metrics ?j)" by (simp add: no_worse_def worked_metrics_def)
  from rating_monotone [OF m r r' a this] r r' show ?thesis by blast
qed

end
