(* ===== verification/Baseline.thy ===== *)
theory Baseline
  imports Rating
begin

text \<open>
  Personal baselines, sessions and goals of \<open>crates/openfrag-domain/src/baseline.rs\<close>: which
  matches of the history enter a cohort and why the others do not, the robust statistics over
  the most recent twenty, the grouping of matches into sessions, and the evaluation of a goal.
\<close>

section \<open>Types\<close>

definition BASELINE_MINIMUM_MATCHES :: nat where "BASELINE_MINIMUM_MATCHES = 10"

definition BASELINE_WINDOW_MATCHES :: nat where "BASELINE_WINDOW_MATCHES = 20"

definition SESSION_GAP_MS :: nat where "SESSION_GAP_MS = 90 * 60 * 1000"

definition GOAL_EVALUATION_MATCHES :: nat where "GOAL_EVALUATION_MATCHES = 10"

record match_interval =
  start_utc_ms :: nat
  end_utc_ms :: nat

datatype side = Terrorist | CounterTerrorist

record side_component_vector =
  sv_components :: component_vector
  sv_opening_opportunities :: nat
  sv_clutch_opportunities :: nat

datatype match_trend_exclusion = UnavailableMatch | PreviewMatch | RosterImbalancedMatch | EvidenceRule

datatype map_context = Known string | UnknownMapContext

record history_match =
  hm_match_id :: string
  hm_demo_hash :: string
  hm_calculation_run_id :: string
  hm_series :: calculation_series
  hm_canonical :: bool
  hm_map :: map_context
  hm_interval :: "match_interval option"
  hm_rating :: "rating_bp option"
  hm_components :: "component_vector option"
  hm_side_vectors :: "side \<Rightarrow> side_component_vector option"
  hm_trend_exclusion :: "match_trend_exclusion option"

datatype baseline_field = RatingField | ComponentField component_kind

datatype baseline_scope = AllMaps | MapScope string

record baseline_query =
  q_series :: calculation_series
  q_cutoff_start_utc_ms :: nat
  q_field :: baseline_field
  q_scope :: baseline_scope

datatype cohort_exclusion_reason = CalculationSeriesMismatch | NonCanonicalRun
  | MatchRule match_trend_exclusion | MissingChronology | ReversedChronology
  | CurrentOrFutureMatch | ScopeMismatch | DuplicateDemo | OutsideRecentWindow
  | MissingSideVector | MissingCanonicalValue | UnknownMap | OverlappingChronology

record cohort_exclusion =
  ce_match_id :: string
  ce_reason :: cohort_exclusion_reason

datatype baseline_maturity = NotReady nat nat | Limited nat | Recent nat

record robust_stats =
  rs_median :: rational
  rs_mad :: rational
  rs_lower :: rational
  rs_upper :: rational

datatype range_position = Below | Within | Above | UnavailableNoSpread

definition position :: "robust_stats \<Rightarrow> rational \<Rightarrow> range_position" where
  "position s v =
     (if rs_mad s = rat_zero then UnavailableNoSpread
      else if rat_less v (rs_lower s) then Below
      else if rat_less (rs_upper s) v then Above
      else Within)"

record baseline_receipt =
  br_policy_version :: string
  br_query :: baseline_query
  br_included_match_ids :: "string list"
  br_included_demo_hashes :: "string list"
  br_included_calculation_run_ids :: "string list"
  br_selected_values :: "rational list"
  br_exclusions :: "cohort_exclusion list"
  br_maturity :: baseline_maturity
  br_stats :: "robust_stats option"

definition PERSONAL_BASELINE_POLICY :: string where
  "PERSONAL_BASELINE_POLICY = ''personal-baseline-1''"

datatype baseline_error = BaselineExact exact_error | EmptyStatistics | SideRatingForbidden
  | MapSideScopeForbidden

abbreviation exclude :: "history_match \<Rightarrow> cohort_exclusion_reason \<Rightarrow> cohort_exclusion" where
  "exclude m why \<equiv> \<lparr>ce_match_id = hm_match_id m, ce_reason = why\<rparr>"

section \<open>Robust statistics\<close>

definition median :: "rational list \<Rightarrow> (baseline_error, rational) result" where
  "median values =
     (if values = [] then Inl EmptyStatistics
      else let ordered = sort_by rat_le values; middle = length ordered div 2 in
        if length ordered mod 2 = 1 then Inr (ordered ! middle)
        else map_err BaselineExact
          (and_then (checked_add (ordered ! (middle - 1)) (ordered ! middle))
            (\<lambda>s. checked_div s (from_integer 2))))"

definition robust_stats ::
  "rational list \<Rightarrow> rational \<Rightarrow> rational \<Rightarrow> (baseline_error, robust_stats) result" where
  "robust_stats values minimum maximum =
     and_then (median values) (\<lambda>center.
     and_then (map_err BaselineExact
       (collect_results (\<lambda>v. and_then (checked_sub v center) rat_abs) values)) (\<lambda>deviations.
     and_then (median deviations) (\<lambda>mad.
     map_err BaselineExact
       (and_then (checked_mul mad (from_integer 2)) (\<lambda>spread.
        and_then (checked_sub center spread) (\<lambda>low.
        and_then (checked_add center spread) (\<lambda>high.
        Inr \<lparr>rs_median = center, rs_mad = mad, rs_lower = rat_clamp low minimum maximum,
             rs_upper = rat_clamp high minimum maximum\<rparr>)))))))"

section \<open>Cohorts\<close>

definition cohort_reason :: "history_match \<Rightarrow> baseline_query \<Rightarrow> cohort_exclusion_reason option" where
  "cohort_reason item query =
     (if hm_series item \<noteq> q_series query then Some CalculationSeriesMismatch
      else if \<not> hm_canonical item then Some NonCanonicalRun
      else case hm_trend_exclusion item of Some reason \<Rightarrow> Some (MatchRule reason)
      | None \<Rightarrow>
        (case hm_interval item of None \<Rightarrow> Some MissingChronology
         | Some interval \<Rightarrow>
           if start_utc_ms interval > end_utc_ms interval then Some ReversedChronology
           else if end_utc_ms interval > q_cutoff_start_utc_ms query then Some CurrentOrFutureMatch
           else case q_scope query of
             MapScope wanted \<Rightarrow>
               (case hm_map item of
                  Known item_map \<Rightarrow> if item_map = wanted then None else Some ScopeMismatch
                | UnknownMapContext \<Rightarrow> Some UnknownMap)
           | AllMaps \<Rightarrow> None))"

definition match_value :: "history_match \<Rightarrow> baseline_field \<Rightarrow> rational option" where
  "match_value item field =
     (case field of RatingField \<Rightarrow> map_option bp_exact (hm_rating item)
      | ComponentField kind \<Rightarrow> map_option (\<lambda>v. ui_exact (cv_get v kind)) (hm_components item))"

text \<open>One round of the loop over the history: excluded with a reason, or a candidate's value.\<close>

definition lens_step :: "baseline_query \<Rightarrow> side option \<Rightarrow> component_kind option \<Rightarrow> history_match
    \<Rightarrow> (baseline_error, (cohort_exclusion_reason, rational) result) result" where
  "lens_step query side side_component item =
     (case cohort_reason item query of Some reason \<Rightarrow> Inr (Inl reason)
      | None \<Rightarrow>
        (case side of
           Some s \<Rightarrow>
             (case hm_side_vectors item s of
                Some vector \<Rightarrow>
                  and_then (ok_or SideRatingForbidden side_component)
                    (\<lambda>kind. Inr (Inr (ui_exact (cv_get (sv_components vector) kind))))
              | None \<Rightarrow> Inr (Inl MissingSideVector))
         | None \<Rightarrow>
             (case match_value item (q_field query) of
                None \<Rightarrow> Inr (Inl MissingCanonicalValue)
              | Some v \<Rightarrow> Inr (Inr v))))"

fun lens_scan :: "baseline_query \<Rightarrow> side option \<Rightarrow> component_kind option \<Rightarrow> history_match list
    \<Rightarrow> (history_match \<times> rational) list \<Rightarrow> cohort_exclusion list
    \<Rightarrow> (baseline_error, (history_match \<times> rational) list \<times> cohort_exclusion list) result" where
  "lens_scan query side kind [] candidates exclusions = Inr (candidates, exclusions)"
| "lens_scan query side kind (item # history) candidates exclusions =
     and_then (lens_step query side kind item) (\<lambda>r. case r of
       Inl reason \<Rightarrow> lens_scan query side kind history candidates (exclusions @ [exclude item reason])
     | Inr v \<Rightarrow> lens_scan query side kind history (candidates @ [(item, v)]) exclusions)"

definition match_end :: "history_match \<Rightarrow> nat" where
  "match_end m = (case hm_interval m of None \<Rightarrow> 0 | Some i \<Rightarrow> end_utc_ms i)"

text \<open>\<open>(right_end, right.demo_hash).cmp(&(left_end, left.demo_hash))\<close>: most recent first.\<close>

definition recent_first :: "history_match \<times> rational \<Rightarrow> history_match \<times> rational \<Rightarrow> bool" where
  "recent_first l r \<longleftrightarrow> (match_end (fst r), hm_demo_hash (fst r)) \<le> (match_end (fst l), hm_demo_hash (fst l))"

definition maturity_of :: "nat \<Rightarrow> baseline_maturity" where
  "maturity_of selected =
     (if selected < BASELINE_MINIMUM_MATCHES then NotReady selected BASELINE_MINIMUM_MATCHES
      else if selected < BASELINE_WINDOW_MATCHES then Limited selected
      else Recent selected)"

definition finalize_baseline :: "(history_match \<times> rational) list \<Rightarrow> cohort_exclusion list
    \<Rightarrow> baseline_query \<Rightarrow> (baseline_error, baseline_receipt) result" where
  "finalize_baseline candidates exclusions query =
     (let (unique, duplicates) =
            retain_first (\<lambda>c. hm_demo_hash (fst c)) {} (sort_by recent_first candidates);
          chosen = take BASELINE_WINDOW_MATCHES unique;
          outside = drop BASELINE_WINDOW_MATCHES unique;
          exclusions = exclusions @ map (\<lambda>c. exclude (fst c) DuplicateDemo) duplicates
            @ map (\<lambda>c. exclude (fst c) OutsideRecentWindow) outside;
          selected = length chosen;
          maximum = (case q_field query of RatingField \<Rightarrow> from_integer 20000
                     | ComponentField _ \<Rightarrow> rat_one)
      in and_then
        (if selected < BASELINE_MINIMUM_MATCHES then Inr None
         else and_then (robust_stats (map snd chosen) rat_zero maximum) (\<lambda>s. Inr (Some s)))
        (\<lambda>stats. Inr \<lparr>br_policy_version = PERSONAL_BASELINE_POLICY, br_query = query,
           br_included_match_ids = map (\<lambda>c. hm_match_id (fst c)) chosen,
           br_included_demo_hashes = map (\<lambda>c. hm_demo_hash (fst c)) chosen,
           br_included_calculation_run_ids = map (\<lambda>c. hm_calculation_run_id (fst c)) chosen,
           br_selected_values = map snd chosen, br_exclusions = exclusions,
           br_maturity = maturity_of selected, br_stats = stats\<rparr>))"

definition build_lens :: "history_match list \<Rightarrow> baseline_query \<Rightarrow> side option
    \<Rightarrow> (baseline_error, baseline_receipt) result" where
  "build_lens history query side =
     and_then
       (case (q_field query, side) of
          (ComponentField kind, Some _) \<Rightarrow> Inr (Some kind)
        | (RatingField, Some _) \<Rightarrow> Inl SideRatingForbidden
        | (_, None) \<Rightarrow> Inr None)
       (\<lambda>side_component.
        and_then (lens_scan query side side_component history [] []) (\<lambda>(candidates, exclusions).
        finalize_baseline candidates exclusions query))"

definition build_baseline :: "history_match list \<Rightarrow> baseline_query \<Rightarrow> (baseline_error, baseline_receipt) result" where
  "build_baseline history query = build_lens history query None"

definition build_side_component_lens :: "history_match list \<Rightarrow> baseline_query \<Rightarrow> side \<Rightarrow> component_kind
    \<Rightarrow> (baseline_error, baseline_receipt) result" where
  "build_side_component_lens history query side kind =
     (if q_scope query \<noteq> AllMaps then Inl MapSideScopeForbidden
      else build_lens history (query\<lparr>q_field := ComponentField kind\<rparr>) (Some side))"

section \<open>Sessions\<close>

record session =
  se_match_ids :: "string list"
  se_start_utc_ms :: nat
  se_end_utc_ms :: nat

record session_grouping =
  sg_sessions :: "session list"
  sg_exclusions :: "cohort_exclusion list"

fun split_chronology :: "history_match list
    \<Rightarrow> (history_match \<times> match_interval) list \<times> cohort_exclusion list" where
  "split_chronology [] = ([], [])"
| "split_chronology (item # history) =
     (let (valid, exclusions) = split_chronology history in
      case hm_interval item of
        None \<Rightarrow> (valid, exclude item MissingChronology # exclusions)
      | Some interval \<Rightarrow>
          if start_utc_ms interval > end_utc_ms interval
          then (valid, exclude item ReversedChronology # exclusions)
          else ((item, interval) # valid, exclusions))"

definition chronology_key :: "history_match \<times> match_interval \<Rightarrow> nat \<times> nat \<times> string" where
  "chronology_key p = (start_utc_ms (snd p), end_utc_ms (snd p), hm_demo_hash (fst p))"

text \<open>
  The vector of sessions is kept with its last element first; \<open>last_mut\<close> is the head.
\<close>

fun session_step :: "session list \<times> cohort_exclusion list \<Rightarrow> history_match \<times> match_interval
    \<Rightarrow> session list \<times> cohort_exclusion list" where
  "session_step (current # earlier, exclusions) (item, interval) =
     (if start_utc_ms interval \<le> se_end_utc_ms current
      then (current # earlier, exclusions @ [exclude item OverlappingChronology])
      else if start_utc_ms interval - se_end_utc_ms current \<le> SESSION_GAP_MS
      then (current\<lparr>se_match_ids := se_match_ids current @ [hm_match_id item],
                    se_end_utc_ms := end_utc_ms interval\<rparr> # earlier, exclusions)
      else (\<lparr>se_match_ids = [hm_match_id item], se_start_utc_ms = start_utc_ms interval,
             se_end_utc_ms = end_utc_ms interval\<rparr> # current # earlier, exclusions))"
| "session_step ([], exclusions) (item, interval) =
     ([\<lparr>se_match_ids = [hm_match_id item], se_start_utc_ms = start_utc_ms interval,
        se_end_utc_ms = end_utc_ms interval\<rparr>], exclusions)"

definition group_sessions :: "history_match list \<Rightarrow> session_grouping" where
  "group_sessions history =
     (let (valid, exclusions) = split_chronology history;
          (sessions, exclusions) = foldl session_step ([], exclusions) (sort_key chronology_key valid)
      in \<lparr>sg_sessions = rev sessions, sg_exclusions = exclusions\<rparr>)"

datatype session_sample = NoSample | OneMatch | SmallSample nat | SummarySample nat

definition session_sample :: "nat \<Rightarrow> session_sample" where
  "session_sample selected =
     (if selected = 0 then NoSample else if selected = 1 then OneMatch
      else if selected \<le> 4 then SmallSample selected else SummarySample selected)"

section \<open>Goals\<close>

record goal =
  g_id :: string
  g_created_at_utc_ms :: nat
  g_series :: calculation_series
  g_field :: baseline_field
  g_scope :: baseline_scope
  g_target :: rational
  g_baseline_demo_hashes :: "string list"
  g_cancelled :: bool

definition goal_rating :: "string \<Rightarrow> nat \<Rightarrow> calculation_series \<Rightarrow> baseline_scope \<Rightarrow> rating_bp
    \<Rightarrow> string list \<Rightarrow> goal" where
  "goal_rating goal_id created series scope target hashes =
     \<lparr>g_id = goal_id, g_created_at_utc_ms = created, g_series = series, g_field = RatingField,
      g_scope = scope, g_target = bp_exact target, g_baseline_demo_hashes = hashes,
      g_cancelled = False\<rparr>"

definition goal_component :: "string \<Rightarrow> nat \<Rightarrow> calculation_series \<Rightarrow> baseline_scope \<Rightarrow> component_kind
    \<Rightarrow> unit_interval \<Rightarrow> string list \<Rightarrow> goal" where
  "goal_component goal_id created series scope kind target hashes =
     \<lparr>g_id = goal_id, g_created_at_utc_ms = created, g_series = series, g_field = ComponentField kind,
      g_scope = scope, g_target = ui_exact target, g_baseline_demo_hashes = hashes,
      g_cancelled = False\<rparr>"

definition goal_cancelled :: "goal \<Rightarrow> goal" where
  "goal_cancelled g = g\<lparr>g_cancelled := True\<rparr>"

datatype goal_status = InProgress nat nat | Achieved | NotAchieved | Cancelled | VersionChanged

record goal_receipt =
  gr_goal_id :: string
  gr_status :: goal_status
  gr_selected_match_ids :: "string list"
  gr_selected_demo_hashes :: "string list"
  gr_exclusions :: "cohort_exclusion list"
  gr_evaluation_median :: "rational option"

definition empty_goal_receipt :: "goal \<Rightarrow> goal_status \<Rightarrow> goal_receipt" where
  "empty_goal_receipt g status =
     \<lparr>gr_goal_id = g_id g, gr_status = status, gr_selected_match_ids = [],
      gr_selected_demo_hashes = [], gr_exclusions = [], gr_evaluation_median = None\<rparr>"

definition goal_query :: "goal \<Rightarrow> baseline_query" where
  "goal_query g = \<lparr>q_series = g_series g, q_cutoff_start_utc_ms = u64_max, q_field = g_field g,
     q_scope = g_scope g\<rparr>"

text \<open>One round of the loop: nothing, an exclusion, or a candidate with its interval and value.\<close>

definition goal_step :: "goal \<Rightarrow> history_match
    \<Rightarrow> (cohort_exclusion_reason option, match_interval \<times> rational) result" where
  "goal_step g item =
     (case cohort_reason item (goal_query g) of Some reason \<Rightarrow> Inl (Some reason)
      | None \<Rightarrow>
        (case hm_interval item of None \<Rightarrow> Inl None
         | Some interval \<Rightarrow>
             if start_utc_ms interval \<le> g_created_at_utc_ms g then Inl (Some CurrentOrFutureMatch)
             else case match_value item (g_field g) of
               None \<Rightarrow> Inl (Some MissingCanonicalValue)
             | Some v \<Rightarrow> Inr (interval, v)))"

fun goal_scan :: "goal \<Rightarrow> history_match list
    \<Rightarrow> (history_match \<times> match_interval \<times> rational) list \<times> cohort_exclusion list" where
  "goal_scan g [] = ([], [])"
| "goal_scan g (item # history) =
     (let (candidates, exclusions) = goal_scan g history in
      case goal_step g item of
        Inl None \<Rightarrow> (candidates, exclusions)
      | Inl (Some reason) \<Rightarrow> (candidates, exclude item reason # exclusions)
      | Inr c \<Rightarrow> ((item, c) # candidates, exclusions))"

definition goal_key :: "history_match \<times> match_interval \<times> rational \<Rightarrow> nat \<times> nat \<times> string" where
  "goal_key c = (start_utc_ms (fst (snd c)), end_utc_ms (fst (snd c)), hm_demo_hash (fst c))"

definition evaluate_goal :: "goal \<Rightarrow> calculation_series \<Rightarrow> history_match list
    \<Rightarrow> (baseline_error, goal_receipt) result" where
  "evaluate_goal g active_series history =
     (if g_cancelled g then Inr (empty_goal_receipt g Cancelled)
      else if g_series g \<noteq> active_series then Inr (empty_goal_receipt g VersionChanged)
      else
        let (candidates, exclusions) = goal_scan g history;
            (unique, duplicates) =
              retain_first (\<lambda>c. hm_demo_hash (fst c)) {} (sort_key goal_key candidates);
            exclusions = exclusions @ map (\<lambda>c. exclude (fst c) DuplicateDemo) duplicates;
            chosen = take GOAL_EVALUATION_MATCHES unique
        in and_then
          (if chosen = [] then Inr None
           else and_then (median (map (\<lambda>c. snd (snd c)) chosen)) (\<lambda>m. Inr (Some m)))
          (\<lambda>evaluation_median.
           Inr \<lparr>gr_goal_id = g_id g,
             gr_status =
               (if length chosen < GOAL_EVALUATION_MATCHES
                then InProgress (length chosen) GOAL_EVALUATION_MATCHES
                else if (case evaluation_median of None \<Rightarrow> False | Some v \<Rightarrow> rat_le (g_target g) v)
                then Achieved else NotAchieved),
             gr_selected_match_ids = map (\<lambda>c. hm_match_id (fst c)) chosen,
             gr_selected_demo_hashes = map (\<lambda>c. hm_demo_hash (fst c)) chosen,
             gr_exclusions = exclusions, gr_evaluation_median = evaluation_median\<rparr>))"

section \<open>The cohort of a query\<close>

text \<open>The scan splits the history, in its order, into candidates and exclusions.\<close>

definition lens_candidates :: "baseline_query \<Rightarrow> side option \<Rightarrow> component_kind option
    \<Rightarrow> history_match list \<Rightarrow> (history_match \<times> rational) list" where
  "lens_candidates query side kind history = concat (map (\<lambda>item.
     case lens_step query side kind item of Inr (Inr v) \<Rightarrow> [(item, v)] | _ \<Rightarrow> []) history)"

definition lens_exclusions :: "baseline_query \<Rightarrow> side option \<Rightarrow> component_kind option
    \<Rightarrow> history_match list \<Rightarrow> cohort_exclusion list" where
  "lens_exclusions query side kind history = concat (map (\<lambda>item.
     case lens_step query side kind item of Inr (Inl reason) \<Rightarrow> [exclude item reason] | _ \<Rightarrow> []) history)"

lemma lens_step_total:
  "side = None \<or> kind \<noteq> None \<Longrightarrow> \<exists>r. lens_step query side kind item = Inr r"
  by (auto simp: lens_step_def split: option.splits)

lemma lens_scan_eq:
  assumes "side = None \<or> kind \<noteq> None"
  shows "lens_scan query side kind history cs es
    = Inr (cs @ lens_candidates query side kind history, es @ lens_exclusions query side kind history)"
proof (induction history arbitrary: cs es)
  case Nil
  then show ?case by (simp add: lens_candidates_def lens_exclusions_def)
next
  case (Cons item history)
  obtain r where "lens_step query side kind item = Inr r" using lens_step_total [OF assms] by blast
  with Cons show ?case
    by (cases r) (simp_all add: lens_candidates_def lens_exclusions_def)
qed

text \<open>The component a side lens reads; a side lens has no rating.\<close>

definition lens_kind :: "baseline_query \<Rightarrow> side option \<Rightarrow> component_kind option" where
  "lens_kind query side = (case (q_field query, side) of
     (ComponentField kind, Some _) \<Rightarrow> Some kind | _ \<Rightarrow> None)"

lemma build_lens_eq:
  "build_lens history query side =
    (if side \<noteq> None \<and> q_field query = RatingField then Inl SideRatingForbidden
     else finalize_baseline (lens_candidates query side (lens_kind query side) history)
       (lens_exclusions query side (lens_kind query side) history) query)"
  by (auto simp: build_lens_def lens_kind_def lens_scan_eq split: baseline_field.splits option.splits)

definition chosen_of :: "(history_match \<times> rational) list \<Rightarrow> (history_match \<times> rational) list" where
  "chosen_of candidates = take BASELINE_WINDOW_MATCHES
     (fst (retain_first (\<lambda>c. hm_demo_hash (fst c)) {} (sort_by recent_first candidates)))"

definition window_stats :: "baseline_query \<Rightarrow> (history_match \<times> rational) list
    \<Rightarrow> (baseline_error, robust_stats option) result" where
  "window_stats query chosen =
     (if length chosen < BASELINE_MINIMUM_MATCHES then Inr None
      else and_then (robust_stats (map snd chosen) rat_zero
        (case q_field query of RatingField \<Rightarrow> from_integer 20000 | ComponentField _ \<Rightarrow> rat_one))
        (\<lambda>s. Inr (Some s)))"

lemma finalize_eq:
  "finalize_baseline candidates exclusions query =
    and_then (window_stats query (chosen_of candidates)) (\<lambda>stats.
      let unique = retain_first (\<lambda>c. hm_demo_hash (fst c)) {} (sort_by recent_first candidates);
          chosen = chosen_of candidates
      in Inr \<lparr>br_policy_version = PERSONAL_BASELINE_POLICY, br_query = query,
         br_included_match_ids = map (\<lambda>c. hm_match_id (fst c)) chosen,
         br_included_demo_hashes = map (\<lambda>c. hm_demo_hash (fst c)) chosen,
         br_included_calculation_run_ids = map (\<lambda>c. hm_calculation_run_id (fst c)) chosen,
         br_selected_values = map snd chosen,
         br_exclusions = exclusions @ map (\<lambda>c. exclude (fst c) DuplicateDemo) (snd unique)
           @ map (\<lambda>c. exclude (fst c) OutsideRecentWindow) (drop BASELINE_WINDOW_MATCHES (fst unique)),
         br_maturity = maturity_of (length chosen), br_stats = stats\<rparr>)"
  by (simp add: finalize_baseline_def window_stats_def chosen_of_def split_beta Let_def)

lemma finalize_fields:
  assumes "finalize_baseline candidates exclusions query = Inr r"
  shows "br_included_match_ids r = map (\<lambda>c. hm_match_id (fst c)) (chosen_of candidates)"
    "br_included_demo_hashes r = map (\<lambda>c. hm_demo_hash (fst c)) (chosen_of candidates)"
    "br_included_calculation_run_ids r = map (\<lambda>c. hm_calculation_run_id (fst c)) (chosen_of candidates)"
    "br_selected_values r = map snd (chosen_of candidates)"
    "br_maturity r = maturity_of (length (chosen_of candidates))"
    "length (chosen_of candidates) < BASELINE_MINIMUM_MATCHES \<longleftrightarrow> br_stats r = None"
    "br_query r = query"
  using assms
  by (auto simp: finalize_baseline_def chosen_of_def split_beta Let_def and_then_eq_Inr
    split: if_splits)

lemma finalize_accounts:
  assumes "finalize_baseline candidates exclusions query = Inr r"
  shows "mset (br_included_match_ids r) + mset (map ce_match_id (br_exclusions r))
    = mset (map (\<lambda>c. hm_match_id (fst c)) candidates) + mset (map ce_match_id exclusions)"
proof -
  let ?u = "retain_first (\<lambda>c. hm_demo_hash (fst c)) {} (sort_by recent_first candidates)"
  let ?id = "\<lambda>c. hm_match_id (fst c)"
  have "br_exclusions r = exclusions @ map (\<lambda>c. exclude (fst c) DuplicateDemo) (snd ?u)
      @ map (\<lambda>c. exclude (fst c) OutsideRecentWindow) (drop BASELINE_WINDOW_MATCHES (fst ?u))"
    using assms by (auto simp: finalize_baseline_def split_beta Let_def and_then_eq_Inr)
  then have "mset (map ce_match_id (br_exclusions r)) = mset (map ce_match_id exclusions)
      + image_mset ?id (mset (snd ?u)) + image_mset ?id (mset (drop BASELINE_WINDOW_MATCHES (fst ?u)))"
    by (simp add: multiset.map_comp comp_def)
  moreover have "mset (br_included_match_ids r)
      = image_mset ?id (mset (take BASELINE_WINDOW_MATCHES (fst ?u)))"
    by (simp add: finalize_fields [OF assms] chosen_of_def)
  moreover have "image_mset ?id (mset (take BASELINE_WINDOW_MATCHES (fst ?u)))
      + image_mset ?id (mset (drop BASELINE_WINDOW_MATCHES (fst ?u))) = image_mset ?id (mset (fst ?u))"
    by (metis append_take_drop_id image_mset_union mset_append)
  moreover have "image_mset ?id (mset (fst ?u)) + image_mset ?id (mset (snd ?u))
      = image_mset ?id (mset candidates)"
    by (simp only: image_mset_union [symmetric] mset_retain_first mset_sort_by)
  ultimately show ?thesis by (simp add: ac_simps)
qed

lemma lens_partition:
  assumes "side = None \<or> kind \<noteq> None"
  shows "mset (map (\<lambda>c. hm_match_id (fst c)) (lens_candidates query side kind history))
    + mset (map ce_match_id (lens_exclusions query side kind history)) = mset (map hm_match_id history)"
proof (induction history)
  case Nil
  then show ?case by (simp add: lens_candidates_def lens_exclusions_def)
next
  case (Cons item history)
  obtain r where "lens_step query side kind item = Inr r" using lens_step_total [OF assms] by blast
  with Cons show ?case
    by (cases r) (simp_all add: lens_candidates_def lens_exclusions_def ac_simps)
qed

section \<open>Most recent first\<close>

lemma recent_first_end: "recent_first d c \<Longrightarrow> match_end (fst c) \<le> match_end (fst d)"
  by (auto simp: recent_first_def)

lemma recent_first_preorder: "total_preorder_on (\<lambda>_. True) recent_first"
  by unfold_locales (auto simp: recent_first_def)

interpretation recency: total_preorder_on "\<lambda>_. True" recent_first
  by (rule recent_first_preorder)

text \<open>A candidate the window leaves out is a later duplicate or older than all twenty.\<close>

lemma retain_first_covers:
  assumes "sorted_wrt le xs" "x \<in> set xs" "key x \<notin> seen"
  shows "\<exists>y\<in>set (fst (retain_first key seen xs)). key y = key x \<and> (y = x \<or> le y x)"
  using assms
proof (induction key seen xs rule: retain_first.induct)
  case (1 key seen)
  then show ?case by simp
next
  case (2 key seen z xs)
  show ?case
  proof (cases "key z \<in> seen")
    case True
    with 2 show ?thesis by (auto simp: split_beta Let_def)
  next
    case False
    show ?thesis
    proof (cases "key z = key x")
      case True
      with False 2 show ?thesis by (auto simp: split_beta Let_def)
    next
      case diff: False
      then have "x \<in> set xs" "key x \<notin> insert (key z) seen" using "2.prems" by auto
      with "2.IH"(2) [OF False] "2.prems"(1) False show ?thesis
        by (auto simp: split_beta Let_def)
    qed
  qed
qed

lemma chosen_of_spec:
  shows "set (chosen_of candidates) \<subseteq> set candidates"
    "length (chosen_of candidates) \<le> BASELINE_WINDOW_MATCHES"
    "distinct (map (\<lambda>c. hm_demo_hash (fst c)) (chosen_of candidates))"
    "sorted_wrt recent_first (chosen_of candidates)"
proof -
  let ?u = "fst (retain_first (\<lambda>c. hm_demo_hash (fst c)) {} (sort_by recent_first candidates))"
  show "set (chosen_of candidates) \<subseteq> set candidates"
    using set_retain_first [of "\<lambda>c. hm_demo_hash (fst c)" "{}" "sort_by recent_first candidates"]
    by (auto simp: chosen_of_def dest: in_set_takeD)
  show "length (chosen_of candidates) \<le> BASELINE_WINDOW_MATCHES" by (simp add: chosen_of_def)
  have "distinct (map (\<lambda>c. hm_demo_hash (fst c)) ?u)" by (rule distinct_retain_first)
  then show "distinct (map (\<lambda>c. hm_demo_hash (fst c)) (chosen_of candidates))"
    by (simp add: chosen_of_def take_map [symmetric] distinct_take)
  have "sorted_wrt recent_first ?u"
    by (intro sorted_wrt_retain_first recency.sort_by_sorted) simp
  then show "sorted_wrt recent_first (chosen_of candidates)"
    by (simp add: chosen_of_def sorted_wrt_take)
qed

lemma left_out_reason:
  assumes "c \<in> set candidates" "c \<notin> set (chosen_of candidates)"
  shows "(\<exists>d\<in>set candidates. d \<noteq> c \<and> hm_demo_hash (fst d) = hm_demo_hash (fst c) \<and> recent_first d c)
    \<or> length (chosen_of candidates) = BASELINE_WINDOW_MATCHES
      \<and> (\<forall>d\<in>set (chosen_of candidates). recent_first d c)"
proof -
  let ?key = "\<lambda>c. hm_demo_hash (fst c)"
  let ?s = "sort_by recent_first candidates"
  let ?u = "fst (retain_first ?key {} ?s)"
  have s: "sorted_wrt recent_first ?s" by (rule recency.sort_by_sorted) simp
  obtain d where d: "d \<in> set ?u" "?key d = ?key c" "d = c \<or> recent_first d c"
    using retain_first_covers [OF s, of c ?key "{}"] assms(1) by auto
  have "d \<in> set candidates" using d(1) set_retain_first [of ?key "{}" ?s] by auto
  show ?thesis
  proof (cases "d = c")
    case False
    with d \<open>d \<in> set candidates\<close> show ?thesis by blast
  next
    case True
    with d(1) have "c \<in> set (take BASELINE_WINDOW_MATCHES ?u @ drop BASELINE_WINDOW_MATCHES ?u)" by simp
    then have drop: "c \<in> set (drop BASELINE_WINDOW_MATCHES ?u)"
      using assms(2) unfolding chosen_of_def set_append by blast
    then have "BASELINE_WINDOW_MATCHES < length ?u" by (cases "BASELINE_WINDOW_MATCHES < length ?u") auto
    moreover have "sorted_wrt recent_first (take BASELINE_WINDOW_MATCHES ?u @ drop BASELINE_WINDOW_MATCHES ?u)"
      using sorted_wrt_retain_first [OF s] by simp
    then have "\<forall>e\<in>set (take BASELINE_WINDOW_MATCHES ?u). recent_first e c"
      using drop by (auto simp only: sorted_wrt_append)
    ultimately show ?thesis by (simp add: chosen_of_def)
  qed
qed

section \<open>Medians in the field of rationals\<close>

definition rat_median :: "rat list \<Rightarrow> rat" where
  "rat_median xs = (let ys = sort xs; m = length xs div 2 in
     if odd (length xs) then ys ! m else (ys ! (m - 1) + ys ! m) / 2)"

lemma map_rat_of_sort:
  assumes "\<forall>x\<in>set xs. valid_rational x"
  shows "map rat_of (sort_by rat_le xs) = sort (map rat_of xs)"
  by (rule properties_for_sort [symmetric]) (auto simp: rational_order.sort_by_key [OF assms])

lemma median_Inr:
  assumes v: "\<forall>x\<in>set xs. valid_rational x" and m: "median xs = Inr q"
  shows "valid_rational q" "rat_of q = rat_median (map rat_of xs)" "xs \<noteq> []"
proof -
  let ?o = "sort_by rat_le xs" and ?m = "length xs div 2"
  show ne: "xs \<noteq> []" using m by (auto simp: median_def)
  then have lt: "?m < length xs" by (cases xs) auto
  have nth: "i < length xs \<Longrightarrow> rat_of (?o ! i) = sort (map rat_of xs) ! i" for i
    using map_rat_of_sort [OF v] by (metis length_sort_by nth_map)
  have val: "i < length xs \<Longrightarrow> valid_rational (?o ! i)" for i
    using v by (metis length_sort_by nth_mem set_sort_by)
  show "valid_rational q" "rat_of q = rat_median (map rat_of xs)"
  proof (atomize (full), cases "odd (length xs)")
    case True
    with ne m have "q = ?o ! ?m" by (simp add: median_def Let_def odd_iff_mod_2_eq_one)
    with True show "valid_rational q \<and> rat_of q = rat_median (map rat_of xs)"
      using nth [OF lt] val [OF lt] by (simp add: rat_median_def Let_def)
  next
    case False
    then have lt': "?m - 1 < length xs" using lt by linarith
    from False ne m obtain s where s: "checked_add (?o ! (?m - 1)) (?o ! ?m) = Inr s"
        "checked_div s (from_integer 2) = Inr q"
      by (auto simp: median_def Let_def odd_iff_mod_2_eq_one map_err_eq_Inr and_then_eq_Inr)
    from s(1) have s': "valid_rational s" "rat_of s = rat_of (?o ! (?m - 1)) + rat_of (?o ! ?m)"
      using val [OF lt] val [OF lt'] by (simp_all add: checked_add_encode encode_eq_Inr)
    have two: "valid_rational (from_integer 2)" by (simp add: i64_range_def i64_min_def i64_max_def)
    from s(2) have "valid_rational q" "rat_of q = rat_of s / 2"
      using checked_div_encode [OF s'(1) two] by (simp_all add: encode_eq_Inr split: if_splits)
    with False show "valid_rational q \<and> rat_of q = rat_median (map rat_of xs)"
      using s'(2) nth [OF lt] nth [OF lt'] by (simp add: rat_median_def Let_def)
  qed
qed

text \<open>At least half of the values are on either side of the median.\<close>

lemma length_filter_sort: "length (filter P (sort xs)) = length (filter P xs)"
  for xs :: "rat list"
  by (metis mset_filter mset_sort size_mset)

lemma sorted_prefix_le:
  assumes "sorted xs" "k < length xs" "xs ! k \<le> (c::rat)"
  shows "Suc k \<le> length (filter (\<lambda>x. x \<le> c) xs)"
proof -
  have "filter (\<lambda>x. x \<le> c) (take (Suc k) xs) = take (Suc k) xs"
  proof (rule filter_True, rule ballI)
    fix x assume "x \<in> set (take (Suc k) xs)"
    then obtain i where "i \<le> k" "x = xs ! i"
      using assms(2) by (auto simp: in_set_conv_nth less_Suc_eq_le)
    then show "x \<le> c" using assms sorted_nth_mono [of xs i k] by simp
  qed
  then have "Suc k = length (filter (\<lambda>x. x \<le> c) (take (Suc k) xs))" using assms(2) by simp
  also have "\<dots> \<le> length (filter (\<lambda>x. x \<le> c) (take (Suc k) xs @ drop (Suc k) xs))"
    unfolding filter_append length_append by (rule le_add1)
  also have "\<dots> = length (filter (\<lambda>x. x \<le> c) xs)" by simp
  finally show ?thesis .
qed

lemma half_below_median:
  assumes "xs \<noteq> []"
  shows "length xs \<le> 2 * length (filter (\<lambda>x. x \<le> rat_median xs) xs)"
proof -
  let ?o = "sort xs" and ?m = "length xs div 2"
  have lt: "?m < length ?o" using assms by (cases xs) auto
  show ?thesis
  proof (cases "odd (length xs)")
    case True
    then have "Suc ?m \<le> length (filter (\<lambda>x. x \<le> rat_median xs) ?o)"
      using lt by (intro sorted_prefix_le) (simp_all add: rat_median_def Let_def)
    then show ?thesis unfolding length_filter_sort by linarith
  next
    case False
    then have m: "0 < ?m" "?m - 1 < length ?o" "2 * ?m = length xs"
      using assms lt by (cases xs; auto)+
    have "?o ! (?m - 1) \<le> ?o ! ?m" using lt by (intro sorted_nth_mono) auto
    then have "?o ! (?m - 1) \<le> rat_median xs" using False by (simp add: rat_median_def Let_def)
    then have "Suc (?m - 1) \<le> length (filter (\<lambda>x. x \<le> rat_median xs) ?o)"
      using m by (intro sorted_prefix_le) simp_all
    then show ?thesis unfolding length_filter_sort using m by linarith
  qed
qed

lemma rat_median_between:
  assumes "xs \<noteq> []" "\<forall>x\<in>set xs. lo \<le> x \<and> x \<le> hi"
  shows "lo \<le> rat_median xs" "rat_median xs \<le> hi"
proof -
  let ?o = "sort xs" and ?m = "length xs div 2"
  have lt: "?m < length xs" "?m - 1 < length xs" using assms(1) by (cases xs; auto)+
  have "lo \<le> ?o ! i \<and> ?o ! i \<le> hi" if "i < length xs" for i
    using that assms(2) by (metis length_sort nth_mem set_sort)
  from this [OF lt(1)] this [OF lt(2)] show "lo \<le> rat_median xs" "rat_median xs \<le> hi"
    by (auto simp: rat_median_def Let_def)
qed

text \<open>The statistics are the median, the median absolute deviation and the clamped range.\<close>

definition deviations_of :: "rat list \<Rightarrow> rat list" where
  "deviations_of xs = map (\<lambda>x. \<bar>x - rat_median xs\<bar>) xs"

lemma Inr_eq_encode: "Inr q = encode r \<longleftrightarrow> valid_rational q \<and> rat_of q = r"
  using encode_eq_Inr [of r q] by metis

lemma robust_stats_Inr:
  assumes v: "\<forall>x\<in>set xs. valid_rational x" and c: "valid_rational lo" "valid_rational hi"
    and s: "robust_stats xs lo hi = Inr s"
  shows "xs \<noteq> []" "valid_rational (rs_median s)" "rat_of (rs_median s) = rat_median (map rat_of xs)"
    "valid_rational (rs_mad s)" "rat_of (rs_mad s) = rat_median (deviations_of (map rat_of xs))"
    "valid_rational (rs_lower s)" "valid_rational (rs_upper s)"
    "rat_of (rs_lower s) = min (max (rat_of (rs_median s) - 2 * rat_of (rs_mad s)) (rat_of lo)) (rat_of hi)"
    "rat_of (rs_upper s) = min (max (rat_of (rs_median s) + 2 * rat_of (rs_mad s)) (rat_of lo)) (rat_of hi)"
proof -
  have two: "valid_rational (from_integer 2)" by (simp add: i64_range_def i64_min_def i64_max_def)
  from s obtain center ds mad spread low high where steps: "median xs = Inr center"
      "collect_results (\<lambda>v. and_then (checked_sub v center) rat_abs) xs = Inr ds"
      "median ds = Inr mad" "checked_mul mad (from_integer 2) = Inr spread"
      "checked_sub center spread = Inr low" "checked_add center spread = Inr high"
      and fields: "rs_median s = center" "rs_mad s = mad" "rs_lower s = rat_clamp low lo hi"
      "rs_upper s = rat_clamp high lo hi"
    by (auto simp: robust_stats_def and_then_eq_Inr map_err_eq_Inr)
  note center = median_Inr [OF v steps(1)]
  have dev: "list_all2 (\<lambda>x d. valid_rational d \<and> rat_of d = \<bar>rat_of x - rat_of center\<bar>) xs ds"
  proof -
    have step: "valid_rational d \<and> rat_of d = \<bar>rat_of x - rat_of center\<bar>"
      if "x \<in> set xs" "and_then (checked_sub x center) rat_abs = Inr d" for x d
    proof -
      from that(2) obtain e where e: "checked_sub x center = Inr e" "rat_abs e = Inr d"
        by (auto simp: and_then_eq_Inr)
      then have e': "valid_rational e" "rat_of e = rat_of x - rat_of center"
        using checked_sub_encode [of x center] v that(1) center(1)
        by (auto simp: encode_eq_Inr split: if_splits)
      with e(2) show ?thesis using rat_abs_encode [OF e'(1)] by (simp add: encode_eq_Inr)
    qed
    have "list_all2 (\<lambda>x d. and_then (checked_sub x center) rat_abs = Inr d) xs ds"
      using steps(2) by (simp add: collect_results_Inr)
    then show ?thesis by (rule list.rel_mono_strong) (rule step)
  qed
  then have ds: "\<forall>d\<in>set ds. valid_rational d"
    by (auto simp: list_all2_conv_all_nth in_set_conv_nth)
  have "map rat_of ds = deviations_of (map rat_of xs)"
    using dev by (intro nth_equalityI) (auto simp: list_all2_conv_all_nth deviations_of_def center(2))
  with median_Inr [OF ds steps(3)] have mad: "valid_rational mad"
      "rat_of mad = rat_median (deviations_of (map rat_of xs))" by simp_all
  have spread: "valid_rational spread" "rat_of spread = 2 * rat_of mad"
    using checked_mul_encode [OF mad(1) two] steps(4) by (simp_all add: Inr_eq_encode encode_eq_Inr)
  have low: "valid_rational low" "rat_of low = rat_of center - 2 * rat_of mad"
    using checked_sub_encode [OF center(1) spread(1)] steps(5) spread(2)
    by (simp_all add: Inr_eq_encode encode_eq_Inr split: if_splits)
  have high: "valid_rational high" "rat_of high = rat_of center + 2 * rat_of mad"
    using checked_add_encode [OF center(1) spread(1)] steps(6) spread(2)
    by (simp_all add: Inr_eq_encode encode_eq_Inr)
  show "xs \<noteq> []" "valid_rational (rs_median s)" "rat_of (rs_median s) = rat_median (map rat_of xs)"
    "valid_rational (rs_mad s)" "rat_of (rs_mad s) = rat_median (deviations_of (map rat_of xs))"
    using center mad fields by simp_all
  show "valid_rational (rs_lower s)" "valid_rational (rs_upper s)"
    "rat_of (rs_lower s) = min (max (rat_of (rs_median s) - 2 * rat_of (rs_mad s)) (rat_of lo)) (rat_of hi)"
    "rat_of (rs_upper s) = min (max (rat_of (rs_median s) + 2 * rat_of (rs_mad s)) (rat_of lo)) (rat_of hi)"
    using low high c fields by (simp_all add: valid_rat_clamp rat_of_clamp)
qed

lemma rat_median_nonneg:
  assumes "xs \<noteq> []" "\<forall>x\<in>set xs. 0 \<le> x"
  shows "0 \<le> rat_median xs"
proof -
  have "\<forall>x\<in>set xs. 0 \<le> x \<and> x \<le> Max (set xs)" using assms(2) by simp
  then show ?thesis using rat_median_between(1) [OF assms(1)] by blast
qed

text \<open>At least half of the values lie within one deviation of the median, so in the range.\<close>

lemma length_filter_mono:
  "(\<And>x. x \<in> set xs \<Longrightarrow> P x \<Longrightarrow> Q x) \<Longrightarrow> length (filter P xs) \<le> length (filter Q xs)"
  by (induction xs) (auto simp: le_SucI)

lemma half_within_deviation:
  assumes "xs \<noteq> []"
  shows "length xs \<le> 2 * length (filter (\<lambda>x. \<bar>x - rat_median xs\<bar> \<le> rat_median (deviations_of xs)) xs)"
proof -
  have "length (deviations_of xs)
      \<le> 2 * length (filter (\<lambda>d. d \<le> rat_median (deviations_of xs)) (deviations_of xs))"
    by (rule half_below_median) (use assms in \<open>simp add: deviations_of_def\<close>)
  also have "filter (\<lambda>d. d \<le> rat_median (deviations_of xs)) (deviations_of xs)
      = map (\<lambda>x. \<bar>x - rat_median xs\<bar>)
          (filter (\<lambda>x. \<bar>x - rat_median xs\<bar> \<le> rat_median (deviations_of xs)) xs)"
    by (simp add: deviations_of_def filter_map comp_def)
  finally show ?thesis by (simp add: deviations_of_def)
qed

section \<open>Basis points never overflow the statistics\<close>

definition grid :: "nat \<Rightarrow> rational \<Rightarrow> bool" where
  "grid k q \<longleftrightarrow> valid_rational q \<and> multiple_of (int k) (rat_of q)"

lemma grid_numerator:
  assumes "grid k q" "0 < k" "\<bar>rat_of q\<bar> * of_nat k \<le> 2 ^ 62"
  shows "numerator q \<noteq> i64_min"
proof
  assume n: "numerator q = i64_min"
  let ?d = "denominator q"
  have d: "0 < ?d" "coprime (numerator q) ?d" "multiple_of (int k) (rat_of q)"
    using assms(1) by (auto simp: grid_def valid_rational_def)
  have x: "rat_of q = of_int (numerator q) / of_int ?d"
    by (simp add: rat_of_def Fract_of_int_quotient)
  from d(3) obtain j where "rat_of q * of_int (int k) = of_int j"
    by (auto simp: multiple_of_def elim: Ints_cases)
  then have "(of_int (numerator q * int k) :: rat) = of_int (j * ?d)"
    using d(1) by (simp add: x field_simps)
  then have "numerator q * int k = j * ?d" by (simp only: of_int_eq_iff)
  then have "?d dvd numerator q * int k" by simp
  then have "?d dvd int k" using d(2) by (simp add: coprime_dvd_mult_right_iff coprime_commute)
  then have "?d \<le> int k" using assms(2) by (simp add: zdvd_imp_le)
  have "\<bar>rat_of q\<bar> * of_int ?d = of_int \<bar>numerator q\<bar>" using d(1) by (simp add: x abs_divide)
  moreover have "\<bar>rat_of q\<bar> * of_int ?d \<le> \<bar>rat_of q\<bar> * of_int (int k)"
    using \<open>?d \<le> int k\<close> by (intro mult_left_mono) (simp_all only: of_int_le_iff abs_ge_zero)
  ultimately have "(of_int \<bar>numerator q\<bar> :: rat) \<le> 2 ^ 62" using assms(3) by simp
  with n show False by (simp add: i64_min_def)
qed

lemma grid_encode:
  assumes "multiple_of (int k) x" "0 < k" "k \<le> 8" "\<bar>x\<bar> \<le> 100000"
  shows "\<exists>q. encode x = Inr q \<and> grid k q \<and> rat_of q = x"
proof -
  have "\<bar>x\<bar> * of_int (int k) \<le> 100000 * 8" using assms by (intro mult_mono) auto
  then have "\<bar>x\<bar> * of_int (int k) \<le> of_int i64_max" by (simp add: i64_max_def)
  then show ?thesis
    using encode_fits [of "int k" x] assms by (auto simp: i64_max_def denotes_def grid_def)
qed

lemma grid_sub:
  assumes "grid k a" "grid k b" "0 < k" "k \<le> 8" "\<bar>rat_of a\<bar> \<le> 50000" "\<bar>rat_of b\<bar> \<le> 50000"
  shows "\<exists>q. checked_sub a b = Inr q \<and> grid k q \<and> rat_of q = rat_of a - rat_of b"
proof -
  have "\<bar>rat_of b\<bar> * of_nat k \<le> 50000 * 8" using assms by (intro mult_mono) auto
  then have "numerator b \<noteq> i64_min" by (intro grid_numerator [OF assms(2,3)]) simp
  moreover have "multiple_of (int k) (rat_of a - rat_of b)"
    using assms(1,2) by (auto simp: grid_def multiple_of_def left_diff_distrib)
  moreover have "\<bar>rat_of a - rat_of b\<bar> \<le> 100000" using assms(5,6) by linarith
  ultimately show ?thesis
    using checked_sub_encode [of a b] assms grid_encode [of k "rat_of a - rat_of b"]
    by (auto simp: grid_def)
qed

lemma grid_add:
  assumes "grid k a" "grid k b" "0 < k" "k \<le> 8" "\<bar>rat_of a\<bar> \<le> 50000" "\<bar>rat_of b\<bar> \<le> 50000"
  shows "\<exists>q. checked_add a b = Inr q \<and> grid k q \<and> rat_of q = rat_of a + rat_of b"
proof -
  have "multiple_of (int k) (rat_of a + rat_of b)"
    using assms(1,2) by (simp add: grid_def multiple_of_add)
  moreover have "\<bar>rat_of a + rat_of b\<bar> \<le> 100000" using assms(5,6) by linarith
  ultimately show ?thesis
    using checked_add_encode [of a b] assms grid_encode [of k "rat_of a + rat_of b"]
    by (auto simp: grid_def)
qed

lemma grid_abs:
  assumes "grid k a" "0 < k" "k \<le> 8" "\<bar>rat_of a\<bar> \<le> 100000"
  shows "\<exists>q. rat_abs a = Inr q \<and> grid k q \<and> rat_of q = \<bar>rat_of a\<bar>"
proof -
  have "multiple_of (int k) \<bar>rat_of a\<bar>"
    using assms(1) by (auto simp: grid_def multiple_of_def abs_if)
  then show ?thesis
    using rat_abs_encode [of a] assms grid_encode [of k "\<bar>rat_of a\<bar>"] by (auto simp: grid_def)
qed

lemma grid_refine: "grid k a \<Longrightarrow> k dvd l \<Longrightarrow> grid l a"
  unfolding grid_def using multiple_of_dvd by (metis int_dvd_int_iff)

lemma grid_median:
  assumes "xs \<noteq> []" and g: "\<forall>x\<in>set xs. grid k x \<and> \<bar>rat_of x\<bar> \<le> 50000" and k: "0 < k" "k \<le> 4"
  shows "\<exists>q. median xs = Inr q \<and> grid (2 * k) q"
proof -
  let ?o = "sort_by rat_le xs" and ?m = "length xs div 2"
  have lt: "?m < length xs" "?m - 1 < length xs" using assms(1) by (cases xs; auto)+
  have elem: "grid k (?o ! i) \<and> \<bar>rat_of (?o ! i)\<bar> \<le> 50000" if "i < length xs" for i
    using that g by (metis length_sort_by nth_mem set_sort_by)
  have fine: "grid (2 * k) (?o ! ?m)" using elem [OF lt(1)] by (auto intro: grid_refine)
  have two: "valid_rational (from_integer 2)" by (simp add: i64_range_def i64_min_def i64_max_def)
  obtain s where s: "checked_add (?o ! (?m - 1)) (?o ! ?m) = Inr s" "grid k s"
      "rat_of s = rat_of (?o ! (?m - 1)) + rat_of (?o ! ?m)"
    using grid_add [of k] elem [OF lt(1)] elem [OF lt(2)] k by fastforce
  have "rat_of s / 2 * of_int (int (2 * k)) = rat_of s * of_int (int k)" by simp
  then have "multiple_of (int (2 * k)) (rat_of s / 2)"
    using s(2) by (simp only: grid_def multiple_of_def)
  moreover have "\<bar>rat_of s / 2\<bar> \<le> 100000"
    using s(3) elem [OF lt(1)] elem [OF lt(2)] by linarith
  ultimately obtain q where q: "checked_div s (from_integer 2) = Inr q" "grid (2 * k) q"
    using checked_div_encode [OF _ two, of s] s(2) grid_encode [of "2 * k" "rat_of s / 2"] k
    by (auto simp: grid_def)
  show ?thesis
    using assms(1) s(1) q fine by (auto simp: median_def Let_def)
qed

lemma grid_dev:
  assumes "grid 1 v" "grid 2 center" "0 \<le> rat_of v" "rat_of v \<le> 20000"
    "0 \<le> rat_of center" "rat_of center \<le> 20000"
  shows "\<exists>d. and_then (checked_sub v center) rat_abs = Inr d \<and> grid 2 d \<and> 0 \<le> rat_of d \<and> rat_of d \<le> 20000"
proof -
  have "grid 2 v" using assms(1) by (rule grid_refine) simp
  then obtain e where e: "checked_sub v center = Inr e" "grid 2 e" "rat_of e = rat_of v - rat_of center"
    using grid_sub [of 2 v center] assms by auto
  moreover from e(3) have b: "\<bar>rat_of e\<bar> \<le> 20000" using assms by linarith
  ultimately show ?thesis using grid_abs [of 2 e] by auto
qed

lemma median_range:
  assumes "median xs = Inr q" "\<forall>x\<in>set xs. valid_rational x \<and> lo \<le> rat_of x \<and> rat_of x \<le> hi"
  shows "lo \<le> rat_of q \<and> rat_of q \<le> hi"
proof -
  have v: "\<forall>x\<in>set xs. valid_rational x" using assms(2) by simp
  note m = median_Inr [OF v assms(1)]
  then show ?thesis using rat_median_between [of "map rat_of xs" lo hi] assms(2) by auto
qed

lemma collect_results_total:
  "\<forall>x\<in>set xs. \<exists>y. f x = Inr y \<and> P y \<Longrightarrow>
    \<exists>ys. collect_results f xs = Inr ys \<and> length ys = length xs \<and> (\<forall>y\<in>set ys. P y)"
  by (induction xs) auto

lemma robust_stats_total:
  assumes "xs \<noteq> []" "\<forall>x\<in>set xs. grid 1 x \<and> 0 \<le> rat_of x \<and> rat_of x \<le> 20000"
  shows "\<exists>s. robust_stats xs lo hi = Inr s"
proof -
  obtain center where c: "median xs = Inr center" "grid 2 center"
    using grid_median [OF assms(1), of 1] assms(2) by fastforce
  have cr: "0 \<le> rat_of center \<and> rat_of center \<le> 20000"
    using median_range [OF c(1), of 0 20000] assms(2) by (simp add: grid_def)
  have "\<forall>x\<in>set xs. \<exists>d. and_then (checked_sub x center) rat_abs = Inr d
      \<and> (grid 2 d \<and> 0 \<le> rat_of d \<and> rat_of d \<le> 20000)"
    using assms(2) c(2) cr grid_dev by blast
  from collect_results_total [OF this] obtain ds where ds:
      "collect_results (\<lambda>v. and_then (checked_sub v center) rat_abs) xs = Inr ds"
      "length ds = length xs" "\<forall>d\<in>set ds. grid 2 d \<and> 0 \<le> rat_of d \<and> rat_of d \<le> 20000"
    by blast
  then have "ds \<noteq> []" using assms(1) by auto
  then obtain mad where m: "median ds = Inr mad" "grid 4 mad"
    using grid_median [of ds 2] ds(3) by fastforce
  have mr: "0 \<le> rat_of mad \<and> rat_of mad \<le> 20000"
    using median_range [OF m(1), of 0 20000] ds(3) by (simp add: grid_def)
  have two: "valid_rational (from_integer 2)" by (simp add: i64_range_def i64_min_def i64_max_def)
  have "multiple_of 4 (rat_of mad + rat_of mad)"
    using m(2) unfolding grid_def by (intro multiple_of_add) simp_all
  then have "multiple_of 4 (rat_of mad * 2)" by (simp only: mult_2_right)
  then obtain spread where sp: "checked_mul mad (from_integer 2) = Inr spread" "grid 4 spread"
      "rat_of spread = rat_of mad * 2"
    using checked_mul_encode [OF _ two, of mad] grid_encode [of 4 "rat_of mad * 2"] m(2) mr
    by (auto simp: grid_def)
  have c4: "grid 4 center" using c(2) by (rule grid_refine) simp
  obtain low where low: "checked_sub center spread = Inr low"
    using grid_sub [OF c4 sp(2)] sp(3) cr mr by auto
  obtain high where high: "checked_add center spread = Inr high"
    using grid_add [OF c4 sp(2)] sp(3) cr mr by auto
  show ?thesis by (simp add: robust_stats_def c(1) ds(1) m(1) sp(1) low high)
qed

section \<open>Properties of baselines\<close>

text \<open>
  C3: Every match of the history is accounted for: its id is either included or listed exactly
  once among the exclusions. At most twenty matches enter, no demo twice, each of them
  canonical, of the query's series, with an ordered interval that ends by the cutoff; statistics
  exist if and only if at least ten were selected.
\<close>
theorem cohort_accounted:
  assumes "build_lens history query side = Inr r"
  shows "mset (br_included_match_ids r) + mset (map ce_match_id (br_exclusions r))
      = mset (map hm_match_id history)
    \<and> length (br_included_match_ids r) \<le> BASELINE_WINDOW_MATCHES
    \<and> distinct (br_included_demo_hashes r)
    \<and> (br_stats r \<noteq> None \<longleftrightarrow> BASELINE_MINIMUM_MATCHES \<le> length (br_included_match_ids r))
    \<and> br_maturity r = maturity_of (length (br_included_match_ids r))
    \<and> (\<forall>id\<in>set (br_included_match_ids r). \<exists>m\<in>set history. \<exists>i. hm_match_id m = id
        \<and> hm_series m = q_series query \<and> hm_canonical m \<and> hm_trend_exclusion m = None
        \<and> hm_interval m = Some i \<and> start_utc_ms i \<le> end_utc_ms i
        \<and> end_utc_ms i \<le> q_cutoff_start_utc_ms query)"
proof -
  let ?k = "lens_kind query side"
  let ?c = "lens_candidates query side ?k history"
  have ok: "side = None \<or> ?k \<noteq> None"
    and fin: "finalize_baseline ?c (lens_exclusions query side ?k history) query = Inr r"
    using assms by (auto simp: build_lens_eq lens_kind_def split: if_splits baseline_field.splits option.splits)
  note f = finalize_fields [OF fin]
  have "cohort_reason m query = None \<and> m \<in> set history" if "(m, v) \<in> set ?c" for m v
    using that by (auto simp: lens_candidates_def lens_step_def split: option.splits sum.splits)
  then have "\<forall>c\<in>set (chosen_of ?c). cohort_reason (fst c) query = None \<and> fst c \<in> set history"
    using chosen_of_spec(1) [of ?c] by (metis prod.collapse subsetD)
  moreover have "\<exists>i. hm_series m = q_series query \<and> hm_canonical m \<and> hm_trend_exclusion m = None
      \<and> hm_interval m = Some i \<and> start_utc_ms i \<le> end_utc_ms i
      \<and> end_utc_ms i \<le> q_cutoff_start_utc_ms query" if "cohort_reason m query = None" for m
    using that by (auto simp: cohort_reason_def split: if_splits option.splits)
  ultimately have "\<forall>id\<in>set (br_included_match_ids r). \<exists>m\<in>set history. \<exists>i. hm_match_id m = id
        \<and> hm_series m = q_series query \<and> hm_canonical m \<and> hm_trend_exclusion m = None
        \<and> hm_interval m = Some i \<and> start_utc_ms i \<le> end_utc_ms i
        \<and> end_utc_ms i \<le> q_cutoff_start_utc_ms query"
    unfolding f(1) by fastforce
  moreover have "br_stats r \<noteq> None \<longleftrightarrow> BASELINE_MINIMUM_MATCHES \<le> length (br_included_match_ids r)"
    using f(1,6) by auto
  ultimately show ?thesis
    using finalize_accounts [OF fin] lens_partition [OF ok, of query history] f chosen_of_spec [of ?c]
    by simp
qed

text \<open>A match of the local player, for the applications below.\<close>

definition sample_series :: calculation_series where
  "sample_series = ofr_v1_series ''local'' ''commit'' ''parser'' ''proto'' ''schema'' ''metrics'' ''epoch''"

definition sample_match :: "string \<Rightarrow> nat \<Rightarrow> history_match" where
  "sample_match name start =
     \<lparr>hm_match_id = name, hm_demo_hash = name, hm_calculation_run_id = ''run'',
      hm_series = sample_series, hm_canonical = True, hm_map = Known ''de_mirage'',
      hm_interval = Some \<lparr>start_utc_ms = start, end_utc_ms = start + 5000\<rparr>,
      hm_rating = Some (RatingBasisPoints 10000), hm_components = None,
      hm_side_vectors = (\<lambda>_. None), hm_trend_exclusion = None\<rparr>"

definition sample_query :: "nat \<Rightarrow> baseline_query" where
  "sample_query cutoff = \<lparr>q_series = sample_series, q_cutoff_start_utc_ms = cutoff,
     q_field = RatingField, q_scope = AllMaps\<rparr>"

lemma sample_baseline:
  "\<exists>r. build_baseline [sample_match ''a'' 0, sample_match ''b'' 10000] (sample_query 9000) = Inr r
    \<and> br_included_match_ids r = [''a'']"
  by (simp add: build_baseline_def build_lens_def lens_step_def cohort_reason_def
    sample_match_def sample_query_def match_value_def finalize_baseline_def
    BASELINE_WINDOW_MATCHES_def BASELINE_MINIMUM_MATCHES_def)

theorem cohort_accounted_witness:
  "\<exists>r. build_lens [sample_match ''a'' 0, sample_match ''b'' 10000] (sample_query 9000) None = Inr r
    \<and> mset (br_included_match_ids r) + mset (map ce_match_id (br_exclusions r))
      = {# ''a'', ''b'' #}"
proof -
  obtain r where r: "build_lens [sample_match ''a'' 0, sample_match ''b'' 10000] (sample_query 9000) None = Inr r"
    using sample_baseline by (auto simp: build_baseline_def)
  from cohort_accounted [OF this] r show ?thesis by (simp add: sample_match_def)
qed

text \<open>
  The window is the most recent one: the included matches are listed from the latest end
  backwards, and a match that qualifies but is left out is either a second run of the same demo
  with one at least as recent, or no more recent than any of the twenty included.
\<close>
theorem window_is_most_recent:
  assumes "build_baseline history query = Inr r"
    and "m \<in> set history" and "cohort_reason m query = None"
    and "match_value m (q_field query) = Some v"
  shows "\<exists>chosen. set (map fst chosen) \<subseteq> set history
    \<and> br_included_match_ids r = map (hm_match_id \<circ> fst) chosen
    \<and> br_selected_values r = map snd chosen
    \<and> sorted_wrt (\<lambda>c d. match_end (fst d) \<le> match_end (fst c)) chosen
    \<and> (\<forall>c\<in>set chosen. match_value (fst c) (q_field query) = Some (snd c))
    \<and> ((m, v) \<in> set chosen
      \<or> (\<exists>d\<in>set history. hm_demo_hash d = hm_demo_hash m \<and> match_end m \<le> match_end d
          \<and> cohort_reason d query = None \<and> d \<noteq> m)
      \<or> length chosen = BASELINE_WINDOW_MATCHES
        \<and> (\<forall>c\<in>set chosen. match_end m \<le> match_end (fst c)))"
proof -
  let ?c = "lens_candidates query None (lens_kind query None) history"
  have fin: "finalize_baseline ?c (lens_exclusions query None (lens_kind query None) history) query = Inr r"
    using assms(1) by (simp add: build_baseline_def build_lens_eq)
  have cand: "(d, w) \<in> set ?c \<longleftrightarrow> d \<in> set history \<and> cohort_reason d query = None
      \<and> match_value d (q_field query) = Some w" for d w
    by (auto simp: lens_candidates_def lens_step_def split: option.splits sum.splits)
  have "(m, v) \<in> set ?c" using assms(2-4) by (simp add: cand)
  then have left: "(m, v) \<in> set (chosen_of ?c)
      \<or> (\<exists>d\<in>set history. hm_demo_hash d = hm_demo_hash m \<and> match_end m \<le> match_end d
          \<and> cohort_reason d query = None \<and> d \<noteq> m)
      \<or> length (chosen_of ?c) = BASELINE_WINDOW_MATCHES
        \<and> (\<forall>c\<in>set (chosen_of ?c). match_end m \<le> match_end (fst c))"
  proof (cases "(m, v) \<in> set (chosen_of ?c)")
    case False
    from left_out_reason [OF \<open>(m, v) \<in> set ?c\<close> False] show ?thesis
    proof
      assume "\<exists>d\<in>set ?c. d \<noteq> (m, v) \<and> hm_demo_hash (fst d) = hm_demo_hash (fst (m, v))
        \<and> recent_first d (m, v)"
      then obtain c where c: "c \<in> set ?c" "c \<noteq> (m, v)"
          "hm_demo_hash (fst c) = hm_demo_hash (fst (m, v))" "recent_first c (m, v)"
        by blast
      have "fst c \<in> set history \<and> cohort_reason (fst c) query = None \<and> fst c \<noteq> m"
        using cand [of "fst c" "snd c"] c(1,2) assms(4) by (auto simp: prod_eq_iff)
      with c(3) recent_first_end [OF c(4)] show ?thesis by auto
    next
      assume full: "length (chosen_of ?c) = BASELINE_WINDOW_MATCHES
        \<and> (\<forall>d\<in>set (chosen_of ?c). recent_first d (m, v))"
      have "match_end m \<le> match_end (fst d)" if "recent_first d (m, v)" for d
        using recent_first_end [OF that] by simp
      with full show ?thesis by blast
    qed
  qed simp
  have "set (map fst (chosen_of ?c)) \<subseteq> set history"
    "\<forall>c\<in>set (chosen_of ?c). match_value (fst c) (q_field query) = Some (snd c)"
    using chosen_of_spec(1) [of ?c] cand by (auto simp: subset_eq)
  moreover have "sorted_wrt (\<lambda>c d. match_end (fst d) \<le> match_end (fst c)) (chosen_of ?c)"
    by (rule sorted_wrt_mono_rel [OF _ chosen_of_spec(4)]) (auto simp: recent_first_def)
  ultimately show ?thesis
    using left finalize_fields [OF fin] by (intro exI [of _ "chosen_of ?c"]) (simp add: comp_def)
qed

theorem window_is_most_recent_witness:
  "\<exists>r (chosen :: (history_match \<times> rational) list). build_baseline [sample_match ''a'' 0, sample_match ''b'' 10000] (sample_query 9000) = Inr r
    \<and> br_included_match_ids r = map (hm_match_id \<circ> fst) chosen
    \<and> br_selected_values r = map snd chosen"
proof -
  obtain r where r: "build_baseline [sample_match ''a'' 0, sample_match ''b'' 10000] (sample_query 9000) = Inr r"
    using sample_baseline by auto
  have m: "sample_match ''a'' 0 \<in> set [sample_match ''a'' 0, sample_match ''b'' 10000]"
    "cohort_reason (sample_match ''a'' 0) (sample_query 9000) = None"
    "match_value (sample_match ''a'' 0) (q_field (sample_query 9000)) = Some (bp_exact (RatingBasisPoints 10000))"
    by (simp_all add: cohort_reason_def sample_match_def sample_query_def match_value_def)
  from window_is_most_recent [OF r m] obtain chosen :: "(history_match \<times> rational) list"
    where "br_included_match_ids r = map (hm_match_id \<circ> fst) chosen"
      "br_selected_values r = map snd chosen" by (elim exE conjE)
  with r show ?thesis by (intro exI conjI)
qed

text \<open>
  A match that does not belong to the cohort never influences it: a match of another series,
  a superseded run, an excluded one, one without or with a reversed interval, or one that ended
  after the cutoff can be inserted anywhere in the history and changes nothing of the baseline
  but the list of exclusions.
\<close>
theorem baseline_ignores_outsiders:
  assumes "hm_series x \<noteq> q_series query \<or> \<not> hm_canonical x \<or> hm_trend_exclusion x \<noteq> None
    \<or> hm_interval x = None
    \<or> (\<exists>i. hm_interval x = Some i \<and>
        (end_utc_ms i < start_utc_ms i \<or> q_cutoff_start_utc_ms query < end_utc_ms i))"
  shows "(case build_lens (xs @ ys) query side of
      Inl e \<Rightarrow> build_lens (xs @ x # ys) query side = Inl e
    | Inr r \<Rightarrow> \<exists>es. build_lens (xs @ x # ys) query side = Inr (r\<lparr>br_exclusions := es\<rparr>))"
proof -
  have "cohort_reason x query \<noteq> None"
    using assms by (auto simp: cohort_reason_def split: if_splits option.splits)
  then obtain why where why: "cohort_reason x query = Some why" by blast
  have "lens_candidates query side k (xs @ x # ys) = lens_candidates query side k (xs @ ys)" for k
    by (simp add: lens_candidates_def lens_step_def why)
  note same = this
  have fin: "(case finalize_baseline cs es query of
      Inl e \<Rightarrow> finalize_baseline cs es' query = Inl e
    | Inr r \<Rightarrow> \<exists>ex. finalize_baseline cs es' query = Inr (r\<lparr>br_exclusions := ex\<rparr>))" for cs es es'
    by (cases "window_stats query (chosen_of cs)") (simp_all add: finalize_eq Let_def)
  show ?thesis
  proof (cases "side \<noteq> None \<and> q_field query = RatingField")
    case True
    then show ?thesis by (simp add: build_lens_eq)
  next
    case False
    then show ?thesis by (simp only: build_lens_eq if_False same fin)
  qed
qed

theorem baseline_ignores_outsiders_witness:
  "\<exists>r es. build_lens [sample_match ''a'' 0] (sample_query 9000) None = Inr r
    \<and> build_lens [sample_match ''a'' 0, sample_match ''b'' 10000] (sample_query 9000) None
      = Inr (r\<lparr>br_exclusions := es\<rparr>)"
proof -
  have "q_cutoff_start_utc_ms (sample_query 9000) < end_utc_ms \<lparr>start_utc_ms = 10000, end_utc_ms = 15000\<rparr>"
    "hm_interval (sample_match ''b'' 10000) = Some \<lparr>start_utc_ms = 10000, end_utc_ms = 15000\<rparr>"
    by (simp_all add: sample_query_def sample_match_def)
  then have "hm_series (sample_match ''b'' 10000) \<noteq> q_series (sample_query 9000)
    \<or> \<not> hm_canonical (sample_match ''b'' 10000) \<or> hm_trend_exclusion (sample_match ''b'' 10000) \<noteq> None
    \<or> hm_interval (sample_match ''b'' 10000) = None
    \<or> (\<exists>i. hm_interval (sample_match ''b'' 10000) = Some i \<and> (end_utc_ms i < start_utc_ms i
        \<or> q_cutoff_start_utc_ms (sample_query 9000) < end_utc_ms i))" by blast
  from baseline_ignores_outsiders [OF this, of "[sample_match ''a'' 0]" "[]" None] show ?thesis
    by (cases "build_lens [sample_match ''a'' 0] (sample_query 9000) None")
      (auto simp: build_lens_eq finalize_eq window_stats_def chosen_of_def lens_candidates_def
        lens_step_def cohort_reason_def match_value_def sample_match_def sample_query_def
        BASELINE_WINDOW_MATCHES_def BASELINE_MINIMUM_MATCHES_def)
qed

text \<open>
  The statistics are exact and meaningful: the median and the median absolute deviation are
  those of the rationals the values denote, the range is twice the deviation around the median,
  clamped to the scale; it contains the median, and at least half of the selected values.
\<close>
theorem robust_stats_exact:
  assumes "\<forall>x\<in>set xs. valid_rational x \<and> rat_of lo \<le> rat_of x \<and> rat_of x \<le> rat_of hi"
    and "valid_rational lo" and "valid_rational hi" and "robust_stats xs lo hi = Inr s"
  shows "rat_of (rs_median s) = rat_median (map rat_of xs)
    \<and> rat_of (rs_mad s) = rat_median (deviations_of (map rat_of xs))
    \<and> rat_of (rs_lower s) = max (rat_of (rs_median s) - 2 * rat_of (rs_mad s)) (rat_of lo)
    \<and> rat_of (rs_upper s) = min (rat_of (rs_median s) + 2 * rat_of (rs_mad s)) (rat_of hi)
    \<and> rat_le (rs_lower s) (rs_median s) \<and> rat_le (rs_median s) (rs_upper s)
    \<and> length xs \<le> 2 * length (filter (\<lambda>x. rat_le (rs_lower s) x \<and> rat_le x (rs_upper s)) xs)"
proof -
  have v: "\<forall>x\<in>set xs. valid_rational x" using assms(1) by simp
  note r = robust_stats_Inr [OF v assms(2-4)]
  let ?m = "rat_median (map rat_of xs)" and ?d = "rat_median (deviations_of (map rat_of xs))"
  have m: "rat_of lo \<le> ?m" "?m \<le> rat_of hi"
    using rat_median_between [of "map rat_of xs" "rat_of lo" "rat_of hi"] r(1) assms(1) by auto
  have d: "0 \<le> ?d"
    by (rule rat_median_nonneg) (use r(1) in \<open>auto simp: deviations_of_def\<close>)
  have lower: "rat_of (rs_lower s) = max (?m - 2 * ?d) (rat_of lo)"
    and upper: "rat_of (rs_upper s) = min (?m + 2 * ?d) (rat_of hi)"
    using r m d by (auto simp: min_def max_def)
  have "length xs \<le> 2 * length (filter (\<lambda>x. \<bar>x - ?m\<bar> \<le> ?d) (map rat_of xs))"
    using half_within_deviation [of "map rat_of xs"] r(1) by simp
  also have "length (filter (\<lambda>x. \<bar>x - ?m\<bar> \<le> ?d) (map rat_of xs))
      = length (filter (\<lambda>x. \<bar>rat_of x - ?m\<bar> \<le> ?d) xs)"
    by (simp add: filter_map comp_def)
  also have "\<dots> \<le> length (filter (\<lambda>x. rat_le (rs_lower s) x \<and> rat_le x (rs_upper s)) xs)"
  proof -
    have "rat_le (rs_lower s) x \<and> rat_le x (rs_upper s)"
      if "x \<in> set xs" "\<bar>rat_of x - ?m\<bar> \<le> ?d" for x
    proof -
      have "?m - 2 * ?d \<le> rat_of x" "rat_of x \<le> ?m + 2 * ?d" using that(2) d by linarith+
      then show ?thesis
        using that(1) assms(1) r(6,7) lower upper by (simp add: rat_le_iff)
    qed
    then show ?thesis by (intro length_filter_mono) blast
  qed
  finally have half: "length xs \<le> 2 * length (filter (\<lambda>x. rat_le (rs_lower s) x \<and> rat_le x (rs_upper s)) xs)"
    by simp
  have "rat_le (rs_lower s) (rs_median s)" "rat_le (rs_median s) (rs_upper s)"
    using r m d lower upper by (simp_all add: rat_le_iff)
  with half lower upper r show ?thesis by simp
qed

lemma bp_grid:
  assumes "valid_bp b"
  shows "grid 1 (bp_exact b)" "0 \<le> rat_of (bp_exact b)" "rat_of (bp_exact b) \<le> 20000"
proof -
  obtain k where k: "rat_of (bp_exact b) = of_int k" "0 \<le> k" "k \<le> 20000"
  proof (rule that)
    show "uint (bp_get b) \<le> 20000"
      using assms by (simp add: valid_bp_def rating_bp_max_def word_le_def)
    show "0 \<le> uint (bp_get b)" by (rule uint_ge_0)
  qed (rule valid_bp_exact(2))
  then have "0 \<le> (of_int k :: rat)" "(of_int k :: rat) \<le> of_int 20000"
    by (simp_all only: of_int_le_iff of_int_0_le_iff)
  with k(1) show "grid 1 (bp_exact b)" "0 \<le> rat_of (bp_exact b)" "rat_of (bp_exact b) \<le> 20000"
    by (simp_all add: grid_def valid_bp_exact(1) multiple_of_def)
qed

theorem robust_stats_exact_witness:
  "\<exists>s. robust_stats (map from_integer [10, 20, 40]) rat_zero (from_integer 20000) = Inr s
    \<and> rat_of (rs_median s) = 20"
proof -
  let ?xs = "map from_integer [10, 20, 40]"
  have "\<forall>x\<in>set ?xs. grid 1 x \<and> 0 \<le> rat_of x \<and> rat_of x \<le> 20000"
    by (simp add: grid_def multiple_of_def i64_range_def i64_min_def i64_max_def)
  then obtain s where s: "robust_stats ?xs rat_zero (from_integer 20000) = Inr s"
    using robust_stats_total [of ?xs rat_zero "from_integer 20000"] by auto
  have h: "valid_rational (from_integer 20000)" "\<forall>x\<in>set ?xs. valid_rational x
      \<and> rat_of rat_zero \<le> rat_of x \<and> rat_of x \<le> rat_of (from_integer 20000)"
    by (simp_all add: i64_range_def i64_min_def i64_max_def)
  from robust_stats_exact [OF h(2) valid_constants(1) h(1) s]
  have "rat_of (rs_median s) = rat_median (map rat_of ?xs)" by blast
  then show ?thesis using s by (simp add: rat_median_def)
qed

text \<open>
  The baseline of the rating always comes out: whatever the history, if its ratings are
  within the scale, no fraction of the statistics overflows and the query has a receipt.
\<close>
theorem rating_baseline_total:
  assumes "\<forall>m\<in>set history. \<forall>b. hm_rating m = Some b \<longrightarrow> valid_bp b"
    and "q_field query = RatingField"
  shows "\<exists>r. build_baseline history query = Inr r"
proof -
  let ?c = "lens_candidates query None (lens_kind query None) history"
  have "grid 1 (snd c) \<and> 0 \<le> rat_of (snd c) \<and> rat_of (snd c) \<le> 20000" if "c \<in> set ?c" for c
  proof -
    from that obtain b where b: "fst c \<in> set history" "hm_rating (fst c) = Some b" "snd c = bp_exact b"
      using assms(2)
      by (auto simp: lens_candidates_def lens_step_def match_value_def split: option.splits sum.splits)
    have "valid_bp b" using b(1,2) assms(1) by simp
    from bp_grid [OF this] show ?thesis by (simp add: b(3))
  qed
  then have "\<forall>c\<in>set (chosen_of ?c). grid 1 (snd c) \<and> 0 \<le> rat_of (snd c) \<and> rat_of (snd c) \<le> 20000"
    using chosen_of_spec(1) [of ?c] by blast
  then have vals: "\<forall>v\<in>set (map snd (chosen_of ?c)). grid 1 v \<and> 0 \<le> rat_of v \<and> rat_of v \<le> 20000"
    by simp
  have "\<exists>stats. window_stats query (chosen_of ?c) = Inr stats"
  proof (cases "length (chosen_of ?c) < BASELINE_MINIMUM_MATCHES")
    case False
    then have "map snd (chosen_of ?c) \<noteq> []" by (auto simp: BASELINE_MINIMUM_MATCHES_def)
    from robust_stats_total [OF this vals, of rat_zero "from_integer 20000"] False assms(2)
    show ?thesis by (auto simp: window_stats_def)
  qed (simp add: window_stats_def)
  then show ?thesis
    using assms(2) by (auto simp: build_baseline_def build_lens_eq finalize_eq Let_def)
qed

theorem rating_baseline_total_witness:
  "\<exists>r. build_baseline (map (sample_match ''m'') [0, 10000, 20000]) (sample_query 90000) = Inr r"
  by (rule rating_baseline_total)
    (auto simp: sample_match_def sample_query_def valid_bp_def rating_bp_max_def)

section \<open>Sessions are separated chains of matches\<close>

type_synonym timed_match = "history_match \<times> match_interval"

definition timed :: "history_match list \<Rightarrow> timed_match \<Rightarrow> bool" where
  "timed history p \<longleftrightarrow> fst p \<in> set history \<and> hm_interval (fst p) = Some (snd p)
     \<and> start_utc_ms (snd p) \<le> end_utc_ms (snd p)"

text \<open>The next match starts after the previous ended, within the gap.\<close>

definition follows :: "timed_match \<Rightarrow> timed_match \<Rightarrow> bool" where
  "follows p q \<longleftrightarrow> end_utc_ms (snd p) < start_utc_ms (snd q)
     \<and> start_utc_ms (snd q) \<le> end_utc_ms (snd p) + SESSION_GAP_MS"

definition chain_of :: "history_match list \<Rightarrow> session \<Rightarrow> timed_match list \<Rightarrow> bool" where
  "chain_of history s chain \<longleftrightarrow> chain \<noteq> [] \<and> (\<forall>p\<in>set chain. timed history p)
     \<and> successively follows chain
     \<and> se_match_ids s = map (\<lambda>p. hm_match_id (fst p)) chain
     \<and> se_start_utc_ms s = start_utc_ms (snd (hd chain))
     \<and> se_end_utc_ms s = end_utc_ms (snd (last chain))"

lemma chain_start_le_end:
  assumes "chain \<noteq> []" "\<forall>p\<in>set chain. start_utc_ms (snd p) \<le> end_utc_ms (snd p)"
    "successively follows chain"
  shows "start_utc_ms (snd (hd chain)) \<le> end_utc_ms (snd (last chain))"
  using assms
proof (induction chain)
  case (Cons p chain)
  then show ?case by (cases chain) (auto simp: follows_def)
qed simp

lemma chain_extend:
  assumes "chain_of history s chain" "timed history p" "follows (last chain) p"
  shows "chain_of history
    (s\<lparr>se_match_ids := se_match_ids s @ [hm_match_id (fst p)], se_end_utc_ms := end_utc_ms (snd p)\<rparr>)
    (chain @ [p])"
  using assms by (auto simp: chain_of_def successively_append_iff)

definition sessions_ok :: "history_match list \<Rightarrow> timed_match list
    \<Rightarrow> session list \<times> cohort_exclusion list \<Rightarrow> cohort_exclusion list \<Rightarrow> bool" where
  "sessions_ok history seen st es \<longleftrightarrow>
     sorted_wrt (\<lambda>later earlier. se_end_utc_ms earlier + SESSION_GAP_MS < se_start_utc_ms later) (fst st)
     \<and> (\<forall>s\<in>set (fst st). \<exists>chain. chain_of history s chain)
     \<and> mset (concat (map se_match_ids (fst st))) + mset (map ce_match_id (snd st))
       = mset (map (\<lambda>p. hm_match_id (fst p)) seen) + mset (map ce_match_id es)"

lemma sessions_ok_step:
  assumes ok: "sessions_ok history seen st es" and p: "timed history p"
  shows "sessions_ok history (seen @ [p]) (session_step st p) es"
proof -
  obtain sessions exclusions where st: "st = (sessions, exclusions)" by (cases st)
  obtain item interval where pp: "p = (item, interval)" by (cases p)
  have single: "chain_of history \<lparr>se_match_ids = [hm_match_id item],
      se_start_utc_ms = start_utc_ms interval, se_end_utc_ms = end_utc_ms interval\<rparr> [p]"
    using p by (simp add: chain_of_def pp)
  show ?thesis
  proof (cases sessions)
    case Nil
    with ok single show ?thesis
      by (auto simp: sessions_ok_def st pp)
  next
    case (Cons current earlier)
    from ok obtain chain where chain: "chain_of history current chain"
      by (auto simp: sessions_ok_def st Cons)
    then have le: "se_start_utc_ms current \<le> se_end_utc_ms current"
      using chain_start_le_end [of chain] by (auto simp: chain_of_def timed_def)
    have extended: "\<exists>chain. chain_of history (current\<lparr>se_match_ids := se_match_ids current @ [hm_match_id item],
        se_end_utc_ms := end_utc_ms interval\<rparr>) chain"
      if "\<not> start_utc_ms interval \<le> se_end_utc_ms current"
        "start_utc_ms interval - se_end_utc_ms current \<le> SESSION_GAP_MS"
    proof -
      have "follows (last chain) p"
        using that chain by (auto simp: follows_def chain_of_def pp)
      from chain_extend [OF chain p this] show ?thesis by (auto simp: pp)
    qed
    show ?thesis
      using ok le single extended
      by (auto simp: sessions_ok_def st pp Cons ac_simps intro: less_le_trans)
  qed
qed

lemma sessions_ok_fold:
  "sessions_ok history seen st es \<Longrightarrow> \<forall>p\<in>set ps. timed history p \<Longrightarrow>
    sessions_ok history (seen @ ps) (foldl session_step st ps) es"
proof (induction ps arbitrary: seen st)
  case (Cons p ps)
  then have "sessions_ok history (seen @ [p]) (session_step st p) es"
    by (intro sessions_ok_step) simp_all
  from Cons.IH [OF this] Cons.prems show ?case by simp
qed simp

lemma split_chronology_spec:
  "(\<forall>p\<in>set (fst (split_chronology history)). timed history p)
    \<and> mset (map (\<lambda>p. hm_match_id (fst p)) (fst (split_chronology history)))
      + mset (map ce_match_id (snd (split_chronology history))) = mset (map hm_match_id history)"
  by (induction history) (auto simp: timed_def split_beta Let_def split: option.splits)

text \<open>
  Sessions are exactly the maximal chains: every match is in one session or listed once as
  excluded; consecutive sessions are more than ninety minutes apart; and each session runs from
  the start of its first to the end of its last match, every next match starting after the
  previous one ended and within ninety minutes.
\<close>
theorem sessions_are_chains:
  shows "mset (concat (map se_match_ids (sg_sessions (group_sessions history))))
      + mset (map ce_match_id (sg_exclusions (group_sessions history))) = mset (map hm_match_id history)
    \<and> sorted_wrt (\<lambda>s t. se_end_utc_ms s + SESSION_GAP_MS < se_start_utc_ms t)
        (sg_sessions (group_sessions history))
    \<and> (\<forall>s\<in>set (sg_sessions (group_sessions history)). \<exists>chain. chain_of history s chain)"
proof -
  let ?v = "split_chronology history"
  let ?st = "foldl session_step ([], snd ?v) (sort_key chronology_key (fst ?v))"
  note spec = split_chronology_spec [of history]
  have "sessions_ok history [] ([], snd ?v) (snd ?v)" by (simp add: sessions_ok_def)
  then have "sessions_ok history ([] @ sort_key chronology_key (fst ?v)) ?st (snd ?v)"
    using spec by (intro sessions_ok_fold) auto
  moreover have "group_sessions history = \<lparr>sg_sessions = rev (fst ?st), sg_exclusions = snd ?st\<rparr>"
    by (simp add: group_sessions_def split_beta Let_def)
  moreover have "mset (map (\<lambda>p. hm_match_id (fst p)) (sort_key chronology_key (fst ?v)))
      = mset (map (\<lambda>p. hm_match_id (fst p)) (fst ?v))" by simp
  moreover have "mset (concat (map se_match_ids (rev (fst ?st)))) = mset (concat (map se_match_ids (fst ?st)))"
    by (simp add: mset_concat rev_map sum_list_rev flip: rev_map)
  ultimately show ?thesis
    using spec by (simp add: sessions_ok_def sorted_wrt_rev)
qed

theorem sessions_are_chains_witness:
  "\<exists>s t. sg_sessions (group_sessions [sample_match ''b'' 9000000, sample_match ''a'' 0]) = [s, t]
    \<and> se_end_utc_ms s + SESSION_GAP_MS < se_start_utc_ms t"
proof -
  have "length (sg_sessions (group_sessions [sample_match ''b'' 9000000, sample_match ''a'' 0])) = 2"
    by (simp add: group_sessions_def sample_match_def chronology_key_def SESSION_GAP_MS_def)
  then obtain s t where "sg_sessions (group_sessions [sample_match ''b'' 9000000, sample_match ''a'' 0]) = [s, t]"
    by (auto simp: numeral_2_eq_2 length_Suc_conv)
  with sessions_are_chains [of "[sample_match ''b'' 9000000, sample_match ''a'' 0]"]
  show ?thesis by simp
qed

section \<open>Goals\<close>

lemma goal_scan_append:
  "goal_scan g (xs @ ys) = (fst (goal_scan g xs) @ fst (goal_scan g ys),
     snd (goal_scan g xs) @ snd (goal_scan g ys))"
  by (induction xs) (auto simp: split_beta Let_def split: sum.splits option.splits)

text \<open>Inserting an element into a list inserts it into the sorted list.\<close>

lemma insort_key_append:
  assumes "\<forall>a\<in>set xs. \<not> f x \<le> f a"
  shows "insort_key f x (xs @ ys) = xs @ insort_key f x ys"
  using assms by (induction xs) auto

lemma insort_key_at:
  "\<exists>A B. ys = A @ B \<and> insort_key f x ys = A @ x # B \<and> (\<forall>a\<in>set A. f a < f x)
    \<and> (sorted (map f ys) \<longrightarrow> (\<forall>b\<in>set B. f x \<le> f b))"
proof (induction ys)
  case Nil
  then show ?case by simp
next
  case (Cons y ys)
  then obtain A B where IH: "ys = A @ B" "insort_key f x ys = A @ x # B" "\<forall>a\<in>set A. f a < f x"
      "sorted (map f ys) \<longrightarrow> (\<forall>b\<in>set B. f x \<le> f b)" by blast
  show ?case
  proof (cases "f x \<le> f y")
    case True
    then show ?thesis by (intro exI [of _ "[]"] exI [of _ "y # ys"]) auto
  next
    case False
    with IH show ?thesis by (intro exI [of _ "y # A"] exI [of _ B]) auto
  qed
qed

lemma sort_key_insert:
  "\<exists>A B. sort_key f (xs @ ys) = A @ B \<and> sort_key f (xs @ x # ys) = A @ x # B
    \<and> (\<forall>a\<in>set A. f a \<le> f x) \<and> (\<forall>b\<in>set B. f x \<le> f b)"
proof (induction xs)
  case Nil
  have "sorted (map f (sort_key f ys))" by simp
  then obtain A B where "sort_key f ys = A @ B" "insort_key f x (sort_key f ys) = A @ x # B"
      "\<forall>a\<in>set A. f a < f x" "\<forall>b\<in>set B. f x \<le> f b"
    using insort_key_at [of "sort_key f ys" f x] by blast
  then show ?case by (intro exI [of _ A] exI [of _ B]) (auto simp: less_imp_le)
next
  case (Cons z xs)
  then obtain A B where IH: "sort_key f (xs @ ys) = A @ B" "sort_key f (xs @ x # ys) = A @ x # B"
      "\<forall>a\<in>set A. f a \<le> f x" "\<forall>b\<in>set B. f x \<le> f b" by blast
  have s: "sorted (map f (A @ B))" using IH(1) by (metis sorted_sort_key)
  show ?case
  proof (cases "f z \<le> f x")
    case True
    obtain A1 A2 where A: "A = A1 @ A2" "insort_key f z A = A1 @ z # A2" "\<forall>a\<in>set A1. f a < f z"
        "\<forall>b\<in>set A2. f z \<le> f b"
      using insort_key_at [of A f z] s by (auto simp: sorted_append)
    have "insort_key f z (A2 @ C) = z # A2 @ C" if "\<forall>c\<in>set C. f z \<le> f c" for C
      using A(4) that by (cases A2; cases C) auto
    then have ins: "insort_key f z (A @ C) = A1 @ z # A2 @ C" if "\<forall>c\<in>set C. f z \<le> f c" for C
      using A(1,3) that by (simp add: insort_key_append not_le)
    have "\<forall>b\<in>set B. f z \<le> f b" using True IH(4) by (auto intro: order_trans)
    then have "insort_key f z (A @ B) = (A1 @ z # A2) @ B"
      "insort_key f z (A @ x # B) = (A1 @ z # A2) @ x # B"
      using ins [of B] ins [of "x # B"] True by simp_all
    moreover have "\<forall>a\<in>set (A1 @ z # A2). f a \<le> f x" using IH(3) A(1) True by auto
    ultimately show ?thesis
      using IH by (intro exI [of _ "A1 @ z # A2"] exI [of _ B]) (simp only: append_Cons sort_key_simps conj_assoc simp_thms)
  next
    case False
    then have lt: "\<forall>a\<in>set A. \<not> f z \<le> f a" using IH(3) by (auto simp: not_le intro: le_less_trans)
    then have "insort_key f z (A @ B) = A @ insort_key f z B"
      "insort_key f z (A @ x # B) = A @ x # insort_key f z B"
      using False by (auto simp: insort_key_append)
    moreover have "\<forall>b\<in>set (insort_key f z B). f x \<le> f b"
      using IH(4) False by (auto simp: set_insort_key)
    ultimately show ?thesis
      using IH by (intro exI [of _ A] exI [of _ "insort_key f z B"]) (simp only: append_Cons sort_key_simps simp_thms)
  qed
qed

lemma retain_first_append:
  "fst (retain_first key seen (xs @ ys)) =
    fst (retain_first key seen xs) @ fst (retain_first key (seen \<union> key ` set xs) ys)"
  by (induction key seen xs rule: retain_first.induct)
    (auto simp: split_beta Let_def insert_absorb)

text \<open>
  The first \<open>n\<close> distinct elements stay the same when an element is added whose key is above
  theirs.
\<close>

lemma first_distinct_stable:
  assumes "length (take n (fst (retain_first key {} (sort_key f (xs @ ys))))) = n"
    and "\<forall>c\<in>set (take n (fst (retain_first key {} (sort_key f (xs @ ys))))). f c < f x"
  shows "take n (fst (retain_first key {} (sort_key f (xs @ x # ys))))
    = take n (fst (retain_first key {} (sort_key f (xs @ ys))))"
proof -
  obtain A B where AB: "sort_key f (xs @ ys) = A @ B" "sort_key f (xs @ x # ys) = A @ x # B"
      "\<forall>b\<in>set B. f x \<le> f b"
    using sort_key_insert [of f xs ys x] by blast
  let ?a = "fst (retain_first key {} A)" and ?b = "fst (retain_first key ({} \<union> key ` set A) B)"
  have split: "fst (retain_first key {} (A @ B)) = ?a @ ?b" by (rule retain_first_append)
  have "n \<le> length ?a"
  proof (rule ccontr)
    assume "\<not> n \<le> length ?a"
    then have short: "length ?a < n" by simp
    then have "take n (?a @ ?b) = ?a @ take (n - length ?a) ?b" by simp
    moreover have "length (take n (?a @ ?b)) = n" using assms(1) AB(1) split by simp
    ultimately have "take (n - length ?a) ?b \<noteq> []" using short by auto
    then obtain b where "b \<in> set (take (n - length ?a) ?b)" by (meson list.set_sel(1))
    then have b: "b \<in> set (take n (?a @ ?b))" "b \<in> set ?b"
      using short by (auto dest: in_set_takeD)
    have "f x \<le> f b" using b(2) AB(3) set_retain_first by (metis subsetD)
    moreover have "f b < f x" using assms(2) b(1) AB(1) split by simp
    ultimately show False by simp
  qed
  then show ?thesis by (simp add: AB retain_first_append)
qed

type_synonym goal_candidate = "history_match \<times> match_interval \<times> rational"

definition goal_chosen :: "goal \<Rightarrow> history_match list \<Rightarrow> goal_candidate list" where
  "goal_chosen g history = take GOAL_EVALUATION_MATCHES
     (fst (retain_first (\<lambda>c. hm_demo_hash (fst c)) {} (sort_key goal_key (fst (goal_scan g history)))))"

definition goal_median :: "goal_candidate list \<Rightarrow> (baseline_error, rational option) result" where
  "goal_median chosen = (if chosen = [] then Inr None
     else and_then (median (map (\<lambda>c. snd (snd c)) chosen)) (\<lambda>m. Inr (Some m)))"

definition goal_status_of :: "goal \<Rightarrow> goal_candidate list \<Rightarrow> rational option \<Rightarrow> goal_status" where
  "goal_status_of g chosen evaluation_median =
     (if length chosen < GOAL_EVALUATION_MATCHES
      then InProgress (length chosen) GOAL_EVALUATION_MATCHES
      else if (case evaluation_median of None \<Rightarrow> False | Some v \<Rightarrow> rat_le (g_target g) v)
      then Achieved else NotAchieved)"

lemma evaluate_goal_eq:
  assumes "\<not> g_cancelled g" "g_series g = s"
  shows "evaluate_goal g s history = and_then (goal_median (goal_chosen g history)) (\<lambda>m.
    Inr \<lparr>gr_goal_id = g_id g, gr_status = goal_status_of g (goal_chosen g history) m,
      gr_selected_match_ids = map (\<lambda>c. hm_match_id (fst c)) (goal_chosen g history),
      gr_selected_demo_hashes = map (\<lambda>c. hm_demo_hash (fst c)) (goal_chosen g history),
      gr_exclusions = snd (goal_scan g history) @ map (\<lambda>c. exclude (fst c) DuplicateDemo)
        (snd (retain_first (\<lambda>c. hm_demo_hash (fst c)) {} (sort_key goal_key (fst (goal_scan g history))))),
      gr_evaluation_median = m\<rparr>)"
  using assms
  by (simp add: evaluate_goal_def goal_chosen_def goal_median_def goal_status_of_def split_beta Let_def)

lemma goal_scan_mem:
  "c \<in> set (fst (goal_scan g history)) \<longleftrightarrow>
    fst c \<in> set history \<and> goal_step g (fst c) = Inr (snd c)"
  by (induction history) (auto simp: split_beta Let_def prod_eq_iff split: sum.splits option.splits)

lemma goal_step_Inr:
  assumes "goal_step g m = Inr c"
  shows "hm_interval m = Some (fst c)" "g_created_at_utc_ms g < start_utc_ms (fst c)"
    "match_value m (g_field g) = Some (snd c)" "hm_series m = g_series g" "hm_canonical m"
    "hm_trend_exclusion m = None"
  using assms
  by (auto simp: goal_step_def cohort_reason_def goal_query_def split: option.splits if_splits)

lemma goal_chosen_spec:
  shows "\<forall>c\<in>set (goal_chosen g history). fst c \<in> set history \<and> goal_step g (fst c) = Inr (snd c)"
    "length (goal_chosen g history) \<le> GOAL_EVALUATION_MATCHES"
    "distinct (map (\<lambda>c. hm_demo_hash (fst c)) (goal_chosen g history))"
    "sorted (map goal_key (goal_chosen g history))"
proof -
  let ?k = "\<lambda>c::goal_candidate. hm_demo_hash (fst c)"
  let ?s = "sort_key goal_key (fst (goal_scan g history))"
  let ?u = "fst (retain_first ?k {} ?s)"
  have "set (goal_chosen g history) \<subseteq> set (fst (goal_scan g history))"
    using set_retain_first [of ?k "{}" ?s] by (auto simp: goal_chosen_def dest: in_set_takeD)
  then show "\<forall>c\<in>set (goal_chosen g history). fst c \<in> set history \<and> goal_step g (fst c) = Inr (snd c)"
    using goal_scan_mem by blast
  show "length (goal_chosen g history) \<le> GOAL_EVALUATION_MATCHES" by (simp add: goal_chosen_def)
  have "distinct (map ?k ?u)" by (rule distinct_retain_first)
  then show "distinct (map ?k (goal_chosen g history))"
    by (simp add: goal_chosen_def take_map [symmetric] distinct_take)
  have "sorted_wrt (\<lambda>a b. goal_key a \<le> goal_key b) ?s"
    by (metis sorted_map sorted_sort_key)
  from sorted_wrt_retain_first [OF this, of ?k "{}"]
  have "sorted (map goal_key ?u)" by (simp add: sorted_map)
  then show "sorted (map goal_key (goal_chosen g history))"
    by (simp add: goal_chosen_def take_map [symmetric] sorted_wrt_take)
qed

section \<open>Properties of goals\<close>

text \<open>
  A goal is judged by evidence alone: the selected matches are at most ten, of distinct
  demos, in chronological order, each canonical, in the goal's series and started after the goal
  was set; the goal is in progress if and only if fewer than ten were selected, and otherwise
  achieved exactly when their median reaches the target.
\<close>
theorem goal_judged_by_median:
  assumes "\<not> g_cancelled g" and "evaluate_goal g (g_series g) history = Inr r"
  shows "\<exists>chosen. gr_selected_match_ids r = map (\<lambda>c. hm_match_id (fst c)) chosen
    \<and> length chosen \<le> GOAL_EVALUATION_MATCHES \<and> distinct (gr_selected_demo_hashes r)
    \<and> sorted (map (\<lambda>c. start_utc_ms (fst (snd c))) chosen)
    \<and> (\<forall>(m, i, v)\<in>set chosen. m \<in> set history \<and> hm_canonical m \<and> hm_series m = g_series g
        \<and> hm_interval m = Some i \<and> g_created_at_utc_ms g < start_utc_ms i
        \<and> match_value m (g_field g) = Some v)
    \<and> ((\<exists>n. gr_status r = InProgress n GOAL_EVALUATION_MATCHES \<and> n = length chosen)
        \<longleftrightarrow> length chosen < GOAL_EVALUATION_MATCHES)
    \<and> (length chosen = GOAL_EVALUATION_MATCHES \<longrightarrow>
        (\<exists>m. median (map (\<lambda>(m, i, v). v) chosen) = Inr m \<and> gr_evaluation_median r = Some m
          \<and> gr_status r = (if rat_le (g_target g) m then Achieved else NotAchieved)))"
proof -
  let ?c = "goal_chosen g history"
  from assms obtain m where m: "goal_median ?c = Inr m" "gr_evaluation_median r = m"
      "gr_status r = goal_status_of g ?c m"
      "gr_selected_match_ids r = map (\<lambda>c. hm_match_id (fst c)) ?c"
      "gr_selected_demo_hashes r = map (\<lambda>c. hm_demo_hash (fst c)) ?c"
    by (auto simp: evaluate_goal_eq and_then_eq_Inr)
  have sorted: "sorted (map (\<lambda>c. start_utc_ms (fst (snd c))) ?c)"
  proof -
    have "sorted_wrt (\<lambda>a b. goal_key a \<le> goal_key b) ?c" using goal_chosen_spec(4) by (simp add: sorted_map)
    then have "sorted_wrt (\<lambda>a b. start_utc_ms (fst (snd a)) \<le> start_utc_ms (fst (snd b))) ?c"
      by (rule sorted_wrt_mono_rel [rotated]) (auto simp: goal_key_def)
    then show ?thesis by (simp add: sorted_map)
  qed
  have vals: "map (\<lambda>(m, i, v). v) ?c = map (\<lambda>c. snd (snd c)) ?c" by auto
  have "\<forall>(m, i, v)\<in>set ?c. m \<in> set history \<and> hm_canonical m \<and> hm_series m = g_series g
      \<and> hm_interval m = Some i \<and> g_created_at_utc_ms g < start_utc_ms i
      \<and> match_value m (g_field g) = Some v"
    using goal_chosen_spec(1) [of g history] by (fastforce dest: goal_step_Inr)
  moreover have "length ?c = GOAL_EVALUATION_MATCHES \<longrightarrow>
      (\<exists>q. median (map (\<lambda>(m, i, v). v) ?c) = Inr q \<and> gr_evaluation_median r = Some q
        \<and> gr_status r = (if rat_le (g_target g) q then Achieved else NotAchieved))"
  proof
    assume len: "length ?c = GOAL_EVALUATION_MATCHES"
    then have "?c \<noteq> []" by (auto simp: GOAL_EVALUATION_MATCHES_def)
    with m(1) obtain q where "median (map (\<lambda>c. snd (snd c)) ?c) = Inr q" "m = Some q"
      by (auto simp: goal_median_def and_then_eq_Inr)
    with m(2,3) len show "\<exists>q. median (map (\<lambda>(m, i, v). v) ?c) = Inr q
        \<and> gr_evaluation_median r = Some q
        \<and> gr_status r = (if rat_le (g_target g) q then Achieved else NotAchieved)"
      by (simp add: vals goal_status_of_def)
  qed
  moreover have "(\<exists>n. gr_status r = InProgress n GOAL_EVALUATION_MATCHES \<and> n = length ?c)
      \<longleftrightarrow> length ?c < GOAL_EVALUATION_MATCHES"
    using m(3) by (auto simp: goal_status_of_def)
  ultimately show ?thesis
    using m(4,5) goal_chosen_spec [of g history] sorted by (intro exI [of _ ?c]) simp
qed

definition sample_goal :: "nat \<Rightarrow> goal" where
  "sample_goal created = goal_rating ''goal'' created sample_series AllMaps (RatingBasisPoints 9000) []"

definition ten_matches :: "history_match list" where
  "ten_matches = map (\<lambda>(name, n). sample_match name (10000 * n))
     [(''a'', 1), (''b'', 2), (''c'', 3), (''d'', 4), (''e'', 5), (''f'', 6), (''g'', 7), (''h'', 8),
      (''i'', 9), (''j'', 10)]"

lemma sample_goal_fields [simp]: "\<not> g_cancelled (sample_goal n)" "g_series (sample_goal n) = sample_series"
  by (simp_all add: sample_goal_def goal_rating_def)

lemma sample_goal_total:
  assumes ratings: "\<forall>m\<in>set history. \<forall>b. hm_rating m = Some b \<longrightarrow> valid_bp b"
  shows "\<exists>r. evaluate_goal (sample_goal n) sample_series history = Inr r"
proof -
  let ?c = "goal_chosen (sample_goal n) history"
  have "\<forall>c\<in>set ?c. grid 1 (snd (snd c)) \<and> \<bar>rat_of (snd (snd c))\<bar> \<le> 50000"
  proof
    fix c assume "c \<in> set ?c"
    then have "fst c \<in> set history" "match_value (fst c) RatingField = Some (snd (snd c))"
      using goal_chosen_spec(1) [of "sample_goal n" history] goal_step_Inr(3)
      by (fastforce simp: sample_goal_def goal_rating_def)+
    then obtain b where b: "bp_exact b = snd (snd c)" "hm_rating (fst c) = Some b" "fst c \<in> set history"
      by (auto simp: match_value_def)
    then have v: "valid_bp b" using ratings by simp
    from bp_grid [OF v] show "grid 1 (snd (snd c)) \<and> \<bar>rat_of (snd (snd c))\<bar> \<le> 50000"
      by (simp add: b(1))
  qed
  then have "?c = [] \<or> (\<exists>q. median (map (\<lambda>c. snd (snd c)) ?c) = Inr q)"
    using grid_median [of "map (\<lambda>c. snd (snd c)) ?c" 1] by auto
  then have "\<exists>m. goal_median ?c = Inr m" by (auto simp: goal_median_def)
  then show ?thesis by (auto simp: evaluate_goal_eq)
qed

theorem goal_judged_by_median_witness:
  "\<exists>r. evaluate_goal (sample_goal 0) sample_series [sample_match ''a'' 10] = Inr r
    \<and> (\<exists>chosen :: goal_candidate list. gr_selected_match_ids r = map (\<lambda>c. hm_match_id (fst c)) chosen)"
proof -
  obtain r where r: "evaluate_goal (sample_goal 0) sample_series [sample_match ''a'' 10] = Inr r"
    using sample_goal_total [of "[sample_match ''a'' 10]" 0]
    by (auto simp: sample_match_def valid_bp_def rating_bp_max_def)
  then have "evaluate_goal (sample_goal 0) (g_series (sample_goal 0)) [sample_match ''a'' 10] = Inr r" by simp
  from goal_judged_by_median [OF _ this] obtain chosen :: "goal_candidate list"
    where "gr_selected_match_ids r = map (\<lambda>c. hm_match_id (fst c)) chosen" by auto
  with r show ?thesis by blast
qed

text \<open>
  A decided goal stays decided: once ten matches have been selected, a match that starts
  after all of them, wherever it stands in the history, changes neither the status nor the
  selection nor the median.
\<close>
theorem goal_decision_final:
  assumes "evaluate_goal g s (xs @ ys) = Inr r"
    and "gr_status r = Achieved \<or> gr_status r = NotAchieved"
    and "\<forall>i. hm_interval x = Some i \<longrightarrow>
      (\<forall>m\<in>set (xs @ ys). \<forall>j. hm_interval m = Some j \<longrightarrow> start_utc_ms j < start_utc_ms i)"
  shows "\<exists>es. evaluate_goal g s (xs @ x # ys) = Inr (r\<lparr>gr_exclusions := es\<rparr>)"
proof -
  have g: "\<not> g_cancelled g" "g_series g = s"
    using assms(1,2) by (auto simp: evaluate_goal_def empty_goal_receipt_def split: if_splits)
  let ?old = "goal_chosen g (xs @ ys)" and ?new = "goal_chosen g (xs @ x # ys)"
  obtain m where m: "goal_median ?old = Inr m" "gr_status r = goal_status_of g ?old m"
    using assms(1) by (auto simp: evaluate_goal_eq [OF g] and_then_eq_Inr)
  have full: "length ?old = GOAL_EVALUATION_MATCHES"
    using m(2) assms(2) goal_chosen_spec(2) [of g "xs @ ys"]
    by (auto simp: goal_status_of_def split: if_splits)
  have "?new = ?old"
  proof (cases "goal_step g x")
    case (Inl why)
    have "fst (goal_scan g (x # ys)) = fst (goal_scan g ys)"
      by (simp add: Inl split_beta Let_def split: option.splits)
    then show ?thesis by (simp only: goal_chosen_def goal_scan_append fst_conv)
  next
    case (Inr c)
    have scan: "fst (goal_scan g (xs @ x # ys)) = fst (goal_scan g xs) @ (x, c) # fst (goal_scan g ys)"
      by (simp add: goal_scan_append Inr split_beta Let_def)
    have "goal_key d < goal_key (x, c)" if "d \<in> set ?old" for d
    proof -
      from that have d: "fst d \<in> set (xs @ ys)" "hm_interval (fst d) = Some (fst (snd d))"
        using goal_chosen_spec(1) [of g "xs @ ys"] goal_step_Inr(1) by blast+
      then have "start_utc_ms (fst (snd d)) < start_utc_ms (fst c)"
        using assms(3) goal_step_Inr(1) [OF Inr] by blast
      then show ?thesis by (simp add: goal_key_def)
    qed
    then show ?thesis
      using first_distinct_stable [of GOAL_EVALUATION_MATCHES "\<lambda>c. hm_demo_hash (fst c)" goal_key
          "fst (goal_scan g xs)" "fst (goal_scan g ys)" "(x, c)"] full
      unfolding goal_chosen_def scan by (simp only: goal_scan_append fst_conv) blast
  qed
  then show ?thesis
    using assms(1) m(1) by (auto simp: evaluate_goal_eq [OF g])
qed

lemma ten_matches_chosen: "length (goal_chosen (sample_goal 0) ten_matches) = 10"
proof -
  have step: "goal_step (sample_goal 0) (sample_match name start)
      = Inr (\<lparr>start_utc_ms = start, end_utc_ms = start + 5000\<rparr>, bp_exact (RatingBasisPoints 10000))"
    if "0 < start" "start \<le> 100000" for name start
    using that by (simp add: goal_step_def cohort_reason_def goal_query_def sample_goal_def
      goal_rating_def sample_match_def match_value_def u64_max_def)
  have hashes: "map (\<lambda>c. hm_demo_hash (fst c)) (fst (goal_scan (sample_goal 0)
      (map (\<lambda>(name, n). sample_match name (10000 * n)) ps))) = map fst ps"
    if "\<forall>p\<in>set ps. 0 < snd p \<and> snd p \<le> 10" for ps
    using that
  proof (induction ps)
    case (Cons p ps)
    then have "goal_step (sample_goal 0) (sample_match (fst p) (10000 * snd p))
        = Inr (\<lparr>start_utc_ms = 10000 * snd p, end_utc_ms = 10000 * snd p + 5000\<rparr>,
            bp_exact (RatingBasisPoints 10000))"
      by (intro step) auto
    with Cons show ?case by (simp add: split_beta Let_def) (simp add: sample_match_def)
  qed simp
  let ?k = "\<lambda>c::goal_candidate. hm_demo_hash (fst c)"
  let ?cs = "fst (goal_scan (sample_goal 0) ten_matches)"
  have names: "map ?k ?cs = [''a'', ''b'', ''c'', ''d'', ''e'', ''f'', ''g'', ''h'', ''i'', ''j'']"
    unfolding ten_matches_def by (subst hashes) simp_all
  then have "distinct (map ?k ?cs)" by simp
  then have "distinct (map ?k (sort_key goal_key ?cs))"
    by (metis mset_eq_imp_distinct_iff mset_map mset_sort)
  then have "fst (retain_first ?k {} (sort_key goal_key ?cs)) = sort_key goal_key ?cs"
    by (subst retain_first_distinct) simp_all
  moreover have "length ?cs = 10" using arg_cong [OF names, of length] by simp
  ultimately show ?thesis by (simp add: goal_chosen_def GOAL_EVALUATION_MATCHES_def)
qed

theorem goal_decision_final_witness:
  "\<exists>r es. evaluate_goal (sample_goal 0) sample_series ten_matches = Inr r
    \<and> evaluate_goal (sample_goal 0) sample_series (ten_matches @ [sample_match ''k'' 200000])
      = Inr (r\<lparr>gr_exclusions := es\<rparr>)"
proof -
  obtain r where r: "evaluate_goal (sample_goal 0) sample_series ten_matches = Inr r"
    using sample_goal_total [of ten_matches 0]
    by (auto simp: ten_matches_def sample_match_def valid_bp_def rating_bp_max_def)
  then have "gr_status r = Achieved \<or> gr_status r = NotAchieved"
    using ten_matches_chosen
    by (auto simp: evaluate_goal_eq and_then_eq_Inr goal_status_of_def GOAL_EVALUATION_MATCHES_def
      split: if_splits)
  moreover have "\<forall>i. hm_interval (sample_match ''k'' 200000) = Some i \<longrightarrow>
      (\<forall>m\<in>set (ten_matches @ []). \<forall>j. hm_interval m = Some j \<longrightarrow> start_utc_ms j < start_utc_ms i)"
    by (simp add: ten_matches_def sample_match_def)
  ultimately show ?thesis
    using goal_decision_final [of "sample_goal 0" sample_series ten_matches "[]" r "sample_match ''k'' 200000"] r
    by auto
qed

end
