(* ===== verification/Gsi.thy ===== *)
theory Gsi
  imports Prelude
begin

text \<open>
  The game state integration service of \<open>crates/openfrag-gsi/src/lib.rs\<close>: the HTTP handler that
  authenticates a payload, drops duplicates and derives the facts of a transition, the poll that
  reports an outage, and the engine state both share under one lock.

  JSON parsing (\<open>serde_json\<close>) and SHA-256 (\<open>sha2\<close>) are parameters; the clock's reading and the
  sink's answer are part of each event. The body limit is enforced by the HTTP framework before
  the handler runs. Durations are nanoseconds; bytes are characters.
\<close>

section \<open>Payloads\<close>

record provider =
  pr_appid :: "nat option"
  pr_timestamp :: "int option"

record map_state =
  ms_name :: "string option"
  ms_mode :: "string option"
  ms_round :: "nat option"

record player_vitals =
  pv_health :: "int option"
  pv_round_kills :: "int option"

record match_stats =
  st_kills :: "int option"
  st_deaths :: "int option"

text \<open>The weapons are an arbitrary JSON value of which only the presence matters.\<close>

record player_state =
  ps_steamid :: "string option"
  ps_state :: "player_vitals option"
  ps_weapons :: "string option"
  ps_match_stats :: "match_stats option"

text \<open>The \<open>auth\<close> object holds only its token.\<close>

record payload =
  pl_provider :: "provider option"
  pl_map :: "map_state option"
  pl_auth :: "string option option"
  pl_player :: "player_state option"

section \<open>Receipts\<close>

record presence_bits =
  pb_provider :: bool
  pb_provider_timestamp :: bool
  pb_map :: bool
  pb_map_round :: bool
  pb_player :: bool
  pb_player_state :: bool
  pb_player_health :: bool
  pb_player_round_kills :: bool
  pb_player_weapons :: bool
  pb_match_stats :: bool
  pb_auth :: bool
  pb_auth_token :: bool
  pb_player_steamid :: bool

record evidence_context =
  ec_map_hash :: "string option"
  ec_observed_round :: "nat option"
  ec_provider_timestamp :: "int option"
  ec_round_kills :: "int option"
  ec_health :: "int option"

datatype state_output = Seeded | Healthy | Stale | Recovered | SessionReset

datatype poll_outcome = NoChange | StaleEmitted

datatype service_diagnostic = StateUnavailable | SinkFailure

datatype transition_fact =
    CumulativeKillDelta int int int
  | CumulativeDeathDelta int int int
  | RoundKillDelta int int int
  | HealthDepleted int int
  | RoundEnd nat nat

record evidence_receipt =
  er_sequence :: nat
  er_received_at :: nat
  er_payload_hash :: string
  er_presence :: presence_bits
  er_context :: evidence_context
  er_output :: state_output
  er_facts :: "transition_fact list"

section \<open>Snapshots and transitions\<close>

type_synonym digest = string

record trusted_snapshot =
  ts_session_hash :: "digest option"
  ts_map_hash :: "digest option"
  ts_round :: "nat option"
  ts_provider_timestamp :: "int option"
  ts_kills :: "int option"
  ts_deaths :: "int option"
  ts_round_kills :: "int option"
  ts_health :: "int option"

text \<open>\<open>and_then\<close> on options.\<close>

abbreviation obind :: "'a option \<Rightarrow> ('a \<Rightarrow> 'b option) \<Rightarrow> 'b option" where
  "obind \<equiv> Option.bind"

abbreviation player_vitals_of :: "payload \<Rightarrow> player_vitals option" where
  "player_vitals_of p \<equiv> obind (pl_player p) ps_state"

abbreviation match_stats_of :: "payload \<Rightarrow> match_stats option" where
  "match_stats_of p \<equiv> obind (pl_player p) ps_match_stats"

definition presence_of :: "payload \<Rightarrow> presence_bits" where
  "presence_of p =
     \<lparr>pb_provider = pl_provider p \<noteq> None,
      pb_provider_timestamp = obind (pl_provider p) pr_timestamp \<noteq> None,
      pb_map = pl_map p \<noteq> None,
      pb_map_round = obind (pl_map p) ms_round \<noteq> None,
      pb_player = pl_player p \<noteq> None,
      pb_player_state = player_vitals_of p \<noteq> None,
      pb_player_health = obind (player_vitals_of p) pv_health \<noteq> None,
      pb_player_round_kills = obind (player_vitals_of p) pv_round_kills \<noteq> None,
      pb_player_weapons = obind (pl_player p) ps_weapons \<noteq> None,
      pb_match_stats = match_stats_of p \<noteq> None,
      pb_auth = pl_auth p \<noteq> None,
      pb_auth_token = obind (pl_auth p) id \<noteq> None,
      pb_player_steamid = obind (pl_player p) ps_steamid \<noteq> None\<rparr>"

text \<open>The session hash covers the name, a zero byte, and the mode.\<close>

definition snapshot_of :: "(string \<Rightarrow> digest) \<Rightarrow> payload \<Rightarrow> trusted_snapshot" where
  "snapshot_of sha256 p =
     \<lparr>ts_session_hash = obind (pl_map p) (\<lambda>m.
        if ms_name m = None \<and> ms_mode m = None then None
        else Some (sha256 ((case ms_name m of None \<Rightarrow> [] | Some n \<Rightarrow> n) @ [CHR 0x00]
          @ (case ms_mode m of None \<Rightarrow> [] | Some d \<Rightarrow> d)))),
      ts_map_hash = map_option sha256 (obind (pl_map p) ms_name),
      ts_round = obind (pl_map p) ms_round,
      ts_provider_timestamp = obind (pl_provider p) pr_timestamp,
      ts_kills = obind (match_stats_of p) st_kills,
      ts_deaths = obind (match_stats_of p) st_deaths,
      ts_round_kills = obind (player_vitals_of p) pv_round_kills,
      ts_health = obind (player_vitals_of p) pv_health\<rparr>"

definition hex_digit :: "nat \<Rightarrow> char" where
  "hex_digit n = ''0123456789abcdef'' ! n"

definition hex_array :: "digest \<Rightarrow> string" where
  "hex_array bytes = concat (map (\<lambda>b. [hex_digit (of_char b div 16), hex_digit (of_char b mod 16)]) bytes)"

definition context_of :: "trusted_snapshot \<Rightarrow> evidence_context" where
  "context_of s =
     \<lparr>ec_map_hash = map_option hex_array (ts_map_hash s), ec_observed_round = ts_round s,
      ec_provider_timestamp = ts_provider_timestamp s, ec_round_kills = ts_round_kills s,
      ec_health = ts_health s\<rparr>"

definition decreased :: "'a::linorder option \<Rightarrow> 'a option \<Rightarrow> bool" where
  "decreased previous current =
     (case (previous, current) of (Some p, Some c) \<Rightarrow> c < p | _ \<Rightarrow> False)"

definition session_reset :: "trusted_snapshot \<Rightarrow> trusted_snapshot \<Rightarrow> bool" where
  "session_reset previous current \<longleftrightarrow>
     (case (ts_session_hash previous, ts_session_hash current) of
        (Some p, Some c) \<Rightarrow> p \<noteq> c | _ \<Rightarrow> False)
   \<or> decreased (ts_round previous) (ts_round current)
   \<or> decreased (ts_kills previous) (ts_kills current)
   \<or> decreased (ts_deaths previous) (ts_deaths current)
   \<or> decreased (ts_provider_timestamp previous) (ts_provider_timestamp current)"

definition kill_facts :: "trusted_snapshot \<Rightarrow> trusted_snapshot \<Rightarrow> transition_fact list" where
  "kill_facts previous current =
     (case (ts_kills previous, ts_kills current) of
        (Some p, Some c) \<Rightarrow> if p \<ge> 0 \<and> c > p then [CumulativeKillDelta p c (c - p)] else []
      | _ \<Rightarrow> [])"

definition death_facts :: "trusted_snapshot \<Rightarrow> trusted_snapshot \<Rightarrow> transition_fact list" where
  "death_facts previous current =
     (case (ts_deaths previous, ts_deaths current) of
        (Some p, Some c) \<Rightarrow> if p \<ge> 0 \<and> c > p then [CumulativeDeathDelta p c (c - p)] else []
      | _ \<Rightarrow> [])"

definition same_round :: "trusted_snapshot \<Rightarrow> trusted_snapshot \<Rightarrow> bool" where
  "same_round previous current =
     (case (ts_round previous, ts_round current) of (Some p, Some c) \<Rightarrow> p = c | _ \<Rightarrow> False)"

definition round_kill_facts :: "trusted_snapshot \<Rightarrow> trusted_snapshot \<Rightarrow> transition_fact list" where
  "round_kill_facts previous current =
     (if same_round previous current then
        (case (ts_round_kills previous, ts_round_kills current) of
           (Some p, Some c) \<Rightarrow> if p \<ge> 0 \<and> c > p then [RoundKillDelta p c (c - p)] else []
         | _ \<Rightarrow> [])
      else [])"

definition health_facts :: "trusted_snapshot \<Rightarrow> trusted_snapshot \<Rightarrow> transition_fact list" where
  "health_facts previous current =
     (if same_round previous current then
        (case (ts_health previous, ts_health current) of
           (Some p, Some c) \<Rightarrow> if p > 0 \<and> c \<le> 0 then [HealthDepleted p c] else []
         | _ \<Rightarrow> [])
      else [])"

definition round_end_facts :: "trusted_snapshot \<Rightarrow> trusted_snapshot \<Rightarrow> transition_fact list" where
  "round_end_facts previous current =
     (case (ts_round previous, ts_round current) of
        (Some p, Some c) \<Rightarrow> map (\<lambda>completed. RoundEnd completed (completed + 1)) [p..<c]
      | _ \<Rightarrow> [])"

definition derive_transition ::
  "trusted_snapshot \<Rightarrow> trusted_snapshot \<Rightarrow> state_output \<times> transition_fact list" where
  "derive_transition previous current =
     (if session_reset previous current then (SessionReset, [])
      else (Healthy, kill_facts previous current @ death_facts previous current
        @ round_kill_facts previous current @ health_facts previous current
        @ round_end_facts previous current))"

section \<open>The engine\<close>

definition seconds :: "nat \<Rightarrow> nat" where "seconds n = n * 10 ^ 9"

definition DURATION_MAX :: nat where "DURATION_MAX = seconds u64_max + 999999999"

definition DUPLICATE_WINDOW :: nat where "DUPLICATE_WINDOW = seconds 2"

definition stale_after :: "nat \<Rightarrow> nat" where
  "stale_after heartbeat = min (min (heartbeat * 3) DURATION_MAX) (seconds 90)"

record gsi_config =
  gc_auth_token_hash :: digest
  gc_local_steamid_hash :: digest
  gc_heartbeat :: nat

definition gsi_config_new :: "(string \<Rightarrow> digest) \<Rightarrow> string \<Rightarrow> string \<Rightarrow> nat \<Rightarrow> gsi_config" where
  "gsi_config_new sha256 auth_token local_steamid heartbeat =
     \<lparr>gc_auth_token_hash = sha256 auth_token, gc_local_steamid_hash = sha256 local_steamid,
      gc_heartbeat = heartbeat\<rparr>"

record engine_state =
  es_sequence :: nat
  es_snapshot :: "trusted_snapshot option"
  es_recent_hashes :: "string \<Rightarrow> nat option"
  es_last_hash :: "string option"
  es_last_presence :: "presence_bits option"
  es_last_context :: "evidence_context option"
  es_last_received_at :: "nat option"
  es_stale :: bool

definition engine_default :: engine_state where
  "engine_default = \<lparr>es_sequence = 0, es_snapshot = None, es_recent_hashes = (\<lambda>_. None),
     es_last_hash = None, es_last_presence = None, es_last_context = None,
     es_last_received_at = None, es_stale = False\<rparr>"

definition clear_transition_baselines :: "engine_state \<Rightarrow> engine_state" where
  "clear_transition_baselines s = s\<lparr>es_snapshot := None, es_recent_hashes := (\<lambda>_. None),
     es_last_hash := None, es_last_presence := None, es_last_context := None,
     es_last_received_at := None, es_stale := False\<rparr>"

definition retain_recent :: "nat \<Rightarrow> (string \<Rightarrow> nat option) \<Rightarrow> string \<Rightarrow> nat option" where
  "retain_recent now m = (\<lambda>h. case m h of None \<Rightarrow> None
     | Some seen \<Rightarrow> if saturating_sub now seen \<le> DUPLICATE_WINDOW then Some seen else None)"

section \<open>Requests\<close>

definition trim_ascii :: "string \<Rightarrow> string" where
  "trim_ascii s = (let ws = (\<lambda>c. c = CHR '' '' \<or> c = CHR 0x09 \<or> c = CHR 0x0A \<or> c = CHR 0x0B
     \<or> c = CHR 0x0C \<or> c = CHR 0x0D) in rev (dropWhile ws (rev (dropWhile ws s))))"

definition ascii_lower :: "char \<Rightarrow> char" where
  "ascii_lower c = (let n = of_char c :: nat in if 65 \<le> n \<and> n \<le> 90 then char_of (n + 32) else c)"

text \<open>The header is given decoded; a missing or undecodable one is \<open>None\<close>.\<close>

definition is_json_content_type :: "string option \<Rightarrow> bool" where
  "is_json_content_type header =
     (case header of None \<Rightarrow> False
      | Some value \<Rightarrow> map ascii_lower (trim_ascii (takeWhile (\<lambda>c. c \<noteq> CHR '';'') value))
          = ''application/json'')"

datatype http_status = StatusOk | UnsupportedMediaType | BadRequest | Unauthorized | InternalServerError

type_synonym http_reply = "http_status \<times> string"

definition token_matches :: "(string \<Rightarrow> digest) \<Rightarrow> gsi_config \<Rightarrow> payload \<Rightarrow> bool" where
  "token_matches sha256 config p = (case obind (pl_auth p) id of None \<Rightarrow> False
     | Some token \<Rightarrow> sha256 token = gc_auth_token_hash config)"

definition player_matches :: "(string \<Rightarrow> digest) \<Rightarrow> gsi_config \<Rightarrow> payload \<Rightarrow> bool" where
  "player_matches sha256 config p = (case obind (pl_player p) ps_steamid of None \<Rightarrow> False
     | Some steamid \<Rightarrow> sha256 steamid = gc_local_steamid_hash config)"

text \<open>What a fresh snapshot means in the engine's state.\<close>

definition transition_output :: "engine_state \<Rightarrow> trusted_snapshot \<Rightarrow> state_output \<times> transition_fact list" where
  "transition_output s snapshot =
     (if es_stale s then (Recovered, [])
      else case es_snapshot s of None \<Rightarrow> (Seeded, [])
      | Some previous \<Rightarrow> derive_transition previous snapshot)"

definition receipt_of :: "engine_state \<Rightarrow> trusted_snapshot \<Rightarrow> presence_bits \<Rightarrow> string \<Rightarrow> nat
    \<Rightarrow> evidence_receipt" where
  "receipt_of s snapshot presence hash received_at =
     \<lparr>er_sequence = es_sequence s + 1, er_received_at = received_at, er_payload_hash = hash,
      er_presence = presence, er_context = context_of snapshot,
      er_output = fst (transition_output s snapshot), er_facts = snd (transition_output s snapshot)\<rparr>"

text \<open>The updates after the sink accepted the receipt, in their order.\<close>

definition commit_receipt :: "engine_state \<Rightarrow> trusted_snapshot \<Rightarrow> evidence_receipt \<Rightarrow> engine_state" where
  "commit_receipt s snapshot receipt =
     (let s = (if er_output receipt = SessionReset then clear_transition_baselines s else s)
      in s\<lparr>es_sequence := er_sequence receipt,
           es_recent_hashes := (es_recent_hashes s)(er_payload_hash receipt \<mapsto> er_received_at receipt),
           es_last_hash := Some (er_payload_hash receipt),
           es_last_presence := Some (er_presence receipt),
           es_last_context := Some (er_context receipt),
           es_last_received_at := Some (er_received_at receipt),
           es_snapshot := Some snapshot, es_stale := False\<rparr>)"

text \<open>
  The handler: the reply, the new engine state and the receipts the sink accepted. \<open>accepted\<close> is
  the sink's answer; the lock is not poisoned, since no code panics while holding it.
\<close>

definition route_post :: "(string \<Rightarrow> digest) \<Rightarrow> (string \<Rightarrow> payload option) \<Rightarrow> gsi_config
    \<Rightarrow> string option \<Rightarrow> string \<Rightarrow> nat \<Rightarrow> bool \<Rightarrow> engine_state
    \<Rightarrow> http_reply \<times> engine_state \<times> evidence_receipt list" where
  "route_post sha256 parse config content_type body received_at accepted s =
     (if \<not> is_json_content_type content_type
      then ((UnsupportedMediaType, ''wrong-content-type''), s, [])
      else case parse body of None \<Rightarrow> ((BadRequest, ''invalid-json''), s, [])
      | Some payload \<Rightarrow>
        if \<not> token_matches sha256 config payload then ((Unauthorized, ''unauthorized''), s, [])
        else if \<not> player_matches sha256 config payload
        then ((Unauthorized, ''unauthorized''), clear_transition_baselines s, [])
        else if obind (pl_provider payload) pr_appid \<noteq> Some 730
        then ((BadRequest, ''wrong-app''), s, [])
        else
          let hash = hex_array (sha256 body);
              s = s\<lparr>es_recent_hashes := retain_recent received_at (es_recent_hashes s)\<rparr>
          in
          if (case es_recent_hashes s hash of None \<Rightarrow> False
              | Some seen_at \<Rightarrow> saturating_sub received_at seen_at \<le> DUPLICATE_WINDOW)
          then ((StatusOk, ''duplicate''), s, [])
          else
            let snapshot = snapshot_of sha256 payload;
                receipt = receipt_of s snapshot (presence_of payload) hash received_at
            in
            if \<not> accepted then ((InternalServerError, ''sink-failure''), s, [])
            else ((StatusOk, ''seeded''), commit_receipt s snapshot receipt, [receipt]))"

definition poll_stale :: "gsi_config \<Rightarrow> nat \<Rightarrow> bool \<Rightarrow> engine_state
    \<Rightarrow> (service_diagnostic, poll_outcome) result \<times> engine_state \<times> evidence_receipt list" where
  "poll_stale config now accepted s =
     (case es_last_received_at s of None \<Rightarrow> (Inr NoChange, s, [])
      | Some last_received_at \<Rightarrow>
        if es_stale s \<or> saturating_sub now last_received_at < stale_after (gc_heartbeat config)
        then (Inr NoChange, s, [])
        else case (es_last_hash s, es_last_presence s, es_last_context s) of
          (Some payload_hash, Some presence, Some context') \<Rightarrow>
            if \<not> accepted then (Inl SinkFailure, s, [])
            else
              (Inr StaleEmitted,
               s\<lparr>es_sequence := es_sequence s + 1, es_stale := True, es_snapshot := None,
                 es_recent_hashes := (\<lambda>_. None)\<rparr>,
               [\<lparr>er_sequence = es_sequence s + 1, er_received_at = now,
                 er_payload_hash = payload_hash, er_presence = presence, er_context = context',
                 er_output = Stale, er_facts = []\<rparr>])
        | _ \<Rightarrow> (Inr NoChange, s, []))"

text \<open>The service as a machine: its engine, and the log of the receipts its sink accepted.\<close>

datatype gsi_event = Post "string option" string nat bool | Poll nat bool

fun gsi_step :: "(string \<Rightarrow> digest) \<Rightarrow> (string \<Rightarrow> payload option) \<Rightarrow> gsi_config
    \<Rightarrow> engine_state \<times> evidence_receipt list \<Rightarrow> gsi_event \<Rightarrow> engine_state \<times> evidence_receipt list" where
  "gsi_step sha256 parse config (s, log) (Post content_type body now accepted) =
     (let (_, s', receipts) = route_post sha256 parse config content_type body now accepted s
      in (s', log @ receipts))"
| "gsi_step sha256 parse config (s, log) (Poll now accepted) =
     (let (_, s', receipts) = poll_stale config now accepted s in (s', log @ receipts))"

section \<open>Only authentic posts are heard\<close>

definition authentic :: "(string \<Rightarrow> digest) \<Rightarrow> (string \<Rightarrow> payload option) \<Rightarrow> gsi_config
    \<Rightarrow> string option \<Rightarrow> string \<Rightarrow> payload \<Rightarrow> bool" where
  "authentic sha256 parse config content_type body p \<longleftrightarrow>
     is_json_content_type content_type \<and> parse body = Some p \<and> token_matches sha256 config p
     \<and> player_matches sha256 config p \<and> obind (pl_provider p) pr_appid = Some 730"

abbreviation pruned :: "nat \<Rightarrow> engine_state \<Rightarrow> engine_state" where
  "pruned now s \<equiv> s\<lparr>es_recent_hashes := retain_recent now (es_recent_hashes s)\<rparr>"

text \<open>The handler has four outcomes: ignore, clear, prune only, and commit.\<close>

lemma route_post_cases:
  obtains (ignored) "snd (route_post sha256 parse config ct body now accepted s) = (s, [])"
      "\<nexists>p. authentic sha256 parse config ct body p"
  | (cleared) "snd (route_post sha256 parse config ct body now accepted s)
        = (clear_transition_baselines s, [])" "\<nexists>p. authentic sha256 parse config ct body p"
  | (dropped) p where "authentic sha256 parse config ct body p"
      "snd (route_post sha256 parse config ct body now accepted s) = (pruned now s, [])"
  | (committed) p r where "authentic sha256 parse config ct body p" "accepted"
      "r = receipt_of (pruned now s) (snapshot_of sha256 p) (presence_of p) (hex_array (sha256 body)) now"
      "route_post sha256 parse config ct body now accepted s = ((StatusOk, ''seeded''),
        commit_receipt (pruned now s) (snapshot_of sha256 p) r, [r])"
      "retain_recent now (es_recent_hashes s) (hex_array (sha256 body)) = None"
proof (cases "\<exists>p. authentic sha256 parse config ct body p")
  case False
  then have "snd (route_post sha256 parse config ct body now accepted s) = (s, [])
    \<or> snd (route_post sha256 parse config ct body now accepted s) = (clear_transition_baselines s, [])"
    by (auto simp: route_post_def authentic_def split: option.splits)
  with False show thesis using ignored cleared by blast
next
  case True
  then obtain p where p: "authentic sha256 parse config ct body p" ..
  have fresh: "(case retain_recent now m h of None \<Rightarrow> False
      | Some seen_at \<Rightarrow> saturating_sub now seen_at \<le> DUPLICATE_WINDOW) \<longleftrightarrow> retain_recent now m h \<noteq> None"
    for m h by (auto simp: retain_recent_def split: option.splits)
  show thesis
  proof (cases "accepted \<and> retain_recent now (es_recent_hashes s) (hex_array (sha256 body)) = None")
    case True
    then have "route_post sha256 parse config ct body now accepted s = ((StatusOk, ''seeded''),
        commit_receipt (pruned now s) (snapshot_of sha256 p)
          (receipt_of (pruned now s) (snapshot_of sha256 p) (presence_of p) (hex_array (sha256 body)) now),
        [receipt_of (pruned now s) (snapshot_of sha256 p) (presence_of p) (hex_array (sha256 body)) now])"
      using p by (simp add: route_post_def authentic_def Let_def fresh)
    with True p show thesis using committed by blast
  next
    case False
    then have "snd (route_post sha256 parse config ct body now accepted s) = (pruned now s, [])"
      using p by (auto simp: route_post_def authentic_def Let_def fresh)
    with p show thesis by (rule dropped)
  qed
qed

section \<open>The log\<close>

definition outputs_follow :: "state_output \<Rightarrow> state_output \<Rightarrow> bool" where
  "outputs_follow a b \<longleftrightarrow> (if a = Stale then b = Recovered \<or> b = Seeded else b \<noteq> Recovered)"

definition gsi_inv :: "engine_state \<times> evidence_receipt list \<Rightarrow> bool" where
  "gsi_inv st \<longleftrightarrow> (case st of (s, log) \<Rightarrow>
     map er_sequence log = [1..<Suc (length log)] \<and> es_sequence s = length log
     \<and> successively outputs_follow (map er_output log)
     \<and> (\<forall>r\<in>set log. er_facts r \<noteq> [] \<longrightarrow> er_output r = Healthy)
     \<and> (es_stale s \<longrightarrow> log \<noteq> [] \<and> er_output (last log) = Stale)
     \<and> (es_snapshot s \<noteq> None \<or> es_last_received_at s \<noteq> None \<and> \<not> es_stale s \<longrightarrow>
         log \<noteq> [] \<and> er_output (last log) \<noteq> Stale)
     \<and> (log \<noteq> [] \<longrightarrow> er_output (hd log) = Seeded))"

lemma derive_transition_output:
  "fst (derive_transition a b) = Healthy \<and> \<not> session_reset a b
    \<or> derive_transition a b = (SessionReset, []) \<and> session_reset a b"
  by (simp add: derive_transition_def)

lemma gsi_inv_keep:
  assumes "gsi_inv (s, log)" "es_sequence s' = es_sequence s"
    "es_stale s' \<longrightarrow> es_stale s" "es_snapshot s' \<noteq> None \<longrightarrow> es_snapshot s \<noteq> None"
    "es_last_received_at s' \<noteq> None \<and> \<not> es_stale s' \<longrightarrow> es_last_received_at s \<noteq> None \<and> \<not> es_stale s"
  shows "gsi_inv (s', log)"
  using assms by (auto simp: gsi_inv_def)

lemma gsi_inv_extend:
  assumes inv: "gsi_inv (s, log)" and seq: "er_sequence r = es_sequence s + 1"
    and "es_sequence s' = er_sequence r"
    and "log = [] \<longrightarrow> er_output r = Seeded"
    and "log \<noteq> [] \<longrightarrow> outputs_follow (er_output (last log)) (er_output r)"
    and "er_facts r \<noteq> [] \<longrightarrow> er_output r = Healthy"
    and "es_stale s' \<longleftrightarrow> er_output r = Stale" and "es_stale s' \<longrightarrow> es_snapshot s' = None"
  shows "gsi_inv (s', log @ [r])"
proof (cases "log = []")
  case True
  with assms show ?thesis by (auto simp: gsi_inv_def)
next
  case False
  then have "[1..<Suc (length log)] @ [Suc (length log)] = [1..<Suc (length (log @ [r]))]" by simp
  with False assms show ?thesis
    by (auto simp: gsi_inv_def successively_append_iff last_map simp del: upt_Suc)
qed

lemma gsi_step_post:
  "gsi_step sha256 parse config (s, log) (Post ct body now accepted)
    = (fst (snd (route_post sha256 parse config ct body now accepted s)),
       log @ snd (snd (route_post sha256 parse config ct body now accepted s)))"
  by (simp add: split_beta Let_def)

lemma gsi_inv_post:
  assumes "gsi_inv (s, log)"
  shows "gsi_inv (gsi_step sha256 parse config (s, log) (Post ct body now accepted))"
proof (cases rule: route_post_cases [of sha256 parse config ct body now accepted s])
  case ignored
  with assms show ?thesis by (simp only: gsi_step_post fst_conv snd_conv append_Nil2)
next
  case cleared
  have "gsi_inv (clear_transition_baselines s, log)"
    by (rule gsi_inv_keep [OF assms]) (simp_all add: clear_transition_baselines_def)
  with cleared show ?thesis by (simp only: gsi_step_post fst_conv snd_conv append_Nil2)
next
  case (dropped p)
  have "gsi_inv (pruned now s, log)" by (rule gsi_inv_keep [OF assms]) simp_all
  with dropped show ?thesis by (simp only: gsi_step_post fst_conv snd_conv append_Nil2)
next
  case (committed p r)
  let ?out = "transition_output (pruned now s) (snapshot_of sha256 p)"
  have out: "er_output r = fst ?out" "er_facts r = snd ?out" "er_sequence r = es_sequence s + 1"
    using committed(3) by (simp_all add: receipt_of_def)
  have shape: "es_stale s \<and> ?out = (Recovered, []) \<or> \<not> es_stale s \<and> es_snapshot s = None \<and> ?out = (Seeded, [])
      \<or> \<not> es_stale s \<and> es_snapshot s \<noteq> None \<and> (fst ?out = Healthy \<or> ?out = (SessionReset, []))"
    using derive_transition_output by (auto simp: transition_output_def split: option.splits)
  have "gsi_inv (commit_receipt (pruned now s) (snapshot_of sha256 p) r, log @ [r])"
  proof (rule gsi_inv_extend [OF assms])
    show "log = [] \<longrightarrow> er_output r = Seeded"
      using shape assms out by (auto simp: gsi_inv_def)
    show "log \<noteq> [] \<longrightarrow> outputs_follow (er_output (last log)) (er_output r)"
      using shape assms out by (auto simp: gsi_inv_def outputs_follow_def)
    show "er_facts r \<noteq> [] \<longrightarrow> er_output r = Healthy" using shape out by auto
    show "es_stale (commit_receipt (pruned now s) (snapshot_of sha256 p) r) \<longleftrightarrow> er_output r = Stale"
      using shape out by (auto simp: commit_receipt_def Let_def)
  qed (use out in \<open>auto simp: commit_receipt_def Let_def\<close>)
  then show ?thesis by (simp only: gsi_step_post committed(4) fst_conv snd_conv)
qed

lemma gsi_inv_poll:
  assumes "gsi_inv (s, log)"
  shows "gsi_inv (gsi_step sha256 parse config (s, log) (Poll now accepted))"
  using assms
  by (auto simp: poll_stale_def split: option.splits intro!: gsi_inv_extend)
    (auto simp: gsi_inv_def outputs_follow_def)

interpretation gsi: transition_function "(engine_default, [])" "gsi_step sha256 parse config" gsi_inv
  for sha256 parse config
proof
  show "gsi_inv (engine_default, [])" by (simp add: gsi_inv_def engine_default_def)
  fix st e assume "gsi_inv st"
  then show "gsi_inv (gsi_step sha256 parse config st e)"
    by (cases st; cases e) (simp_all only: gsi_inv_post gsi_inv_poll)
qed

section \<open>What the engine remembers of the last post\<close>

definition last_inv :: "engine_state \<times> evidence_receipt list \<Rightarrow> bool" where
  "last_inv st \<longleftrightarrow> (es_last_received_at (fst st) = None \<longrightarrow> \<not> es_stale (fst st))
     \<and> (es_last_received_at (fst st) \<noteq> None \<longrightarrow> es_last_hash (fst st) \<noteq> None
         \<and> es_last_presence (fst st) \<noteq> None \<and> es_last_context (fst st) \<noteq> None)"

lemma last_inv_post:
  assumes "last_inv (s, log)"
  shows "last_inv (gsi_step sha256 parse config (s, log) (Post ct body now accepted))"
  using assms unfolding gsi_step_post last_inv_def
  by (cases rule: route_post_cases [of sha256 parse config ct body now accepted s])
    (simp_all add: clear_transition_baselines_def commit_receipt_def Let_def)

lemma last_inv_poll:
  "last_inv (s, log) \<Longrightarrow> last_inv (gsi_step sha256 parse config (s, log) (Poll now accepted))"
  by (auto simp: last_inv_def poll_stale_def split: option.splits)

interpretation gsi_last: transition_function "(engine_default, [])" "gsi_step sha256 parse config" last_inv
  for sha256 parse config
proof
  show "last_inv (engine_default, [])" by (simp add: last_inv_def engine_default_def)
  fix st e assume "last_inv st"
  then show "last_inv (gsi_step sha256 parse config st e)"
    by (cases st; cases e) (simp_all only: last_inv_post last_inv_poll)
qed

section \<open>Duplicates\<close>

fun event_time :: "gsi_event \<Rightarrow> nat" where
  "event_time (Post ct body now accepted) = now"
| "event_time (Poll now accepted) = now"

text \<open>A post with the right token about another player clears the baselines.\<close>

fun foreign :: "(string \<Rightarrow> digest) \<Rightarrow> (string \<Rightarrow> payload option) \<Rightarrow> gsi_config \<Rightarrow> gsi_event \<Rightarrow> bool" where
  "foreign sha256 parse config (Post ct body now accepted) \<longleftrightarrow>
     (\<exists>p. parse body = Some p \<and> token_matches sha256 config p \<and> \<not> player_matches sha256 config p)"
| "foreign sha256 parse config (Poll now accepted) \<longleftrightarrow> False"

definition resets :: "evidence_receipt \<Rightarrow> bool" where
  "resets r \<longleftrightarrow> er_output r = Stale \<or> er_output r = SessionReset"

lemma route_post_not_foreign:
  assumes "\<not> foreign sha256 parse config (Post ct body now accepted)"
  shows "snd (route_post sha256 parse config ct body now accepted s) = (s, [])
    \<or> (\<exists>p. authentic sha256 parse config ct body p)"
  using assms by (auto simp: route_post_def authentic_def split: option.splits)

lemma retain_recent_keeps:
  "m h = Some t \<Longrightarrow> now \<le> t + DUPLICATE_WINDOW \<Longrightarrow> retain_recent now m h = Some t"
  by (simp add: retain_recent_def saturating_sub_def)

lemma duplicate_step:
  assumes h: "es_recent_hashes s h = Some t" and e: "event_time e \<le> t + DUPLICATE_WINDOW"
    and nf: "\<not> foreign sha256 parse config e"
    and step: "gsi_step sha256 parse config (s, log) e = (s', log @ new)"
    and quiet: "\<forall>r\<in>set new. \<not> resets r"
  shows "es_recent_hashes s' h = Some t \<and> (\<forall>r\<in>set new. er_payload_hash r \<noteq> h)"
proof (cases e)
  case (Poll now accepted)
  with step quiet h show ?thesis
    by (auto simp: poll_stale_def resets_def split: option.splits if_splits)
next
  case (Post ct body now accepted)
  have keep: "retain_recent now (es_recent_hashes s) h = Some t"
    using h e Post by (simp add: retain_recent_keeps)
  have st: "s' = fst (snd (route_post sha256 parse config ct body now accepted s))"
    "new = snd (snd (route_post sha256 parse config ct body now accepted s))"
    using step by (simp_all only: Post gsi_step_post prod.inject same_append_eq)
  show ?thesis
  proof (cases rule: route_post_cases [of sha256 parse config ct body now accepted s])
    case ignored
    with st h show ?thesis by simp
  next
    case cleared
    then have "snd (route_post sha256 parse config ct body now accepted s) = (s, [])"
      using route_post_not_foreign [of sha256 parse config ct body now accepted s] nf Post by blast
    with st h show ?thesis by simp
  next
    case (dropped p)
    with st keep show ?thesis by simp
  next
    case (committed p r)
    then have s': "s' = commit_receipt (pruned now s) (snapshot_of sha256 p) r" "new = [r]"
      using st by simp_all
    have "er_output r \<noteq> SessionReset" using quiet s'(2) by (simp add: resets_def)
    moreover have "er_payload_hash r \<noteq> h"
      using committed(3,5) keep by (auto simp: receipt_of_def)
    ultimately show ?thesis using keep s' by (simp add: commit_receipt_def Let_def)
  qed
qed

lemma gsi_step_extends: "\<exists>s' new. gsi_step sha256 parse config (s, log) e = (s', log @ new)"
  by (cases e) (simp_all add: split_beta Let_def)

lemma gsi_run_extends: "\<exists>s' new. foldl (gsi_step sha256 parse config) (s, log) es = (s', log @ new)"
proof (induction es arbitrary: s log)
  case (Cons e es)
  obtain s1 n1 where "gsi_step sha256 parse config (s, log) e = (s1, log @ n1)"
    using gsi_step_extends by blast
  moreover obtain s2 n2 where
    "foldl (gsi_step sha256 parse config) (s1, log @ n1) es = (s2, (log @ n1) @ n2)"
    using Cons.IH by blast
  ultimately show ?case by simp
qed simp

lemma duplicate_run:
  assumes "es_recent_hashes s h = Some t"
    and "\<forall>e\<in>set es. event_time e \<le> t + DUPLICATE_WINDOW \<and> \<not> foreign sha256 parse config e"
    and "foldl (gsi_step sha256 parse config) (s, log) es = (s', log @ new)"
    and "\<forall>r\<in>set new. \<not> resets r"
  shows "\<forall>r\<in>set new. er_payload_hash r \<noteq> h"
  using assms
proof (induction es arbitrary: s log new)
  case Nil
  then show ?case by simp
next
  case (Cons e es)
  obtain s1 n1 where one: "gsi_step sha256 parse config (s, log) e = (s1, log @ n1)"
    using gsi_step_extends by blast
  obtain s2 n2 where rest: "foldl (gsi_step sha256 parse config) (s1, log @ n1) es = (s2, (log @ n1) @ n2)"
    using gsi_run_extends by blast
  have new: "new = n1 @ n2" "s2 = s'" using Cons.prems(3) one rest by simp_all
  have "es_recent_hashes s1 h = Some t \<and> (\<forall>r\<in>set n1. er_payload_hash r \<noteq> h)"
    using Cons.prems new by (intro duplicate_step [OF _ _ _ one]) auto
  moreover from this have "\<forall>r\<in>set n2. er_payload_hash r \<noteq> h"
    using Cons.prems new rest by (intro Cons.IH [of s1 "log @ n1" n2]) auto
  ultimately show ?case using new by auto
qed

section \<open>Facts of a run of snapshots\<close>

definition run_facts :: "trusted_snapshot list \<Rightarrow> transition_fact list" where
  "run_facts ss = concat (map2 (\<lambda>a b. snd (derive_transition a b)) ss (tl ss))"

fun kill_delta :: "transition_fact \<Rightarrow> int" where
  "kill_delta (CumulativeKillDelta p c d) = d"
| "kill_delta _ = 0"

fun death_delta :: "transition_fact \<Rightarrow> int" where
  "death_delta (CumulativeDeathDelta p c d) = d"
| "death_delta _ = 0"

fun is_round_end :: "transition_fact \<Rightarrow> bool" where
  "is_round_end (RoundEnd c n) = True"
| "is_round_end _ = False"

definition counted :: "trusted_snapshot \<Rightarrow> nat \<Rightarrow> int \<Rightarrow> int \<Rightarrow> bool" where
  "counted s r k d \<longleftrightarrow> ts_round s = Some r \<and> ts_kills s = Some k \<and> ts_deaths s = Some d \<and> 0 \<le> k \<and> 0 \<le> d"

lemma kill_facts_shape:
  "kill_facts a b = [] \<or> (\<exists>p c d. kill_facts a b = [CumulativeKillDelta p c d])"
  by (auto simp: kill_facts_def split: option.split)

lemma death_facts_shape:
  "death_facts a b = [] \<or> (\<exists>p c d. death_facts a b = [CumulativeDeathDelta p c d])"
  by (auto simp: death_facts_def split: option.split)

lemma round_kill_facts_shape:
  "round_kill_facts a b = [] \<or> (\<exists>p c d. round_kill_facts a b = [RoundKillDelta p c d])"
  by (auto simp: round_kill_facts_def split: option.split)

lemma health_facts_shape:
  "health_facts a b = [] \<or> (\<exists>p c. health_facts a b = [HealthDepleted p c])"
  by (auto simp: health_facts_def split: option.split)

lemma pair_facts:
  assumes "counted a r k d" "counted b r' k' d'" "\<not> session_reset a b"
  shows "sum_list (map kill_delta (snd (derive_transition a b))) = k' - k"
    "sum_list (map death_delta (snd (derive_transition a b))) = d' - d"
    "filter is_round_end (snd (derive_transition a b)) = map (\<lambda>n. RoundEnd n (n + 1)) [r..<r']"
    "k \<le> k'" "d \<le> d'" "r \<le> r'"
proof -
  have mono: "k \<le> k'" "d \<le> d'" "r \<le> r'"
    using assms by (auto simp: session_reset_def decreased_def counted_def)
  then show "k \<le> k'" "d \<le> d'" "r \<le> r'" .
  have zero: "sum_list (map kill_delta (round_kill_facts a b)) = 0"
    "sum_list (map kill_delta (health_facts a b)) = 0"
    "sum_list (map kill_delta (death_facts a b)) = 0"
    "sum_list (map death_delta (round_kill_facts a b)) = 0"
    "sum_list (map death_delta (health_facts a b)) = 0"
    "sum_list (map death_delta (kill_facts a b)) = 0"
    "filter is_round_end (kill_facts a b) = []" "filter is_round_end (death_facts a b) = []"
    "filter is_round_end (round_kill_facts a b) = []" "filter is_round_end (health_facts a b) = []"
    using kill_facts_shape [of a b] death_facts_shape [of a b] round_kill_facts_shape [of a b]
      health_facts_shape [of a b] by auto
  have ends: "sum_list (map kill_delta (round_end_facts a b)) = 0"
    "sum_list (map death_delta (round_end_facts a b)) = 0"
    using assms(1,2) by (simp_all add: round_end_facts_def counted_def comp_def sum_list_0)
  have own: "sum_list (map kill_delta (kill_facts a b)) = k' - k"
    "sum_list (map death_delta (death_facts a b)) = d' - d"
    using assms(1,2) mono by (simp_all add: kill_facts_def death_facts_def counted_def)
  have rounds: "filter is_round_end (round_end_facts a b) = map (\<lambda>n. RoundEnd n (n + 1)) [r..<r']"
    using assms(1,2) by (simp add: round_end_facts_def counted_def filter_map comp_def)
  have facts: "snd (derive_transition a b) = kill_facts a b @ death_facts a b @ round_kill_facts a b
      @ health_facts a b @ round_end_facts a b"
    using assms(3) by (simp add: derive_transition_def)
  show "sum_list (map kill_delta (snd (derive_transition a b))) = k' - k"
    "sum_list (map death_delta (snd (derive_transition a b))) = d' - d"
    "filter is_round_end (snd (derive_transition a b)) = map (\<lambda>n. RoundEnd n (n + 1)) [r..<r']"
    unfolding facts by (simp_all add: zero ends own rounds)
qed

lemma run_facts_telescope:
  assumes "successively (\<lambda>a b. \<not> session_reset a b) ss" "ss \<noteq> []"
    and "\<forall>s\<in>set ss. \<exists>r k d. counted s r k d"
    and "counted (hd ss) r0 k0 d0" "counted (last ss) r1 k1 d1"
  shows "sum_list (map kill_delta (run_facts ss)) = k1 - k0
    \<and> sum_list (map death_delta (run_facts ss)) = d1 - d0
    \<and> filter is_round_end (run_facts ss) = map (\<lambda>n. RoundEnd n (n + 1)) [r0..<r1] \<and> r0 \<le> r1"
  using assms
proof (induction ss arbitrary: r0 k0 d0)
  case Nil
  then show ?case by simp
next
  case (Cons a ss)
  show ?case
  proof (cases ss)
    case Nil
    with Cons.prems show ?thesis by (auto simp: run_facts_def counted_def)
  next
    case (Cons b rest)
    obtain r k d where b: "counted b r k d" using Cons.prems(3) Cons by auto
    have ab: "counted a r0 k0 d0" "\<not> session_reset a b"
      using Cons.prems(1,4) Cons by auto
    note pair = pair_facts [OF ab(1) b ab(2)]
    have IH: "sum_list (map kill_delta (run_facts ss)) = k1 - k
      \<and> sum_list (map death_delta (run_facts ss)) = d1 - d
      \<and> filter is_round_end (run_facts ss) = map (\<lambda>n. RoundEnd n (n + 1)) [r..<r1] \<and> r \<le> r1"
      by (rule Cons.IH) (use Cons.prems b Cons in auto)
    have split: "run_facts (a # ss) = snd (derive_transition a b) @ run_facts ss"
      by (simp add: run_facts_def Cons)
    have "[r0..<r] @ [r..<r1] = [r0..<r1]"
      using pair(6) IH by (metis le_add_diff_inverse upt_add_eq_append)
    then have "map (\<lambda>n. RoundEnd n (n + 1)) [r0..<r] @ map (\<lambda>n. RoundEnd n (n + 1)) [r..<r1]
        = map (\<lambda>n. RoundEnd n (n + 1)) [r0..<r1]" by (simp only: map_append [symmetric])
    with pair IH show ?thesis by (simp add: split)
  qed
qed

section \<open>Properties\<close>

text \<open>A parser and a hash for the applications below.\<close>

definition demo_payload :: payload where
  "demo_payload = \<lparr>pl_provider = Some \<lparr>pr_appid = Some 730, pr_timestamp = Some 1\<rparr>,
     pl_map = Some \<lparr>ms_name = Some ''de_mirage'', ms_mode = None, ms_round = Some 3\<rparr>,
     pl_auth = Some (Some ''secret''),
     pl_player = Some \<lparr>ps_steamid = Some ''me'', ps_state = None, ps_weapons = None,
       ps_match_stats = Some \<lparr>st_kills = Some 2, st_deaths = Some 1\<rparr>\<rparr>\<rparr>"

definition demo_parse :: "string \<Rightarrow> payload option" where
  "demo_parse body = (if body = ''good'' then Some demo_payload else None)"

definition demo_config :: gsi_config where
  "demo_config = gsi_config_new id ''secret'' ''me'' (seconds 10)"

lemma demo_authentic: "authentic id demo_parse demo_config (Some ''application/json'') ''good'' demo_payload"
  by (simp add: authentic_def demo_parse_def demo_config_def demo_payload_def gsi_config_new_def
    token_matches_def player_matches_def is_json_content_type_def trim_ascii_def ascii_lower_def)

text \<open>
  Only an authentic post is heard: a receipt is emitted only for a JSON body whose token and
  player match the configuration, for the game's application id, and then exactly one, which the
  sink accepted; a post that fails the content type, the parser or the token leaves the engine
  as it was, and no rejected post changes the sequence number.
\<close>
theorem gsi_hears_only_authentic:
  assumes "route_post sha256 parse config ct body now accepted s = (reply, s', receipts)"
  shows "(receipts \<noteq> [] \<longrightarrow> accepted \<and> reply = (StatusOk, ''seeded'') \<and> length receipts = 1
      \<and> (\<exists>p. authentic sha256 parse config ct body p
        \<and> er_context (hd receipts) = context_of (snapshot_of sha256 p)
        \<and> er_presence (hd receipts) = presence_of p))
    \<and> (receipts = [] \<longrightarrow> es_sequence s' = es_sequence s)
    \<and> (\<not> is_json_content_type ct \<or> parse body = None
        \<or> (\<exists>p. parse body = Some p \<and> \<not> token_matches sha256 config p) \<longrightarrow> s' = s \<and> receipts = [])"
proof -
  have eq: "s' = fst (snd (route_post sha256 parse config ct body now accepted s))"
    "receipts = snd (snd (route_post sha256 parse config ct body now accepted s))"
    "reply = fst (route_post sha256 parse config ct body now accepted s)"
    using assms by simp_all
  have "\<not> is_json_content_type ct \<or> parse body = None
      \<or> (\<exists>p. parse body = Some p \<and> \<not> token_matches sha256 config p) \<longrightarrow> s' = s \<and> receipts = []"
    unfolding eq by (auto simp: route_post_def)
  moreover have "(receipts \<noteq> [] \<longrightarrow> accepted \<and> reply = (StatusOk, ''seeded'') \<and> length receipts = 1
      \<and> (\<exists>p. authentic sha256 parse config ct body p
        \<and> er_context (hd receipts) = context_of (snapshot_of sha256 p)
        \<and> er_presence (hd receipts) = presence_of p))
    \<and> (receipts = [] \<longrightarrow> es_sequence s' = es_sequence s)"
    by (cases rule: route_post_cases [of sha256 parse config ct body now accepted s])
      (auto simp: eq clear_transition_baselines_def receipt_of_def)
  ultimately show ?thesis by blast
qed

theorem gsi_hears_only_authentic_witness:
  "snd (route_post id demo_parse demo_config (Some ''text/html'') ''good'' 5 True engine_default)
    = (engine_default, [])"
proof -
  obtain reply s' receipts where r:
      "route_post id demo_parse demo_config (Some ''text/html'') ''good'' 5 True engine_default
        = (reply, s', receipts)" by (metis prod.exhaust)
  have "\<not> is_json_content_type (Some ''text/html'')"
    by (simp add: is_json_content_type_def trim_ascii_def ascii_lower_def)
  with gsi_hears_only_authentic [OF r] r show ?thesis by simp
qed

text \<open>
  C2: Whatever is posted and polled, in any order and with any failures of the sink, the receipts
  the sink accepted are numbered 1, 2, 3, ... without gap or repetition; the first is a seed; an
  outage is reported once (no two stale receipts in a row) and what follows it is a recovery or
  a new seed, while a recovery follows nothing else; facts come only with healthy transitions.
\<close>
theorem gsi_log_wellformed:
  "\<exists>s log. foldl (gsi_step sha256 parse config) (engine_default, []) events = (s, log)
    \<and> map er_sequence log = [1..<Suc (length log)] \<and> es_sequence s = length log
    \<and> (log \<noteq> [] \<longrightarrow> er_output (hd log) = Seeded)
    \<and> successively outputs_follow (map er_output log)
    \<and> (\<forall>r\<in>set log. er_facts r \<noteq> [] \<longrightarrow> er_output r = Healthy)"
proof -
  obtain s log where st: "foldl (gsi_step sha256 parse config) (engine_default, []) events = (s, log)"
    by (metis prod.exhaust)
  have "gsi_inv (s, log)" using gsi.inv_run [of sha256 parse config events] by (simp add: st)
  with st show ?thesis by (auto simp: gsi_inv_def)
qed

theorem gsi_log_wellformed_witness:
  "\<exists>s log. foldl (gsi_step id demo_parse demo_config) (engine_default, [])
      [Post (Some ''application/json'') ''good'' 0 True, Poll (seconds 31) True] = (s, log)
    \<and> map er_sequence log = [1..<Suc (length log)]"
  using gsi_log_wellformed [of id demo_parse demo_config
    "[Post (Some ''application/json'') ''good'' 0 True, Poll (seconds 31) True]"] by blast

text \<open>
  No payload is counted twice: after a post was accepted at time \<open>t\<close>, the same body produces no
  second receipt up to two seconds later, whatever else happens in between, unless the engine
  starts over (an outage, a new session, or a post about another player).
\<close>
theorem gsi_no_duplicates:
  assumes "gsi_step sha256 parse config (s, log) (Post ct body t accepted) = (s1, log @ [r])"
    and "foldl (gsi_step sha256 parse config) (s1, log @ [r]) events = (s2, log @ [r] @ new)"
    and "\<forall>e\<in>set events. event_time e \<le> t + DUPLICATE_WINDOW \<and> \<not> foreign sha256 parse config e"
    and "\<forall>r'\<in>set new. \<not> resets r'"
  shows "er_payload_hash r = hex_array (sha256 body) \<and> (\<forall>r'\<in>set new. er_payload_hash r' \<noteq> er_payload_hash r)"
proof -
  have post: "s1 = fst (snd (route_post sha256 parse config ct body t accepted s))"
    "[r] = snd (snd (route_post sha256 parse config ct body t accepted s))"
    using assms(1) by (simp_all only: gsi_step_post prod.inject same_append_eq)
  have h: "es_recent_hashes s1 (er_payload_hash r) = Some t" "er_payload_hash r = hex_array (sha256 body)"
    by (atomize (full), cases rule: route_post_cases [of sha256 parse config ct body t accepted s])
      (use post in \<open>auto simp: commit_receipt_def receipt_of_def Let_def\<close>)
  have run: "foldl (gsi_step sha256 parse config) (s1, log @ [r]) events = (s2, (log @ [r]) @ new)"
    using assms(2) by simp
  from duplicate_run [OF h(1) assms(3) run assms(4)] h(2) show ?thesis by simp
qed

lemma demo_post:
  "\<exists>s1 r. gsi_step id demo_parse demo_config (engine_default, [])
      (Post (Some ''application/json'') ''good'' 0 True) = (s1, [] @ [r])"
proof (cases rule: route_post_cases
    [of id demo_parse demo_config "Some ''application/json''" "''good''" 0 True engine_default])
  case (committed p r)
  then show ?thesis unfolding gsi_step_post by simp
next
  case (dropped p)
  have "route_post id demo_parse demo_config (Some ''application/json'') ''good'' 0 True engine_default
    = ((StatusOk, ''seeded''), commit_receipt (pruned 0 engine_default) (snapshot_of id demo_payload)
        (receipt_of (pruned 0 engine_default) (snapshot_of id demo_payload) (presence_of demo_payload)
          (hex_array ''good'') 0),
      [receipt_of (pruned 0 engine_default) (snapshot_of id demo_payload) (presence_of demo_payload)
          (hex_array ''good'') 0])"
    using demo_authentic
    by (simp add: route_post_def authentic_def Let_def retain_recent_def engine_default_def)
  with dropped show ?thesis by simp
qed (use demo_authentic in blast)+

theorem gsi_no_duplicates_witness:
  "\<exists>s1 r s2 new. gsi_step id demo_parse demo_config (engine_default, [])
      (Post (Some ''application/json'') ''good'' 0 True) = (s1, [] @ [r])
    \<and> foldl (gsi_step id demo_parse demo_config) (s1, [] @ [r])
        [Post (Some ''application/json'') ''good'' (seconds 1) False] = (s2, [] @ [r] @ new)
    \<and> (\<forall>r'\<in>set new. er_payload_hash r' \<noteq> er_payload_hash r)"
proof -
  obtain s1 r where r: "gsi_step id demo_parse demo_config (engine_default, [])
      (Post (Some ''application/json'') ''good'' 0 True) = (s1, [] @ [r])"
    using demo_post by blast
  let ?e = "Post (Some ''application/json'') ''good'' (seconds 1) False"
  have "snd (snd (route_post id demo_parse demo_config (Some ''application/json'') ''good'' (seconds 1) False s1)) = []"
    by (cases rule: route_post_cases [of id demo_parse demo_config "Some ''application/json''" "''good''"
      "seconds 1" False s1]) simp_all
  then obtain s2 where s2: "foldl (gsi_step id demo_parse demo_config) (s1, [] @ [r]) [?e] = (s2, [] @ [r] @ [])"
    unfolding foldl_Cons foldl_Nil gsi_step_post by simp
  have "\<forall>e\<in>set [?e]. event_time e \<le> 0 + DUPLICATE_WINDOW \<and> \<not> foreign id demo_parse demo_config e"
    using demo_authentic by (auto simp: seconds_def DUPLICATE_WINDOW_def authentic_def)
  from gsi_no_duplicates [OF r s2 this] r s2 show ?thesis by auto
qed

text \<open>
  The poll reports an outage exactly when it should: in every state the service can reach, a
  stale receipt is emitted if and only if a post was accepted, the outage was not reported yet,
  the silence has lasted three heartbeats (at most ninety seconds) and the sink accepts it;
  otherwise nothing is emitted and the engine is unchanged.
\<close>
theorem poll_reports_outage:
  "\<exists>s log. foldl (gsi_step sha256 parse config) (engine_default, []) events = (s, log)
    \<and> (if accepted \<and> \<not> es_stale s \<and> (\<exists>t. es_last_received_at s = Some t
            \<and> min (3 * gc_heartbeat config) (seconds 90) \<le> now - t)
       then \<exists>r. snd (snd (poll_stale config now accepted s)) = [r] \<and> er_output r = Stale
         \<and> er_facts r = [] \<and> es_stale (fst (snd (poll_stale config now accepted s)))
         \<and> fst (poll_stale config now accepted s) = Inr StaleEmitted
       else snd (poll_stale config now accepted s) = (s, []))"
proof -
  obtain s log where st: "foldl (gsi_step sha256 parse config) (engine_default, []) events = (s, log)"
    by (metis prod.exhaust)
  have "last_inv (s, log)" using gsi_last.inv_run [of sha256 parse config events] by (simp add: st)
  moreover have cap: "seconds 90 \<le> DURATION_MAX"
    by (simp add: seconds_def DURATION_MAX_def u64_max_def)
  have "stale_after (gc_heartbeat config) = min (3 * gc_heartbeat config) (seconds 90)"
    using cap by (auto simp: stale_after_def min_def mult.commute)
  ultimately have "if accepted \<and> \<not> es_stale s \<and> (\<exists>t. es_last_received_at s = Some t
            \<and> min (3 * gc_heartbeat config) (seconds 90) \<le> now - t)
       then \<exists>r. snd (snd (poll_stale config now accepted s)) = [r] \<and> er_output r = Stale
         \<and> er_facts r = [] \<and> es_stale (fst (snd (poll_stale config now accepted s)))
         \<and> fst (poll_stale config now accepted s) = Inr StaleEmitted
       else snd (poll_stale config now accepted s) = (s, [])"
    by (cases "es_last_received_at s")
      (auto simp: poll_stale_def last_inv_def saturating_sub_def not_less split: option.splits)
  with st show ?thesis by blast
qed

text \<open>
  No fact is lost or counted twice: along any run of snapshots without a session reset the
  kill deltas add up to the difference of the cumulative kills, likewise the deaths, and the
  round ends are exactly the rounds from the first to the last snapshot, each once and in order,
  however many rounds a single snapshot skips.
\<close>
theorem gsi_facts_telescope:
  assumes "successively (\<lambda>a b. \<not> session_reset a b) ss" and "ss \<noteq> []"
    and "\<forall>s\<in>set ss. \<exists>r k d. counted s r k d"
    and "counted (hd ss) r0 k0 d0" and "counted (last ss) r1 k1 d1"
  shows "sum_list (map kill_delta (run_facts ss)) = k1 - k0
    \<and> sum_list (map death_delta (run_facts ss)) = d1 - d0
    \<and> filter is_round_end (run_facts ss) = map (\<lambda>n. RoundEnd n (n + 1)) [r0..<r1] \<and> r0 \<le> r1"
  by (rule run_facts_telescope [OF assms])

definition demo_snapshot :: "nat \<Rightarrow> int \<Rightarrow> int \<Rightarrow> trusted_snapshot" where
  "demo_snapshot r k d = \<lparr>ts_session_hash = None, ts_map_hash = None, ts_round = Some r,
     ts_provider_timestamp = None, ts_kills = Some k, ts_deaths = Some d, ts_round_kills = None,
     ts_health = None\<rparr>"

theorem gsi_facts_telescope_witness:
  "sum_list (map kill_delta (run_facts [demo_snapshot 1 4 2, demo_snapshot 3 6 2, demo_snapshot 4 7 3])) = 3"
proof -
  let ?ss = "[demo_snapshot 1 4 2, demo_snapshot 3 6 2, demo_snapshot 4 7 3]"
  have c: "counted (demo_snapshot r k d) r k d" if "0 \<le> k" "0 \<le> d" for r k d
    using that by (simp add: counted_def demo_snapshot_def)
  have "successively (\<lambda>a b. \<not> session_reset a b) ?ss"
    by (simp add: session_reset_def decreased_def demo_snapshot_def)
  moreover have "\<forall>s\<in>set ?ss. \<exists>r k d. counted s r k d"
    by (auto intro!: exI [of "\<lambda>r. \<exists>k d. counted _ r k d"] c simp: counted_def demo_snapshot_def)
  ultimately show ?thesis
    using gsi_facts_telescope [of ?ss 1 4 2 4 7 3] c by simp
qed

end
