(* ===== verification/Effects.thy ===== *)
theory Effects
  imports Prelude
begin

text \<open>
  Stateful, fallible operations: a state transformer that also returns a result. An operation
  that fails keeps the changes made before the failure, as a Rust method that leaves by \<open>?\<close> does.
  The interface \<open>effect_order\<close> lifts a reflexive and transitive relation on states (an invariant
  kept, a history only extended) through sequences of operations.
\<close>

type_synonym ('s, 'e, 'a) effect = "'s \<Rightarrow> ('e, 'a) result \<times> 's"

named_theorems effect_simps "unfolding of the effect combinators"

definition ret :: "'a \<Rightarrow> ('s, 'e, 'a) effect" where
  [effect_simps]: "ret x = (\<lambda>s. (Inr x, s))"

definition throw :: "'e \<Rightarrow> ('s, 'e, 'a) effect" where
  [effect_simps]: "throw e = (\<lambda>s. (Inl e, s))"

definition bind :: "('s, 'e, 'a) effect \<Rightarrow> ('a \<Rightarrow> ('s, 'e, 'b) effect) \<Rightarrow> ('s, 'e, 'b) effect" where
  "bind m f = (\<lambda>s. case m s of (Inl e, t) \<Rightarrow> (Inl e, t) | (Inr x, t) \<Rightarrow> f x t)"

definition asks :: "('s \<Rightarrow> 'a) \<Rightarrow> ('s, 'e, 'a) effect" where
  [effect_simps]: "asks f = (\<lambda>s. (Inr (f s), s))"

definition modify :: "('s \<Rightarrow> 's) \<Rightarrow> ('s, 'e, unit) effect" where
  [effect_simps]: "modify f = (\<lambda>s. (Inr (), f s))"

definition lift_option :: "'e \<Rightarrow> 'a option \<Rightarrow> ('s, 'e, 'a) effect" where
  [effect_simps]: "lift_option e v = (\<lambda>s. (ok_or e v, s))"

definition when_do :: "bool \<Rightarrow> ('s, 'e, unit) effect \<Rightarrow> ('s, 'e, unit) effect" where
  "when_do b m = (if b then m else ret ())"

text \<open>\<open>let result = op();\<close> without \<open>?\<close>: the error is a value.\<close>

definition attempt :: "('s, 'e, 'a) effect \<Rightarrow> ('s, 'f, ('e, 'a) result) effect" where
  "attempt m = (\<lambda>s. case m s of (r, t) \<Rightarrow> (Inr r, t))"

definition map_error :: "('e \<Rightarrow> 'f) \<Rightarrow> ('s, 'e, 'a) effect \<Rightarrow> ('s, 'f, 'a) effect" where
  "map_error g m = (\<lambda>s. case m s of (r, t) \<Rightarrow> (map_err g r, t))"

fun for_each :: "('a \<Rightarrow> ('s, 'e, unit) effect) \<Rightarrow> 'a list \<Rightarrow> ('s, 'e, unit) effect" where
  "for_each f [] = ret ()"
| "for_each f (x # xs) = bind (f x) (\<lambda>_. for_each f xs)"

lemma bind_apply [effect_simps]:
  "bind m f s = (case fst (m s) of Inl e \<Rightarrow> (Inl e, snd (m s)) | Inr x \<Rightarrow> f x (snd (m s)))"
  by (simp add: bind_def split: prod.split sum.split)

lemma attempt_apply [effect_simps]: "attempt m s = (Inr (fst (m s)), snd (m s))"
  by (simp add: attempt_def split: prod.split)

lemma map_error_apply [effect_simps]: "map_error g m s = (map_err g (fst (m s)), snd (m s))"
  by (simp add: map_error_def split: prod.split)

lemma when_do_simps [simp]: "when_do True m = m" "when_do False m = ret ()"
  by (simp_all add: when_do_def)

lemma bind_Inr:
  "bind m f s = (Inr y, t) \<longleftrightarrow> (\<exists>x u. m s = (Inr x, u) \<and> f x u = (Inr y, t))"
  by (cases "m s"; cases "fst (m s)") (auto simp: bind_def)

lemma bind_Inl:
  "bind m f s = (Inl e, t) \<longleftrightarrow>
    m s = (Inl e, t) \<or> (\<exists>x u. m s = (Inr x, u) \<and> f x u = (Inl e, t))"
  by (cases "m s"; cases "fst (m s)") (auto simp: bind_def)

lemma pure_eq:
  "ret x s = (r, t) \<longleftrightarrow> r = Inr x \<and> t = s" "throw e s = (r, t) \<longleftrightarrow> r = Inl e \<and> t = s"
  "asks g s = (r', t) \<longleftrightarrow> r' = Inr (g s) \<and> t = s" "modify h s = (r'', t) \<longleftrightarrow> r'' = Inr () \<and> t = h s"
  "lift_option e v s = (r, t) \<longleftrightarrow> r = ok_or e v \<and> t = s"
  by (auto simp: effect_simps)

lemmas effect_elims = bind_Inr bind_Inl pure_eq

lemma bind_ret [simp]: "bind (ret x) f = f x"
  by (rule ext) (simp add: effect_simps)

lemma bind_throw [simp]: "bind (throw e) f = throw e"
  by (rule ext) (simp add: effect_simps)

definition obeys :: "('s \<Rightarrow> 's \<Rightarrow> bool) \<Rightarrow> ('s, 'e, 'a) effect \<Rightarrow> bool" where
  "obeys R m \<longleftrightarrow> (\<forall>s. R s (snd (m s)))"

lemma obeysD: "obeys R m \<Longrightarrow> R s (snd (m s))"
  by (simp add: obeys_def)

definition obeys_error :: "('s \<Rightarrow> 's \<Rightarrow> bool) \<Rightarrow> ('s, 'e, 'a) effect \<Rightarrow> bool" where
  "obeys_error R m \<longleftrightarrow> (\<forall>s e t. m s = (Inl e, t) \<longrightarrow> R s t)"

lemma obeys_errorD: "obeys_error R m \<Longrightarrow> m s = (Inl e, t) \<Longrightarrow> R s t"
  by (simp add: obeys_error_def)

locale effect_order =
  fixes R :: "'s \<Rightarrow> 's \<Rightarrow> bool"
  assumes order_refl: "R s s"
    and order_trans: "R s t \<Longrightarrow> R t u \<Longrightarrow> R s u"
begin

lemma obeys_pure: "obeys R (ret x)" "obeys R (throw e)" "obeys R (asks f)"
  "obeys R (lift_option e v)"
  by (simp_all add: obeys_def effect_simps order_refl)

lemma obeys_modify: "(\<And>s. R s (f s)) \<Longrightarrow> obeys R (modify f)"
  by (simp add: obeys_def effect_simps)

lemma obeys_bind:
  "obeys R m \<Longrightarrow> (\<And>x. obeys R (f x)) \<Longrightarrow> obeys R (bind m f)"
  by (auto simp: obeys_def effect_simps split: sum.split intro: order_trans)

lemma obeys_wrappers:
  "obeys R m \<Longrightarrow> obeys R (attempt m)" "obeys R m \<Longrightarrow> obeys R (map_error g m)"
  "obeys R n \<Longrightarrow> obeys R (when_do b n)"
  by (auto simp: obeys_def effect_simps when_do_def order_refl)

lemma obeys_for_each: "(\<And>x. obeys R (f x)) \<Longrightarrow> obeys R (for_each f xs)"
  by (induction xs) (auto intro: obeys_bind obeys_pure)

text \<open>An operation that may leave the relation when it succeeds, but not when it fails.\<close>

lemma obeys_error_of: "obeys R m \<Longrightarrow> obeys_error R m"
  by (auto simp: obeys_def obeys_error_def) (metis snd_conv)

lemma obeys_error_bind:
  "obeys R m \<Longrightarrow> (\<And>x. obeys_error R (f x)) \<Longrightarrow> obeys_error R (bind m f)"
  by (auto simp: obeys_def obeys_error_def bind_Inl) (metis order_trans snd_conv)+

lemma obeys_error_last: "obeys_error R m \<Longrightarrow> obeys_error R (bind m (\<lambda>x. ret (g x)))"
  by (auto simp: obeys_error_def bind_Inl pure_eq)

lemmas obeys_intros = obeys_pure obeys_modify obeys_bind obeys_wrappers obeys_for_each

end

text \<open>An invariant is the order "kept if it held".\<close>

definition keeps :: "('s \<Rightarrow> bool) \<Rightarrow> 's \<Rightarrow> 's \<Rightarrow> bool" where
  "keeps P s t \<longleftrightarrow> (P s \<longrightarrow> P t)"

lemma keeps_order: "effect_order (keeps P)"
  by unfold_locales (auto simp: keeps_def)

lemma keepsD: "obeys (keeps P) m \<Longrightarrow> P s \<Longrightarrow> P (snd (m s))"
  by (simp add: obeys_def keeps_def)

end
