(* ===== verification/Supervisor.thy ===== *)
theory Supervisor
  imports Effects
begin

text \<open>
  The replay recorder's supervisor of \<open>crates/openfrag-capture/src/lib.rs\<close>: the argument vector,
  the one save in flight and the one queued behind it, the validation of an output before it is
  acknowledged, the restarts with their backoff, the bounded tail of the error output, and the
  parser of the probe's duration.

  The child process, the file system, the clocks and the media probe are the code's traits: an
  operation of a port may read and change a world of any type. A path is the list of its
  components; an \<open>OsString\<close> is a list of characters.
\<close>

section \<open>Launching\<close>

datatype path_component = RootDir | CurDir | ParentDir | Normal string

type_synonym path = "path_component list"

definition path_starts_with :: "path \<Rightarrow> path \<Rightarrow> bool" where
  "path_starts_with p base \<longleftrightarrow> take (length base) p = base"

datatype launch = Native string "string list" | Flatpak string "string list"

fun argv :: "launch \<Rightarrow> string list" where
  "argv (Native program args) = program # args"
| "argv (Flatpak app_id args) = ''flatpak'' # ''run'' # app_id # args"

datatype recorder_install = NativeInstall string | FlatpakInstall string

record replay_config =
  rc_capture_target :: string
  rc_output_directory :: string
  rc_video_codec :: string
  rc_audio_codec :: string
  rc_buffer_seconds :: nat

definition sixty_second :: "string \<Rightarrow> string \<Rightarrow> replay_config" where
  "sixty_second target directory = \<lparr>rc_capture_target = target, rc_output_directory = directory,
     rc_video_codec = ''h264'', rc_audio_codec = ''aac'', rc_buffer_seconds = 60\<rparr>"

definition replay_launch :: "recorder_install \<Rightarrow> replay_config \<Rightarrow> launch" where
  "replay_launch install config =
     (let args = [''-w'', rc_capture_target config, ''-r'', show_nat (rc_buffer_seconds config),
        ''-c'', rc_video_codec config, ''-ac'', rc_audio_codec config,
        ''-o'', rc_output_directory config]
      in case install of NativeInstall program \<Rightarrow> Native program args
         | FlatpakInstall app_id \<Rightarrow> Flatpak app_id args)"

section \<open>Saves\<close>

datatype save_provenance = ManualFlag | AutoRoundEnd

datatype signal = User1 | Interrupt

record media_info =
  mi_duration_ms :: nat
  mi_video_streams :: nat

record save_acknowledgement =
  sa_path :: path
  sa_recorder_request_id :: string
  sa_provenance :: save_provenance
  sa_requested_at_ms :: nat
  sa_media :: media_info

datatype save_disposition = Signalled | Coalesced

record save_request_outcome =
  so_recorder_request_id :: string
  so_disposition :: save_disposition

datatype capture_error = ProcessError string | FilesystemError string | MediaError string
  | NotRunning | NoSaveInFlight | UnsafeOutputPath | SymlinkOutput | InvalidOutput | OutputNotFound

record supervisor_config =
  sc_launch :: launch
  sc_output_directory :: path
  sc_max_stderr_bytes :: nat
  sc_stable_after_ms :: nat

record pending_save =
  pd_recorder_request_id :: string
  pd_provenance :: save_provenance
  pd_since_wall_ms :: nat
  pd_requested_at_ms :: nat

record 'w supervisor =
  sv_world :: 'w
  sv_config :: supervisor_config
  sv_running :: bool
  sv_shutting_down :: bool
  sv_started_ms :: nat
  sv_stable :: bool
  sv_in_flight :: "pending_save option"
  sv_queued :: "pending_save option"
  sv_next_restart_ms :: "nat option"
  sv_failures :: nat
  sv_stderr :: string

record 'w recorder_ports =
  rp_spawn :: "string list \<Rightarrow> 'w \<Rightarrow> (string, unit) result \<times> 'w"
  rp_try_wait :: "'w \<Rightarrow> (string, int option) result \<times> 'w"
  rp_signal :: "signal \<Rightarrow> 'w \<Rightarrow> (string, unit) result \<times> 'w"
  rp_drain_stderr :: "'w \<Rightarrow> (string, string) result \<times> 'w"
  rp_outputs_since :: "path \<Rightarrow> nat \<Rightarrow> 'w \<Rightarrow> (string, path list) result \<times> 'w"
  rp_is_symlink :: "path \<Rightarrow> 'w \<Rightarrow> (string, bool) result \<times> 'w"
  rp_is_regular_file :: "path \<Rightarrow> 'w \<Rightarrow> (string, bool) result \<times> 'w"
  rp_is_contained :: "path \<Rightarrow> path \<Rightarrow> 'w \<Rightarrow> (string, bool) result \<times> 'w"
  rp_now_ms :: "'w \<Rightarrow> nat \<times> 'w"
  rp_wall_ms :: "'w \<Rightarrow> nat \<times> 'w"
  rp_verify :: "path \<Rightarrow> 'w \<Rightarrow> (string, media_info) result \<times> 'w"

type_synonym ('w, 'a) supervised = "('w supervisor, capture_error, 'a) effect"

text \<open>Calling a port changes the world only; \<open>read_port\<close> is for the ports that cannot fail.\<close>

definition call_port :: "('w \<Rightarrow> (string, 'a) result \<times> 'w) \<Rightarrow> (string \<Rightarrow> capture_error) \<Rightarrow> ('w, 'a) supervised" where
  "call_port f err s = (case f (sv_world s) of (r, w) \<Rightarrow> (map_err err r, s\<lparr>sv_world := w\<rparr>))"

definition read_port :: "('w \<Rightarrow> 'a \<times> 'w) \<Rightarrow> ('w, 'a) supervised" where
  "read_port f s = (case f (sv_world s) of (x, w) \<Rightarrow> (Inr x, s\<lparr>sv_world := w\<rparr>))"

definition supervisor_new :: "'w \<Rightarrow> supervisor_config \<Rightarrow> 'w supervisor" where
  "supervisor_new w config = \<lparr>sv_world = w, sv_config = config, sv_running = False,
     sv_shutting_down = False, sv_started_ms = 0, sv_stable = False, sv_in_flight = None,
     sv_queued = None, sv_next_restart_ms = None, sv_failures = 0, sv_stderr = []\<rparr>"

definition signal_save :: "'w recorder_ports \<Rightarrow> string \<Rightarrow> save_provenance \<Rightarrow> ('w, unit) supervised" where
  "signal_save p request_id provenance =
     bind (call_port (rp_signal p User1) ProcessError) (\<lambda>_.
     bind (read_port (rp_wall_ms p)) (\<lambda>wall.
     bind (read_port (rp_now_ms p)) (\<lambda>now.
     modify (\<lambda>s. s\<lparr>sv_in_flight := Some \<lparr>pd_recorder_request_id = request_id,
       pd_provenance = provenance, pd_since_wall_ms = wall, pd_requested_at_ms = now\<rparr>\<rparr>))))"

text \<open>\<open>get_or_insert_with\<close>, then the manual flag takes over the provenance.\<close>

definition queue_save :: "string \<Rightarrow> save_provenance \<Rightarrow> pending_save option \<Rightarrow> pending_save" where
  "queue_save request_id provenance queued =
     (let q = (case queued of Some q \<Rightarrow> q
        | None \<Rightarrow> \<lparr>pd_recorder_request_id = request_id, pd_provenance = provenance,
            pd_since_wall_ms = 0, pd_requested_at_ms = 0\<rparr>)
      in if provenance = ManualFlag then q\<lparr>pd_provenance := ManualFlag\<rparr> else q)"

definition request_save :: "'w recorder_ports \<Rightarrow> string \<Rightarrow> save_provenance
    \<Rightarrow> ('w, save_request_outcome) supervised" where
  "request_save p request_id provenance =
     bind (asks (\<lambda>s. s)) (\<lambda>s.
     if \<not> sv_running s then throw NotRunning
     else if sv_in_flight s \<noteq> None then
       let q = queue_save request_id provenance (sv_queued s) in
       bind (modify (\<lambda>s. s\<lparr>sv_queued := Some q\<rparr>)) (\<lambda>_.
       ret \<lparr>so_recorder_request_id = pd_recorder_request_id q, so_disposition = Coalesced\<rparr>)
     else
       bind (signal_save p request_id provenance) (\<lambda>_.
       ret \<lparr>so_recorder_request_id = request_id, so_disposition = Signalled\<rparr>))"

definition validate_output :: "'w recorder_ports \<Rightarrow> path \<Rightarrow> ('w, unit) supervised" where
  "validate_output p path =
     bind (asks (\<lambda>s. sc_output_directory (sv_config s))) (\<lambda>directory.
     if \<not> path_starts_with path directory \<or> ParentDir \<in> set path then throw UnsafeOutputPath
     else
       bind (call_port (rp_is_symlink p path) FilesystemError) (\<lambda>symlink.
       if symlink then throw SymlinkOutput else
       bind (call_port (rp_is_regular_file p path) FilesystemError) (\<lambda>regular.
       if \<not> regular then throw InvalidOutput else
       bind (call_port (rp_is_contained p directory path) FilesystemError) (\<lambda>contained.
       if \<not> contained then throw UnsafeOutputPath else ret ()))))"

text \<open>The save is done: the slot is freed and a queued save, if any, is signalled.\<close>

definition release_save :: "'w recorder_ports \<Rightarrow> ('w, unit) supervised" where
  "release_save p =
     bind (modify (\<lambda>s. s\<lparr>sv_in_flight := None\<rparr>)) (\<lambda>_.
     bind (asks sv_queued) (\<lambda>queued.
     bind (modify (\<lambda>s. s\<lparr>sv_queued := None\<rparr>)) (\<lambda>_.
     case queued of None \<Rightarrow> ret ()
     | Some next_save \<Rightarrow> signal_save p (pd_recorder_request_id next_save) (pd_provenance next_save))))"

definition acknowledge :: "'w recorder_ports \<Rightarrow> path \<Rightarrow> ('w, save_acknowledgement) supervised" where
  "acknowledge p path =
     bind (asks sv_in_flight) (\<lambda>in_flight.
     bind (lift_option NoSaveInFlight in_flight) (\<lambda>pending.
     bind (validate_output p path) (\<lambda>_.
     bind (call_port (rp_verify p path) MediaError) (\<lambda>media.
     let acknowledgement = \<lparr>sa_path = path, sa_recorder_request_id = pd_recorder_request_id pending,
           sa_provenance = pd_provenance pending, sa_requested_at_ms = pd_requested_at_ms pending,
           sa_media = media\<rparr> in
     bind (release_save p) (\<lambda>_. ret acknowledgement)))))"

definition discover_save :: "'w recorder_ports \<Rightarrow> ('w, save_acknowledgement option) supervised" where
  "discover_save p =
     bind (asks (\<lambda>s. s)) (\<lambda>s.
     case sv_in_flight s of None \<Rightarrow> throw NoSaveInFlight
     | Some in_flight \<Rightarrow>
       bind (call_port (rp_outputs_since p (sc_output_directory (sv_config s))
           (pd_since_wall_ms in_flight)) FilesystemError) (\<lambda>candidates.
       case candidates of [] \<Rightarrow> ret None
       | path # _ \<Rightarrow> bind (acknowledge p path) (\<lambda>a. ret (Some a))))"

section \<open>Running\<close>

text \<open>In seconds; \<open>restart_delay\<close> of the code wraps it in a \<open>Duration\<close>.\<close>

definition restart_delay :: "nat \<Rightarrow> nat" where
  "restart_delay failures = [1, 2, 4, 8, 16, 30] ! min failures 5"

definition push_stderr :: "nat \<Rightarrow> string \<Rightarrow> char \<Rightarrow> string" where
  "push_stderr limit stderr byte =
     (let stderr = stderr @ [byte] in if length stderr > limit then tl stderr else stderr)"

definition append_stderr :: "'w recorder_ports \<Rightarrow> ('w, unit) supervised" where
  "append_stderr p =
     bind (call_port (rp_drain_stderr p) ProcessError) (\<lambda>bytes.
     modify (\<lambda>s. s\<lparr>sv_stderr := foldl (push_stderr (sc_max_stderr_bytes (sv_config s))) (sv_stderr s) bytes\<rparr>))"

definition spawn :: "'w recorder_ports \<Rightarrow> ('w, unit) supervised" where
  "spawn p =
     bind (asks (\<lambda>s. argv (sc_launch (sv_config s)))) (\<lambda>args.
     bind (call_port (rp_spawn p args) ProcessError) (\<lambda>_.
     bind (modify (\<lambda>s. s\<lparr>sv_running := True, sv_shutting_down := False, sv_stable := False\<rparr>)) (\<lambda>_.
     bind (read_port (rp_now_ms p)) (\<lambda>now.
     modify (\<lambda>s. s\<lparr>sv_started_ms := now, sv_next_restart_ms := None\<rparr>)))))"

text \<open>The stable mark: the clock is read only while the child is not marked stable.\<close>

definition mark_stable :: "'w recorder_ports \<Rightarrow> ('w, unit) supervised" where
  "mark_stable p =
     bind (asks (\<lambda>s. s)) (\<lambda>s.
     if sv_stable s then ret ()
     else bind (read_port (rp_now_ms p)) (\<lambda>now.
       when_do (saturating_sub now (sv_started_ms s) \<ge> sc_stable_after_ms (sv_config s))
         (modify (\<lambda>s. s\<lparr>sv_failures := 0, sv_stable := True\<rparr>))))"

definition schedule_restart :: "'w recorder_ports \<Rightarrow> ('w, unit) supervised" where
  "schedule_restart p =
     bind (asks (\<lambda>s. restart_delay (sv_failures s))) (\<lambda>delay.
     bind (modify (\<lambda>s. s\<lparr>sv_failures := saturating_add_u64 (sv_failures s) 1\<rparr>)) (\<lambda>_.
     bind (read_port (rp_now_ms p)) (\<lambda>now.
     modify (\<lambda>s. s\<lparr>sv_next_restart_ms := Some (saturating_add_u64 now (delay * 1000))\<rparr>))))"

definition restart_if_due :: "'w recorder_ports \<Rightarrow> ('w, unit) supervised" where
  "restart_if_due p =
     bind (asks (\<lambda>s. s)) (\<lambda>s.
     if sv_shutting_down s \<or> sv_running s then ret ()
     else case sv_next_restart_ms s of None \<Rightarrow> ret ()
       | Some at \<Rightarrow> bind (read_port (rp_now_ms p)) (\<lambda>now. when_do (now \<ge> at) (spawn p)))"

definition poll :: "'w recorder_ports \<Rightarrow> ('w, int option) supervised" where
  "poll p =
     bind (append_stderr p) (\<lambda>_.
     bind (asks sv_running) (\<lambda>running.
     bind (if running then
         bind (mark_stable p) (\<lambda>_.
         bind (call_port (rp_try_wait p) ProcessError) (\<lambda>exit_code.
         case exit_code of None \<Rightarrow> ret None
         | Some code \<Rightarrow>
           bind (modify (\<lambda>s. s\<lparr>sv_running := False\<rparr>)) (\<lambda>_.
           bind (asks sv_shutting_down) (\<lambda>shutting_down.
           bind (when_do (\<not> shutting_down) (schedule_restart p)) (\<lambda>_.
           ret (Some code))))))
       else ret None) (\<lambda>exited.
     case exited of Some code \<Rightarrow> ret (Some code)
     | None \<Rightarrow> bind (restart_if_due p) (\<lambda>_. ret None))))"

definition shutdown :: "'w recorder_ports \<Rightarrow> ('w, unit) supervised" where
  "shutdown p =
     bind (modify (\<lambda>s. s\<lparr>sv_shutting_down := True, sv_next_restart_ms := None\<rparr>)) (\<lambda>_.
     bind (asks sv_running) (\<lambda>running.
     when_do running (call_port (rp_signal p Interrupt) ProcessError)))"

section \<open>The operations as one machine\<close>

datatype supervisor_event = StartEvent | RequestEvent string save_provenance | DiscoverEvent
  | AcknowledgeEvent path | PollEvent | ShutdownEvent

fun supervisor_step :: "'w recorder_ports \<Rightarrow> 'w supervisor \<Rightarrow> supervisor_event \<Rightarrow> 'w supervisor" where
  "supervisor_step p s StartEvent = snd (spawn p s)"
| "supervisor_step p s (RequestEvent request_id provenance) = snd (request_save p request_id provenance s)"
| "supervisor_step p s DiscoverEvent = snd (discover_save p s)"
| "supervisor_step p s (AcknowledgeEvent path) = snd (acknowledge p path s)"
| "supervisor_step p s PollEvent = snd (poll p s)"
| "supervisor_step p s ShutdownEvent = snd (shutdown p s)"

section \<open>The probe's duration\<close>

text \<open>\<open>parse::<u64>\<close> on a string of digits: multiply and add, checked.\<close>

fun parse_u64 :: "string \<Rightarrow> nat \<Rightarrow> nat option" where
  "parse_u64 [] acc = Some acc"
| "parse_u64 (c # cs) acc =
     (if acc * 10 + digit_value c \<le> u64_max then parse_u64 cs (acc * 10 + digit_value c) else None)"

definition split_once :: "char \<Rightarrow> string \<Rightarrow> (string \<times> string) option" where
  "split_once d s = (if d \<in> set s
     then Some (takeWhile (\<lambda>c. c \<noteq> d) s, tl (dropWhile (\<lambda>c. c \<noteq> d) s)) else None)"

fun add_milliseconds :: "nat list \<Rightarrow> string \<Rightarrow> nat \<Rightarrow> nat" where
  "add_milliseconds (w # ws) (c # cs) acc =
     add_milliseconds ws cs (saturating_add_u64 acc (digit_value c * w))"
| "add_milliseconds _ _ acc = acc"

definition parse_duration_ms :: "string \<Rightarrow> (string, nat) result" where
  "parse_duration_ms duration =
     (let (whole, fraction) = (case split_once (CHR ''.'') duration of
            Some p \<Rightarrow> p | None \<Rightarrow> (duration, '''')) in
      if whole = [] \<or> \<not> list_all is_ascii_digit whole \<or> \<not> list_all is_ascii_digit fraction
      then Inl ''ffprobe duration must be an unsigned decimal''
      else and_then (ok_or ''ffprobe duration is too large'' (parse_u64 whole 0)) (\<lambda>seconds.
        let milliseconds = add_milliseconds [100, 10, 1] (take 3 fraction) 0 in
        and_then (ok_or ''ffprobe duration is too large''
          (if seconds * 1000 \<le> u64_max \<and> seconds * 1000 + milliseconds \<le> u64_max
           then Some (seconds * 1000 + milliseconds) else None)) (\<lambda>result.
        if result = 0 then Inl ''ffprobe duration must be positive'' else Inr result)))"

section \<open>Ports change the world only\<close>

lemma call_port_apply [effect_simps]:
  "call_port f err s = (map_err err (fst (f (sv_world s))), s\<lparr>sv_world := snd (f (sv_world s))\<rparr>)"
  by (simp add: call_port_def split: prod.split)

lemma read_port_apply [effect_simps]:
  "read_port f s = (Inr (fst (f (sv_world s))), s\<lparr>sv_world := snd (f (sv_world s))\<rparr>)"
  by (simp add: read_port_def split: prod.split)

definition world_only :: "'w supervisor \<Rightarrow> 'w supervisor \<Rightarrow> bool" where
  "world_only s t \<longleftrightarrow> t = s\<lparr>sv_world := sv_world t\<rparr>"

interpretation world_order: effect_order world_only
proof
  show "world_only s s" for s :: "'w supervisor" by (simp add: world_only_def)
  show "world_only s u" if "world_only s t" "world_only t u" for s t u :: "'w supervisor"
    using that unfolding world_only_def by (metis supervisor.surjective supervisor.update_convs(1))
qed

lemma ports_world_only: "obeys world_only (call_port f err)" "obeys world_only (read_port g)"
  by (simp_all add: obeys_def effect_simps world_only_def)

lemma validate_output_world_only: "obeys world_only (validate_output p path)"
  unfolding validate_output_def
  by (intro world_order.obeys_intros ports_world_only) (auto intro!: world_order.obeys_intros ports_world_only)

text \<open>Validation succeeds only when every check did.\<close>

lemma validate_output_Inr:
  assumes "validate_output p path s = (Inr u, t)"
  shows "path_starts_with path (sc_output_directory (sv_config s))" "ParentDir \<notin> set path"
    "\<exists>w. fst (rp_is_symlink p path w) = Inr False"
    "\<exists>w. fst (rp_is_regular_file p path w) = Inr True"
    "\<exists>w. fst (rp_is_contained p (sc_output_directory (sv_config s)) path w) = Inr True"
    "t = s\<lparr>sv_world := sv_world t\<rparr>"
proof -
  have checks: "path_starts_with path (sc_output_directory (sv_config s)) \<and> ParentDir \<notin> set path
      \<and> (\<exists>w. fst (rp_is_symlink p path w) = Inr False)
      \<and> (\<exists>w. fst (rp_is_regular_file p path w) = Inr True)
      \<and> (\<exists>w. fst (rp_is_contained p (sc_output_directory (sv_config s)) path w) = Inr True)"
    using assms
    by (auto simp: validate_output_def effect_simps map_err_eq_Inr map_err_eq_Inl
      split: if_splits sum.splits)
  then show "path_starts_with path (sc_output_directory (sv_config s))" "ParentDir \<notin> set path"
    "\<exists>w. fst (rp_is_symlink p path w) = Inr False"
    "\<exists>w. fst (rp_is_regular_file p path w) = Inr True"
    "\<exists>w. fst (rp_is_contained p (sc_output_directory (sv_config s)) path w) = Inr True"
    by blast+
  show "t = s\<lparr>sv_world := sv_world t\<rparr>"
    using obeysD [OF validate_output_world_only, of s p path] assms by (simp add: world_only_def)
qed

section \<open>What each operation does to the slots\<close>

abbreviation slot :: "pending_save \<Rightarrow> string \<times> save_provenance" where
  "slot q \<equiv> (pd_recorder_request_id q, pd_provenance q)"

lemma call_port_Inr:
  "call_port f err s = (Inr x, t) \<longleftrightarrow> fst (f (sv_world s)) = Inr x \<and> t = s\<lparr>sv_world := snd (f (sv_world s))\<rparr>"
  by (auto simp: effect_simps map_err_eq_Inr)

lemma call_port_Inl:
  "call_port f err s = (Inl e, t) \<longleftrightarrow>
    (\<exists>d. fst (f (sv_world s)) = Inl d \<and> e = err d) \<and> t = s\<lparr>sv_world := snd (f (sv_world s))\<rparr>"
  by (auto simp: effect_simps map_err_eq_Inl)

lemma read_port_eq:
  "read_port f s = (r, t) \<longleftrightarrow> r = Inr (fst (f (sv_world s))) \<and> t = s\<lparr>sv_world := snd (f (sv_world s))\<rparr>"
  by (auto simp: effect_simps)

lemmas port_elims = effect_elims call_port_Inr call_port_Inl read_port_eq

lemma signal_save_Inr:
  assumes "signal_save p i v s = (Inr u, t)"
  shows "\<exists>w q. t = s\<lparr>sv_world := w, sv_in_flight := Some q\<rparr> \<and> slot q = (i, v)"
proof -
  from assms obtain w wall now where "t = s\<lparr>sv_world := w, sv_in_flight := Some
      \<lparr>pd_recorder_request_id = i, pd_provenance = v, pd_since_wall_ms = wall,
       pd_requested_at_ms = now\<rparr>\<rparr>"
    by (auto simp: signal_save_def port_elims)
  then show ?thesis by (intro exI conjI, assumption) simp
qed

lemma signal_save_Inl:
  "signal_save p i v s = (Inl e, t) \<Longrightarrow> \<exists>w m. t = s\<lparr>sv_world := w\<rparr> \<and> e = ProcessError m"
  by (auto simp: signal_save_def port_elims)

lemma release_save_cases:
  obtains (idle) "sv_queued s = None" "release_save p s = (Inr (), s\<lparr>sv_in_flight := None, sv_queued := None\<rparr>)"
  | (promoted) q w q' where "sv_queued s = Some q" "slot q' = slot q"
      "release_save p s = (Inr (), s\<lparr>sv_world := w, sv_in_flight := Some q', sv_queued := None\<rparr>)"
  | (lost) q w e where "sv_queued s = Some q"
      "release_save p s = (Inl e, s\<lparr>sv_world := w, sv_in_flight := None, sv_queued := None\<rparr>)"
proof (cases "sv_queued s")
  case None
  then have "release_save p s = (Inr (), s\<lparr>sv_in_flight := None, sv_queued := None\<rparr>)"
    by (simp add: release_save_def effect_simps)
  with None show thesis by (rule idle)
next
  case (Some q)
  let ?s = "s\<lparr>sv_in_flight := None, sv_queued := None\<rparr>"
  have eq: "release_save p s = signal_save p (pd_recorder_request_id q) (pd_provenance q) ?s"
    using Some by (simp add: release_save_def effect_simps)
  obtain r t where rt: "signal_save p (pd_recorder_request_id q) (pd_provenance q) ?s = (r, t)"
    by fastforce
  show thesis
  proof (cases r)
    case (Inl e)
    obtain w where "t = ?s\<lparr>sv_world := w\<rparr>" using signal_save_Inl [OF rt [unfolded Inl]] by blast
    with Some Inl rt eq show thesis by (intro lost [of q e w]) simp_all
  next
    case (Inr u)
    obtain w q' where "t = ?s\<lparr>sv_world := w, sv_in_flight := Some q'\<rparr>" "slot q' = slot q"
      using signal_save_Inr [OF rt [unfolded Inr]] by blast
    with Some Inr rt eq show thesis by (intro promoted [of q q' w]) simp_all
  qed
qed

text \<open>An acknowledgement fails before the slots are touched, or touches them by \<open>release_save\<close>.\<close>

lemma acknowledge_cases:
  obtains (refused) e w where "acknowledge p path s = (Inl e, s\<lparr>sv_world := w\<rparr>)"
  | (finished) pending u w media r t where "sv_in_flight s = Some pending"
      "validate_output p path s = (Inr (), u)" "fst (rp_verify p path (sv_world u)) = Inr media"
      "release_save p (s\<lparr>sv_world := w\<rparr>) = (r, t)"
      "acknowledge p path s = (map_sum id (\<lambda>_. \<lparr>sa_path = path,
        sa_recorder_request_id = pd_recorder_request_id pending, sa_provenance = pd_provenance pending,
        sa_requested_at_ms = pd_requested_at_ms pending, sa_media = media\<rparr>) r, t)"
proof (cases "sv_in_flight s")
  case None
  then have "acknowledge p path s = (Inl NoSaveInFlight, s\<lparr>sv_world := sv_world s\<rparr>)"
    by (simp add: acknowledge_def effect_simps)
  then show thesis by (rule refused)
next
  case (Some pending)
  obtain r u where ru: "validate_output p path s = (r, u)" by fastforce
  then have u: "u = s\<lparr>sv_world := sv_world u\<rparr>"
    using obeysD [OF validate_output_world_only, of s p path] by (simp add: world_only_def)
  show thesis
  proof (cases r)
    case (Inl e)
    with ru Some have "acknowledge p path s = (Inl e, u)" by (simp add: acknowledge_def effect_simps)
    with u show thesis by (metis refused)
  next
    case (Inr x)
    let ?v = "s\<lparr>sv_world := snd (rp_verify p path (sv_world u))\<rparr>"
    have v: "u\<lparr>sv_world := snd (rp_verify p path (sv_world u))\<rparr> = ?v"
      by (subst (1) u) simp
    show thesis
    proof (cases "fst (rp_verify p path (sv_world u))")
      case (Inl e)
      with ru Some \<open>r = Inr x\<close> v have "acknowledge p path s = (Inl (MediaError e), ?v)"
        by (simp add: acknowledge_def effect_simps)
      then show thesis by (rule refused)
    next
      case (Inr media)
      obtain r' t where rt: "release_save p ?v = (r', t)" by fastforce
      with ru Some \<open>r = Inr x\<close> Inr v show thesis
        by (intro finished [OF Some _ Inr rt]) (cases r'; simp add: acknowledge_def effect_simps)+
    qed
  qed
qed

section \<open>One save in flight, one queued behind it\<close>

definition supervisor_inv :: "supervisor_config \<Rightarrow> 'w supervisor \<Rightarrow> bool" where
  "supervisor_inv config s \<longleftrightarrow> sv_config s = config
     \<and> (sv_queued s \<noteq> None \<longrightarrow> sv_in_flight s \<noteq> None)
     \<and> length (sv_stderr s) \<le> sc_max_stderr_bytes config
     \<and> (sv_running s \<longrightarrow> sv_next_restart_ms s = None)"

interpretation inv_order: effect_order "keeps (supervisor_inv config)" for config
  by (rule keeps_order)

lemma length_push_stderr:
  "length xs \<le> n \<Longrightarrow> length (foldl (push_stderr n) xs bytes) \<le> n"
  by (induction bytes arbitrary: xs) (auto simp: push_stderr_def Let_def)

lemma ports_keep_inv:
  "obeys (keeps (supervisor_inv config)) (call_port f err)"
  "obeys (keeps (supervisor_inv config)) (read_port g)"
  by (simp_all add: obeys_def keeps_def effect_simps supervisor_inv_def)

lemma append_stderr_keeps: "obeys (keeps (supervisor_inv config)) (append_stderr p)"
  unfolding append_stderr_def
  by (intro inv_order.obeys_intros ports_keep_inv)
    (auto simp: keeps_def supervisor_inv_def intro: length_push_stderr)

lemma mark_stable_keeps: "obeys (keeps (supervisor_inv config)) (mark_stable p)"
  unfolding mark_stable_def
  by (intro inv_order.obeys_intros)
    (auto intro!: inv_order.obeys_intros ports_keep_inv simp: keeps_def supervisor_inv_def)

text \<open>Starting sets \<open>running\<close> before it clears the pending restart, so it is taken as a whole.\<close>

lemma spawn_cases:
  obtains (unspawned) e w where "spawn p s = (Inl e, s\<lparr>sv_world := w\<rparr>)"
  | (spawned) w now where "spawn p s = (Inr (), s\<lparr>sv_world := w, sv_running := True,
      sv_shutting_down := False, sv_stable := False, sv_started_ms := now, sv_next_restart_ms := None\<rparr>)"
proof (cases "fst (rp_spawn p (argv (sc_launch (sv_config s))) (sv_world s))")
  case (Inl e)
  then show thesis by (intro unspawned) (simp add: spawn_def effect_simps)
next
  case (Inr u)
  let ?w = "snd (rp_spawn p (argv (sc_launch (sv_config s))) (sv_world s))"
  from Inr show thesis
    by (intro spawned [of "fst (rp_now_ms p ?w)" "snd (rp_now_ms p ?w)"]) (simp add: spawn_def effect_simps)
qed

lemma spawn_keeps: "obeys (keeps (supervisor_inv config)) (spawn p)"
  unfolding obeys_def
proof
  fix s show "keeps (supervisor_inv config) s (snd (spawn p s))"
    by (cases rule: spawn_cases [of p s]) (simp_all add: keeps_def supervisor_inv_def)
qed

lemma restart_if_due_keeps: "obeys (keeps (supervisor_inv config)) (restart_if_due p)"
  unfolding restart_if_due_def
  by (intro inv_order.obeys_intros)
    (auto intro!: inv_order.obeys_intros ports_keep_inv spawn_keeps split: option.split)

text \<open>The exit of the child: it is no longer running when the restart is scheduled.\<close>

definition child_exited :: "'w recorder_ports \<Rightarrow> 'w supervisor \<Rightarrow> 'w supervisor" where
  "child_exited p s = snd (bind (modify (\<lambda>s. s\<lparr>sv_running := False\<rparr>)) (\<lambda>_.
     bind (asks sv_shutting_down) (\<lambda>shutting_down.
     bind (when_do (\<not> shutting_down) (schedule_restart p)) (\<lambda>_. ret ()))) s :: (capture_error, unit) result \<times> _)"

lemma child_exited_eq:
  "child_exited p s = (if sv_shutting_down s then s\<lparr>sv_running := False\<rparr>
    else s\<lparr>sv_running := False, sv_failures := saturating_add_u64 (sv_failures s) 1,
      sv_world := snd (rp_now_ms p (sv_world s)),
      sv_next_restart_ms := Some (saturating_add_u64 (fst (rp_now_ms p (sv_world s)))
        (restart_delay (sv_failures s) * 1000))\<rparr>)"
  by (simp add: child_exited_def schedule_restart_def effect_simps when_do_def)

lemma poll_eq:
  "poll p s = (case append_stderr p s of (Inl e, t) \<Rightarrow> (Inl e, t)
    | (Inr _, t) \<Rightarrow>
      if sv_running t then
        (case mark_stable p t of (Inl e, u) \<Rightarrow> (Inl e, u)
         | (Inr _, u) \<Rightarrow>
           (case call_port (rp_try_wait p) ProcessError u of (Inl e, v) \<Rightarrow> (Inl e, v)
            | (Inr None, v) \<Rightarrow> (map_sum id (\<lambda>_. None) (fst (restart_if_due p v)), snd (restart_if_due p v))
            | (Inr (Some code), v) \<Rightarrow> (Inr (Some code), child_exited p v)))
      else (map_sum id (\<lambda>_. None) (fst (restart_if_due p t)), snd (restart_if_due p t)))"
  by (simp add: poll_def child_exited_def effect_simps split: prod.split sum.split option.split)
    (auto simp: when_do_def effect_simps schedule_restart_def split: sum.splits option.splits)

lemma call_keeps:
  "supervisor_inv config s \<Longrightarrow> supervisor_inv config (snd (call_port f err s))"
  by (rule keepsD [OF ports_keep_inv(1)])

lemma child_exited_keeps: "supervisor_inv config s \<Longrightarrow> supervisor_inv config (child_exited p s)"
  by (auto simp: child_exited_eq supervisor_inv_def)

lemma poll_keeps:
  assumes "supervisor_inv config s"
  shows "supervisor_inv config (snd (poll p s))"
proof -
  obtain r t where rt: "append_stderr p s = (r, t)" by fastforce
  have t: "supervisor_inv config t" using keepsD [OF append_stderr_keeps assms] rt by (metis snd_conv)
  obtain r2 u where ru: "mark_stable p t = (r2, u)" by fastforce
  have u: "supervisor_inv config u" using keepsD [OF mark_stable_keeps t] ru by (metis snd_conv)
  obtain r3 v where rv: "call_port (rp_try_wait p) ProcessError u = (r3, v)" by fastforce
  have v: "supervisor_inv config v" using call_keeps [OF u] rv by (metis snd_conv)
  have "supervisor_inv config (snd (restart_if_due p t))" "supervisor_inv config (snd (restart_if_due p v))"
    "supervisor_inv config (child_exited p v)"
    using keepsD [OF restart_if_due_keeps t] keepsD [OF restart_if_due_keeps v] child_exited_keeps [OF v]
    by blast+
  with t u v show ?thesis
    by (simp add: poll_eq rt ru rv split: sum.split option.split)
qed

lemma request_save_keeps:
  "supervisor_inv config s \<Longrightarrow> supervisor_inv config (snd (request_save p i v s))"
proof -
  assume inv: "supervisor_inv config s"
  show ?thesis
  proof (cases "sv_running s \<and> sv_in_flight s = None")
    case True
    obtain r t where rt: "signal_save p i v s = (r, t)" by fastforce
    have "supervisor_inv config t"
    proof (cases r)
      case (Inl e)
      with signal_save_Inl [of p i v s e t] rt inv show ?thesis by (auto simp: supervisor_inv_def)
    next
      case (Inr u)
      with signal_save_Inr [of p i v s u t] rt inv show ?thesis by (auto simp: supervisor_inv_def)
    qed
    with True rt show ?thesis by (simp add: request_save_def effect_simps split: sum.split)
  next
    case False
    with inv show ?thesis
      by (auto simp: request_save_def effect_simps Let_def supervisor_inv_def)
  qed
qed

lemma acknowledge_keeps:
  "supervisor_inv config s \<Longrightarrow> supervisor_inv config (snd (acknowledge p path s))"
proof (cases rule: acknowledge_cases [of p path s])
  case (refused e w)
  moreover assume "supervisor_inv config s"
  ultimately show ?thesis by (simp add: supervisor_inv_def)
next
  case (finished pending u w media r t)
  moreover assume "supervisor_inv config s"
  ultimately show ?thesis
    by (cases rule: release_save_cases [of "s\<lparr>sv_world := w\<rparr>" p]) (auto simp: supervisor_inv_def)
qed

lemma discover_save_keeps:
  assumes "supervisor_inv config s"
  shows "supervisor_inv config (snd (discover_save p s))"
proof (cases "sv_in_flight s")
  case (Some q)
  let ?call = "call_port (rp_outputs_since p (sc_output_directory (sv_config s)) (pd_since_wall_ms q)) FilesystemError"
  obtain r t where rt: "?call s = (r, t)" by fastforce
  have t: "supervisor_inv config t" using call_keeps [OF assms] rt by (metis snd_conv)
  then have "supervisor_inv config (snd (acknowledge p path t))" for path by (rule acknowledge_keeps)
  with Some rt t show ?thesis
    by (cases r) (auto simp: discover_save_def effect_simps split: list.split sum.split)
qed (use assms in \<open>simp add: discover_save_def effect_simps\<close>)

lemma shutdown_keeps:
  "supervisor_inv config s \<Longrightarrow> supervisor_inv config (snd (shutdown p s))"
  by (auto simp: shutdown_def effect_simps when_do_def supervisor_inv_def)

interpretation supervising: transition_function "supervisor_new w config" "supervisor_step p" "supervisor_inv config"
  for w :: 'w and config p
proof
  show "supervisor_inv config (supervisor_new w config)"
    by (simp add: supervisor_inv_def supervisor_new_def)
  fix s :: "'w supervisor" and e assume "supervisor_inv config s"
  then show "supervisor_inv config (supervisor_step p s e)"
    by (cases e) (simp_all add: request_save_keeps acknowledge_keeps discover_save_keeps poll_keeps
      shutdown_keeps keepsD [OF spawn_keeps])
qed

section \<open>Only an acknowledgement frees the slot\<close>

definition same_slots :: "'w supervisor \<Rightarrow> 'w supervisor \<Rightarrow> bool" where
  "same_slots s t \<longleftrightarrow> sv_in_flight t = sv_in_flight s \<and> sv_queued t = sv_queued s"

interpretation slots_order: effect_order same_slots
  by unfold_locales (auto simp: same_slots_def)

lemma slots_ports: "obeys same_slots (call_port f err)" "obeys same_slots (read_port g)"
  by (simp_all add: obeys_def effect_simps same_slots_def)

lemma spawn_slots: "obeys same_slots (spawn p)"
  unfolding spawn_def
  by (intro slots_order.obeys_intros slots_ports) (simp_all add: same_slots_def)

lemma poll_slots: "obeys same_slots (poll p)"
  unfolding poll_def append_stderr_def mark_stable_def schedule_restart_def restart_if_due_def
  by (intro slots_order.obeys_intros slots_ports; (simp add: same_slots_def)?;
    auto intro!: slots_order.obeys_intros slots_ports spawn_slots simp: same_slots_def split: option.split)

lemma shutdown_slots: "obeys same_slots (shutdown p)"
  unfolding shutdown_def
  by (intro slots_order.obeys_intros slots_ports) (simp_all add: same_slots_def)

section \<open>Coalescing\<close>

fun request_saves :: "'w recorder_ports \<Rightarrow> (string \<times> save_provenance) list
    \<Rightarrow> ('w, save_request_outcome list) supervised" where
  "request_saves p [] = ret []"
| "request_saves p ((i, v) # rs) =
     bind (request_save p i v) (\<lambda>x. bind (request_saves p rs) (\<lambda>xs. ret (x # xs)))"

definition joined :: "save_provenance \<Rightarrow> (string \<times> save_provenance) list \<Rightarrow> save_provenance" where
  "joined v rs = (if ManualFlag \<in> snd ` set rs then ManualFlag else v)"

lemma request_save_busy:
  assumes "sv_running s" "sv_in_flight s \<noteq> None"
  shows "request_save p i v s = (Inr \<lparr>so_recorder_request_id = pd_recorder_request_id (queue_save i v (sv_queued s)),
      so_disposition = Coalesced\<rparr>, s\<lparr>sv_queued := Some (queue_save i v (sv_queued s))\<rparr>)"
  using assms by (simp add: request_save_def effect_simps Let_def)

lemma slot_queue_save:
  "slot (queue_save i v (Some q)) = (pd_recorder_request_id q, joined (pd_provenance q) [(i, v)])"
  by (cases v) (simp_all add: queue_save_def joined_def)

lemma request_saves_busy:
  assumes "sv_running s" "sv_in_flight s \<noteq> None" "sv_queued s = Some q"
  shows "\<exists>q'. request_saves p rs s = (Inr (map (\<lambda>_. \<lparr>so_recorder_request_id = pd_recorder_request_id q,
      so_disposition = Coalesced\<rparr>) rs), s\<lparr>sv_queued := Some q'\<rparr>)
    \<and> slot q' = (pd_recorder_request_id q, joined (pd_provenance q) rs)"
  using assms
proof (induction rs arbitrary: s q)
  case Nil
  then have "s\<lparr>sv_queued := Some q\<rparr> = s" by (metis supervisor.surjective supervisor.update_convs(8))
  then show ?case by (intro exI [of _ q]) (simp add: effect_simps joined_def)
next
  case (Cons r rs)
  obtain i v where r: "r = (i, v)" by fastforce
  let ?q = "queue_save i v (Some q)"
  have slot: "pd_recorder_request_id ?q = pd_recorder_request_id q"
    "pd_provenance ?q = joined (pd_provenance q) [(i, v)]"
    using slot_queue_save [of i v q] by simp_all
  obtain q' where q': "request_saves p rs (s\<lparr>sv_queued := Some ?q\<rparr>)
      = (Inr (map (\<lambda>_. \<lparr>so_recorder_request_id = pd_recorder_request_id ?q, so_disposition = Coalesced\<rparr>) rs),
         (s\<lparr>sv_queued := Some ?q\<rparr>)\<lparr>sv_queued := Some q'\<rparr>)"
      "slot q' = (pd_recorder_request_id ?q, joined (pd_provenance ?q) rs)"
    using Cons.IH [of "s\<lparr>sv_queued := Some ?q\<rparr>" ?q] Cons.prems by auto
  have "joined (pd_provenance ?q) rs = joined (pd_provenance q) (r # rs)"
    using slot(2) r by (auto simp: joined_def)
  with q' slot(1) request_save_busy [OF Cons.prems(1,2), of p i v] Cons.prems(3)
  show ?case by (intro exI [of _ q']) (simp add: r effect_simps)
qed

section \<open>Properties\<close>

text \<open>Ports that always succeed, with a world that counts the signals sent.\<close>

definition demo_ports :: "nat recorder_ports" where
  "demo_ports = \<lparr>rp_spawn = (\<lambda>_ w. (Inr (), w)), rp_try_wait = (\<lambda>w. (Inr None, w)),
     rp_signal = (\<lambda>_ w. (Inr (), w + 1)), rp_drain_stderr = (\<lambda>w. (Inr ''!'', w)),
     rp_outputs_since = (\<lambda>_ _ w. (Inr [[RootDir, Normal ''clips'', Normal ''a.mp4'']], w)),
     rp_is_symlink = (\<lambda>_ w. (Inr False, w)), rp_is_regular_file = (\<lambda>_ w. (Inr True, w)),
     rp_is_contained = (\<lambda>_ _ w. (Inr True, w)), rp_now_ms = (\<lambda>w. (1000, w)),
     rp_wall_ms = (\<lambda>w. (5000, w)),
     rp_verify = (\<lambda>_ w. (Inr \<lparr>mi_duration_ms = 60000, mi_video_streams = 1\<rparr>, w))\<rparr>"

definition demo_supervisor :: "nat supervisor" where
  "demo_supervisor = supervisor_new 0 \<lparr>sc_launch = Native ''recorder'' [],
     sc_output_directory = [RootDir, Normal ''clips''], sc_max_stderr_bytes = 3, sc_stable_after_ms = 30000\<rparr>"

definition demo_saving :: "nat supervisor" where
  "demo_saving = foldl (supervisor_step demo_ports) demo_supervisor [StartEvent, RequestEvent ''one'' AutoRoundEnd]"

lemma demo_saving_eq: "demo_saving = demo_supervisor\<lparr>sv_world := 1, sv_running := True, sv_started_ms := 1000,
    sv_in_flight := Some \<lparr>pd_recorder_request_id = ''one'', pd_provenance = AutoRoundEnd,
      pd_since_wall_ms = 5000, pd_requested_at_ms = 1000\<rparr>\<rparr>"
  by (simp add: demo_saving_def demo_supervisor_def supervisor_new_def spawn_def request_save_def
    signal_save_def demo_ports_def effect_simps)

text \<open>
  C6: Whatever the process, the file system and the clocks do, and in whatever order the operations
  come: a save is queued only behind one in flight, the error tail never exceeds its bound, and
  a restart is pending only while the recorder is down.
\<close>
theorem supervisor_slots_wellformed:
  fixes w :: 'w
  shows "let s = foldl (supervisor_step p) (supervisor_new w config) events in
    (sv_queued s \<noteq> None \<longrightarrow> sv_in_flight s \<noteq> None)
    \<and> length (sv_stderr s) \<le> sc_max_stderr_bytes config
    \<and> \<not> (sv_running s \<and> sv_next_restart_ms s \<noteq> None) \<and> sv_config s = config"
  using supervising.inv_run [of config p w events] by (auto simp: Let_def supervisor_inv_def)

theorem supervisor_slots_wellformed_witness:
  "let s = foldl (supervisor_step demo_ports) (supervisor_new 0 (sv_config demo_supervisor))
      [StartEvent, RequestEvent ''one'' AutoRoundEnd, RequestEvent ''two'' ManualFlag, PollEvent] in
    (sv_queued s \<noteq> None \<longrightarrow> sv_in_flight s \<noteq> None)"
  using supervisor_slots_wellformed [of demo_ports 0 "sv_config demo_supervisor"
    "[StartEvent, RequestEvent ''one'' AutoRoundEnd, RequestEvent ''two'' ManualFlag, PollEvent]"]
  unfolding Let_def by (elim conjE)

text \<open>
  C4: An acknowledged save is safe and accounted: its path lies in the output directory, has no
  parent component, was found to be no symbolic link, a regular file, contained after
  canonicalisation and valid media; it carries the id, provenance and time of the save in
  flight; and the queued save, if any, takes its place.
\<close>
theorem acknowledged_output_is_safe:
  assumes "acknowledge p path s = (Inr a, t)"
  shows "\<exists>pending. sv_in_flight s = Some pending
    \<and> sa_path a = path \<and> sa_recorder_request_id a = pd_recorder_request_id pending
    \<and> sa_provenance a = pd_provenance pending \<and> sa_requested_at_ms a = pd_requested_at_ms pending
    \<and> path_starts_with path (sc_output_directory (sv_config s)) \<and> ParentDir \<notin> set path
    \<and> (\<exists>w. fst (rp_is_symlink p path w) = Inr False)
    \<and> (\<exists>w. fst (rp_is_regular_file p path w) = Inr True)
    \<and> (\<exists>w. fst (rp_is_contained p (sc_output_directory (sv_config s)) path w) = Inr True)
    \<and> (\<exists>w. fst (rp_verify p path w) = Inr (sa_media a))
    \<and> map_option slot (sv_in_flight t) = map_option slot (sv_queued s) \<and> sv_queued t = None"
proof (cases rule: acknowledge_cases [of p path s])
  case (refused e w)
  with assms show ?thesis by simp
next
  case (finished pending u w media r t')
  note ok = validate_output_Inr [OF finished(2)]
  from assms finished(5) obtain x where r: "r = Inr x" "t' = t"
      and a: "a = \<lparr>sa_path = path, sa_recorder_request_id = pd_recorder_request_id pending,
        sa_provenance = pd_provenance pending, sa_requested_at_ms = pd_requested_at_ms pending,
        sa_media = media\<rparr>"
    by (cases r) auto
  have "map_option slot (sv_in_flight t) = map_option slot (sv_queued s) \<and> sv_queued t = None"
    by (cases rule: release_save_cases [of "s\<lparr>sv_world := w\<rparr>" p]) (use finished(4) r in auto)
  with finished(1,3) ok a show ?thesis by auto
qed

theorem acknowledged_output_is_safe_witness:
  "\<exists>a t. acknowledge demo_ports [RootDir, Normal ''clips'', Normal ''a.mp4''] demo_saving = (Inr a, t)
    \<and> ParentDir \<notin> set (sa_path a) \<and> sa_recorder_request_id a = ''one''"
proof -
  have "\<exists>a t. acknowledge demo_ports [RootDir, Normal ''clips'', Normal ''a.mp4''] demo_saving = (Inr a, t)"
    by (simp add: demo_saving_eq demo_supervisor_def supervisor_new_def acknowledge_def
      validate_output_def release_save_def demo_ports_def effect_simps path_starts_with_def)
  then obtain a t where a: "acknowledge demo_ports [RootDir, Normal ''clips'', Normal ''a.mp4''] demo_saving = (Inr a, t)"
    by blast
  from acknowledged_output_is_safe [OF a] a show ?thesis by (auto simp: demo_saving_eq)
qed

text \<open>
  While a save is in flight every further request is coalesced into one: all of them are
  answered with the id of the first, no signal is sent and no port is called, and the queued
  save is a manual one as soon as a single request was; it is what is signalled next.
\<close>
theorem requests_coalesce:
  assumes "sv_running s" and "sv_in_flight s \<noteq> None" and "sv_queued s = None"
  shows "\<exists>q. request_saves p ((i, v) # rs) s
      = (Inr (map (\<lambda>_. \<lparr>so_recorder_request_id = i, so_disposition = Coalesced\<rparr>) ((i, v) # rs)),
         s\<lparr>sv_queued := Some q\<rparr>)
    \<and> pd_recorder_request_id q = i
    \<and> pd_provenance q = (if ManualFlag \<in> snd ` set ((i, v) # rs) then ManualFlag else AutoRoundEnd)"
proof -
  let ?q = "queue_save i v None"
  have slot: "pd_recorder_request_id ?q = i" "pd_provenance ?q = v"
    by (cases v; simp add: queue_save_def)+
  have first: "request_save p i v s = (Inr \<lparr>so_recorder_request_id = i, so_disposition = Coalesced\<rparr>,
      s\<lparr>sv_queued := Some ?q\<rparr>)"
    using request_save_busy [OF assms(1,2), of p i v] slot(1) by (simp only: assms(3))
  obtain q' where q': "request_saves p rs (s\<lparr>sv_queued := Some ?q\<rparr>)
      = (Inr (map (\<lambda>_. \<lparr>so_recorder_request_id = i, so_disposition = Coalesced\<rparr>) rs),
         (s\<lparr>sv_queued := Some ?q\<rparr>)\<lparr>sv_queued := Some q'\<rparr>)" "slot q' = (i, joined v rs)"
    using request_saves_busy [of "s\<lparr>sv_queued := Some ?q\<rparr>" ?q p rs] assms slot by auto
  have "joined v rs = (if ManualFlag \<in> snd ` set ((i, v) # rs) then ManualFlag else AutoRoundEnd)"
    by (cases v) (auto simp: joined_def)
  with q' first show ?thesis by (intro exI [of _ q']) (simp add: effect_simps)
qed

theorem requests_coalesce_witness:
  "\<exists>q. snd (request_saves demo_ports [(''two'', AutoRoundEnd), (''three'', ManualFlag)] demo_saving)
      = demo_saving\<lparr>sv_queued := Some q\<rparr> \<and> slot q = (''two'', ManualFlag)"
proof -
  have s: "sv_running demo_saving" "sv_in_flight demo_saving \<noteq> None" "sv_queued demo_saving = None"
    by (simp_all add: demo_saving_eq demo_supervisor_def supervisor_new_def)
  from requests_coalesce [OF s, of demo_ports "''two''" AutoRoundEnd "[(''three'', ManualFlag)]"]
  show ?thesis by auto
qed

lemma restart_delay_eq: "restart_delay n = min (2 ^ n) 30"
proof (cases "n < 5")
  case True
  then have "n \<in> {0, 1, 2, 3, 4}" by auto
  then show ?thesis by (auto simp: restart_delay_def)
next
  case False
  then have "(2 :: nat) ^ 5 \<le> 2 ^ n" by (intro power_increasing) auto
  with False show ?thesis by (simp add: restart_delay_def min_def)
qed

lemma restart_if_due_starts:
  assumes "sv_running (snd (restart_if_due p s))" "\<not> sv_running s"
  shows "\<not> sv_shutting_down s \<and> (\<exists>at w. sv_next_restart_ms s = Some at \<and> at \<le> fst (rp_now_ms p w))"
  using assms
  by (auto simp: restart_if_due_def effect_simps when_do_def split: if_splits option.splits)

lemma no_exit_code [simp]: "map_sum id (\<lambda>_. None) x \<noteq> Inr (Some code)"
  by (cases x) simp_all

lemma mark_stable_shape:
  assumes "mark_stable p s = (r, t)"
  shows "r = Inr () \<and> sv_running t = sv_running s \<and> sv_shutting_down t = sv_shutting_down s
    \<and> (sv_failures t = sv_failures s \<or> sv_failures t = 0)
    \<and> sv_next_restart_ms t = sv_next_restart_ms s"
  using assms by (auto simp: mark_stable_def effect_simps when_do_def split: if_splits)

text \<open>
  Restarts back off and are never early: when the child of a recorder that is not shutting down
  exits, the next start is due after 1, 2, 4, 8, 16 and then always 30 seconds, by the number of
  failures since the child was last stable; a poll starts the child again only when the recorder
  is down, not shutting down, and a reading of the clock has reached that time.
\<close>
theorem restart_backoff:
  assumes "poll p s = (r, t)"
  shows "(sv_running t \<and> \<not> sv_running s \<longrightarrow> \<not> sv_shutting_down s
      \<and> (\<exists>at w. sv_next_restart_ms s = Some at \<and> at \<le> fst (rp_now_ms p w)))
    \<and> (\<forall>code. r = Inr (Some code) \<and> \<not> sv_shutting_down s \<longrightarrow> \<not> sv_running t
      \<and> (\<exists>f w. (f = sv_failures s \<or> f = 0) \<and> sv_failures t = saturating_add_u64 f 1
        \<and> sv_next_restart_ms t = Some (saturating_add_u64 (fst (rp_now_ms p w)) (1000 * min (2 ^ f) 30))))"
proof -
  obtain r1 a where a: "append_stderr p s = (r1, a)" by fastforce
  have a': "sv_running a = sv_running s" "sv_shutting_down a = sv_shutting_down s"
    "sv_failures a = sv_failures s" "sv_next_restart_ms a = sv_next_restart_ms s"
    using a by (auto simp: append_stderr_def effect_simps split: sum.splits)
  obtain r2 u where u: "mark_stable p a = (r2, u)" by fastforce
  note u' = mark_stable_shape [OF u]
  let ?v = "u\<lparr>sv_world := snd (rp_try_wait p (sv_world u))\<rparr>"
  have exited: "\<not> sv_running (child_exited p ?v)
      \<and> (\<exists>f w. (f = sv_failures s \<or> f = 0) \<and> sv_failures (child_exited p ?v) = saturating_add_u64 f 1
        \<and> sv_next_restart_ms (child_exited p ?v)
          = Some (saturating_add_u64 (fst (rp_now_ms p w)) (1000 * min (2 ^ f) 30)))"
    if "\<not> sv_shutting_down s"
    using that u' a' by (auto simp: child_exited_eq restart_delay_eq mult.commute)
  have due: "\<not> sv_shutting_down s \<and> (\<exists>at w. sv_next_restart_ms s = Some at \<and> at \<le> fst (rp_now_ms p w))"
    if "sv_running (snd (restart_if_due p a))" "\<not> sv_running s"
    using restart_if_due_starts [of p a] that a' by simp
  consider (drain) e where "r1 = Inl e" | (down) "r1 = Inr ()" "\<not> sv_running s"
    | (up) "r1 = Inr ()" "sv_running s" by (cases r1) auto
  then show ?thesis
  proof cases
    case drain
    with assms a a' show ?thesis by (auto simp: poll_eq)
  next
    case down
    with assms a a'(1) have eq: "r = map_sum id (\<lambda>_. None) (fst (restart_if_due p a))"
      "t = snd (restart_if_due p a)" by (simp_all add: poll_eq)
    with due down(2) show ?thesis by simp
  next
    case up
    with assms a a' u u' exited show ?thesis
      by (auto simp: poll_eq call_port_apply split: sum.splits option.splits)
  qed
qed

theorem restart_backoff_witness:
  "\<exists>r t. poll (demo_ports\<lparr>rp_try_wait := (\<lambda>w. (Inr (Some 1), w))\<rparr>) demo_saving = (r, t)
    \<and> \<not> sv_running t"
proof -
  let ?p = "demo_ports\<lparr>rp_try_wait := (\<lambda>w. (Inr (Some 1), w))\<rparr>"
  obtain r t where rt: "poll ?p demo_saving = (r, t)" by fastforce
  moreover have "fst (poll ?p demo_saving) = Inr (Some 1)" "\<not> sv_shutting_down demo_saving"
    by (simp_all add: poll_def append_stderr_def mark_stable_def schedule_restart_def demo_ports_def
      demo_saving_eq demo_supervisor_def supervisor_new_def effect_simps when_do_def saturating_sub_def)
  ultimately have "\<not> sv_running t" using restart_backoff [OF rt] by simp
  with rt show ?thesis by blast
qed

fun needs_output :: "supervisor_event \<Rightarrow> bool" where
  "needs_output DiscoverEvent = True"
| "needs_output (AcknowledgeEvent path) = True"
| "needs_output _ = False"

text \<open>
  A save stays in flight until its output is found: no crash of the child, no restart, no
  shutdown and no poll frees the slot, and while it is taken every request of a running recorder
  is only coalesced, without a signal to the (possibly new) child.
\<close>
theorem save_survives_crash:
  assumes "sv_in_flight s = Some pending" and "list_all (\<lambda>e. \<not> needs_output e) events"
    and "t = foldl (supervisor_step p) s events"
  shows "sv_in_flight t = Some pending
    \<and> (sv_running t \<longrightarrow> (\<exists>i' q. request_save p i v t
        = (Inr \<lparr>so_recorder_request_id = i', so_disposition = Coalesced\<rparr>, t\<lparr>sv_queued := Some q\<rparr>)))"
proof -
  have "sv_in_flight (foldl (supervisor_step p) s events) = Some pending"
    using assms(1,2)
  proof (induction events arbitrary: s)
    case (Cons e events)
    have "sv_in_flight (supervisor_step p s e) = Some pending"
    proof (cases e)
      case (RequestEvent i v)
      with Cons.prems(1) show ?thesis
        by (auto simp: request_save_def effect_simps Let_def)
    next
      case PollEvent
      with Cons.prems(1) show ?thesis using obeysD [OF poll_slots, of s p] by (simp add: same_slots_def)
    next
      case StartEvent
      with Cons.prems(1) show ?thesis using obeysD [OF spawn_slots, of s p] by (simp add: same_slots_def)
    next
      case ShutdownEvent
      with Cons.prems(1) show ?thesis using obeysD [OF shutdown_slots, of s p] by (simp add: same_slots_def)
    qed (use Cons.prems(2) in auto)
    with Cons show ?case by simp
  qed simp
  then have "sv_in_flight t = Some pending" by (simp add: assms(3))
  then show ?thesis using request_save_busy [of t p i v] by auto
qed

theorem save_survives_crash_witness:
  "sv_in_flight (foldl (supervisor_step demo_ports) demo_saving [PollEvent, ShutdownEvent, StartEvent]) \<noteq> None"
proof -
  obtain q where "sv_in_flight demo_saving = Some q" by (simp add: demo_saving_eq)
  moreover have "list_all (\<lambda>e. \<not> needs_output e) [PollEvent, ShutdownEvent, StartEvent]" by simp
  ultimately have "sv_in_flight (foldl (supervisor_step demo_ports) demo_saving
      [PollEvent, ShutdownEvent, StartEvent]) = Some q"
    by (rule conjunct1 [OF save_survives_crash [OF _ _ refl]])
  then show ?thesis by (simp only: option.distinct not_False_eq_True)
qed

end
