(* ===== verification/Live.thy ===== *)
theory Live
  imports Capture_Window Gsi Supervisor
begin

text \<open>
  The live coordinator of \<open>crates/openfrag-live/src/lib.rs\<close>: it turns the evidence receipts of the
  GSI service into provisional candidates and scheduled captures, asks the recorder for a save
  when a deadline passes or a player sets a manual flag, and cancels what is stale.

  The evidence store, the recorder, the clock and the scheduler are the code's traits; an operation
  of a port may read and change a world of any type. The iteration order of a \<open>HashMap\<close> is a
  port as well. A \<open>TimerId\<close> is its string.
\<close>

section \<open>Records\<close>

datatype capture_kind = AutoRoundEndKind | ManualFlagKind

datatype cancel_reason = CancelStale | CancelSessionReset

datatype capture_status = Scheduled | Requesting | SaveRequested save_request_outcome
  | Retryable string | Cancelled cancel_reason

record candidate_record =
  cd_candidate :: highlight_candidate
  cd_final_labels :: "final_label fset"

record capture_record =
  cr_id :: string
  cr_kind :: capture_kind
  cr_round_id :: "string option"
  cr_provenance :: save_provenance
  cr_source_receipts :: "string fset"
  cr_candidate :: "highlight_candidate option"
  cr_final_labels :: "final_label fset"
  cr_round_end :: "nat option"
  cr_deadline :: "nat option"
  cr_timer :: "string option"
  cr_window :: "capture_window option"
  cr_raw_coverage :: "time_range option"
  cr_status :: capture_status

record finalized_clip =
  fc_clip_id :: string
  fc_recorder_request_id :: string

datatype live_diagnostic = Persistence string | Unsupported string | StorageRequirement string
  | RecorderFailure string | SchedulerFailure string | MissingCapture string | InvalidDomain

fun show_diagnostic :: "live_diagnostic \<Rightarrow> string" where
  "show_diagnostic (Persistence message) = ''live evidence persistence: '' @ message"
| "show_diagnostic (Unsupported message) = ''unsupported durable live state: '' @ message"
| "show_diagnostic (StorageRequirement api) = ''missing durable storage API: '' @ api"
| "show_diagnostic (RecorderFailure message) = ''replay recorder: '' @ message"
| "show_diagnostic (SchedulerFailure message) = ''live scheduler: '' @ message"
| "show_diagnostic (MissingCapture i) = ''missing live capture: '' @ i"
| "show_diagnostic InvalidDomain = ''invalid live highlight domain state''"

datatype timer_outcome = NotDue | TimerSaveRequested | AlreadyHandled

record ingest_outcome =
  io_candidates_created :: nat
  io_captures_scheduled :: nat
  io_captures_cancelled :: nat

definition no_outcome :: ingest_outcome where
  "no_outcome = \<lparr>io_candidates_created = 0, io_captures_scheduled = 0, io_captures_cancelled = 0\<rparr>"

record 'w live_ports =
  lp_persist_receipt :: "evidence_receipt \<Rightarrow> 'w \<Rightarrow> (live_diagnostic, unit) result \<times> 'w"
  lp_upsert_candidate :: "candidate_record \<Rightarrow> 'w \<Rightarrow> (live_diagnostic, unit) result \<times> 'w"
  lp_upsert_capture :: "capture_record \<Rightarrow> 'w \<Rightarrow> (live_diagnostic, unit) result \<times> 'w"
  lp_finalize :: "save_acknowledgement \<Rightarrow> 'w \<Rightarrow> (live_diagnostic, finalized_clip) result \<times> 'w"
  lp_available_from :: "'w \<Rightarrow> nat \<times> 'w"
  lp_request_save :: "string \<Rightarrow> save_provenance \<Rightarrow> 'w \<Rightarrow> (string, save_request_outcome) result \<times> 'w"
  lp_now :: "'w \<Rightarrow> nat \<times> 'w"
  lp_schedule :: "string \<Rightarrow> nat \<Rightarrow> 'w \<Rightarrow> (live_diagnostic, unit) result \<times> 'w"
  lp_cancel :: "string \<Rightarrow> 'w \<Rightarrow> (live_diagnostic, unit) result \<times> 'w"
  lp_capture_order :: "(string \<rightharpoonup> capture_record) \<Rightarrow> string list"

record 'w live =
  lv_world :: 'w
  lv_session :: string
  lv_processed :: "string fset"
  lv_candidates :: "string \<rightharpoonup> candidate_record"
  lv_captures :: "string \<rightharpoonup> capture_record"
  lv_timers :: "string \<rightharpoonup> string"
  lv_manual_ordinal :: nat

type_synonym ('w, 'a) coordinated = "('w live, live_diagnostic, 'a) effect"

definition live_new :: "'w \<Rightarrow> string \<Rightarrow> 'w live" where
  "live_new w session = \<lparr>lv_world = w, lv_session = session, lv_processed = {||},
     lv_candidates = (\<lambda>_. None), lv_captures = (\<lambda>_. None), lv_timers = (\<lambda>_. None),
     lv_manual_ordinal = 0\<rparr>"

definition ask_port :: "('w \<Rightarrow> ('e, 'a) result \<times> 'w) \<Rightarrow> ('w live, 'e, 'a) effect" where
  "ask_port f s = (case f (lv_world s) of (r, w) \<Rightarrow> (r, s\<lparr>lv_world := w\<rparr>))"

definition see_port :: "('w \<Rightarrow> 'a \<times> 'w) \<Rightarrow> ('w live, 'e, 'a) effect" where
  "see_port f s = (case f (lv_world s) of (x, w) \<Rightarrow> (Inr x, s\<lparr>lv_world := w\<rparr>))"

section \<open>Identifiers\<close>

definition receipt_id :: "evidence_receipt \<Rightarrow> string" where
  "receipt_id receipt = er_payload_hash receipt @ '':'' @ show_nat (er_sequence receipt)"

definition round_id :: "string \<Rightarrow> nat \<Rightarrow> string" where
  "round_id map_hash n = map_hash @ '':'' @ show_nat n"

definition duration_ms :: "evidence_receipt \<Rightarrow> nat" where
  "duration_ms receipt = min (er_received_at receipt div 10 ^ 6) u64_max"

definition raw_coverage :: "nat \<Rightarrow> nat \<Rightarrow> time_range" where
  "raw_coverage requested_at available_from =
     \<lparr>tr_start = max (saturating_sub requested_at REPLAY_BUFFER_MS) available_from,
      tr_end = requested_at\<rparr>"

definition auto_capture_id :: "string \<Rightarrow> string" where
  "auto_capture_id rid = ''auto:'' @ rid"

definition timer_id :: "string \<Rightarrow> string" where
  "timer_id capture_id = ''timer:'' @ capture_id"

definition manual_capture_id :: "nat \<Rightarrow> nat \<Rightarrow> string" where
  "manual_capture_id now ordinal = ''manual:'' @ show_nat now @ '':'' @ show_nat ordinal"

section \<open>Operations\<close>

definition store_capture :: "string \<Rightarrow> capture_record \<Rightarrow> 'w live \<Rightarrow> 'w live" where
  "store_capture i c s = s\<lparr>lv_captures := (lv_captures s)(i \<mapsto> c)\<rparr>"

text \<open>\<open>u8::try_from\<close>, then the trigger of a valid local identity.\<close>

definition kill_trigger_of :: "int \<Rightarrow> candidate_trigger option" where
  "kill_trigger_of kills =
     (if 0 \<le> kills \<and> kills \<le> 255 then live_kill_trigger True (nat kills) else None)"

definition point :: "nat \<Rightarrow> time_range" where
  "point t = \<lparr>tr_start = t, tr_end = t\<rparr>"

definition create_candidate :: "'w live_ports \<Rightarrow> evidence_receipt \<Rightarrow> string \<Rightarrow> int \<Rightarrow> ('w, bool) coordinated" where
  "create_candidate p receipt rcpt current =
     (case (ec_map_hash (er_context receipt), ec_observed_round (er_context receipt),
         ec_round_kills (er_context receipt)) of
       (Some map_hash, Some n, Some context_kills) \<Rightarrow>
         if context_kills \<noteq> current then ret False
         else (case kill_trigger_of current of None \<Rightarrow> ret False
           | Some trigger \<Rightarrow>
             let rid = round_id map_hash n; at = duration_ms receipt in
             bind (asks (\<lambda>s. lv_candidates s rid)) (\<lambda>existing.
             if existing \<noteq> None then ret False else
             bind (asks lv_session) (\<lambda>session.
             bind (map_error (\<lambda>_. InvalidDomain)
               (\<lambda>s. (candidate_new session rid (point at) trigger rcpt, s))) (\<lambda>candidate.
             let entry = \<lparr>cd_candidate = candidate, cd_final_labels = {||}\<rparr> in
             bind (ask_port (lp_upsert_candidate p entry)) (\<lambda>_.
             bind (modify (\<lambda>s. s\<lparr>lv_candidates := (lv_candidates s)(rid \<mapsto> entry)\<rparr>)) (\<lambda>_.
             ret True))))))
     | _ \<Rightarrow> ret False)"

text \<open>The provisional candidate of the round, if there is one, is extended and merged.\<close>

definition round_candidate :: "candidate_record option \<Rightarrow> nat \<Rightarrow> highlight_candidate
    \<Rightarrow> (live_diagnostic, highlight_candidate) result" where
  "round_candidate existing round_end official =
     (case existing of None \<Rightarrow> Inr official
      | Some existing \<Rightarrow>
        (let candidate = cd_candidate existing;
             extended = candidate\<lparr>hc_range := (hc_range candidate)\<lparr>tr_end :=
               max round_end (tr_end (hc_range candidate))\<rparr>\<rparr>
         in case merge_candidates [extended, official] of [] \<Rightarrow> Inl InvalidDomain
            | c # _ \<Rightarrow> Inr c))"

definition round_capture :: "string \<Rightarrow> string \<Rightarrow> nat \<Rightarrow> highlight_candidate \<Rightarrow> capture_record" where
  "round_capture i rid round_end candidate =
     \<lparr>cr_id = i, cr_kind = AutoRoundEndKind, cr_round_id = Some rid, cr_provenance = AutoRoundEnd,
      cr_source_receipts = hc_receipts candidate, cr_candidate = Some candidate,
      cr_final_labels = {||}, cr_round_end = Some round_end,
      cr_deadline = Some (saturating_add_u64 round_end AUTO_POST_ROLL_MS),
      cr_timer = Some (timer_id i), cr_window = None, cr_raw_coverage = None,
      cr_status = Scheduled\<rparr>"

definition schedule_round_capture :: "'w live_ports \<Rightarrow> evidence_receipt \<Rightarrow> string \<Rightarrow> nat \<Rightarrow> ('w, bool) coordinated" where
  "schedule_round_capture p receipt rcpt completed =
     (case (ec_map_hash (er_context receipt), ec_observed_round (er_context receipt)) of
       (Some map_hash, Some _) \<Rightarrow>
         let rid = round_id map_hash completed; i = auto_capture_id rid;
             round_end = duration_ms receipt in
         bind (asks (\<lambda>s. lv_captures s i)) (\<lambda>present.
         if present \<noteq> None then ret False else
         bind (asks lv_session) (\<lambda>session.
         bind (map_error (\<lambda>_. InvalidDomain) (\<lambda>s. (candidate_new session rid (point round_end)
           OfficialRoundEndCapture rcpt, s))) (\<lambda>official.
         bind (\<lambda>s. (round_candidate (lv_candidates s rid) round_end official, s)) (\<lambda>candidate.
         let capture = round_capture i rid round_end candidate;
             deadline = saturating_add_u64 round_end AUTO_POST_ROLL_MS; timer = timer_id i in
         bind (ask_port (lp_schedule p timer deadline)) (\<lambda>_.
         bind (attempt (ask_port (lp_upsert_capture p capture))) (\<lambda>stored.
         case stored of
           Inl e \<Rightarrow> bind (attempt (ask_port (lp_cancel p timer))) (\<lambda>_. throw e)
         | Inr _ \<Rightarrow>
           bind (modify (\<lambda>s. s\<lparr>lv_timers := (lv_timers s)(timer \<mapsto> i)\<rparr>)) (\<lambda>_.
           bind (modify (store_capture i capture)) (\<lambda>_. ret True))))))))
     | _ \<Rightarrow> ret False)"

definition cancellable :: "capture_record \<Rightarrow> bool" where
  "cancellable c \<longleftrightarrow> cr_kind c = AutoRoundEndKind
     \<and> (case cr_status c of Scheduled \<Rightarrow> True | Retryable _ \<Rightarrow> True | _ \<Rightarrow> False)"

definition cancel_one :: "'w live_ports \<Rightarrow> cancel_reason \<Rightarrow> string \<Rightarrow> ('w, unit) coordinated" where
  "cancel_one p reason i =
     bind (asks (\<lambda>s. lv_captures s i)) (\<lambda>found.
     bind (lift_option (MissingCapture i) found) (\<lambda>capture.
     bind (case cr_timer capture of None \<Rightarrow> ret () | Some timer \<Rightarrow> ask_port (lp_cancel p timer)) (\<lambda>_.
     let capture = capture\<lparr>cr_status := Cancelled reason\<rparr> in
     bind (ask_port (lp_upsert_capture p capture)) (\<lambda>_. modify (store_capture i capture)))))"

definition cancellable_ids :: "'w live_ports \<Rightarrow> 'w live \<Rightarrow> string list" where
  "cancellable_ids p s =
     filter (\<lambda>i. case lv_captures s i of None \<Rightarrow> False | Some c \<Rightarrow> cancellable c)
       (lp_capture_order p (lv_captures s))"

definition cancel_unsaved :: "'w live_ports \<Rightarrow> cancel_reason \<Rightarrow> ('w, nat) coordinated" where
  "cancel_unsaved p reason =
     bind (asks (cancellable_ids p)) (\<lambda>ids.
     bind (for_each (cancel_one p reason) ids) (\<lambda>_. ret (length ids)))"

text \<open>The recorded window of an automatic capture; a manual one has it since the flag.\<close>

definition with_window :: "'w live_ports \<Rightarrow> nat \<Rightarrow> capture_record \<Rightarrow> ('w, capture_record) coordinated" where
  "with_window p now capture =
     (if cr_kind capture = AutoRoundEndKind then
        bind (lift_option InvalidDomain (map_option (\<lambda>c. tr_start (hc_range c)) (cr_candidate capture))) (\<lambda>start.
        bind (see_port (lp_available_from p)) (\<lambda>available.
        case auto_capture_window start (cr_round_end capture) available of
          AwaitingRoundEnd \<Rightarrow> throw InvalidDomain
        | SaveWindow window \<Rightarrow>
          bind (see_port (lp_available_from p)) (\<lambda>from_ms.
          ret (capture\<lparr>cr_window := Some window, cr_raw_coverage := Some (raw_coverage now from_ms)\<rparr>))))
      else ret capture)"

definition request_capture_save :: "'w live_ports \<Rightarrow> string \<Rightarrow> ('w, timer_outcome) coordinated" where
  "request_capture_save p i =
     bind (asks (\<lambda>s. lv_captures s i)) (\<lambda>found.
     bind (lift_option (MissingCapture i) found) (\<lambda>capture.
     bind (see_port (lp_now p)) (\<lambda>now.
     bind (with_window p now capture) (\<lambda>capture.
     bind (attempt (ask_port (lp_request_save p (cr_id capture) (cr_provenance capture)))) (\<lambda>answer.
     case answer of
       Inr outcome \<Rightarrow>
         let capture = capture\<lparr>cr_status := SaveRequested outcome\<rparr> in
         bind (ask_port (lp_upsert_capture p capture)) (\<lambda>_.
         bind (modify (store_capture i capture)) (\<lambda>_. ret TimerSaveRequested))
     | Inl message \<Rightarrow>
         let capture = capture\<lparr>cr_status := Retryable message\<rparr> in
         bind (ask_port (lp_upsert_capture p capture)) (\<lambda>_.
         bind (modify (store_capture i capture)) (\<lambda>_. throw (RecorderFailure message))))))))"

definition on_timer :: "'w live_ports \<Rightarrow> string \<Rightarrow> ('w, timer_outcome) coordinated" where
  "on_timer p timer =
     bind (asks (\<lambda>s. lv_timers s timer)) (\<lambda>registered.
     bind (lift_option (MissingCapture timer) registered) (\<lambda>i.
     bind (asks (\<lambda>s. lv_captures s i)) (\<lambda>found.
     bind (lift_option (MissingCapture i) found) (\<lambda>capture.
     case cr_deadline capture of None \<Rightarrow> ret AlreadyHandled
     | Some deadline \<Rightarrow>
       bind (see_port (lp_now p)) (\<lambda>now.
       if now < deadline then ret NotDue
       else if cr_status capture \<noteq> Scheduled then ret AlreadyHandled
       else request_capture_save p i)))))"

definition is_retryable :: "capture_status \<Rightarrow> bool" where
  "is_retryable st = (case st of Retryable _ \<Rightarrow> True | _ \<Rightarrow> False)"

definition retry_capture :: "'w live_ports \<Rightarrow> string \<Rightarrow> ('w, timer_outcome) coordinated" where
  "retry_capture p i =
     bind (asks (\<lambda>s. lv_captures s i)) (\<lambda>found.
     bind (lift_option (MissingCapture i) found) (\<lambda>capture.
     if \<not> is_retryable (cr_status capture) then ret AlreadyHandled
     else request_capture_save p i))"

definition flag_capture :: "string \<Rightarrow> capture_window \<Rightarrow> time_range \<Rightarrow> capture_record" where
  "flag_capture i window coverage =
     \<lparr>cr_id = i, cr_kind = ManualFlagKind, cr_round_id = None, cr_provenance = ManualFlag,
      cr_source_receipts = {||}, cr_candidate = None, cr_final_labels = {||}, cr_round_end = None,
      cr_deadline = None, cr_timer = None, cr_window = Some window,
      cr_raw_coverage = Some coverage, cr_status = Requesting\<rparr>"

definition manual_flag :: "'w live_ports \<Rightarrow> ('w, string) coordinated" where
  "manual_flag p =
     bind (see_port (lp_now p)) (\<lambda>now.
     bind (modify (\<lambda>s. s\<lparr>lv_manual_ordinal := saturating_add_u64 (lv_manual_ordinal s) 1\<rparr>)) (\<lambda>_.
     bind (asks (\<lambda>s. manual_capture_id now (lv_manual_ordinal s))) (\<lambda>i.
     bind (see_port (lp_available_from p)) (\<lambda>available.
     let window = manual_capture_window now available in
     bind (see_port (lp_available_from p)) (\<lambda>from_ms.
     let capture = flag_capture i window (raw_coverage now from_ms) in
     bind (ask_port (lp_upsert_capture p capture)) (\<lambda>_.
     bind (modify (store_capture i capture)) (\<lambda>_.
     bind (request_capture_save p i) (\<lambda>_. ret i))))))))"

definition finalize_capture :: "'w live_ports \<Rightarrow> save_acknowledgement \<Rightarrow> ('w, finalized_clip) coordinated" where
  "finalize_capture p acknowledgement = ask_port (lp_finalize p acknowledgement)"

definition ingest_fact :: "'w live_ports \<Rightarrow> evidence_receipt \<Rightarrow> string \<Rightarrow> transition_fact
    \<Rightarrow> ingest_outcome \<Rightarrow> ('w, ingest_outcome) coordinated" where
  "ingest_fact p receipt rcpt transition outcome =
     (case transition of
        RoundKillDelta previous current delta \<Rightarrow>
          if previous \<ge> 0 \<and> delta > 0 \<and> current \<ge> 3 then
            bind (create_candidate p receipt rcpt current) (\<lambda>created.
            ret (outcome\<lparr>io_candidates_created := io_candidates_created outcome + of_bool created\<rparr>))
          else ret outcome
      | RoundEnd completed _ \<Rightarrow>
          bind (schedule_round_capture p receipt rcpt completed) (\<lambda>scheduled.
          ret (outcome\<lparr>io_captures_scheduled := io_captures_scheduled outcome + of_bool scheduled\<rparr>))
      | _ \<Rightarrow> ret outcome)"

fun ingest_facts :: "'w live_ports \<Rightarrow> evidence_receipt \<Rightarrow> string \<Rightarrow> transition_fact list
    \<Rightarrow> ingest_outcome \<Rightarrow> ('w, ingest_outcome) coordinated" where
  "ingest_facts p receipt rcpt [] outcome = ret outcome"
| "ingest_facts p receipt rcpt (transition # facts) outcome =
     bind (ingest_fact p receipt rcpt transition outcome) (ingest_facts p receipt rcpt facts)"

definition ingest :: "'w live_ports \<Rightarrow> evidence_receipt \<Rightarrow> ('w, ingest_outcome) coordinated" where
  "ingest p receipt =
     bind (ask_port (lp_persist_receipt p receipt)) (\<lambda>_.
     let rcpt = receipt_id receipt in
     bind (asks (\<lambda>s. rcpt |\<in>| lv_processed s)) (\<lambda>processed.
     if processed then ret no_outcome else
     bind (case er_output receipt of
         Stale \<Rightarrow> cancel_unsaved p CancelStale
       | SessionReset \<Rightarrow> cancel_unsaved p CancelSessionReset
       | _ \<Rightarrow> ret 0) (\<lambda>cancelled.
     bind (ingest_facts p receipt rcpt (er_facts receipt)
       (no_outcome\<lparr>io_captures_cancelled := cancelled\<rparr>)) (\<lambda>outcome.
     bind (modify (\<lambda>s. s\<lparr>lv_processed := finsert rcpt (lv_processed s)\<rparr>)) (\<lambda>_.
     ret outcome)))))"

datatype live_event = IngestEvent evidence_receipt | TimerEvent string | RetryEvent string
  | FlagEvent | FinalizeEvent save_acknowledgement

fun live_step :: "'w live_ports \<Rightarrow> 'w live \<Rightarrow> live_event \<Rightarrow> 'w live" where
  "live_step p s (IngestEvent receipt) = snd (ingest p receipt s)"
| "live_step p s (TimerEvent timer) = snd (on_timer p timer s)"
| "live_step p s (RetryEvent i) = snd (retry_capture p i s)"
| "live_step p s FlagEvent = snd (manual_flag p s)"
| "live_step p s (FinalizeEvent a) = snd (finalize_capture p a s)"

end
