(* ===== verification/Live_Correct.thy ===== *)
theory Live_Correct
  imports Live
begin

text \<open>
  What the live coordinator guarantees. Its identifiers never collide; every operation is a run of
  an abstract capture machine, whose four changes of a capture (scheduled, flagged, advanced and
  nothing else) each write the store first; and from the machine follow the shape of every
  record, the one-way life of a capture, and the agreement of memory and store.
\<close>

section \<open>Identifiers\<close>

lemma no_colon: "CHR '':'' \<notin> set (show_nat n)"
  using show_nat_digits [of "CHR '':''" n] by (auto simp: is_ascii_digit_def)

lemma numbered_inject:
  "xs @ CHR '':'' # show_nat a = ys @ CHR '':'' # show_nat b \<longleftrightarrow> xs = ys \<and> a = b"
proof
  assume eq: "xs @ CHR '':'' # show_nat a = ys @ CHR '':'' # show_nat b"
  have last: "takeWhile (\<lambda>c. c \<noteq> CHR '':'') (rev (zs @ CHR '':'' # show_nat n)) = rev (show_nat n)"
    for zs n using no_colon by (simp add: takeWhile_append)
  have "rev (show_nat a) = rev (show_nat b)"
    using last [of xs a] last [of ys b] by (simp only: eq)
  then show "xs = ys \<and> a = b" using eq show_nat_inject by auto
qed simp

lemma ids_inject [simp]:
  "round_id m a = round_id m' b \<longleftrightarrow> m = m' \<and> a = b"
  "auto_capture_id r = auto_capture_id r' \<longleftrightarrow> r = r'"
  "timer_id i = timer_id j \<longleftrightarrow> i = j"
  "manual_capture_id t a = manual_capture_id u b \<longleftrightarrow> t = u \<and> a = b"
  "manual_capture_id t a \<noteq> auto_capture_id r" "auto_capture_id r \<noteq> manual_capture_id t a"
  using numbered_inject [of m a m' b] numbered_inject [of "show_nat t" a "show_nat u" b]
  by (auto simp: round_id_def auto_capture_id_def timer_id_def manual_capture_id_def show_nat_inject)

lemma receipt_id_inject:
  "receipt_id a = receipt_id b \<longleftrightarrow> er_payload_hash a = er_payload_hash b \<and> er_sequence a = er_sequence b"
  by (simp add: receipt_id_def numbered_inject)

section \<open>Quiet steps\<close>

text \<open>The worlds reachable by calling ports, but without a successful write of a capture.\<close>

inductive quiet :: "'w live_ports \<Rightarrow> 'w \<Rightarrow> 'w \<Rightarrow> bool" for p :: "'w live_ports" where
  quiet_refl: "quiet p w w"
| quiet_receipt: "quiet p w v \<Longrightarrow> quiet p w (snd (lp_persist_receipt p r v))"
| quiet_candidate: "quiet p w v \<Longrightarrow> quiet p w (snd (lp_upsert_candidate p d v))"
| quiet_finalize: "quiet p w v \<Longrightarrow> quiet p w (snd (lp_finalize p a v))"
| quiet_available: "quiet p w v \<Longrightarrow> quiet p w (snd (lp_available_from p v))"
| quiet_request: "quiet p w v \<Longrightarrow> quiet p w (snd (lp_request_save p i pr v))"
| quiet_now: "quiet p w v \<Longrightarrow> quiet p w (snd (lp_now p v))"
| quiet_schedule: "quiet p w v \<Longrightarrow> quiet p w (snd (lp_schedule p i n v))"
| quiet_cancel: "quiet p w v \<Longrightarrow> quiet p w (snd (lp_cancel p i v))"
| quiet_refused: "quiet p w v \<Longrightarrow> fst (lp_upsert_capture p c v) = Inl e
    \<Longrightarrow> quiet p w (snd (lp_upsert_capture p c v))"

lemma quiet_trans: "quiet p v u \<Longrightarrow> quiet p w v \<Longrightarrow> quiet p w u"
  by (induction rule: quiet.induct) (auto intro: quiet.intros)

definition quietly :: "'w live_ports \<Rightarrow> 'w live \<Rightarrow> 'w live \<Rightarrow> bool" where
  "quietly p s t \<longleftrightarrow> (\<exists>w. quiet p (lv_world s) w \<and> t = s\<lparr>lv_world := w\<rparr>)"

interpretation quiet_order: effect_order "quietly p" for p
proof
  show "quietly p s s" for s by (auto simp: quietly_def intro: quiet_refl exI [of _ "lv_world s"])
  show "quietly p s u" if "quietly p s t" "quietly p t u" for s t u
  proof -
    from that obtain v w where "quiet p (lv_world s) v" "quiet p v w" "u = s\<lparr>lv_world := w\<rparr>"
      by (auto simp: quietly_def)
    then show ?thesis unfolding quietly_def by (intro exI [of _ w]) (auto intro: quiet_trans)
  qed
qed

lemma ask_port_apply [effect_simps]:
  "ask_port f s = (fst (f (lv_world s)), s\<lparr>lv_world := snd (f (lv_world s))\<rparr>)"
  by (simp add: ask_port_def split: prod.split)

lemma see_port_apply [effect_simps]:
  "see_port f s = (Inr (fst (f (lv_world s))), s\<lparr>lv_world := snd (f (lv_world s))\<rparr>)"
  by (simp add: see_port_def split: prod.split)

lemma quietly_world: "quiet p (lv_world s) w \<Longrightarrow> quietly p s (s\<lparr>lv_world := w\<rparr>)"
  by (auto simp: quietly_def)

lemma ports_quiet:
  "obeys (quietly p) (ask_port (lp_persist_receipt p r))"
  "obeys (quietly p) (ask_port (lp_upsert_candidate p d))"
  "obeys (quietly p) (ask_port (lp_finalize p a))"
  "obeys (quietly p) (see_port (lp_available_from p))"
  "obeys (quietly p) (see_port (lp_now p))"
  "obeys (quietly p) (ask_port (lp_request_save p i pr))"
  "obeys (quietly p) (ask_port (lp_schedule p i n))"
  "obeys (quietly p) (ask_port (lp_cancel p i))"
  by (auto simp: obeys_def effect_simps intro!: quietly_world quiet.intros)

lemma with_window_quiet: "obeys (quietly p) (with_window p now c)"
  unfolding with_window_def
  by (auto intro!: quiet_order.obeys_intros ports_quiet split: auto_capture_decision.split)

lemma with_window_shape:
  assumes "with_window p now c s = (Inr c', t)"
  shows "\<exists>win cov. c' = c\<lparr>cr_window := win, cr_raw_coverage := cov\<rparr>
    \<and> (cr_kind c = AutoRoundEndKind \<longrightarrow> win \<noteq> None) \<and> (cr_kind c \<noteq> AutoRoundEndKind \<longrightarrow> win = cr_window c)"
proof (cases "cr_kind c = AutoRoundEndKind")
  case True
  with assms show ?thesis
    by (auto simp: with_window_def effect_simps split: sum.splits option.splits auto_capture_decision.splits)
next
  case False
  with assms have "c' = c" by (simp add: with_window_def effect_simps)
  with False show ?thesis by (intro exI [of _ "cr_window c"] exI [of _ "cr_raw_coverage c"]) simp
qed

section \<open>The capture machine\<close>

fun status_moves :: "capture_kind \<Rightarrow> capture_status \<Rightarrow> capture_status \<Rightarrow> bool" where
  "status_moves kind (SaveRequested _) st \<longleftrightarrow> False"
| "status_moves kind (Cancelled _) st \<longleftrightarrow> False"
| "status_moves kind Scheduled st \<longleftrightarrow> kind = AutoRoundEndKind \<and> st \<notin> {Scheduled, Requesting}"
| "status_moves kind Requesting st \<longleftrightarrow> kind = ManualFlagKind \<and> st \<notin> {Scheduled, Requesting}
     \<and> st \<notin> range Cancelled"
| "status_moves kind (Retryable _) st \<longleftrightarrow> st \<notin> {Scheduled, Requesting}
     \<and> (kind = ManualFlagKind \<longrightarrow> st \<notin> range Cancelled)"

text \<open>What a record looks like under its key.\<close>

definition auto_wf :: "string \<Rightarrow> string \<Rightarrow> capture_record \<Rightarrow> bool" where
  "auto_wf session i c \<longleftrightarrow> (\<exists>rid e cand. i = auto_capture_id rid \<and> cr_round_id c = Some rid
     \<and> cr_provenance c = AutoRoundEnd \<and> cr_candidate c = Some cand
     \<and> hc_session cand = session \<and> hc_round cand = rid \<and> cr_source_receipts c = hc_receipts cand
     \<and> cr_round_end c = Some e \<and> cr_deadline c = Some (saturating_add_u64 e AUTO_POST_ROLL_MS)
     \<and> cr_timer c = Some (timer_id i) \<and> cr_status c \<noteq> Requesting)"

definition manual_wf :: "nat \<Rightarrow> string \<Rightarrow> capture_record \<Rightarrow> bool" where
  "manual_wf ordinal i c \<longleftrightarrow> (\<exists>now n. i = manual_capture_id now n \<and> n \<le> ordinal)
     \<and> cr_provenance c = ManualFlag \<and> cr_timer c = None \<and> cr_deadline c = None
     \<and> cr_status c \<noteq> Scheduled \<and> cr_status c \<notin> range Cancelled"

definition capture_wf :: "string \<Rightarrow> nat \<Rightarrow> string \<Rightarrow> capture_record \<Rightarrow> bool" where
  "capture_wf session ordinal i c \<longleftrightarrow> cr_id c = i \<and> cr_final_labels c = {||}
     \<and> (if cr_kind c = AutoRoundEndKind then auto_wf session i c else manual_wf ordinal i c)
     \<and> (cr_status c \<in> range SaveRequested \<or> cr_kind c = ManualFlagKind \<longrightarrow> cr_window c \<noteq> None)"

definition candidate_wf :: "string \<Rightarrow> string \<Rightarrow> candidate_record \<Rightarrow> bool" where
  "candidate_wf session rid d \<longleftrightarrow> hc_session (cd_candidate d) = session
     \<and> hc_round (cd_candidate d) = rid \<and> candidate_ok (cd_candidate d)
     \<and> hc_triggers (cd_candidate d) = {|KillMilestone|} \<and> cd_final_labels d = {||}"

definition live_wf :: "'w live \<Rightarrow> bool" where
  "live_wf s \<longleftrightarrow> finite (dom (lv_captures s))
     \<and> (\<forall>i c. lv_captures s i = Some c \<longrightarrow> capture_wf (lv_session s) (lv_manual_ordinal s) i c)
     \<and> (\<forall>rid d. lv_candidates s rid = Some d \<longrightarrow> candidate_wf (lv_session s) rid d)
     \<and> (\<forall>t i. lv_timers s t = Some i \<longleftrightarrow> (\<exists>c. lv_captures s i = Some c \<and> cr_timer c = Some t))"

abbreviation put_capture :: "'w live \<Rightarrow> 'w \<Rightarrow> string \<Rightarrow> capture_record \<Rightarrow> 'w live" where
  "put_capture s w i c \<equiv> s\<lparr>lv_world := w, lv_captures := (lv_captures s)(i \<mapsto> c)\<rparr>"

inductive live_change :: "'w live_ports \<Rightarrow> 'w live \<Rightarrow> 'w live \<Rightarrow> bool" for p :: "'w live_ports" where
  bookkeeping: "quiet p (lv_world s) w \<Longrightarrow> lv_processed s |\<subseteq>| ps
    \<Longrightarrow> live_change p s (s\<lparr>lv_world := w, lv_processed := ps\<rparr>)"
| noted: "quiet p (lv_world s) w \<Longrightarrow> lv_candidates s rid = None \<Longrightarrow> candidate_wf (lv_session s) rid d
    \<Longrightarrow> live_change p s (s\<lparr>lv_world := w, lv_candidates := (lv_candidates s)(rid \<mapsto> d)\<rparr>)"
| scheduled: "quiet p (lv_world s) v \<Longrightarrow> lv_captures s i = None
    \<Longrightarrow> capture_wf (lv_session s) (lv_manual_ordinal s) i c
    \<Longrightarrow> cr_kind c = AutoRoundEndKind \<Longrightarrow> cr_status c = Scheduled
    \<Longrightarrow> lp_upsert_capture p c v = (Inr (), w)
    \<Longrightarrow> live_change p s (put_capture s w i c\<lparr>lv_timers := (lv_timers s)(timer_id i \<mapsto> i)\<rparr>)"
| flagged: "quiet p (lv_world s) v \<Longrightarrow> lv_captures s i = None
    \<Longrightarrow> capture_wf (lv_session s) (lv_manual_ordinal s) i c
    \<Longrightarrow> cr_kind c = ManualFlagKind \<Longrightarrow> cr_status c = Requesting
    \<Longrightarrow> lp_upsert_capture p c v = (Inr (), w) \<Longrightarrow> live_change p s (put_capture s w i c)"
| advanced: "quiet p (lv_world s) v \<Longrightarrow> lv_captures s i = Some c
    \<Longrightarrow> status_moves (cr_kind c) (cr_status c) st
    \<Longrightarrow> c' = c\<lparr>cr_window := win, cr_raw_coverage := cov, cr_status := st\<rparr>
    \<Longrightarrow> capture_wf (lv_session s) (lv_manual_ordinal s) i c'
    \<Longrightarrow> lp_upsert_capture p c' v = (Inr (), w) \<Longrightarrow> live_change p s (put_capture s w i c')"

abbreviation live_run :: "'w live_ports \<Rightarrow> 'w live \<Rightarrow> 'w live \<Rightarrow> bool" where
  "live_run p \<equiv> (live_change p)\<^sup>*\<^sup>*"

lemma capture_timer:
  "capture_wf session n i c \<Longrightarrow> cr_timer c = (if cr_kind c = AutoRoundEndKind then Some (timer_id i) else None)"
  by (auto simp: capture_wf_def auto_wf_def manual_wf_def)

lemma live_change_fixed:
  "live_change p s t \<Longrightarrow> lv_session t = lv_session s \<and> lv_manual_ordinal t = lv_manual_ordinal s"
  by (induction rule: live_change.induct) auto

lemma live_change_wf:
  assumes "live_change p s t" "live_wf s"
  shows "live_wf t"
  using assms
proof (induction rule: live_change.induct)
  case (scheduled s v i c w)
  have "cr_timer c = Some (timer_id i)" using capture_timer [OF scheduled.hyps(3)] scheduled.hyps(4) by simp
  moreover have "j = i" if "lv_captures s j = Some d" "cr_timer d = Some (timer_id i)" for j d
    using scheduled.prems that capture_timer [of "lv_session s" "lv_manual_ordinal s" j d]
    by (auto simp: live_wf_def split: if_splits)
  ultimately show ?case using scheduled unfolding live_wf_def by (auto dest: sym)
next
  case (flagged s v i c w)
  have "cr_timer c = None" using capture_timer [OF flagged.hyps(3)] flagged.hyps(4) by simp
  with flagged show ?case by (auto simp: live_wf_def)
next
  case (advanced s v i c st c' win cov w)
  then show ?case by (auto simp: live_wf_def)
qed (auto simp: live_wf_def)

lemma live_run_wf: "live_run p s t \<Longrightarrow> live_wf s \<Longrightarrow> live_wf t"
  by (induction rule: rtranclp_induct) (auto intro: live_change_wf)

lemma live_run_fixed:
  "live_run p s t \<Longrightarrow> lv_session t = lv_session s \<and> lv_manual_ordinal t = lv_manual_ordinal s"
  by (induction rule: rtranclp_induct) (auto dest: live_change_fixed)

lemma quietly_run: "quietly p s t \<Longrightarrow> live_run p s t"
proof -
  assume "quietly p s t"
  then obtain w where "quiet p (lv_world s) w" "t = s\<lparr>lv_world := w\<rparr>" by (auto simp: quietly_def)
  then have "live_change p s t" using bookkeeping [of p s w "lv_processed s"] by simp
  then show ?thesis ..
qed

lemma live_wf_book [simp]:
  "live_wf (s\<lparr>lv_world := w\<rparr>) = live_wf s" "live_wf (s\<lparr>lv_processed := ps\<rparr>) = live_wf s"
  by (simp_all add: live_wf_def)

lemma live_wf_auto_timer:
  assumes "live_wf s" "lv_timers s t = Some i"
  shows "\<exists>c e. lv_captures s i = Some c \<and> capture_wf (lv_session s) (lv_manual_ordinal s) i c
    \<and> cr_kind c = AutoRoundEndKind \<and> t = timer_id i \<and> cr_round_end c = Some e
    \<and> cr_deadline c = Some (saturating_add_u64 e AUTO_POST_ROLL_MS)"
proof -
  from assms obtain c where c: "lv_captures s i = Some c" "cr_timer c = Some t"
      "capture_wf (lv_session s) (lv_manual_ordinal s) i c"
    by (auto simp: live_wf_def)
  from c(2) capture_timer [OF c(3)] have "cr_kind c = AutoRoundEndKind" "t = timer_id i"
    by (auto split: if_splits)
  with c show ?thesis by (auto simp: capture_wf_def auto_wf_def)
qed

lemma quiet_run: "quiet p (lv_world s) w \<Longrightarrow> live_run p s (s\<lparr>lv_world := w\<rparr>)"
  by (rule quietly_run [OF quietly_world])

definition runs_from_wf :: "'w live_ports \<Rightarrow> 'w live \<Rightarrow> 'w live \<Rightarrow> bool" where
  "runs_from_wf p s t \<longleftrightarrow> (live_wf s \<longrightarrow> live_run p s t)"

interpretation run_order: effect_order "runs_from_wf p" for p
proof
  show "runs_from_wf p s s" for s by (simp add: runs_from_wf_def)
  show "runs_from_wf p s u" if "runs_from_wf p s t" "runs_from_wf p t u" for s t u
    using that live_run_wf by (auto simp: runs_from_wf_def)
qed

lemma quiet_runs: "obeys (quietly p) m \<Longrightarrow> obeys (runs_from_wf p) m"
  by (simp add: obeys_def runs_from_wf_def quietly_run)

section \<open>Every operation is a run of the machine\<close>

lemma point_new: "candidate_new session rid (point t) trigger rcpt = Inr c \<longleftrightarrow>
  c = \<lparr>hc_session = session, hc_round = rid, hc_version = HIGHLIGHT_RULE_VERSION, hc_range = point t,
     hc_starts = {|t|}, hc_triggers = {|trigger|}, hc_receipts = {|rcpt|}\<rparr>"
  by (auto simp: candidate_new_def point_def)

lemma point_new_ok: "candidate_new session rid (point t) trigger rcpt \<noteq> Inl e"
  by (simp add: candidate_new_def point_def)

lemma kill_trigger_of_Some: "kill_trigger_of n = Some t \<longleftrightarrow> t = KillMilestone \<and> 3 \<le> n \<and> n \<le> 255"
  by (auto simp: kill_trigger_of_def live_kill_trigger_def split: if_splits)

text \<open>The candidate of a round's capture is of the same session and round.\<close>

lemma round_candidate_wf:
  assumes "round_candidate found e official = Inr c" "hc_session official = session" "hc_round official = rid"
    and "\<And>d. found = Some d \<Longrightarrow> candidate_wf session rid d"
  shows "hc_session c = session \<and> hc_round c = rid"
proof (cases found)
  case None
  with assms show ?thesis by (simp add: round_candidate_def)
next
  case (Some d)
  let ?x = "(cd_candidate d)\<lparr>hc_range := (hc_range (cd_candidate d))\<lparr>tr_end :=
    max e (tr_end (hc_range (cd_candidate d)))\<rparr>\<rparr>"
  from Some assms(1) have "c \<in> set (merge_candidates [?x, official])"
    by (auto simp: round_candidate_def Let_def split: list.splits)
  from merge_candidates_identity [OF this] show ?thesis
    using assms(2,3) assms(4) [OF Some] by (auto simp: candidate_wf_def)
qed

lemma round_candidate_total: "\<exists>c. round_candidate found e official = Inr c"
proof (cases found)
  case (Some d)
  let ?x = "(cd_candidate d)\<lparr>hc_range := (hc_range (cd_candidate d))\<lparr>tr_end :=
    max e (tr_end (hc_range (cd_candidate d)))\<rparr>\<rparr>"
  have "merge_candidates [?x, official] \<noteq> []"
    using merge_candidates_covers [of official "[?x, official]"] by auto
  with Some show ?thesis by (auto simp: round_candidate_def Let_def neq_Nil_conv)
qed (simp add: round_candidate_def)

text \<open>When a kill milestone is noted, and the candidate it makes.\<close>

definition milestone_round :: "evidence_receipt \<Rightarrow> int \<Rightarrow> string option" where
  "milestone_round receipt n =
     (case (ec_map_hash (er_context receipt), ec_observed_round (er_context receipt)) of
        (Some m, Some k) \<Rightarrow> if ec_round_kills (er_context receipt) = Some n \<and> 3 \<le> n \<and> n \<le> 255
          then Some (round_id m k) else None
      | _ \<Rightarrow> None)"

definition milestone_candidate :: "string \<Rightarrow> string \<Rightarrow> evidence_receipt \<Rightarrow> string \<Rightarrow> candidate_record" where
  "milestone_candidate session rid receipt rcpt = \<lparr>cd_candidate = \<lparr>hc_session = session,
     hc_round = rid, hc_version = HIGHLIGHT_RULE_VERSION, hc_range = point (duration_ms receipt),
     hc_starts = {|duration_ms receipt|}, hc_triggers = {|KillMilestone|}, hc_receipts = {|rcpt|}\<rparr>,
     cd_final_labels = {||}\<rparr>"

lemma create_candidate_eq:
  "create_candidate p receipt rcpt n s = (case milestone_round receipt n of
     None \<Rightarrow> (Inr False, s)
   | Some rid \<Rightarrow>
       if lv_candidates s rid \<noteq> None then (Inr False, s)
       else let d = milestone_candidate (lv_session s) rid receipt rcpt;
              r = fst (lp_upsert_candidate p d (lv_world s)); w = snd (lp_upsert_candidate p d (lv_world s)) in
         (map_sum id (\<lambda>_. True) r, case r of Inl e \<Rightarrow> s\<lparr>lv_world := w\<rparr>
            | Inr _ \<Rightarrow> s\<lparr>lv_world := w, lv_candidates := (lv_candidates s)(rid \<mapsto> d)\<rparr>))"
proof -
  have "candidate_new (lv_session s) rid (point t) tr rcpt = Inr \<lparr>hc_session = lv_session s, hc_round = rid,
      hc_version = HIGHLIGHT_RULE_VERSION, hc_range = point t, hc_starts = {|t|}, hc_triggers = {|tr|},
      hc_receipts = {|rcpt|}\<rparr>" for rid t tr by (simp add: point_new)
  then show ?thesis
    by (auto simp: create_candidate_def milestone_round_def milestone_candidate_def effect_simps Let_def
      kill_trigger_of_Some kill_trigger_of_def live_kill_trigger_def split: option.splits sum.splits)
qed

lemma milestone_candidate_wf: "candidate_wf session rid (milestone_candidate session rid receipt rcpt)"
  by (simp add: candidate_wf_def milestone_candidate_def candidate_ok_def point_def)

lemma create_candidate_runs: "obeys (runs_from_wf p) (create_candidate p receipt rcpt n)"
  unfolding obeys_def runs_from_wf_def
proof (intro allI impI)
  fix s
  show "live_run p s (snd (create_candidate p receipt rcpt n s))"
  proof (cases "milestone_round receipt n")
    case (Some rid)
    let ?d = "milestone_candidate (lv_session s) rid receipt rcpt"
    have q: "quiet p (lv_world s) (snd (lp_upsert_candidate p ?d (lv_world s)))"
      by (intro quiet_candidate quiet_refl)
    then show ?thesis
      using Some noted [OF q _ milestone_candidate_wf, of rid receipt rcpt] quietly_run [OF quietly_world [OF q]]
      by (auto simp: create_candidate_eq Let_def split: sum.split)
  qed (simp add: create_candidate_eq)
qed

text \<open>The round a capture is scheduled for, and the capture.\<close>

definition capture_round :: "evidence_receipt \<Rightarrow> nat \<Rightarrow> string option" where
  "capture_round receipt completed =
     (case (ec_map_hash (er_context receipt), ec_observed_round (er_context receipt)) of
        (Some m, Some _) \<Rightarrow> Some (round_id m completed) | _ \<Rightarrow> None)"

definition official_candidate :: "string \<Rightarrow> string \<Rightarrow> evidence_receipt \<Rightarrow> string \<Rightarrow> highlight_candidate" where
  "official_candidate session rid receipt rcpt = \<lparr>hc_session = session, hc_round = rid,
     hc_version = HIGHLIGHT_RULE_VERSION, hc_range = point (duration_ms receipt),
     hc_starts = {|duration_ms receipt|}, hc_triggers = {|OfficialRoundEndCapture|}, hc_receipts = {|rcpt|}\<rparr>"

definition planned_capture :: "'w live \<Rightarrow> string \<Rightarrow> evidence_receipt \<Rightarrow> string \<Rightarrow> capture_record" where
  "planned_capture s rid receipt rcpt = round_capture (auto_capture_id rid) rid (duration_ms receipt)
     (projr (round_candidate (lv_candidates s rid) (duration_ms receipt)
       (official_candidate (lv_session s) rid receipt rcpt)))"

lemma schedule_round_capture_eq:
  "schedule_round_capture p receipt rcpt completed s = (case capture_round receipt completed of
     None \<Rightarrow> (Inr False, s)
   | Some rid \<Rightarrow>
       if lv_captures s (auto_capture_id rid) \<noteq> None then (Inr False, s)
       else let i = auto_capture_id rid; c = planned_capture s rid receipt rcpt;
              deadline = saturating_add_u64 (duration_ms receipt) AUTO_POST_ROLL_MS in
         case lp_schedule p (timer_id i) deadline (lv_world s) of
           (Inl e, v) \<Rightarrow> (Inl e, s\<lparr>lv_world := v\<rparr>)
         | (Inr _, v) \<Rightarrow>
           (case lp_upsert_capture p c v of
             (Inl e, w) \<Rightarrow> (Inl e, s\<lparr>lv_world := snd (lp_cancel p (timer_id i) w)\<rparr>)
           | (Inr _, w) \<Rightarrow> (Inr True, put_capture s w i c\<lparr>lv_timers := (lv_timers s)(timer_id i \<mapsto> i)\<rparr>)))"
proof (cases "capture_round receipt completed")
  case None
  then show ?thesis by (auto simp: schedule_round_capture_def capture_round_def effect_simps split: option.splits)
next
  case (Some rid)
  then obtain m k where ctx: "ec_map_hash (er_context receipt) = Some m"
      "ec_observed_round (er_context receipt) = Some k" "rid = round_id m completed"
    by (auto simp: capture_round_def split: option.splits)
  have new: "candidate_new (lv_session s) rid (point (duration_ms receipt)) OfficialRoundEndCapture rcpt
      = Inr (official_candidate (lv_session s) rid receipt rcpt)"
    by (simp add: point_new official_candidate_def)
  obtain c where c: "round_candidate (lv_candidates s rid) (duration_ms receipt)
      (official_candidate (lv_session s) rid receipt rcpt) = Inr c"
    using round_candidate_total by blast
  show ?thesis
    using new c unfolding Some ctx(3) schedule_round_capture_def
    by (simp add: ctx(1,2) planned_capture_def effect_simps Let_def store_capture_def
      split: sum.split prod.split)
qed

lemma planned_capture_wf:
  assumes "live_wf s"
  shows "capture_wf (lv_session s) n (auto_capture_id rid) (planned_capture s rid receipt rcpt)"
proof -
  obtain c where c: "round_candidate (lv_candidates s rid) (duration_ms receipt)
      (official_candidate (lv_session s) rid receipt rcpt) = Inr c"
    using round_candidate_total by blast
  have "hc_session c = lv_session s \<and> hc_round c = rid"
    by (rule round_candidate_wf [OF c]) (use assms in \<open>auto simp: official_candidate_def live_wf_def\<close>)
  then show ?thesis
    by (auto simp: capture_wf_def auto_wf_def planned_capture_def round_capture_def c)
qed

lemma planned_capture_fields [simp]:
  "cr_kind (planned_capture s rid receipt rcpt) = AutoRoundEndKind"
  "cr_status (planned_capture s rid receipt rcpt) = Scheduled"
  "cr_id (planned_capture s rid receipt rcpt) = auto_capture_id rid"
  by (simp_all add: planned_capture_def round_capture_def)

lemma schedule_round_capture_runs:
  fixes p :: "'w live_ports"
  shows "obeys (runs_from_wf p) (schedule_round_capture p receipt rcpt completed)"
  unfolding obeys_def runs_from_wf_def
proof (intro allI impI)
  fix s :: "'w live" assume wf: "live_wf s"
  show "live_run p s (snd (schedule_round_capture p receipt rcpt completed s))"
  proof (cases "capture_round receipt completed")
    case (Some rid)
    let ?i = "auto_capture_id rid" and ?c = "planned_capture s rid receipt rcpt"
    obtain r v where rv: "lp_schedule p (timer_id ?i)
        (saturating_add_u64 (duration_ms receipt) AUTO_POST_ROLL_MS) (lv_world s) = (r, v)" by fastforce
    then have v: "quiet p (lv_world s) v" by (metis quiet_refl quiet_schedule snd_conv)
    obtain r' w where rw: "lp_upsert_capture p ?c v = (r', w)" by fastforce
    have "live_run p s (s\<lparr>lv_world := snd (lp_cancel p (timer_id ?i) w)\<rparr>)" if "r' = Inl e" for e
      using quiet_refused [OF v, of ?c e] rw that by (auto intro!: quiet_run quiet_cancel)
    moreover have "live_change p s (put_capture s w ?i ?c\<lparr>lv_timers := (lv_timers s)(timer_id ?i \<mapsto> ?i)\<rparr>)"
      if "r' = Inr x" "lv_captures s ?i = None" for x
      using scheduled [OF v that(2) planned_capture_wf [OF wf]] rw that by simp
    ultimately show ?thesis
      using Some rv rw quietly_run [OF quietly_world [OF v]]
      by (auto simp: schedule_round_capture_eq Let_def split: sum.split)
  qed (simp add: schedule_round_capture_eq)
qed

section \<open>Advancing a capture\<close>

text \<open>A write and then the update in memory: the last two calls of every operation on a capture.\<close>

definition commit_capture :: "'w live_ports \<Rightarrow> string \<Rightarrow> capture_record \<Rightarrow> ('w, unit) coordinated" where
  "commit_capture p i c = bind (ask_port (lp_upsert_capture p c)) (\<lambda>_. modify (store_capture i c))"

lemma commit_capture_eq:
  "commit_capture p i c s = (case lp_upsert_capture p c (lv_world s) of
     (Inl e, w) \<Rightarrow> (Inl e, s\<lparr>lv_world := w\<rparr>)
   | (Inr _, w) \<Rightarrow> (Inr (), put_capture s w i c))"
  by (simp add: commit_capture_def effect_simps store_capture_def split: sum.split prod.split)

lemma commit_capture_runs:
  assumes "quietly p s u" "lv_captures s i = Some c" "status_moves (cr_kind c) (cr_status c) st"
    and "c' = c\<lparr>cr_window := win, cr_raw_coverage := cov, cr_status := st\<rparr>"
    and "capture_wf (lv_session s) (lv_manual_ordinal s) i c'"
  shows "live_run p s (snd (commit_capture p i c' u))"
proof -
  obtain v where v: "quiet p (lv_world s) v" "u = s\<lparr>lv_world := v\<rparr>"
    using assms(1) by (auto simp: quietly_def)
  obtain r w where rw: "lp_upsert_capture p c' v = (r, w)" by fastforce
  show ?thesis
  proof (cases r)
    case (Inl e)
    with v rw have "quiet p (lv_world s) w" using quiet_refused [OF v(1), of c' e] by simp
    with v rw Inl show ?thesis using quietly_run [OF quietly_world] by (simp add: commit_capture_eq)
  next
    case (Inr x)
    with v rw have "live_change p s (put_capture s w i c')"
      using advanced [OF v(1) assms(2-5)] by simp
    with v rw Inr show ?thesis by (simp add: commit_capture_eq)
  qed
qed

lemma request_capture_save_eq:
  assumes "lv_captures s i = Some c"
  shows "request_capture_save p i s = (case lp_now p (lv_world s) of (now, w) \<Rightarrow>
     case with_window p now c (s\<lparr>lv_world := w\<rparr>) of
       (Inl e, u) \<Rightarrow> (Inl e, u)
     | (Inr c', u) \<Rightarrow>
       (case lp_request_save p (cr_id c') (cr_provenance c') (lv_world u) of
          (Inr outcome, v) \<Rightarrow> (case commit_capture p i (c'\<lparr>cr_status := SaveRequested outcome\<rparr>) (u\<lparr>lv_world := v\<rparr>) of
            (r, t) \<Rightarrow> (map_sum id (\<lambda>_. TimerSaveRequested) r, t))
        | (Inl message, v) \<Rightarrow> (case commit_capture p i (c'\<lparr>cr_status := Retryable message\<rparr>) (u\<lparr>lv_world := v\<rparr>) of
            (r, t) \<Rightarrow> (case r of Inl e \<Rightarrow> Inl e | Inr _ \<Rightarrow> Inl (RecorderFailure message), t))))"
  using assms
  by (simp add: request_capture_save_def commit_capture_def effect_simps Let_def
    split: prod.split sum.split)

definition requestable :: "capture_record \<Rightarrow> bool" where
  "requestable c \<longleftrightarrow> (\<forall>outcome. status_moves (cr_kind c) (cr_status c) (SaveRequested outcome))
     \<and> (\<forall>message. status_moves (cr_kind c) (cr_status c) (Retryable message))"

lemma requestableI:
  "cr_kind c = AutoRoundEndKind \<Longrightarrow> cr_status c = Scheduled \<Longrightarrow> requestable c"
  "is_retryable (cr_status c) \<Longrightarrow> requestable c"
  "cr_kind c = ManualFlagKind \<Longrightarrow> cr_status c = Requesting \<Longrightarrow> requestable c"
  by (auto simp: requestable_def is_retryable_def split: capture_status.splits)

lemma capture_wf_advance:
  assumes "capture_wf session n i c" "cr_kind c = AutoRoundEndKind \<longrightarrow> win \<noteq> None"
    and "cr_kind c \<noteq> AutoRoundEndKind \<longrightarrow> win = cr_window c"
    and "status_moves (cr_kind c) (cr_status c) st" "st \<in> range SaveRequested \<union> range Retryable"
  shows "capture_wf session n i (c\<lparr>cr_window := win, cr_raw_coverage := cov, cr_status := st\<rparr>)"
  using assms
  by (auto simp: capture_wf_def auto_wf_def manual_wf_def split: if_splits)
    (metis capture_kind.exhaust)+

lemma request_capture_save_runs:
  assumes "live_wf s" "lv_captures s i = Some c" "requestable c"
  shows "live_run p s (snd (request_capture_save p i s))"
proof -
  obtain now w where now: "lp_now p (lv_world s) = (now, w)" by fastforce
  have w: "quietly p s (s\<lparr>lv_world := w\<rparr>)"
    using quiet_now [OF quiet_refl, of p "lv_world s"] now by (auto intro!: quietly_world)
  obtain r u where u: "with_window p now c (s\<lparr>lv_world := w\<rparr>) = (r, u)" by fastforce
  have quiet_u: "quietly p s u"
    using quiet_order.order_trans [OF w] obeysD [OF with_window_quiet, of p "s\<lparr>lv_world := w\<rparr>" now c] u by simp
  show ?thesis
  proof (cases r)
    case (Inl e)
    with assms(2) now u quiet_u show ?thesis by (simp add: request_capture_save_eq quietly_run)
  next
    case (Inr c')
    obtain win cov where c': "c' = c\<lparr>cr_window := win, cr_raw_coverage := cov\<rparr>"
      and win: "cr_kind c = AutoRoundEndKind \<longrightarrow> win \<noteq> None" "cr_kind c \<noteq> AutoRoundEndKind \<longrightarrow> win = cr_window c"
      using with_window_shape [OF u [unfolded Inr]] by blast
    obtain a v where v: "lp_request_save p (cr_id c') (cr_provenance c') (lv_world u) = (a, v)" by fastforce
    have quiet_v: "quietly p s (u\<lparr>lv_world := v\<rparr>)"
      using quiet_order.order_trans [OF quiet_u] obeysD [OF ports_quiet(6), of p u "cr_id c'" "cr_provenance c'"] v
      by (simp add: effect_simps)
    have wf: "capture_wf (lv_session s) (lv_manual_ordinal s) i c"
      using assms(1,2) by (simp add: live_wf_def)
    have commit: "live_run p s (snd (commit_capture p i (c'\<lparr>cr_status := st\<rparr>) (u\<lparr>lv_world := v\<rparr>)))"
      if "status_moves (cr_kind c) (cr_status c) st" "st \<in> range SaveRequested \<union> range Retryable" for st
      using commit_capture_runs [OF quiet_v assms(2) that(1) _ capture_wf_advance [OF wf win that]] c' by simp
    show ?thesis
      using assms(2,3) now u v Inr commit
      by (cases a) (simp_all add: request_capture_save_eq requestable_def case_prod_unfold)
  qed
qed

section \<open>The operations\<close>

lemma on_timer_eq:
  assumes "lv_timers s t = Some i" "lv_captures s i = Some c" "cr_deadline c = Some deadline"
  shows "on_timer p t s = (case lp_now p (lv_world s) of (now, w) \<Rightarrow>
     if now < deadline then (Inr NotDue, s\<lparr>lv_world := w\<rparr>)
     else if cr_status c \<noteq> Scheduled then (Inr AlreadyHandled, s\<lparr>lv_world := w\<rparr>)
     else request_capture_save p i (s\<lparr>lv_world := w\<rparr>))"
  using assms by (simp add: on_timer_def effect_simps split: prod.split)

lemma on_timer_runs:
  fixes p :: "'w live_ports"
  shows "obeys (runs_from_wf p) (on_timer p t)"
  unfolding obeys_def runs_from_wf_def
proof (intro allI impI)
  fix s :: "'w live" assume wf: "live_wf s"
  show "live_run p s (snd (on_timer p t s))"
  proof (cases "lv_timers s t")
    case None
    then show ?thesis by (simp add: on_timer_def effect_simps)
  next
    case (Some i)
    obtain c e where c: "lv_captures s i = Some c" "cr_kind c = AutoRoundEndKind"
      "cr_deadline c = Some (saturating_add_u64 e AUTO_POST_ROLL_MS)"
      using live_wf_auto_timer [OF wf Some] by blast
    obtain now w where now: "lp_now p (lv_world s) = (now, w)" by fastforce
    then have w: "live_run p s (s\<lparr>lv_world := w\<rparr>)"
      using quiet_now [OF quiet_refl, of p "lv_world s"] by (auto intro!: quiet_run)
    have "live_run p (s\<lparr>lv_world := w\<rparr>) (snd (request_capture_save p i (s\<lparr>lv_world := w\<rparr>)))"
      if "cr_status c = Scheduled"
      using wf c(1) requestableI(1) [OF c(2) that] by (intro request_capture_save_runs) auto
    then show ?thesis using w now on_timer_eq [OF Some c(1,3)] by auto
  qed
qed

lemma retry_capture_runs:
  fixes p :: "'w live_ports"
  shows "obeys (runs_from_wf p) (retry_capture p i)"
  unfolding obeys_def runs_from_wf_def
proof (intro allI impI)
  fix s :: "'w live" assume wf: "live_wf s"
  show "live_run p s (snd (retry_capture p i s))"
  proof (cases "lv_captures s i")
    case (Some c)
    with request_capture_save_runs [OF wf Some requestableI(2)] show ?thesis
      by (simp add: retry_capture_def effect_simps)
  qed (simp add: retry_capture_def effect_simps)
qed

text \<open>Cancelling: one capture, and then all that are listed.\<close>

lemma cancellable_kind: "cancellable c \<Longrightarrow> cr_kind c = AutoRoundEndKind"
  by (simp add: cancellable_def)

lemma cancellable_moves: "cancellable c \<Longrightarrow> status_moves (cr_kind c) (cr_status c) (Cancelled reason)"
  by (cases "cr_status c") (auto simp: cancellable_def)

lemma capture_wf_cancelled:
  "capture_wf session n i c \<Longrightarrow> cr_kind c = AutoRoundEndKind
   \<Longrightarrow> capture_wf session n i (c\<lparr>cr_status := Cancelled reason\<rparr>)"
  by (auto simp: capture_wf_def auto_wf_def)

lemma cancel_one_cases:
  assumes "live_wf s" "lv_captures s i = Some c" "cancellable c" "cancel_one p reason i s = (r, t)"
  obtains (failed) e w where "r = Inl e" "t = s\<lparr>lv_world := w\<rparr>" "live_run p s t"
  | (cancelled) w where "r = Inr ()" "t = put_capture s w i (c\<lparr>cr_status := Cancelled reason\<rparr>)" "live_run p s t"
proof -
  have wf: "capture_wf (lv_session s) (lv_manual_ordinal s) i c"
    using assms(1,2) by (simp add: live_wf_def)
  note kind = cancellable_kind [OF assms(3)]
  obtain q v where v: "lp_cancel p (timer_id i) (lv_world s) = (q, v)" by fastforce
  then have quiet_v: "quiet p (lv_world s) v" by (metis quiet_refl quiet_cancel snd_conv)
  let ?c = "c\<lparr>cr_window := cr_window c, cr_raw_coverage := cr_raw_coverage c, cr_status := Cancelled reason\<rparr>"
  have eq: "cancel_one p reason i s = (case q of Inl e \<Rightarrow> (Inl e, s\<lparr>lv_world := v\<rparr>)
      | Inr _ \<Rightarrow> commit_capture p i ?c (s\<lparr>lv_world := v\<rparr>))"
    using assms(2) v capture_timer [OF wf] kind
    by (simp add: cancel_one_def commit_capture_def effect_simps Let_def split: sum.split)
  show thesis
  proof (cases q)
    case (Inl e)
    with assms(4) eq show thesis using failed [of e v] quiet_run [OF quiet_v] by simp
  next
    case (Inr x)
    have run: "live_run p s t"
      using commit_capture_runs [where win = "cr_window c" and cov = "cr_raw_coverage c",
          OF quietly_world [OF quiet_v] assms(2) cancellable_moves [OF assms(3)] refl, of reason]
        capture_wf_cancelled [OF wf kind] assms(4) eq Inr by simp
    obtain q' w where w: "lp_upsert_capture p ?c v = (q', w)" by fastforce
    with assms(4) eq Inr have "(r, t) = (case q' of Inl e \<Rightarrow> (Inl e, s\<lparr>lv_world := w\<rparr>)
        | Inr _ \<Rightarrow> (Inr (), put_capture s w i (c\<lparr>cr_status := Cancelled reason\<rparr>)))"
      by (auto simp: commit_capture_eq split: sum.splits)
    with run show thesis using failed cancelled by (cases q') auto
  qed
qed

lemma cancel_loop:
  assumes "live_wf s" "distinct ids" "\<forall>i\<in>set ids. \<exists>c. lv_captures s i = Some c \<and> cancellable c"
    and "for_each (cancel_one p reason) ids s = (r, t)"
  shows "live_run p s t \<and> lv_timers t = lv_timers s \<and> lv_candidates t = lv_candidates s
    \<and> lv_processed t = lv_processed s
    \<and> (\<forall>i. i \<notin> set ids \<longrightarrow> lv_captures t i = lv_captures s i)
    \<and> (r = Inr () \<longrightarrow> (\<forall>i\<in>set ids. \<exists>c. lv_captures s i = Some c
        \<and> lv_captures t i = Some (c\<lparr>cr_status := Cancelled reason\<rparr>)))"
  using assms
proof (induction ids arbitrary: s)
  case Nil
  then show ?case by (simp add: effect_simps)
next
  case (Cons i ids)
  obtain c where c: "lv_captures s i = Some c" "cancellable c" using Cons.prems(3) by auto
  obtain q u where u: "cancel_one p reason i s = (q, u)" by fastforce
  from Cons.prems(1) c u show ?case
  proof (cases rule: cancel_one_cases)
    case (failed e w)
    with Cons.prems(4) u show ?thesis by (auto simp: effect_simps)
  next
    case (cancelled w)
    have "for_each (cancel_one p reason) ids u = (r, t)"
      using Cons.prems(4) u cancelled(1) by (simp add: effect_simps)
    moreover have "\<forall>j\<in>set ids. \<exists>c. lv_captures u j = Some c \<and> cancellable c"
      using Cons.prems(2,3) cancelled(2) by auto
    ultimately have IH: "live_run p u t \<and> lv_timers t = lv_timers u \<and> lv_candidates t = lv_candidates u
        \<and> lv_processed t = lv_processed u
        \<and> (\<forall>i. i \<notin> set ids \<longrightarrow> lv_captures t i = lv_captures u i)
        \<and> (r = Inr () \<longrightarrow> (\<forall>i\<in>set ids. \<exists>c. lv_captures u i = Some c
            \<and> lv_captures t i = Some (c\<lparr>cr_status := Cancelled reason\<rparr>)))"
      using Cons.IH [OF live_run_wf [OF cancelled(3) Cons.prems(1)]] Cons.prems(2) by simp
    then have "live_run p s t" using cancelled(3) rtranclp_trans by metis
    moreover have "lv_captures u j = lv_captures s j" if "j \<in> set ids" for j
      using cancelled(2) Cons.prems(2) that by auto
    then have "r = Inr () \<longrightarrow> (\<forall>j\<in>set ids. \<exists>c. lv_captures s j = Some c
        \<and> lv_captures t j = Some (c\<lparr>cr_status := Cancelled reason\<rparr>))"
      using IH by simp
    ultimately show ?thesis using IH cancelled(2) c(1) Cons.prems(2) by simp
  qed
qed

text \<open>The keys of a \<open>HashMap\<close> come in some order, each once.\<close>

definition iterates_captures :: "'w live_ports \<Rightarrow> bool" where
  "iterates_captures p \<longleftrightarrow> (\<forall>m. finite (dom m) \<longrightarrow>
     distinct (lp_capture_order p m) \<and> set (lp_capture_order p m) = dom m)"

lemma cancellable_ids_spec:
  assumes "iterates_captures p" "live_wf s"
  shows "distinct (cancellable_ids p s)"
    "i \<in> set (cancellable_ids p s) \<longleftrightarrow> (\<exists>c. lv_captures s i = Some c \<and> cancellable c)"
  using assms by (auto simp: iterates_captures_def live_wf_def cancellable_ids_def split: option.splits)

lemma cancel_unsaved_spec:
  assumes "iterates_captures p" "live_wf s" "cancel_unsaved p reason s = (r, t)"
  shows "live_run p s t \<and> lv_timers t = lv_timers s \<and> lv_candidates t = lv_candidates s
    \<and> lv_processed t = lv_processed s
    \<and> (\<forall>n. r = Inr n \<longrightarrow> n = card {i. \<exists>c. lv_captures s i = Some c \<and> cancellable c}
        \<and> (\<forall>i c. lv_captures s i = Some c \<longrightarrow>
            lv_captures t i = Some (if cancellable c then c\<lparr>cr_status := Cancelled reason\<rparr> else c)))"
proof -
  let ?ids = "cancellable_ids p s"
  obtain q u where u: "for_each (cancel_one p reason) ?ids s = (q, u)" by fastforce
  have r: "r = map_sum id (\<lambda>_. length ?ids) q" "t = u"
    using assms(3) u by (auto simp: cancel_unsaved_def effect_simps split: sum.splits)
  note loop = cancel_loop [OF assms(2) cancellable_ids_spec(1) [OF assms(1,2)] _ u]
  have "set ?ids = {i. \<exists>c. lv_captures s i = Some c \<and> cancellable c}"
    using cancellable_ids_spec(2) [OF assms(1,2)] by auto
  then have "length ?ids = card {i. \<exists>c. lv_captures s i = Some c \<and> cancellable c}"
    using distinct_card [OF cancellable_ids_spec(1) [OF assms(1,2)]] by simp
  moreover have "\<forall>i\<in>set ?ids. \<exists>c. lv_captures s i = Some c \<and> cancellable c"
    using cancellable_ids_spec(2) [OF assms(1,2)] by auto
  moreover note loop [OF this]
  ultimately show ?thesis
    using cancellable_ids_spec(2) [OF assms(1,2)] unfolding r
    by (cases q) (auto split: if_splits, force+)
qed

lemma cancel_unsaved_runs:
  assumes "iterates_captures p"
  shows "obeys (runs_from_wf p) (cancel_unsaved p reason)"
  unfolding obeys_def runs_from_wf_def using cancel_unsaved_spec [OF assms] by (metis prod.collapse)

lemma ingest_fact_runs: "obeys (runs_from_wf p) (ingest_fact p receipt rcpt transition outcome)"
  unfolding ingest_fact_def
  by (auto split: transition_fact.split
    intro!: run_order.obeys_intros create_candidate_runs schedule_round_capture_runs)

lemma ingest_facts_runs: "obeys (runs_from_wf p) (ingest_facts p receipt rcpt transitions outcome)"
  by (induction transitions arbitrary: outcome)
    (auto intro!: run_order.obeys_intros ingest_fact_runs)

lemma processed_runs: "obeys (runs_from_wf p) (modify (\<lambda>s. s\<lparr>lv_processed := finsert rcpt (lv_processed s)\<rparr>))"
proof (rule run_order.obeys_modify)
  show "runs_from_wf p s (s\<lparr>lv_processed := finsert rcpt (lv_processed s)\<rparr>)" for s
    using bookkeeping [OF quiet_refl, of s "finsert rcpt (lv_processed s)" p]
    by (auto simp: runs_from_wf_def)
qed

lemma ingest_runs:
  assumes "iterates_captures p"
  shows "obeys (runs_from_wf p) (ingest p receipt)"
  unfolding ingest_def Let_def
  by (auto split: state_output.split intro!: run_order.obeys_intros cancel_unsaved_runs [OF assms]
    ingest_facts_runs processed_runs quiet_runs [OF ports_quiet(1)])

lemma finalize_capture_runs: "obeys (runs_from_wf p) (finalize_capture p a)"
  unfolding finalize_capture_def by (rule quiet_runs [OF ports_quiet(3)])

text \<open>The manual flag counts first; then it is a run as well, unless the counter is exhausted.\<close>

definition counted_flag :: "'w live \<Rightarrow> 'w live" where
  "counted_flag s = s\<lparr>lv_manual_ordinal := saturating_add_u64 (lv_manual_ordinal s) 1\<rparr>"

lemma capture_wf_mono: "capture_wf session n i c \<Longrightarrow> n \<le> m \<Longrightarrow> capture_wf session m i c"
  unfolding capture_wf_def manual_wf_def by (auto split: if_splits intro: le_trans)

lemma counted_flag_wf: "live_wf s \<Longrightarrow> lv_manual_ordinal s \<le> u64_max \<Longrightarrow> live_wf (counted_flag s)"
  by (auto simp: live_wf_def counted_flag_def intro: capture_wf_mono [OF _ saturating_add_u64_ge])

lemma flag_capture_wf: "n \<le> m \<Longrightarrow> capture_wf session m (manual_capture_id now n)
  (flag_capture (manual_capture_id now n) window coverage)"
  by (auto simp: capture_wf_def manual_wf_def flag_capture_def)

lemma manual_flag_eq:
  "manual_flag p s = (let u = counted_flag s;
      (now, v1) = lp_now p (lv_world u); i = manual_capture_id now (lv_manual_ordinal u);
      (available, v2) = lp_available_from p v1; (from_ms, v3) = lp_available_from p v2;
      c = flag_capture i (manual_capture_window now available) (raw_coverage now from_ms);
      (r, t) = commit_capture p i c (u\<lparr>lv_world := v3\<rparr>) in
    case r of Inl e \<Rightarrow> (Inl e, t)
    | Inr _ \<Rightarrow> (map_sum id (\<lambda>_. i) (fst (request_capture_save p i t)), snd (request_capture_save p i t)))"
  by (simp add: manual_flag_def counted_flag_def commit_capture_def effect_simps Let_def case_prod_unfold
    split: sum.split)

lemma flag_id_fresh:
  assumes "live_wf s" "lv_manual_ordinal s < u64_max"
  shows "lv_captures s (manual_capture_id now (lv_manual_ordinal (counted_flag s))) = None"
proof (rule ccontr)
  let ?i = "manual_capture_id now (lv_manual_ordinal (counted_flag s))"
  have n: "lv_manual_ordinal (counted_flag s) = Suc (lv_manual_ordinal s)"
    using assms(2) by (simp add: counted_flag_def saturating_add_u64_def)
  assume "lv_captures s ?i \<noteq> None"
  then obtain c where "capture_wf (lv_session s) (lv_manual_ordinal s) ?i c"
    using assms(1) by (auto simp: live_wf_def)
  with n show False by (auto simp: capture_wf_def auto_wf_def manual_wf_def split: if_splits)
qed

lemma manual_flag_runs:
  assumes "live_wf s" "lv_manual_ordinal s < u64_max"
  shows "live_run p (counted_flag s) (snd (manual_flag p s))"
proof -
  let ?u = "counted_flag s"
  have wf: "live_wf ?u" using assms by (intro counted_flag_wf) auto
  obtain now v1 where v1: "lp_now p (lv_world ?u) = (now, v1)" by fastforce
  obtain available v2 where v2: "lp_available_from p v1 = (available, v2)" by fastforce
  obtain from_ms v3 where v3: "lp_available_from p v2 = (from_ms, v3)" by fastforce
  have quiet: "quiet p (lv_world ?u) v3"
    using quiet_available [OF quiet_available [OF quiet_now [OF quiet_refl, of p "lv_world ?u"]]]
    by (simp add: v1 v2 v3)
  let ?i = "manual_capture_id now (lv_manual_ordinal ?u)"
  let ?c = "flag_capture ?i (manual_capture_window now available) (raw_coverage now from_ms)"
  have fresh: "lv_captures ?u ?i = None"
    using flag_id_fresh [OF assms, of now] by (simp add: counted_flag_def)
  obtain r w where w: "lp_upsert_capture p ?c v3 = (r, w)" by fastforce
  show ?thesis
  proof (cases r)
    case (Inl e)
    then have "quiet p (lv_world ?u) w" using quiet_refused [OF quiet, of ?c e] w by simp
    with Inl w v1 v2 v3 show ?thesis
      using quiet_run [of p ?u w] by (simp add: manual_flag_eq commit_capture_eq Let_def)
  next
    case (Inr x)
    let ?t = "put_capture ?u w ?i ?c"
    have step: "live_change p ?u ?t"
      using flagged [OF quiet fresh flag_capture_wf [OF le_refl]] w Inr by (simp add: flag_capture_def)
    have "live_run p ?t (snd (request_capture_save p ?i ?t))"
      using live_change_wf [OF step wf]
      by (rule request_capture_save_runs) (auto intro: requestableI(3) simp: flag_capture_def)
    with step Inr w v1 v2 v3 show ?thesis
      using converse_rtranclp_into_rtranclp [of "live_change p" ?u ?t]
      by (simp add: manual_flag_eq commit_capture_eq Let_def)
  qed
qed

fun is_flag :: "live_event \<Rightarrow> bool" where
  "is_flag FlagEvent = True"
| "is_flag _ = False"

definition before_step :: "live_event \<Rightarrow> 'w live \<Rightarrow> 'w live" where
  "before_step e s = (if is_flag e then counted_flag s else s)"

lemma live_step_runs:
  assumes "iterates_captures p" "live_wf s" "is_flag e \<longrightarrow> lv_manual_ordinal s < u64_max"
  shows "live_run p (before_step e s) (live_step p s e)" "live_wf (live_step p s e)"
proof -
  show run: "live_run p (before_step e s) (live_step p s e)"
  proof (cases e)
    case FlagEvent
    with assms show ?thesis using manual_flag_runs by (simp add: before_step_def)
  next
    case (IngestEvent r)
    with assms show ?thesis
      using obeysD [OF ingest_runs, of p s r] by (simp add: before_step_def runs_from_wf_def)
  next
    case (TimerEvent t)
    with assms show ?thesis
      using obeysD [OF on_timer_runs, of p s t] by (simp add: before_step_def runs_from_wf_def)
  next
    case (RetryEvent i)
    with assms show ?thesis
      using obeysD [OF retry_capture_runs, of p s i] by (simp add: before_step_def runs_from_wf_def)
  next
    case (FinalizeEvent a)
    with assms show ?thesis
      using obeysD [OF finalize_capture_runs, of p s a] by (simp add: before_step_def runs_from_wf_def)
  qed
  have "live_wf (before_step e s)"
    using assms counted_flag_wf [of s] by (auto simp: before_step_def)
  with run show "live_wf (live_step p s e)" by (rule live_run_wf)
qed

lemma live_step_ordinal:
  assumes "iterates_captures p" "live_wf s" "is_flag e \<longrightarrow> lv_manual_ordinal s < u64_max"
  shows "lv_manual_ordinal (live_step p s e) = lv_manual_ordinal s + of_bool (is_flag e)"
  using live_run_fixed [OF live_step_runs(1) [OF assms]] assms(3)
  by (auto simp: before_step_def counted_flag_def saturating_add_u64_def min_def)

text \<open>Runs of events that stay below the counter's limit.\<close>

abbreviation flags :: "live_event list \<Rightarrow> nat" where
  "flags events \<equiv> length (filter is_flag events)"

lemma live_steps_induct [consumes 3, case_names start step]:
  assumes "iterates_captures p" "live_wf s" "lv_manual_ordinal s + flags events \<le> u64_max"
    and "Q s"
    and "\<And>t e. live_wf t \<Longrightarrow> (is_flag e \<longrightarrow> lv_manual_ordinal t < u64_max) \<Longrightarrow> Q t \<Longrightarrow> Q (live_step p t e)"
  shows "Q (foldl (live_step p) s events)"
  using assms(2-4)
proof (induction events arbitrary: s)
  case (Cons e events)
  then have flag: "is_flag e \<longrightarrow> lv_manual_ordinal s < u64_max" by auto
  have "lv_manual_ordinal (live_step p s e) + flags events \<le> u64_max"
    using Cons.prems(2) live_step_ordinal [OF assms(1) Cons.prems(1) flag] by auto
  then show ?case
    using Cons.IH [OF live_step_runs(2) [OF assms(1) Cons.prems(1) flag]]
      assms(5) [OF Cons.prems(1) flag Cons.prems(3)] by simp
qed simp

section \<open>The life of a capture\<close>

definition same_identity :: "capture_record \<Rightarrow> capture_record \<Rightarrow> bool" where
  "same_identity c d \<longleftrightarrow> cr_id d = cr_id c \<and> cr_kind d = cr_kind c \<and> cr_round_id d = cr_round_id c
    \<and> cr_provenance d = cr_provenance c \<and> cr_source_receipts d = cr_source_receipts c
    \<and> cr_candidate d = cr_candidate c \<and> cr_final_labels d = cr_final_labels c
    \<and> cr_round_end d = cr_round_end c \<and> cr_deadline d = cr_deadline c \<and> cr_timer d = cr_timer c"

lemma same_identity_refl [simp]: "same_identity c c"
  by (simp add: same_identity_def)

definition advances :: "capture_record \<Rightarrow> capture_record \<Rightarrow> bool" where
  "advances c d \<longleftrightarrow> c = d \<or> (same_identity c d \<and> status_moves (cr_kind c) (cr_status c) (cr_status d))"

lemma status_moves_trans:
  "status_moves k a b \<Longrightarrow> status_moves k b c \<Longrightarrow> status_moves k a c"
  by (cases a; cases b; cases c) auto

lemma advances_trans: "advances a b \<Longrightarrow> advances b c \<Longrightarrow> advances a c"
  unfolding advances_def same_identity_def
  by (elim disjE conjE) (auto intro: status_moves_trans)

definition captures_advance :: "'w live \<Rightarrow> 'w live \<Rightarrow> bool" where
  "captures_advance s t \<longleftrightarrow> (\<forall>i c. lv_captures s i = Some c \<longrightarrow> (\<exists>d. lv_captures t i = Some d \<and> advances c d))"

lemma live_change_advance:
  "live_change p s t \<Longrightarrow> captures_advance s t"
proof (induction rule: live_change.induct)
  case (advanced s v i c st c' win cov w)
  then have "advances c c'" by (auto simp: advances_def same_identity_def)
  with advanced show ?case by (auto simp: captures_advance_def advances_def)
qed (auto simp: captures_advance_def advances_def)

lemma captures_advance_trans: "captures_advance s t \<Longrightarrow> captures_advance t u \<Longrightarrow> captures_advance s u"
  unfolding captures_advance_def by (meson advances_trans)

lemma captures_advance_refl [simp]: "captures_advance s s"
  by (simp add: captures_advance_def advances_def)

lemma live_run_advance: "live_run p s t \<Longrightarrow> captures_advance s t"
  by (induction rule: rtranclp_induct) (auto intro: captures_advance_trans live_change_advance)

section \<open>Memory and store\<close>

text \<open>
  A store that keeps what it is told: \<open>stored\<close> reads the captures of a world. A successful
  write replaces the record of its id, nothing else touches the records.
\<close>

definition durable_store :: "'w live_ports \<Rightarrow> ('w \<Rightarrow> string \<rightharpoonup> capture_record) \<Rightarrow> bool" where
  "durable_store p stored \<longleftrightarrow>
     (\<forall>c v w u. lp_upsert_capture p c v = (Inr u, w) \<longrightarrow> stored w = (stored v)(cr_id c \<mapsto> c))
   \<and> (\<forall>v w. quiet p v w \<longrightarrow> stored w = stored v)"

lemma live_change_durable:
  assumes "durable_store p stored" "live_change p s t" "live_wf s" "stored (lv_world s) = lv_captures s"
  shows "stored (lv_world t) = lv_captures t"
  using assms(2-4)
proof (induction rule: live_change.induct)
  case (advanced s v i c st c' win cov w)
  then have "cr_id c' = i" by (simp add: capture_wf_def)
  moreover have "stored w = (stored v)(cr_id c' \<mapsto> c')" "stored v = lv_captures s"
    using assms(1) advanced by (simp_all add: durable_store_def)
  ultimately show ?case by simp
next
  case (scheduled s v i c w)
  then have "cr_id c = i" by (simp add: capture_wf_def)
  moreover have "stored w = (stored v)(cr_id c \<mapsto> c)" "stored v = lv_captures s"
    using assms(1) scheduled by (simp_all add: durable_store_def)
  ultimately show ?case by simp
next
  case (flagged s v i c w)
  then have "cr_id c = i" by (simp add: capture_wf_def)
  moreover have "stored w = (stored v)(cr_id c \<mapsto> c)" "stored v = lv_captures s"
    using assms(1) flagged by (simp_all add: durable_store_def)
  ultimately show ?case by simp
qed (use assms(1) in \<open>simp_all add: durable_store_def\<close>)

lemma live_run_durable:
  assumes "durable_store p stored" "live_run p s t" "live_wf s" "stored (lv_world s) = lv_captures s"
  shows "stored (lv_world t) = lv_captures t"
  using assms(2)
proof (induction rule: rtranclp_induct)
  case (step t u)
  then show ?case using live_change_durable [OF assms(1) step.hyps(2)] live_run_wf assms(3) by blast
qed (rule assms(4))

section \<open>A concrete environment\<close>

text \<open>The world is a clock and the stored captures; every port succeeds.\<close>

definition ready_ports :: "(nat \<times> (string \<rightharpoonup> capture_record)) live_ports" where
  "ready_ports = \<lparr>lp_persist_receipt = (\<lambda>_ w. (Inr (), w)), lp_upsert_candidate = (\<lambda>_ w. (Inr (), w)),
     lp_upsert_capture = (\<lambda>c (n, m). (Inr (), (n, m(cr_id c \<mapsto> c)))),
     lp_finalize = (\<lambda>_ w. (Inl (Persistence ''none''), w)), lp_available_from = (\<lambda>w. (0, w)),
     lp_request_save = (\<lambda>i _ w. (Inr \<lparr>so_recorder_request_id = i, so_disposition = Signalled\<rparr>, w)),
     lp_now = (\<lambda>(n, m). (n, (n + 1000, m))), lp_schedule = (\<lambda>_ _ w. (Inr (), w)),
     lp_cancel = (\<lambda>_ w. (Inr (), w)), lp_capture_order = (\<lambda>m. sorted_list_of_set (dom m))\<rparr>"

lemma ready_iterates: "iterates_captures ready_ports"
  by (simp add: iterates_captures_def ready_ports_def)

lemma ready_durable: "durable_store ready_ports snd"
proof -
  have "quiet ready_ports v w \<Longrightarrow> snd w = snd v" for v w
    by (induction rule: quiet.induct) (auto simp: ready_ports_def split: prod.splits)
  then show ?thesis by (auto simp: durable_store_def ready_ports_def)
qed

definition fresh_live :: "(nat \<times> (string \<rightharpoonup> capture_record)) live" where
  "fresh_live = live_new (5, (\<lambda>_. None)) ''session''"

lemma live_new_wf: "live_wf (live_new w session)"
  by (simp add: live_wf_def live_new_def)

definition kill_receipt :: evidence_receipt where
  "kill_receipt = \<lparr>er_sequence = 1, er_received_at = 2000000, er_payload_hash = ''k'',
     er_presence = presence_of \<lparr>pl_provider = None, pl_map = None, pl_auth = None, pl_player = None\<rparr>,
     er_context = \<lparr>ec_map_hash = Some ''m'', ec_observed_round = Some 7, ec_provider_timestamp = None,
       ec_round_kills = Some 3, ec_health = None\<rparr>,
     er_output = Healthy, er_facts = [RoundKillDelta 2 3 1]\<rparr>"

definition end_receipt :: evidence_receipt where
  "end_receipt = kill_receipt\<lparr>er_sequence := 2, er_received_at := 9000000, er_payload_hash := ''e'',
     er_facts := [RoundEnd 7 8]\<rparr>"

section \<open>Errors\<close>

text \<open>The two diagnostics that would mean an inconsistent coordinator; ports do not report them.\<close>

definition external :: "live_diagnostic \<Rightarrow> bool" where
  "external e \<longleftrightarrow> e \<noteq> InvalidDomain \<and> e \<notin> range MissingCapture"

definition external_ports :: "'w live_ports \<Rightarrow> bool" where
  "external_ports p \<longleftrightarrow> (\<forall>w e.
     (\<forall>r. fst (lp_persist_receipt p r w) = Inl e \<longrightarrow> external e)
   \<and> (\<forall>d. fst (lp_upsert_candidate p d w) = Inl e \<longrightarrow> external e)
   \<and> (\<forall>c. fst (lp_upsert_capture p c w) = Inl e \<longrightarrow> external e)
   \<and> (\<forall>i n. fst (lp_schedule p i n w) = Inl e \<longrightarrow> external e)
   \<and> (\<forall>i. fst (lp_cancel p i w) = Inl e \<longrightarrow> external e))"

lemma external_portsD:
  assumes "external_ports p"
  shows "fst (lp_persist_receipt p r w) = Inl e \<Longrightarrow> external e"
    "fst (lp_upsert_candidate p d w) = Inl e \<Longrightarrow> external e"
    "fst (lp_upsert_capture p c w) = Inl e \<Longrightarrow> external e"
    "fst (lp_schedule p i n w) = Inl e \<Longrightarrow> external e"
    "fst (lp_cancel p i w) = Inl e \<Longrightarrow> external e"
  using assms unfolding external_ports_def by blast+

lemma external_ports_pairD:
  assumes "external_ports p"
  shows "lp_upsert_capture p c w = (Inl e, v) \<Longrightarrow> external e"
    "lp_schedule p i n w = (Inl e, v) \<Longrightarrow> external e"
  using external_portsD(3,4) [OF assms] by (metis fst_conv)+

lemma bind_error:
  "fst (bind m f s) = Inl e \<longleftrightarrow> fst (m s) = Inl e \<or> (\<exists>x. fst (m s) = Inr x \<and> fst (f x (snd (m s))) = Inl e)"
  by (simp add: bind_apply split: sum.split)

lemma commit_capture_error:
  "external_ports p \<Longrightarrow> fst (commit_capture p i c s) = Inl e \<Longrightarrow> external e"
  by (auto simp: commit_capture_eq dest: external_ports_pairD split: sum.splits prod.splits)

lemma create_candidate_error:
  "external_ports p \<Longrightarrow> fst (create_candidate p receipt rcpt n s) = Inl e \<Longrightarrow> external e"
  by (auto simp: create_candidate_eq Let_def map_sum_def dest: external_portsD
    split: option.splits if_splits sum.splits)

lemma schedule_round_capture_error:
  "external_ports p \<Longrightarrow> fst (schedule_round_capture p receipt rcpt completed s) = Inl e \<Longrightarrow> external e"
  by (auto simp: schedule_round_capture_eq Let_def dest: external_ports_pairD
    split: option.splits if_splits sum.splits prod.splits)

lemma ingest_fact_error:
  "external_ports p \<Longrightarrow> fst (ingest_fact p receipt rcpt transition outcome s) = Inl e \<Longrightarrow> external e"
  by (auto simp: ingest_fact_def bind_error ret_def intro: create_candidate_error schedule_round_capture_error
    split: transition_fact.splits if_splits)

lemma ingest_facts_error:
  "external_ports p \<Longrightarrow> fst (ingest_facts p receipt rcpt transitions outcome s) = Inl e \<Longrightarrow> external e"
  by (induction transitions arbitrary: outcome s)
    (auto simp: bind_error ret_def intro: ingest_fact_error)

lemma cancel_one_error:
  assumes "external_ports p" "lv_captures s i = Some c" "fst (cancel_one p reason i s) = Inl e"
  shows "external e"
  using assms
  by (auto simp: cancel_one_def bind_error effect_simps Let_def dest: external_portsD
    split: option.splits sum.splits)

lemma cancel_unsaved_error:
  assumes "external_ports p" "iterates_captures p" "live_wf s" "fst (cancel_unsaved p reason s) = Inl e"
  shows "external e"
proof -
  have "fst (for_each (cancel_one p reason) ids u) = Inl e \<Longrightarrow> live_wf u \<Longrightarrow> distinct ids
      \<Longrightarrow> \<forall>i\<in>set ids. \<exists>c. lv_captures u i = Some c \<and> cancellable c \<Longrightarrow> external e" for ids u
  proof (induction ids arbitrary: u)
    case (Cons i ids)
    obtain c where c: "lv_captures u i = Some c" "cancellable c" using Cons.prems(4) by auto
    obtain q v where v: "cancel_one p reason i u = (q, v)" by fastforce
    from Cons.prems(2) c v show ?case
    proof (cases rule: cancel_one_cases)
      case (failed e' w)
      with v Cons.prems(1) have "fst (cancel_one p reason i u) = Inl e" by (simp add: effect_simps)
      then show ?thesis by (rule cancel_one_error [OF assms(1) c(1)])
    next
      case (cancelled w)
      then have "fst (for_each (cancel_one p reason) ids v) = Inl e"
        using Cons.prems(1) v by (simp add: effect_simps)
      moreover have "\<forall>j\<in>set ids. \<exists>c. lv_captures v j = Some c \<and> cancellable c"
        using Cons.prems(3,4) cancelled(2) by auto
      ultimately show ?thesis
        using Cons.IH live_run_wf [OF cancelled(3) Cons.prems(2)] Cons.prems(3) by simp
    qed
  qed (simp add: ret_def)
  moreover have "fst (for_each (cancel_one p reason) (cancellable_ids p s) s) = Inl e"
    using assms(4) by (simp add: cancel_unsaved_def bind_error asks_def ret_def)
  ultimately show ?thesis
    using cancellable_ids_spec [OF assms(2,3)] assms(3) by blast
qed

lemma with_window_error:
  assumes "fst (with_window p now c s) = Inl e" "capture_wf session n i c"
  shows False
  using assms
  by (auto simp: with_window_def bind_error effect_simps capture_wf_def auto_wf_def auto_capture_window_def
    Let_def split: if_splits)

lemma request_capture_save_error:
  assumes "external_ports p" "live_wf s" "lv_captures s i = Some c"
    and "fst (request_capture_save p i s) = Inl e"
  shows "external e"
proof -
  have wf: "capture_wf (lv_session s) (lv_manual_ordinal s) i c"
    using assms(2,3) by (simp add: live_wf_def)
  obtain now w where now: "lp_now p (lv_world s) = (now, w)" by fastforce
  obtain r u where u: "with_window p now c (s\<lparr>lv_world := w\<rparr>) = (r, u)" by fastforce
  then obtain c' where c': "r = Inr c'"
    using with_window_error [OF _ wf, of p now "s\<lparr>lv_world := w\<rparr>"] by (cases r) auto
  obtain a v where v: "lp_request_save p (cr_id c') (cr_provenance c') (lv_world u) = (a, v)" by fastforce
  show ?thesis
  proof (cases a)
    case (Inl m)
    obtain q t where q: "commit_capture p i (c'\<lparr>cr_status := Retryable m\<rparr>) (u\<lparr>lv_world := v\<rparr>) = (q, t)" by fastforce
    with Inl now u v c' have "fst (request_capture_save p i s)
        = (case q of Inl e \<Rightarrow> Inl e | Inr _ \<Rightarrow> Inl (RecorderFailure m))"
      by (simp add: request_capture_save_eq [OF assms(3)])
    moreover have "external d" if "q = Inl d" for d
      using commit_capture_error [OF assms(1)] q that by (metis fst_conv)
    moreover have "external (RecorderFailure m)" by (auto simp: external_def)
    ultimately show ?thesis using assms(4) by (cases q) auto
  next
    case (Inr outcome)
    obtain q t where q: "commit_capture p i (c'\<lparr>cr_status := SaveRequested outcome\<rparr>) (u\<lparr>lv_world := v\<rparr>) = (q, t)" by fastforce
    with Inr now u v c' have "fst (request_capture_save p i s) = map_sum id (\<lambda>_. TimerSaveRequested) q"
      by (simp add: request_capture_save_eq [OF assms(3)])
    with assms(4) have "q = Inl e" by (cases q) auto
    with q show ?thesis using commit_capture_error [OF assms(1)] by (metis fst_conv)
  qed
qed

section \<open>What a receipt leaves behind\<close>

lemma live_change_candidates:
  "live_change p s t \<Longrightarrow> lv_candidates s rid \<noteq> None \<Longrightarrow> lv_candidates t rid \<noteq> None"
  by (induction rule: live_change.induct) auto

lemma live_run_candidates:
  "live_run p s t \<Longrightarrow> lv_candidates s rid \<noteq> None \<Longrightarrow> lv_candidates t rid \<noteq> None"
  by (induction rule: rtranclp_induct) (auto dest: live_change_candidates)

lemma live_run_captures:
  "live_run p s t \<Longrightarrow> lv_captures s i \<noteq> None \<Longrightarrow> lv_captures t i \<noteq> None"
  using live_run_advance by (auto simp: captures_advance_def) blast

fun left_behind :: "evidence_receipt \<Rightarrow> transition_fact \<Rightarrow> 'w live \<Rightarrow> bool" where
  "left_behind receipt (RoundKillDelta previous current delta) s \<longleftrightarrow>
     (previous \<ge> 0 \<and> delta > 0 \<and> current \<ge> 3 \<longrightarrow>
       (\<forall>rid. milestone_round receipt current = Some rid \<longrightarrow> lv_candidates s rid \<noteq> None))"
| "left_behind receipt (RoundEnd completed n) s \<longleftrightarrow>
     (\<forall>rid. capture_round receipt completed = Some rid \<longrightarrow> lv_captures s (auto_capture_id rid) \<noteq> None)"
| "left_behind receipt _ s \<longleftrightarrow> True"

lemma left_behind_mono: "live_run p s t \<Longrightarrow> left_behind receipt f s \<Longrightarrow> left_behind receipt f t"
  using live_run_candidates live_run_captures by (cases f) (force+)

lemma ingest_fact_leaves:
  assumes "ingest_fact p receipt rcpt f outcome s = (Inr out, t)"
  shows "left_behind receipt f t"
  using assms
  by (cases f) (auto simp: ingest_fact_def effect_simps create_candidate_eq schedule_round_capture_eq Let_def
    split: if_splits option.splits sum.splits prod.splits)

lemma ingest_facts_leave:
  assumes "ingest_facts p receipt rcpt transitions outcome s = (Inr out, t)" "live_wf s"
  shows "\<forall>f\<in>set transitions. left_behind receipt f t"
  using assms
proof (induction transitions arbitrary: outcome s)
  case (Cons f transitions)
  from Cons.prems(1) obtain mid u where mid: "ingest_fact p receipt rcpt f outcome s = (Inr mid, u)"
    and rest: "ingest_facts p receipt rcpt transitions mid u = (Inr out, t)"
    by (auto simp: bind_Inr)
  have "live_run p s u"
    using obeysD [OF ingest_fact_runs, of p s receipt rcpt f outcome] Cons.prems(2) mid
    by (simp add: runs_from_wf_def)
  then have wf: "live_wf u" using live_run_wf Cons.prems(2) by blast
  then have "live_run p u t"
    using obeysD [OF ingest_facts_runs, of p u receipt rcpt transitions mid] rest
    by (simp add: runs_from_wf_def)
  then show ?case
    using Cons.IH [OF rest wf] left_behind_mono ingest_fact_leaves [OF mid] by auto
qed simp

section \<open>Captures that an operation leaves alone\<close>

definition kept_at :: "string \<Rightarrow> 'w live \<Rightarrow> 'w live \<Rightarrow> bool" where
  "kept_at i s t \<longleftrightarrow> (lv_captures s i \<noteq> None \<longrightarrow> lv_captures t i = lv_captures s i)"

interpretation kept_order: effect_order "kept_at i" for i
  by unfold_locales (auto simp: kept_at_def)

lemma ports_keep: "obeys (kept_at i) (ask_port f)" "obeys (kept_at i) (see_port g)"
  by (simp_all add: obeys_def kept_at_def effect_simps)

lemma request_capture_save_keeps:
  assumes "j \<noteq> i"
  shows "obeys (kept_at i) (request_capture_save p j)"
proof -
  have "obeys (kept_at i) (modify (store_capture j c) :: ('w, unit) coordinated)" for c
    by (rule kept_order.obeys_modify) (use assms in \<open>simp add: kept_at_def store_capture_def\<close>)
  moreover have "obeys (kept_at i) (with_window p now c)" for now c
    unfolding with_window_def
    by (auto intro!: kept_order.obeys_intros ports_keep split: auto_capture_decision.split)
  ultimately show ?thesis
    unfolding request_capture_save_def Let_def
    by (auto intro!: kept_order.obeys_bind kept_order.obeys_pure kept_order.obeys_wrappers ports_keep
      split: sum.split)
qed

lemma ingest_facts_keep: "obeys (kept_at i) (ingest_facts p receipt rcpt transitions outcome)"
proof (induction transitions arbitrary: outcome)
  case (Cons f transitions)
  have "obeys (kept_at i) (create_candidate p receipt rcpt n)" for n
    by (auto simp: obeys_def kept_at_def create_candidate_eq Let_def split: option.split sum.split)
  moreover have "obeys (kept_at i) (schedule_round_capture p receipt rcpt n)" for n
    by (auto simp: obeys_def kept_at_def schedule_round_capture_eq Let_def
      split: option.split sum.split prod.split)
  ultimately have "obeys (kept_at i) (ingest_fact p receipt rcpt f outcome)"
    unfolding ingest_fact_def by (auto intro!: kept_order.obeys_intros split: transition_fact.split)
  with Cons show ?case by (auto intro: kept_order.obeys_bind)
qed (simp add: kept_order.obeys_pure)

lemma ingest_keeps:
  assumes "iterates_captures p" "live_wf s" "lv_captures s i = Some c" "\<not> cancellable c"
  shows "lv_captures (snd (ingest p receipt s)) i = Some c"
proof -
  have cancel: "lv_captures (snd (cancel_unsaved p reason (s\<lparr>lv_world := w\<rparr>))) i = Some c" for reason w
  proof -
    have wf: "live_wf (s\<lparr>lv_world := w\<rparr>)" using assms(2) by simp
    obtain q u where u: "for_each (cancel_one p reason) (cancellable_ids p (s\<lparr>lv_world := w\<rparr>)) (s\<lparr>lv_world := w\<rparr>) = (q, u)"
      by fastforce
    have "i \<notin> set (cancellable_ids p (s\<lparr>lv_world := w\<rparr>))"
      using cancellable_ids_spec(2) [OF assms(1) wf] assms(3,4) by simp
    then have "lv_captures u i = Some c"
      using cancel_loop [OF wf cancellable_ids_spec(1) [OF assms(1) wf] _ u]
        cancellable_ids_spec(2) [OF assms(1) wf] assms(3) by auto
    with u show ?thesis by (simp add: cancel_unsaved_def effect_simps split: sum.split)
  qed
  have facts: "lv_captures (snd (ingest_facts p receipt rcpt fs out u)) i = Some c"
    if "lv_captures u i = Some c" for rcpt fs out u
    using obeysD [OF ingest_facts_keep, of i u p receipt rcpt fs out] that by (simp add: kept_at_def)
  show ?thesis
    using cancel facts assms(3)
    by (auto simp: ingest_def effect_simps Let_def split: sum.split state_output.split)
qed

section \<open>A round, its timer and a flag\<close>

definition scheduled_live :: "(nat \<times> (string \<rightharpoonup> capture_record)) live" where
  "scheduled_live = live_step ready_ports fresh_live (IngestEvent end_receipt)"

definition round_seven :: string where
  "round_seven = round_id ''m'' 7"

lemma end_receipt_fields [simp]:
  "er_output end_receipt = Healthy" "er_facts end_receipt = [RoundEnd 7 8]"
  "duration_ms end_receipt = 9" "capture_round end_receipt 7 = Some round_seven"
  by (simp_all add: end_receipt_def kill_receipt_def duration_ms_def capture_round_def round_seven_def u64_max_def)

lemma scheduled_live_capture:
  "lv_captures scheduled_live (auto_capture_id round_seven)
    = Some (planned_capture fresh_live round_seven end_receipt (receipt_id end_receipt))"
  "lv_timers scheduled_live (timer_id (auto_capture_id round_seven)) = Some (auto_capture_id round_seven)"
proof -
  have "planned_capture (fresh_live\<lparr>lv_world := w\<rparr>) rid r i = planned_capture fresh_live rid r i" for w rid r i
    by (simp add: planned_capture_def)
  then show "lv_captures scheduled_live (auto_capture_id round_seven)
      = Some (planned_capture fresh_live round_seven end_receipt (receipt_id end_receipt))"
    "lv_timers scheduled_live (timer_id (auto_capture_id round_seven)) = Some (auto_capture_id round_seven)"
    by (simp_all add: scheduled_live_def fresh_live_def live_new_def ingest_def ready_ports_def
      effect_simps Let_def ingest_fact_def schedule_round_capture_eq)
qed

lemma scheduled_live_processed: "lv_processed scheduled_live = {|receipt_id end_receipt|}"
  by (simp add: scheduled_live_def fresh_live_def live_new_def ingest_def ready_ports_def
    effect_simps Let_def ingest_fact_def schedule_round_capture_eq)

lemma scheduled_live_wf: "live_wf scheduled_live" "lv_manual_ordinal scheduled_live = 0"
proof -
  have wf: "live_wf fresh_live" by (simp add: fresh_live_def live_new_wf)
  have n: "is_flag (IngestEvent end_receipt) \<longrightarrow> lv_manual_ordinal fresh_live < u64_max" by simp
  show "live_wf scheduled_live"
    unfolding scheduled_live_def by (rule live_step_runs(2) [OF ready_iterates wf n])
  show "lv_manual_ordinal scheduled_live = 0"
    unfolding scheduled_live_def using live_step_ordinal [OF ready_iterates wf n]
    by (simp add: fresh_live_def live_new_def)
qed

definition outage_receipt :: evidence_receipt where
  "outage_receipt = end_receipt\<lparr>er_sequence := 3, er_output := Stale, er_facts := []\<rparr>"

text \<open>A store that is full once the recorder has answered.\<close>

definition full_ports :: "(nat \<times> (string \<rightharpoonup> capture_record)) live_ports" where
  "full_ports = ready_ports\<lparr>lp_upsert_capture := (\<lambda>c w.
     if cr_status c = Requesting then lp_upsert_capture ready_ports c w else (Inl (Persistence ''full''), w))\<rparr>"

lemma full_iterates: "iterates_captures full_ports"
  using ready_iterates by (simp add: full_ports_def iterates_captures_def)

section \<open>Properties\<close>



text \<open>
  C28: A capture is never lost and its life is one-way: through any events its identity (id, kind, round,
  candidate, receipts, deadline, timer) stays, its status only moves forward (scheduled or
  retryable to requested, retryable or, for automatic ones, cancelled), and once a save was
  accepted or the capture cancelled, the record never changes again.
\<close>
theorem captures_only_advance:
  assumes "iterates_captures p" and "live_wf s" and "lv_manual_ordinal s + flags events \<le> u64_max"
    and "lv_captures s i = Some c" and "t = foldl (live_step p) s events"
  shows "\<exists>d. lv_captures t i = Some d \<and> same_identity c d
    \<and> (d = c \<or> status_moves (cr_kind c) (cr_status c) (cr_status d))
    \<and> (cr_status c \<in> range SaveRequested \<union> range Cancelled \<longrightarrow> d = c)"
proof -
  have "captures_advance s (foldl (live_step p) s events)"
    using assms(1-3)
  proof (induction rule: live_steps_induct)
    case (step t e)
    have "captures_advance (before_step e t) (live_step p t e)"
      by (rule live_run_advance [OF live_step_runs(1) [OF assms(1) step(1,2)]])
    then have "captures_advance t (live_step p t e)"
      by (simp add: captures_advance_def before_step_def counted_flag_def split: if_splits)
    with step(3) show ?case by (rule captures_advance_trans)
  qed simp
  then obtain d where d: "lv_captures t i = Some d" "advances c d"
    using assms(4,5) by (auto simp: captures_advance_def)
  moreover have "d = c" if "cr_status c \<in> range SaveRequested \<union> range Cancelled"
    using d(2) that by (auto simp: advances_def)
  ultimately show ?thesis by (auto simp: advances_def)
qed

theorem captures_only_advance_witness:
  "\<exists>d. lv_captures (foldl (live_step ready_ports) scheduled_live
      [TimerEvent ''x'', FlagEvent, RetryEvent ''y'']) (auto_capture_id round_seven) = Some d
    \<and> cr_id d = auto_capture_id round_seven"
proof -
  have n: "lv_manual_ordinal scheduled_live + flags [TimerEvent ''x'', FlagEvent, RetryEvent ''y''] \<le> u64_max"
    by (simp add: scheduled_live_wf u64_max_def)
  from captures_only_advance [OF ready_iterates scheduled_live_wf(1) n scheduled_live_capture(1) refl]
  show ?thesis by (elim exE conjE) (intro exI conjI, assumption, simp add: same_identity_def)
qed



text \<open>
  The coordinator never contradicts itself: on well-formed states, with ports that only report
  failures of their own, no operation ends in \<open>InvalidDomain\<close>, and \<open>MissingCapture\<close> is the answer
  only to a timer or a capture id that is not registered; ingesting, flagging and a registered
  timer never produce it.
\<close>
theorem coordinator_never_invalid:
  assumes "external_ports p" and "iterates_captures p" and "live_wf s"
  shows "(\<forall>e. fst (ingest p receipt s) = Inl e \<longrightarrow> external e)
    \<and> (\<forall>e. fst (on_timer p timer s) = Inl e \<longrightarrow>
        external e \<or> lv_timers s timer = None \<and> e = MissingCapture timer)
    \<and> (\<forall>e. fst (retry_capture p i s) = Inl e \<longrightarrow>
        external e \<or> lv_captures s i = None \<and> e = MissingCapture i)"
proof (intro conjI allI impI)
  fix e assume e: "fst (ingest p receipt s) = Inl e"
  have "external e" if "fst (cancel_unsaved p reason (s\<lparr>lv_world := w\<rparr>)) = Inl e" for reason w
    by (rule cancel_unsaved_error [OF assms(1,2) _ that]) (simp add: assms(3))
  with e show "external e"
    by (auto simp: ingest_def bind_error Let_def asks_def ret_def modify_def ask_port_apply
      dest: external_portsD [OF assms(1)] ingest_facts_error [OF assms(1)]
      split: state_output.splits if_splits)
next
  fix e assume e: "fst (on_timer p timer s) = Inl e"
  show "external e \<or> lv_timers s timer = None \<and> e = MissingCapture timer"
  proof (cases "lv_timers s timer")
    case None
    with e show ?thesis by (simp add: on_timer_def effect_simps)
  next
    case (Some j)
    obtain c d where c: "lv_captures s j = Some c" "cr_deadline c = Some d"
      using live_wf_auto_timer [OF assms(3) Some] by blast
    have "external e" if "fst (request_capture_save p j (s\<lparr>lv_world := w\<rparr>)) = Inl e" for w
      by (rule request_capture_save_error [OF assms(1) _ _ that, of c]) (simp_all add: assms(3) c)
    with e Some c show ?thesis by (auto simp: on_timer_eq split: prod.splits if_splits)
  qed
next
  fix e assume e: "fst (retry_capture p i s) = Inl e"
  show "external e \<or> lv_captures s i = None \<and> e = MissingCapture i"
  proof (cases "lv_captures s i")
    case (Some c)
    with e show ?thesis
      using request_capture_save_error [OF assms(1,3) Some]
      by (auto simp: retry_capture_def effect_simps split: if_splits)
  qed (use e in \<open>simp add: retry_capture_def effect_simps\<close>)
qed

theorem coordinator_never_invalid_witness:
  "fst (on_timer ready_ports ''x'' scheduled_live) = Inl (MissingCapture ''x'')
    \<and> lv_timers scheduled_live ''x'' = None"
proof -
  have ext: "external_ports ready_ports" by (auto simp: external_ports_def ready_ports_def)
  have none: "lv_timers scheduled_live ''x'' = None"
    by (simp add: scheduled_live_def fresh_live_def live_new_def ingest_def ready_ports_def
      effect_simps Let_def ingest_fact_def schedule_round_capture_eq timer_id_def)
  then have "fst (on_timer ready_ports ''x'' scheduled_live) = Inl (MissingCapture ''x'')"
    by (simp add: on_timer_def effect_simps)
  with none show ?thesis
    using coordinator_never_invalid [OF ext ready_iterates scheduled_live_wf(1), of kill_receipt "''x''" "''y''"]
    by blast
qed



text \<open>
  An outage or a new session cancels exactly what is unsaved: every automatic capture that is
  scheduled or retryable becomes cancelled with the reason, every other capture is untouched, and
  the outcome counts them; the order in which the map is walked does not matter.
\<close>
theorem outage_cancels_unsaved:
  assumes "iterates_captures p" and "live_wf s" and "receipt_id receipt |\<notin>| lv_processed s"
    and "er_output receipt = Stale \<or> er_output receipt = SessionReset" and "er_facts receipt = []"
    and "ingest p receipt s = (Inr outcome, t)"
  shows "io_captures_cancelled outcome = card {i. \<exists>c. lv_captures s i = Some c \<and> cancellable c}
    \<and> (\<forall>i. lv_captures t i = map_option (\<lambda>c. if cancellable c then c\<lparr>cr_status := Cancelled
        (if er_output receipt = Stale then CancelStale else CancelSessionReset)\<rparr> else c) (lv_captures s i))"
proof -
  let ?s = "s\<lparr>lv_world := snd (lp_persist_receipt p receipt (lv_world s))\<rparr>"
  let ?reason = "if er_output receipt = Stale then CancelStale else CancelSessionReset"
  obtain n u where u: "cancel_unsaved p ?reason ?s = (Inr n, u)"
      "outcome = no_outcome\<lparr>io_captures_cancelled := n\<rparr>" "lv_captures t = lv_captures u"
    using assms(3-6) by (auto simp: ingest_def Let_def bind_Inr pure_eq ask_port_apply)
  have wf: "live_wf ?s" using assms(2) by simp
  note spec = cancel_unsaved_spec [OF assms(1) wf u(1)]
  have "lv_captures u i = None" if "lv_captures s i = None" for i
  proof -
    obtain q v where v: "for_each (cancel_one p ?reason) (cancellable_ids p ?s) ?s = (q, v)" by fastforce
    with u(1) have "u = v" by (cases q) (auto simp: cancel_unsaved_def effect_simps)
    moreover have "i \<notin> set (cancellable_ids p ?s)"
      using cancellable_ids_spec(2) [OF assms(1) wf] that by simp
    ultimately show ?thesis
      using cancel_loop [OF wf cancellable_ids_spec(1) [OF assms(1) wf] _ v]
        cancellable_ids_spec(2) [OF assms(1) wf] that by auto
  qed
  then have "lv_captures t i = map_option (\<lambda>c. if cancellable c then c\<lparr>cr_status := Cancelled ?reason\<rparr> else c)
      (lv_captures s i)" for i
    using spec u(3) by (cases "lv_captures s i") auto
  with spec u(2) show ?thesis by simp
qed

theorem outage_cancels_unsaved_witness:
  "\<exists>t c. ingest ready_ports outage_receipt scheduled_live = (Inr (no_outcome\<lparr>io_captures_cancelled := 1\<rparr>), t)
    \<and> lv_captures t (auto_capture_id round_seven) = Some c \<and> cr_status c = Cancelled CancelStale"
proof -
  let ?c = "planned_capture fresh_live round_seven end_receipt (receipt_id end_receipt)"
  have all: "lv_captures scheduled_live = [auto_capture_id round_seven \<mapsto> ?c]"
    using scheduled_live_capture(1)
    by (simp add: scheduled_live_def fresh_live_def live_new_def ingest_def ready_ports_def
      effect_simps Let_def ingest_fact_def schedule_round_capture_eq)
  have c: "cancellable ?c" by (simp add: cancellable_def)
  have new: "receipt_id outage_receipt |\<notin>| lv_processed scheduled_live"
    by (simp add: scheduled_live_processed receipt_id_inject outage_receipt_def end_receipt_def)
  have out: "er_output outage_receipt = Stale \<or> er_output outage_receipt = SessionReset"
    "er_facts outage_receipt = []" by (simp_all add: outage_receipt_def)
  obtain r t where rt: "ingest ready_ports outage_receipt scheduled_live = (r, t)" by fastforce
  have "\<exists>n. r = Inr (no_outcome\<lparr>io_captures_cancelled := n\<rparr>)"
  proof -
    have "fst (cancel_unsaved ready_ports CancelStale u) \<noteq> Inl e" if "live_wf u" for u e
    proof
      assume "fst (cancel_unsaved ready_ports CancelStale u) = Inl e"
      moreover have "fst (for_each (cancel_one ready_ports CancelStale) ids v) \<noteq> Inl e"
        if "\<forall>i\<in>set ids. lv_captures v i \<noteq> None" for ids v
        using that
      proof (induction ids arbitrary: v)
        case (Cons i ids)
        then obtain d where d: "lv_captures v i = Some d" by auto
        show ?case
          using Cons by (auto simp: bind_apply d cancel_one_def effect_simps Let_def ready_ports_def
            store_capture_def case_prod_unfold split: option.split)
      qed (simp add: ret_def)
      moreover have "\<forall>i\<in>set (cancellable_ids ready_ports u). lv_captures u i \<noteq> None"
        using cancellable_ids_spec(2) [OF ready_iterates that] by auto
      ultimately show False by (auto simp: cancel_unsaved_def bind_error asks_def ret_def)
    qed
    from this [of "scheduled_live\<lparr>lv_world := snd (lp_persist_receipt ready_ports outage_receipt (lv_world scheduled_live))\<rparr>"]
    show ?thesis
      using rt new scheduled_live_wf(1)
      by (auto simp: ingest_def Let_def effect_simps outage_receipt_def ready_ports_def split: sum.splits)
  qed
  then obtain n where n: "r = Inr (no_outcome\<lparr>io_captures_cancelled := n\<rparr>)" ..
  have "{i. \<exists>c. lv_captures scheduled_live i = Some c \<and> cancellable c} = {auto_capture_id round_seven}"
    using c by (auto simp: all split: if_splits)
  with outage_cancels_unsaved [OF ready_iterates scheduled_live_wf(1) new out rt [unfolded n]]
  have "n = 1" "lv_captures t (auto_capture_id round_seven) = Some (?c\<lparr>cr_status := Cancelled CancelStale\<rparr>)"
    using c by (simp_all add: all outage_receipt_def)
  with rt n show ?thesis by simp
qed

text \<open>
  A registered timer saves when it is due and only then: it belongs to a capture whose round ended
  ten seconds before its deadline; before the deadline, by the clock's reading, nothing happens;
  a capture that is no longer scheduled is left alone; and a save that succeeds records the
  automatic window of the capture's candidate and round, as available at a reading of the
  recorder, together with the recorder's answer.
\<close>
theorem timer_saves_when_due:
  assumes "live_wf s" and "lv_timers s timer = Some i" and "lp_now p (lv_world s) = (now, w)"
    and "on_timer p timer s = (r, t)"
  shows "\<exists>c e. lv_captures s i = Some c \<and> cr_round_end c = Some e
    \<and> (now < saturating_add_u64 e AUTO_POST_ROLL_MS \<longrightarrow> r = Inr NotDue \<and> t = s\<lparr>lv_world := w\<rparr>)
    \<and> (now \<ge> saturating_add_u64 e AUTO_POST_ROLL_MS \<and> cr_status c \<noteq> Scheduled \<longrightarrow>
        r = Inr AlreadyHandled \<and> t = s\<lparr>lv_world := w\<rparr>)
    \<and> (r = Inr TimerSaveRequested \<longrightarrow> now \<ge> saturating_add_u64 e AUTO_POST_ROLL_MS \<and> cr_status c = Scheduled
        \<and> (\<exists>d cand available window outcome. lv_captures t i = Some d \<and> same_identity c d
            \<and> cr_status d = SaveRequested outcome \<and> cr_candidate c = Some cand
            \<and> cr_window d = Some window
            \<and> auto_capture_window (tr_start (hc_range cand)) (Some e) available = SaveWindow window))"
proof -
  obtain c e where c: "lv_captures s i = Some c" "capture_wf (lv_session s) (lv_manual_ordinal s) i c"
      "cr_kind c = AutoRoundEndKind" "cr_round_end c = Some e"
      "cr_deadline c = Some (saturating_add_u64 e AUTO_POST_ROLL_MS)"
    using live_wf_auto_timer [OF assms(1,2)] by blast
  obtain cand where cand: "cr_candidate c = Some cand"
    using c(2,3) by (auto simp: capture_wf_def auto_wf_def)
  have req: "\<exists>d available window outcome. lv_captures u i = Some d \<and> same_identity c d
        \<and> cr_status d = SaveRequested outcome \<and> cr_window d = Some window
        \<and> auto_capture_window (tr_start (hc_range cand)) (Some e) available = SaveWindow window"
    if rq: "request_capture_save p i (s\<lparr>lv_world := v\<rparr>) = (Inr TimerSaveRequested, u)" for v u
  proof -
    have fields: "cr_kind c = AutoRoundEndKind" "cr_candidate c = Some cand" "cr_round_end c = Some e"
      using c cand by simp_all
    have "lv_captures (s\<lparr>lv_world := v\<rparr>) i = Some c" using c(1) by simp
    from rq [unfolded request_capture_save_eq [OF this]] show ?thesis
      by (auto simp: with_window_def fields effect_simps commit_capture_eq same_identity_def
        split: prod.splits sum.splits auto_capture_decision.splits)
  qed
  show ?thesis
    using assms(3,4) c req cand unfolding on_timer_eq [OF assms(2) c(1,5)]
    by (intro exI [of _ c] exI [of _ e]) (auto split: if_splits)
qed

theorem timer_saves_when_due_witness:
  "fst (on_timer ready_ports (timer_id (auto_capture_id round_seven)) scheduled_live) = Inr NotDue"
proof -
  let ?t = "timer_id (auto_capture_id round_seven)"
  obtain r t where rt: "on_timer ready_ports ?t scheduled_live = (r, t)" by fastforce
  obtain m where "lv_world scheduled_live = (5, m)"
    by (simp add: scheduled_live_def fresh_live_def live_new_def ingest_def ready_ports_def
      effect_simps Let_def ingest_fact_def schedule_round_capture_eq)
  then have now: "lp_now ready_ports (lv_world scheduled_live) = (5, (1005, m))"
    by (simp add: ready_ports_def)
  from timer_saves_when_due [OF scheduled_live_wf(1) scheduled_live_capture(2) now rt]
  obtain e where "5 < saturating_add_u64 e AUTO_POST_ROLL_MS \<longrightarrow> r = Inr NotDue" by blast
  then show ?thesis using rt by (simp add: saturating_add_u64_def AUTO_POST_ROLL_MS_def u64_max_def min_def)
qed

text \<open>
  C31: A capture left in \<open>Requesting\<close> is stuck for good: no timer, retry, outage, new session or further
  flag ever changes it, and a retry answers that it is already handled. (A manual flag leaves it
  so when the recorder accepted or refused the save but the second write failed.)
\<close>
theorem requesting_capture_is_stuck:
  assumes "iterates_captures p" and "live_wf s" and "lv_manual_ordinal s + flags events \<le> u64_max"
    and "lv_captures s i = Some c" and "cr_status c = Requesting"
    and "t = foldl (live_step p) s events"
  shows "lv_captures t i = Some c \<and> retry_capture p i t = (Inr AlreadyHandled, t)"
proof -
  have "lv_captures (foldl (live_step p) s events) i = Some c"
    using assms(1-3)
  proof (induction rule: live_steps_induct)
    case start
    show ?case by (rule assms(4))
  next
    case (step t e)
    show ?case
    proof (cases e)
      case (IngestEvent r)
      with ingest_keeps [OF assms(1) step(1,3)] assms(5) show ?thesis by (simp add: cancellable_def)
    next
      case (TimerEvent timer)
      show ?thesis
      proof (cases "lv_timers t timer")
        case (Some j)
        obtain d where d: "lv_captures t j = Some d" "cr_kind d = AutoRoundEndKind"
            "capture_wf (lv_session t) (lv_manual_ordinal t) j d" "cr_deadline d \<noteq> None"
          using live_wf_auto_timer [OF step(1) Some] by auto
        then have "j \<noteq> i" using step(3) assms(5) by (auto simp: capture_wf_def auto_wf_def)
        then have "lv_captures (snd (request_capture_save p j (t\<lparr>lv_world := w\<rparr>))) i = Some c" for w
          using obeysD [OF request_capture_save_keeps, of j i "t\<lparr>lv_world := w\<rparr>" p] step(3)
          by (simp add: kept_at_def)
        with TimerEvent Some d step(3) show ?thesis by (auto simp: on_timer_eq split: prod.split)
      qed (use TimerEvent step(3) in \<open>simp add: on_timer_def effect_simps\<close>)
    next
      case (RetryEvent j)
      show ?thesis
      proof (cases "j = i")
        case True
        with RetryEvent step(3) assms(5) show ?thesis
          by (simp add: retry_capture_def effect_simps is_retryable_def)
      next
        case False
        with RetryEvent step(3) show ?thesis
          using obeysD [OF request_capture_save_keeps [OF False], of t p]
          by (cases "lv_captures t j") (simp_all add: retry_capture_def effect_simps kept_at_def)
      qed
    next
      case FlagEvent
      have new: "manual_capture_id now (lv_manual_ordinal (counted_flag t)) \<noteq> i" for now
        using flag_id_fresh [OF step(1), of now] step(2,3) FlagEvent by auto
      have kept: "lv_captures (snd (request_capture_save p
          (manual_capture_id now (lv_manual_ordinal (counted_flag t))) u)) i = Some c"
        if "lv_captures u i = Some c" for now u
        using obeysD [OF request_capture_save_keeps [OF new], of u p] that by (simp add: kept_at_def)
      have "lv_captures (counted_flag t) i = Some c" using step(3) by (simp add: counted_flag_def)
      with FlagEvent new new [symmetric] show ?thesis
        by (auto simp: manual_flag_eq commit_capture_eq Let_def intro!: kept split: prod.split sum.split)
    next
      case (FinalizeEvent a)
      with step(3) show ?thesis by (simp add: finalize_capture_def effect_simps)
    qed
  qed
  then show ?thesis
    using assms(5,6) by (simp add: retry_capture_def effect_simps is_retryable_def)
qed

theorem requesting_capture_is_stuck_witness:
  "\<exists>c. fst (manual_flag full_ports fresh_live) = Inl (Persistence ''full'')
    \<and> lv_captures (foldl (live_step full_ports) (snd (manual_flag full_ports fresh_live))
        [RetryEvent (manual_capture_id 5 1), FlagEvent]) (manual_capture_id 5 1) = Some c
    \<and> cr_status c = Requesting"
proof -
  let ?s = "snd (manual_flag full_ports fresh_live)" and ?i = "manual_capture_id 5 1"
  have ev: "fst (manual_flag full_ports fresh_live) = Inl (Persistence ''full'')"
    "lv_captures ?s ?i = Some (flag_capture ?i (manual_capture_window 5 0) (raw_coverage 5 0))"
    "lv_manual_ordinal ?s = 1"
    by (simp_all add: manual_flag_eq commit_capture_eq Let_def request_capture_save_eq with_window_def
      effect_simps full_ports_def ready_ports_def fresh_live_def live_new_def counted_flag_def
      flag_capture_def saturating_add_u64_def u64_max_def)
  have wf: "live_wf ?s"
    using live_step_runs(2) [OF full_iterates, of fresh_live FlagEvent]
    by (simp add: fresh_live_def live_new_wf) (simp add: live_new_def u64_max_def)
  have n: "lv_manual_ordinal ?s + flags [RetryEvent ?i, FlagEvent] \<le> u64_max"
    by (simp add: ev(3) u64_max_def)
  have "cr_status (flag_capture ?i (manual_capture_window 5 0) (raw_coverage 5 0)) = Requesting"
    by (simp add: flag_capture_def)
  from requesting_capture_is_stuck [OF full_iterates wf n ev(2) this refl] ev(1) this
  show ?thesis by blast
qed

end
