(* ===== verification/Clips.thy ===== *)
theory Clips
  imports Supervisor Gsi
begin

text \<open>
  The review and export of clips, \<open>crates/openfrag-clips/src/lib.rs\<close>: the validated values a clip is
  made of, its review machine over a compare-and-swap repository, the validation of a stored clip,
  the export under a sanitized name, and the atomic copy that publishes the file.

  The repository is a port over a state of any type. The file system is a map from paths to
  contents; any call may fail with an arbitrary message, decided by a parameter \<open>fault\<close> that sees
  the call and the disk. A string is the list of its UTF-8 bytes; the sanitizer treats every byte
  of a character outside ASCII as it treats the character.
\<close>

section \<open>Values\<close>

datatype model_error = EmptyIdentifier | EmptyHash | ZeroDuration | ReversedOrEmptyTrim | MissingEvidence

datatype clip_id = ClipId (clip_id_str: string)

definition clip_id_new :: "string \<Rightarrow> (model_error, clip_id) result" where
  "clip_id_new v = (if v = [] then Inl EmptyIdentifier else Inr (ClipId v))"

record artifact_provenance =
  ap_artifact_id :: string
  ap_path :: path
  ap_sha256 :: string
  ap_duration_ms :: nat
  ap_bytes :: nat

definition artifact_new :: "string \<Rightarrow> path \<Rightarrow> string \<Rightarrow> nat \<Rightarrow> nat \<Rightarrow> (model_error, artifact_provenance) result" where
  "artifact_new i path sha256 duration bytes =
     (if i = [] then Inl EmptyIdentifier
      else if sha256 = [] then Inl EmptyHash
      else if duration = 0 then Inl ZeroDuration
      else Inr \<lparr>ap_artifact_id = i, ap_path = path, ap_sha256 = sha256, ap_duration_ms = duration,
        ap_bytes = bytes\<rparr>)"

record trim_range =
  tm_start :: nat
  tm_end :: nat

definition trim_new :: "nat \<Rightarrow> nat \<Rightarrow> (model_error, trim_range) result" where
  "trim_new a b = (if a \<ge> b then Inl ReversedOrEmptyTrim else Inr \<lparr>tm_start = a, tm_end = b\<rparr>)"

record derivative_provenance =
  dp_artifact :: artifact_provenance
  dp_source_artifact_id :: string
  dp_trim :: trim_range

definition derivative_new :: "artifact_provenance \<Rightarrow> string \<Rightarrow> trim_range \<Rightarrow> derivative_provenance" where
  "derivative_new artifact source trim =
     \<lparr>dp_artifact = artifact, dp_source_artifact_id = source, dp_trim = trim\<rparr>"

datatype clip_origin = AutoHighlightOrigin "string fset" "string fset"
  | ManualFlagOrigin string nat "string fset"

definition origin_auto_highlight :: "string fset \<Rightarrow> string fset \<Rightarrow> (model_error, clip_origin) result" where
  "origin_auto_highlight triggers evidence =
     (if triggers = {||} \<or> evidence = {||} then Inl MissingEvidence
      else Inr (AutoHighlightOrigin triggers evidence))"

definition origin_manual_flag :: "string \<Rightarrow> nat \<Rightarrow> string fset \<Rightarrow> (model_error, clip_origin) result" where
  "origin_manual_flag receipt time overlapping =
     (if receipt = [] then Inl MissingEvidence else Inr (ManualFlagOrigin receipt time overlapping))"

datatype review_state = Provisional | Reviewed nat | Rejected nat

record clip =
  cl_id :: clip_id
  cl_revision :: nat
  cl_source_capture :: artifact_provenance
  cl_capture_session_id :: string
  cl_origin :: clip_origin
  cl_review_state :: review_state
  cl_title :: string
  cl_note :: string
  cl_tags :: "string fset"
  cl_favorite :: bool
  cl_derivative :: "derivative_provenance option"

record durable_clip_snapshot =
  ds_id :: clip_id
  ds_revision :: nat
  ds_source_capture :: artifact_provenance
  ds_capture_session_id :: string
  ds_origin :: clip_origin
  ds_review_state :: review_state
  ds_title :: string
  ds_note :: string
  ds_tags :: "string fset"
  ds_favorite :: bool
  ds_derivative :: "derivative_provenance option"

datatype clip_rehydration_error = EmptyCaptureSession | EmptyOriginEvidence | InconsistentRevision
  | ProvisionalStateHasReviewData | DerivativeHasWrongSource | DerivativeReusesSourceArtifact
  | TrimOutsideSource

definition clip_provisional :: "clip_id \<Rightarrow> artifact_provenance \<Rightarrow> string \<Rightarrow> clip_origin \<Rightarrow> string
    \<Rightarrow> (model_error, clip) result" where
  "clip_provisional i source session origin title =
     (if session = [] then Inl EmptyIdentifier
      else Inr \<lparr>cl_id = i, cl_revision = 0, cl_source_capture = source, cl_capture_session_id = session,
        cl_origin = origin, cl_review_state = Provisional, cl_title = title, cl_note = [],
        cl_tags = {||}, cl_favorite = False, cl_derivative = None\<rparr>)"

section \<open>Stored clips\<close>

fun evidence_valid :: "clip_origin \<Rightarrow> bool" where
  "evidence_valid (AutoHighlightOrigin triggers evidence) \<longleftrightarrow>
     triggers \<noteq> {||} \<and> evidence \<noteq> {||} \<and> [] |\<notin>| triggers \<and> [] |\<notin>| evidence"
| "evidence_valid (ManualFlagOrigin receipt time overlapping) \<longleftrightarrow> receipt \<noteq> [] \<and> [] |\<notin>| overlapping"

definition check_review :: "durable_clip_snapshot \<Rightarrow> clip_rehydration_error option" where
  "check_review d =
     (case ds_review_state d of
        Provisional \<Rightarrow>
          if ds_revision d \<noteq> 0 then Some InconsistentRevision
          else if ds_note d \<noteq> [] \<or> ds_tags d \<noteq> {||} \<or> ds_favorite d \<or> ds_derivative d \<noteq> None
          then Some ProvisionalStateHasReviewData else None
      | _ \<Rightarrow> if ds_revision d = 0 then Some InconsistentRevision else None)"

definition check_derivative :: "durable_clip_snapshot \<Rightarrow> clip_rehydration_error option" where
  "check_derivative d =
     (case ds_derivative d of None \<Rightarrow> None
      | Some v \<Rightarrow>
        if dp_source_artifact_id v \<noteq> ap_artifact_id (ds_source_capture d) then Some DerivativeHasWrongSource
        else if ap_artifact_id (dp_artifact v) = ap_artifact_id (ds_source_capture d)
        then Some DerivativeReusesSourceArtifact
        else if tm_end (dp_trim v) > ap_duration_ms (ds_source_capture d) then Some TrimOutsideSource
        else None)"

definition validate_durable_snapshot :: "durable_clip_snapshot \<Rightarrow> (clip_rehydration_error, unit) result" where
  "validate_durable_snapshot d =
     (if ds_capture_session_id d = [] then Inl EmptyCaptureSession
      else if \<not> evidence_valid (ds_origin d) then Inl EmptyOriginEvidence
      else case check_review d of Some e \<Rightarrow> Inl e
      | None \<Rightarrow> (case check_derivative d of Some e \<Rightarrow> Inl e | None \<Rightarrow> Inr ()))"

definition from_durable_snapshot :: "durable_clip_snapshot \<Rightarrow> (clip_rehydration_error, clip) result" where
  "from_durable_snapshot d =
     and_then (validate_durable_snapshot d) (\<lambda>_.
       Inr \<lparr>cl_id = ds_id d, cl_revision = ds_revision d, cl_source_capture = ds_source_capture d,
         cl_capture_session_id = ds_capture_session_id d, cl_origin = ds_origin d,
         cl_review_state = ds_review_state d, cl_title = ds_title d, cl_note = ds_note d,
         cl_tags = ds_tags d, cl_favorite = ds_favorite d, cl_derivative = ds_derivative d\<rparr>)"

section \<open>Review\<close>

record review_edit =
  re_title :: string
  re_note :: string
  re_tags :: "string fset"
  re_favorite :: bool
  re_derivative :: "derivative_provenance option"

datatype review_error = EditTrimOutsideSource | EditDerivativeHasWrongSource | InvalidTransition
  | RepositoryFailure string

type_synonym 'r compare_and_swap = "nat \<Rightarrow> clip \<Rightarrow> ('r, string, unit) effect"

fun is_rejected :: "review_state \<Rightarrow> bool" where
  "is_rejected (Rejected _) = True"
| "is_rejected _ = False"

fun is_reviewed :: "review_state \<Rightarrow> bool" where
  "is_reviewed (Reviewed _) = True"
| "is_reviewed _ = False"

definition check_edit :: "clip \<Rightarrow> review_edit \<Rightarrow> review_error option" where
  "check_edit c edit =
     (case re_derivative edit of None \<Rightarrow> None
      | Some v \<Rightarrow>
        if dp_source_artifact_id v \<noteq> ap_artifact_id (cl_source_capture c) then Some EditDerivativeHasWrongSource
        else if tm_end (dp_trim v) > ap_duration_ms (cl_source_capture c) then Some EditTrimOutsideSource
        else None)"

definition review_clip :: "'r compare_and_swap \<Rightarrow> clip \<Rightarrow> review_edit \<Rightarrow> nat \<Rightarrow> ('r, review_error, clip) effect" where
  "review_clip cas c edit reviewed_at =
     (if is_rejected (cl_review_state c) then throw InvalidTransition
      else case check_edit c edit of Some e \<Rightarrow> throw e
      | None \<Rightarrow>
        let updated = c\<lparr>cl_revision := saturating_add_u64 (cl_revision c) 1,
              cl_review_state := Reviewed reviewed_at, cl_title := re_title edit, cl_note := re_note edit,
              cl_tags := re_tags edit, cl_favorite := re_favorite edit,
              cl_derivative := re_derivative edit\<rparr> in
        bind (map_error RepositoryFailure (cas (cl_revision c) updated)) (\<lambda>_. ret updated))"

definition reject_clip :: "'r compare_and_swap \<Rightarrow> clip \<Rightarrow> nat \<Rightarrow> ('r, review_error, clip) effect" where
  "reject_clip cas c rejected_at =
     (if is_rejected (cl_review_state c) then throw InvalidTransition
      else
        let updated = c\<lparr>cl_revision := saturating_add_u64 (cl_revision c) 1,
              cl_review_state := Rejected rejected_at\<rparr> in
        bind (map_error RepositoryFailure (cas (cl_revision c) updated)) (\<lambda>_. ret updated))"

section \<open>The atomic copy\<close>

datatype file_operation_error = DestinationExists | SourceMissing | FileIo string

datatype io_error = NotFound | AlreadyExists | OtherIo string

record disk =
  dk_files :: "path \<rightharpoonup> string"
  dk_process_id :: nat
  dk_next_temporary_id :: nat

datatype disk_call = OpenSource path | CreateNew path | CopyInto path | SyncFile path
  | HardLink path path | RemoveFile path

text \<open>\<open>Some (message, n)\<close>: the call fails with the message; a failed copy has written \<open>n\<close> bytes.\<close>

type_synonym faults = "disk_call \<Rightarrow> disk \<Rightarrow> (string \<times> nat) option"

type_synonym 'a disk_effect = "(disk, io_error, 'a) effect"

definition open_source :: "faults \<Rightarrow> path \<Rightarrow> string disk_effect" where
  "open_source fault source d = (case fault (OpenSource source) d of
     Some (m, _) \<Rightarrow> (Inl (OtherIo m), d)
   | None \<Rightarrow> (ok_or NotFound (dk_files d source), d))"

definition create_new :: "faults \<Rightarrow> path \<Rightarrow> unit disk_effect" where
  "create_new fault p d = (case fault (CreateNew p) d of
     Some (m, _) \<Rightarrow> (Inl (OtherIo m), d)
   | None \<Rightarrow> if dk_files d p \<noteq> None then (Inl AlreadyExists, d)
       else (Inr (), d\<lparr>dk_files := (dk_files d)(p \<mapsto> [])\<rparr>))"

definition copy_into :: "faults \<Rightarrow> string \<Rightarrow> path \<Rightarrow> nat disk_effect" where
  "copy_into fault content p d = (case fault (CopyInto p) d of
     Some (m, n) \<Rightarrow> (Inl (OtherIo m), d\<lparr>dk_files := (dk_files d)(p \<mapsto> take n content)\<rparr>)
   | None \<Rightarrow> (Inr (length content), d\<lparr>dk_files := (dk_files d)(p \<mapsto> content)\<rparr>))"

definition sync_file :: "faults \<Rightarrow> path \<Rightarrow> unit disk_effect" where
  "sync_file fault p d = (case fault (SyncFile p) d of
     Some (m, _) \<Rightarrow> (Inl (OtherIo m), d) | None \<Rightarrow> (Inr (), d))"

definition hard_link :: "faults \<Rightarrow> path \<Rightarrow> path \<Rightarrow> unit disk_effect" where
  "hard_link fault p q d = (case fault (HardLink p q) d of
     Some (m, _) \<Rightarrow> (Inl (OtherIo m), d)
   | None \<Rightarrow> if dk_files d q \<noteq> None then (Inl AlreadyExists, d)
       else (Inr (), d\<lparr>dk_files := (dk_files d)(q := dk_files d p)\<rparr>))"

definition remove_file :: "faults \<Rightarrow> path \<Rightarrow> unit disk_effect" where
  "remove_file fault p d = (case fault (RemoveFile p) d of
     Some (m, _) \<Rightarrow> (Inl (OtherIo m), d)
   | None \<Rightarrow> (Inr (), d\<lparr>dk_files := (dk_files d)(p := None)\<rparr>))"

text \<open>\<open>to_string\<close> of an error, as Linux words the two that the code looks at.\<close>

fun io_message :: "io_error \<Rightarrow> string" where
  "io_message NotFound = ''No such file or directory (os error 2)''"
| "io_message AlreadyExists = ''File exists (os error 17)''"
| "io_message (OtherIo m) = m"

definition map_io_error :: "io_error \<Rightarrow> file_operation_error" where
  "map_io_error e = FileIo (io_message e)"

definition map_source_error :: "io_error \<Rightarrow> file_operation_error" where
  "map_source_error e = (if e = NotFound then SourceMissing else map_io_error e)"

definition map_destination_error :: "io_error \<Rightarrow> file_operation_error" where
  "map_destination_error e = (if e = AlreadyExists then DestinationExists else map_io_error e)"

definition file_name :: "path \<Rightarrow> string option" where
  "file_name p = (case rev p of Normal n # _ \<Rightarrow> Some n | _ \<Rightarrow> None)"

definition parent_of :: "path \<Rightarrow> path option" where
  "parent_of p = (if p = [] \<or> p = [RootDir] then None else Some (butlast p))"

definition temporary_name :: "disk \<Rightarrow> string \<Rightarrow> string" where
  "temporary_name d name = ''.'' @ name @ ''.openfrag-tmp-'' @ show_nat (dk_process_id d)
     @ ''-'' @ show_nat (dk_next_temporary_id d)"

text \<open>\<open>fetch_add\<close> on an \<open>AtomicU64\<close> wraps.\<close>

definition temporary_path :: "path \<Rightarrow> string \<Rightarrow> (disk, 'e, path) effect" where
  "temporary_path directory name =
     bind (asks (\<lambda>d. directory @ [Normal (temporary_name d name)])) (\<lambda>p.
     bind (modify (\<lambda>d. d\<lparr>dk_next_temporary_id := (dk_next_temporary_id d + 1) mod 2 ^ 64\<rparr>)) (\<lambda>_. ret p))"

text \<open>Clean up after an error: the removal's own result is dropped.\<close>

definition discard :: "faults \<Rightarrow> path \<Rightarrow> io_error \<Rightarrow> (disk, file_operation_error, 'a) effect" where
  "discard fault p e = bind (attempt (remove_file fault p)) (\<lambda>_. throw (map_io_error e))"

definition atomic_copy :: "faults \<Rightarrow> path \<Rightarrow> path \<Rightarrow> (disk, file_operation_error, nat) effect" where
  "atomic_copy fault source destination =
     bind (map_error map_source_error (open_source fault source)) (\<lambda>content.
     bind (lift_option (FileIo ''destination has no file name'') (file_name destination)) (\<lambda>name.
     bind (lift_option (FileIo ''destination has no parent directory'') (parent_of destination)) (\<lambda>directory.
     bind (temporary_path directory name) (\<lambda>temporary.
     bind (map_error map_io_error (create_new fault temporary)) (\<lambda>_.
     bind (attempt (copy_into fault content temporary)) (\<lambda>copied.
     case copied of Inl e \<Rightarrow> discard fault temporary e
     | Inr bytes \<Rightarrow>
       bind (attempt (sync_file fault temporary)) (\<lambda>synced.
       case synced of Inl e \<Rightarrow> discard fault temporary e
       | Inr _ \<Rightarrow>
         bind (attempt (hard_link fault temporary destination)) (\<lambda>published.
         bind (attempt (remove_file fault temporary)) (\<lambda>_.
         case published of Inl e \<Rightarrow> throw (map_destination_error e) | Inr _ \<Rightarrow> ret bytes)))))))))"

section \<open>Export\<close>

datatype export_error = NotReviewed | NameSpaceExhausted | ExportFile file_operation_error

record export_receipt =
  ex_clip :: clip
  ex_destination_path :: path
  ex_bytes :: nat

definition is_ascii_alphanumeric :: "char \<Rightarrow> bool" where
  "is_ascii_alphanumeric c \<longleftrightarrow> (let n = of_char c :: nat in
     48 \<le> n \<and> n \<le> 57 \<or> 65 \<le> n \<and> n \<le> 90 \<or> 97 \<le> n \<and> n \<le> 122)"

fun sanitize_loop :: "string \<Rightarrow> string \<Rightarrow> bool \<Rightarrow> string" where
  "sanitize_loop [] sanitized pending = sanitized"
| "sanitize_loop (c # cs) sanitized pending =
     (if is_ascii_alphanumeric c
      then sanitize_loop cs ((if pending \<and> sanitized \<noteq> [] then sanitized @ ''-'' else sanitized)
        @ [ascii_lower c]) False
      else sanitize_loop cs sanitized True)"

definition sanitize_filename_component :: "string \<Rightarrow> string \<Rightarrow> string" where
  "sanitize_filename_component v fallback =
     (let sanitized = sanitize_loop v [] False in if sanitized = [] then fallback else sanitized)"

definition sanitize_export_filename :: "string \<Rightarrow> clip_id \<Rightarrow> string" where
  "sanitize_export_filename title i = sanitize_filename_component title ''clip'' @ ''-''
     @ sanitize_filename_component (clip_id_str i) ''id'' @ ''.mp4''"

definition strip_mp4 :: "string \<Rightarrow> string" where
  "strip_mp4 name = (let n = length name - 4 in
     if 4 \<le> length name \<and> drop n name = ''.mp4'' then take n name else name)"

definition export_candidate :: "string \<Rightarrow> nat \<Rightarrow> string" where
  "export_candidate filename index =
     (if index = 1 then filename else strip_mp4 filename @ ''-'' @ show_nat index @ ''.mp4'')"

function export_loop :: "(path \<Rightarrow> path \<Rightarrow> ('w, file_operation_error, nat) effect) \<Rightarrow> clip \<Rightarrow> path \<Rightarrow> path \<Rightarrow> string
    \<Rightarrow> nat \<Rightarrow> ('w, export_error, export_receipt) effect" where
  "export_loop copy c source directory filename index w =
     (let destination = directory @ [Normal (export_candidate filename index)] in
      case copy source destination w of
        (Inr bytes, w') \<Rightarrow> (Inr \<lparr>ex_clip = c, ex_destination_path = destination, ex_bytes = bytes\<rparr>, w')
      | (Inl DestinationExists, w') \<Rightarrow>
          if index + 1 \<le> u32_max then export_loop copy c source directory filename (index + 1) w'
          else (Inl NameSpaceExhausted, w')
      | (Inl e, w') \<Rightarrow> (Inl (ExportFile e), w'))"
  by pat_completeness auto
termination
  by (relation "measure (\<lambda>(copy, c, source, directory, filename, index, w). u32_max - index)") auto

definition export_artifact :: "clip \<Rightarrow> artifact_provenance" where
  "export_artifact c = (case cl_derivative c of None \<Rightarrow> cl_source_capture c | Some v \<Rightarrow> dp_artifact v)"

definition export_clip :: "(path \<Rightarrow> path \<Rightarrow> ('w, file_operation_error, nat) effect) \<Rightarrow> clip \<Rightarrow> path
    \<Rightarrow> ('w, export_error, export_receipt) effect" where
  "export_clip copy c directory =
     (if \<not> is_reviewed (cl_review_state c) then throw NotReviewed
      else export_loop copy c (ap_path (export_artifact c)) directory
        (sanitize_export_filename (cl_title c) (cl_id c)) 1)"

end
