(* ===== verification/Clips_Correct.thy ===== *)
theory Clips_Correct
  imports Clips
begin

text \<open>
  What clip review and export guarantee: which clips survive storage, that no review is lost, what an
  exported name looks like, that a copy is published whole or not at all, and that an export takes
  the first free name.
\<close>

section \<open>Storage\<close>

definition clip_snapshot :: "clip \<Rightarrow> durable_clip_snapshot" where
  "clip_snapshot c = \<lparr>ds_id = cl_id c, ds_revision = cl_revision c, ds_source_capture = cl_source_capture c,
     ds_capture_session_id = cl_capture_session_id c, ds_origin = cl_origin c,
     ds_review_state = cl_review_state c, ds_title = cl_title c, ds_note = cl_note c,
     ds_tags = cl_tags c, ds_favorite = cl_favorite c, ds_derivative = cl_derivative c\<rparr>"

lemma clip_snapshot_fields [simp]:
  "ds_id (clip_snapshot c) = cl_id c" "ds_revision (clip_snapshot c) = cl_revision c"
  "ds_source_capture (clip_snapshot c) = cl_source_capture c"
  "ds_capture_session_id (clip_snapshot c) = cl_capture_session_id c"
  "ds_origin (clip_snapshot c) = cl_origin c" "ds_review_state (clip_snapshot c) = cl_review_state c"
  "ds_title (clip_snapshot c) = cl_title c" "ds_note (clip_snapshot c) = cl_note c"
  "ds_tags (clip_snapshot c) = cl_tags c" "ds_favorite (clip_snapshot c) = cl_favorite c"
  "ds_derivative (clip_snapshot c) = cl_derivative c"
  by (simp_all add: clip_snapshot_def)

definition storable :: "clip \<Rightarrow> bool" where
  "storable c \<longleftrightarrow> cl_capture_session_id c \<noteq> [] \<and> evidence_valid (cl_origin c)
     \<and> (if cl_review_state c = Provisional
        then cl_revision c = 0 \<and> cl_note c = [] \<and> cl_tags c = {||} \<and> \<not> cl_favorite c \<and> cl_derivative c = None
        else cl_revision c \<noteq> 0)
     \<and> (case cl_derivative c of None \<Rightarrow> True
        | Some v \<Rightarrow> dp_source_artifact_id v = ap_artifact_id (cl_source_capture c)
            \<and> ap_artifact_id (dp_artifact v) \<noteq> ap_artifact_id (cl_source_capture c)
            \<and> tm_end (dp_trim v) \<le> ap_duration_ms (cl_source_capture c))"

lemma validate_iff: "validate_durable_snapshot (clip_snapshot c) = Inr u \<longleftrightarrow> storable c"
  by (auto simp: validate_durable_snapshot_def storable_def check_review_def check_derivative_def
    split: option.splits review_state.splits if_splits)

lemma from_durable_iff: "from_durable_snapshot d = Inr c \<longleftrightarrow> clip_snapshot c = d \<and> storable c"
proof
  assume "from_durable_snapshot d = Inr c"
  then have "clip_snapshot c = d" "validate_durable_snapshot d = Inr ()"
    by (auto simp: from_durable_snapshot_def and_then_eq_Inr clip_snapshot_def)
  then show "clip_snapshot c = d \<and> storable c" using validate_iff by blast
next
  assume "clip_snapshot c = d \<and> storable c"
  moreover from this have "validate_durable_snapshot (clip_snapshot c) = Inr ()" using validate_iff by blast
  ultimately show "from_durable_snapshot d = Inr c"
    by (auto simp: from_durable_snapshot_def clip_snapshot_def)
qed

section \<open>Reviewing\<close>

lemma swap_step: "bind (map_error f m) (\<lambda>_. ret u) r = (map_sum f (\<lambda>_. u) (fst (m r)), snd (m r))"
  by (cases "fst (m r)") (simp_all add: effect_simps)

lemma map_sum_Inr: "map_sum f g x = Inr u \<longleftrightarrow> (\<exists>y. x = Inr y \<and> u = g y)"
  by (cases x) auto

lemma review_clip_eq:
  "review_clip cas c edit at r =
     (if is_rejected (cl_review_state c) then (Inl InvalidTransition, r)
      else case check_edit c edit of Some e \<Rightarrow> (Inl e, r)
      | None \<Rightarrow>
        let updated = c\<lparr>cl_revision := saturating_add_u64 (cl_revision c) 1,
              cl_review_state := Reviewed at, cl_title := re_title edit, cl_note := re_note edit,
              cl_tags := re_tags edit, cl_favorite := re_favorite edit,
              cl_derivative := re_derivative edit\<rparr> in
        case cas (cl_revision c) updated r of (q, r') \<Rightarrow> (map_sum RepositoryFailure (\<lambda>_. updated) q, r'))"
  by (simp add: review_clip_def swap_step throw_def Let_def case_prod_unfold split: option.split)

lemma reject_clip_eq:
  "reject_clip cas c at r =
     (if is_rejected (cl_review_state c) then (Inl InvalidTransition, r)
      else let updated = c\<lparr>cl_revision := saturating_add_u64 (cl_revision c) 1,
              cl_review_state := Rejected at\<rparr> in
        case cas (cl_revision c) updated r of (q, r') \<Rightarrow> (map_sum RepositoryFailure (\<lambda>_. updated) q, r'))"
  by (simp add: reject_clip_def swap_step throw_def Let_def case_prod_unfold)

lemma saturating_nonzero [simp]: "saturating_add_u64 n (Suc 0) \<noteq> 0" "0 < saturating_add_u64 n (Suc 0)"
  by (simp_all add: saturating_add_u64_def u64_max_def min_def)

lemma check_edit_None:
  "check_edit c edit = None \<longleftrightarrow> (\<forall>v. re_derivative edit = Some v \<longrightarrow>
     dp_source_artifact_id v = ap_artifact_id (cl_source_capture c)
     \<and> tm_end (dp_trim v) \<le> ap_duration_ms (cl_source_capture c))"
  by (auto simp: check_edit_def split: option.splits if_splits)

text \<open>A repository that compares and swaps: it knows the revision of each clip.\<close>

definition swaps :: "'r compare_and_swap \<Rightarrow> ('r \<Rightarrow> clip_id \<rightharpoonup> nat) \<Rightarrow> bool" where
  "swaps cas revision_of \<longleftrightarrow> (\<forall>n c r.
     (fst (cas n c r) = Inr () \<longrightarrow> revision_of r (cl_id c) = Some n
        \<and> revision_of (snd (cas n c r)) = (revision_of r)(cl_id c \<mapsto> cl_revision c))
   \<and> (\<forall>e. fst (cas n c r) = Inl e \<longrightarrow> revision_of (snd (cas n c r)) = revision_of r))"

lemma swapsD:
  assumes "swaps cas revision_of" "cas n c r = (q, r')"
  shows "q = Inr () \<Longrightarrow> revision_of r (cl_id c) = Some n \<and> revision_of r' = (revision_of r)(cl_id c \<mapsto> cl_revision c)"
    "q = Inl e \<Longrightarrow> revision_of r' = revision_of r"
  using assms unfolding swaps_def by (metis fst_conv snd_conv)+

datatype verdict = Review review_edit nat | Reject nat

fun decide :: "'r compare_and_swap \<Rightarrow> clip \<Rightarrow> verdict \<Rightarrow> ('r, review_error, clip) effect" where
  "decide cas c (Review edit at) = review_clip cas c edit at"
| "decide cas c (Reject at) = reject_clip cas c at"

lemma decide_cases:
  assumes "decide cas c v r = (q, r')"
  obtains (refused) e where "q = Inl e" "r' = r"
  | (swapped) u a where "cas (cl_revision c) u r = (a, r')" "q = map_sum RepositoryFailure (\<lambda>_. u) a"
      "cl_id u = cl_id c" "cl_revision u = saturating_add_u64 (cl_revision c) 1"
proof (cases v)
  case (Review edit at)
  with assms refused swapped show thesis
    by (auto simp: review_clip_eq Let_def split: if_splits option.splits prod.splits)
next
  case (Reject at)
  with assms refused swapped show thesis
    by (auto simp: reject_clip_eq Let_def split: if_splits prod.splits)
qed

section \<open>Sanitized names\<close>

definition name_char :: "char \<Rightarrow> bool" where
  "name_char c \<longleftrightarrow> (let n = of_char c :: nat in 48 \<le> n \<and> n \<le> 57 \<or> 97 \<le> n \<and> n \<le> 122)"

text \<open>Words of lower-case letters and digits, joined by single hyphens.\<close>

fun hyphenated :: "string list \<Rightarrow> string" where
  "hyphenated [] = []"
| "hyphenated [w] = w"
| "hyphenated (w # ws) = w @ ''-'' @ hyphenated ws"

definition name_word :: "string \<Rightarrow> bool" where
  "name_word w \<longleftrightarrow> w \<noteq> [] \<and> list_all name_char w"

text \<open>The maximal runs of ASCII letters and digits, in lower case.\<close>

fun words_loop :: "string \<Rightarrow> string \<Rightarrow> string list" where
  "words_loop [] w = (if w = [] then [] else [w])"
| "words_loop (c # cs) w =
     (if is_ascii_alphanumeric c then words_loop cs (w @ [ascii_lower c])
      else if w = [] then words_loop cs [] else w # words_loop cs [])"

lemma lower_name_char: "is_ascii_alphanumeric c \<Longrightarrow> name_char (ascii_lower c)"
  by (auto simp: is_ascii_alphanumeric_def name_char_def ascii_lower_def Let_def)

lemma name_char_alnum: "name_char c \<Longrightarrow> is_ascii_alphanumeric c \<and> ascii_lower c = c"
  by (auto simp: is_ascii_alphanumeric_def name_char_def ascii_lower_def Let_def)

lemma words_loop_words: "list_all name_char w \<Longrightarrow> list_all name_word (words_loop cs w)"
  by (induction cs w rule: words_loop.induct) (auto simp: name_word_def lower_name_char)

lemma hyphenated_append:
  "ws \<noteq> [] \<Longrightarrow> vs \<noteq> [] \<Longrightarrow> hyphenated (ws @ vs) = hyphenated ws @ ''-'' @ hyphenated vs"
  by (induction ws rule: hyphenated.induct) (auto simp: neq_Nil_conv)

lemma hyphenated_empty: "list_all name_word ws \<Longrightarrow> hyphenated ws = [] \<longleftrightarrow> ws = []"
  by (cases ws rule: hyphenated.cases) (auto simp: name_word_def)

text \<open>The loop's buffer is the finished words, and the unfinished one unless a separator is pending.\<close>

lemma sanitize_loop_words:
  "list_all name_word ws \<Longrightarrow> list_all name_char w \<Longrightarrow> w \<noteq> [] \<Longrightarrow>
     sanitize_loop cs (hyphenated (ws @ [w])) False = hyphenated (ws @ words_loop cs w)"
  "list_all name_word ws \<Longrightarrow>
     sanitize_loop cs (hyphenated ws) True = hyphenated (ws @ words_loop cs [])"
proof (induction cs arbitrary: ws w)
  case (Cons c cs)
  note lower = lower_name_char [of c]
  {
    case 1
    show ?case
    proof (cases "is_ascii_alphanumeric c")
      case True
      have "hyphenated (ws @ [w]) @ [ascii_lower c] = hyphenated (ws @ [w @ [ascii_lower c]])"
        by (cases "ws = []") (simp_all add: hyphenated_append)
      with True 1 lower Cons.IH(1) [of ws "w @ [ascii_lower c]"] show ?thesis by simp
    next
      case False
      with 1 Cons.IH(2) [of "ws @ [w]"] show ?thesis by (simp add: name_word_def)
    qed
  next
    case 2
    show ?case
    proof (cases "is_ascii_alphanumeric c")
      case True
      have "(if hyphenated ws \<noteq> [] then hyphenated ws @ ''-'' else hyphenated ws) @ [ascii_lower c]
          = hyphenated (ws @ [[ascii_lower c]])"
        using hyphenated_empty [OF 2] by (cases "ws = []") (simp_all add: hyphenated_append)
      with True 2 lower Cons.IH(1) [of ws "[ascii_lower c]"] show ?thesis by simp
    next
      case False
      with 2 Cons.IH(2) [of ws] show ?thesis by simp
    qed
  }
qed simp_all

lemma sanitize_loop_eq: "sanitize_loop cs [] False = hyphenated (words_loop cs [])"
proof (induction cs)
  case (Cons c cs)
  show ?case
    using sanitize_loop_words(1) [of "[]" "[ascii_lower c]" cs] sanitize_loop_words(2) [of "[]" cs]
      lower_name_char [of c] by simp
qed simp

definition name_words :: "string \<Rightarrow> string list" where
  "name_words v = words_loop v []"

lemma sanitize_eq:
  "sanitize_filename_component v fallback =
     (if name_words v = [] then fallback else hyphenated (name_words v))"
  using hyphenated_empty [OF words_loop_words [of "[]" v]]
  by (simp add: sanitize_filename_component_def sanitize_loop_eq name_words_def)

lemma name_words_words: "list_all name_word (name_words v)"
  unfolding name_words_def by (rule words_loop_words) simp

lemma words_loop_prefix:
  "list_all name_char u \<Longrightarrow> words_loop (u @ cs) w = words_loop cs (w @ u)"
  by (induction u arbitrary: w) (auto simp: name_char_alnum)

lemma hyphen_not_alnum: "\<not> is_ascii_alphanumeric (CHR ''-'')" "\<not> name_char (CHR ''-'')"
  by (simp_all add: is_ascii_alphanumeric_def name_char_def)

lemma words_of_hyphenated: "list_all name_word ws \<Longrightarrow> name_words (hyphenated ws) = ws"
proof (induction ws rule: hyphenated.induct)
  case (2 w)
  then show ?case using words_loop_prefix [of w "[]" "[]"] by (simp add: name_words_def name_word_def)
next
  case (3 w v vs)
  then show ?case
    using words_loop_prefix [of w "''-'' @ hyphenated (v # vs)" "[]"]
    by (simp add: name_words_def name_word_def hyphen_not_alnum)
qed (simp add: name_words_def)

lemma hyphenated_chars: "list_all name_word ws \<Longrightarrow> c \<in> set (hyphenated ws) \<Longrightarrow> name_char c \<or> c = CHR ''-''"
  by (induction ws rule: hyphenated.induct) (auto simp: name_word_def list_all_iff)

lemma hyphenated_hd: "list_all name_word ws \<Longrightarrow> ws \<noteq> [] \<Longrightarrow> name_char (hd (hyphenated ws))"
  by (cases ws rule: hyphenated.cases) (auto simp: name_word_def list_all_iff neq_Nil_conv)

lemma hyphenated_last: "list_all name_word ws \<Longrightarrow> ws \<noteq> [] \<Longrightarrow> name_char (last (hyphenated ws))"
proof (induction ws rule: hyphenated.induct)
  case (2 w)
  then show ?case by (auto simp: name_word_def list_all_iff)
next
  case (3 w v vs)
  then have "hyphenated (v # vs) \<noteq> []" using hyphenated_empty [of "v # vs"] by auto
  with 3 show ?case by simp
qed simp

section \<open>Copies\<close>

lemma file_name_snoc [simp]: "file_name (directory @ [Normal n]) = Some n"
  by (simp add: file_name_def)

lemma parent_of_snoc [simp]: "parent_of (directory @ [Normal n]) = Some directory"
  by (simp add: parent_of_def)

lemma discard_disk:
  "discard fault p e d = (Inl (map_io_error e), snd (remove_file fault p d))"
  by (simp add: discard_def effect_simps)

lemma remove_file_files:
  "dk_files (snd (remove_file fault p d)) = (if fault (RemoveFile p) d = None
     then (dk_files d)(p := None) else dk_files d)"
  by (auto simp: remove_file_def split: option.split)

lemma map_io_not_exists [simp]: "map_io_error e \<noteq> DestinationExists" "map_io_error e \<noteq> SourceMissing"
  by (simp_all add: map_io_error_def)

lemma map_source_not_exists [simp]: "map_source_error e \<noteq> DestinationExists"
  by (simp add: map_source_error_def)

lemma open_source_result:
  "open_source fault source d = (r, d') \<Longrightarrow> d' = d \<and> (\<forall>c. r = Inr c \<longrightarrow> dk_files d source = Some c)"
  by (auto simp: open_source_def split: option.splits)

lemma create_new_result:
  "create_new fault p d = (r, d') \<Longrightarrow> dk_process_id d' = dk_process_id d
    \<and> (if r = Inr () then dk_files d p = None \<and> dk_files d' = (dk_files d)(p \<mapsto> []) else d' = d)"
  by (auto simp: create_new_def split: option.splits if_splits)

lemma copy_into_result:
  "copy_into fault content p d = (r, d') \<Longrightarrow> dk_process_id d' = dk_process_id d
    \<and> (\<exists>x. dk_files d' = (dk_files d)(p \<mapsto> x) \<and> (\<forall>k. r = Inr k \<longrightarrow> x = content \<and> k = length content))"
  by (auto simp: copy_into_def split: option.splits)

lemma sync_file_result: "sync_file fault p d = (r, d') \<Longrightarrow> d' = d"
  by (auto simp: sync_file_def split: option.splits)

lemma hard_link_result:
  "hard_link fault p q d = (r, d') \<Longrightarrow> dk_process_id d' = dk_process_id d
    \<and> (if r = Inr () then dk_files d q = None \<and> dk_files d' = (dk_files d)(q := dk_files d p) else d' = d)
    \<and> (r = Inl AlreadyExists \<longrightarrow> dk_files d q \<noteq> None)"
  by (auto simp: hard_link_def split: option.splits if_splits)

lemma remove_file_result:
  "dk_process_id (snd (remove_file fault p d)) = dk_process_id d
    \<and> (dk_files (snd (remove_file fault p d)) = (dk_files d)(p := None)
      \<or> dk_files (snd (remove_file fault p d)) = dk_files d)"
  by (auto simp: remove_file_def split: option.split)

text \<open>A copy to \<open>directory/n\<close>, call by call.\<close>

abbreviation temporary_in :: "disk \<Rightarrow> path \<Rightarrow> string \<Rightarrow> path" where
  "temporary_in d directory n \<equiv> directory @ [Normal (temporary_name d n)]"

lemma atomic_copy_eq:
  "atomic_copy fault source (directory @ [Normal n]) d =
     (let t = temporary_in d directory n; destination = directory @ [Normal n];
          d1 = d\<lparr>dk_next_temporary_id := (dk_next_temporary_id d + 1) mod 2 ^ 64\<rparr> in
      case open_source fault source d of (Inl e, _) \<Rightarrow> (Inl (map_source_error e), d)
      | (Inr content, _) \<Rightarrow>
        (case create_new fault t d1 of (Inl e, d2) \<Rightarrow> (Inl (map_io_error e), d2)
         | (Inr _, d2) \<Rightarrow>
           (case copy_into fault content t d2 of
             (Inl e, d3) \<Rightarrow> (Inl (map_io_error e), snd (remove_file fault t d3))
           | (Inr k, d3) \<Rightarrow>
             (case sync_file fault t d3 of
               (Inl e, d4) \<Rightarrow> (Inl (map_io_error e), snd (remove_file fault t d4))
             | (Inr _, d4) \<Rightarrow>
               (case hard_link fault t destination d4 of (q, d5) \<Rightarrow>
                 (map_sum map_destination_error (\<lambda>_. k) q, snd (remove_file fault t d5)))))))"
proof -
  obtain r d0 where r: "open_source fault source d = (r, d0)" by fastforce
  then have "d0 = d" using open_source_result by blast
  with r show ?thesis
    by (simp add: atomic_copy_def temporary_path_def discard_disk effect_simps Let_def case_prod_unfold map_sum_def
      split: sum.split)
qed

lemma temporary_in_differs: "temporary_in d directory n \<noteq> directory @ [Normal n]"
proof
  assume "temporary_in d directory n = directory @ [Normal n]"
  then have "length (temporary_name d n) = length n" by simp
  then show False by (simp add: temporary_name_def)
qed

text \<open>
  The outcome: published whole, or the destination as it was; besides these only the temporary
  file is touched, which was new.
\<close>

definition copy_outcome :: "path \<Rightarrow> path \<Rightarrow> path \<Rightarrow> disk \<Rightarrow> (file_operation_error, nat) result \<Rightarrow> disk \<Rightarrow> bool" where
  "copy_outcome source destination t d r d' \<longleftrightarrow>
     dk_process_id d' = dk_process_id d
     \<and> (case r of
        Inr k \<Rightarrow> (\<exists>content. dk_files d source = Some content \<and> k = length content
          \<and> dk_files d destination = None \<and> dk_files d t = None
          \<and> (dk_files d' = (dk_files d)(destination \<mapsto> content)
            \<or> dk_files d' = (dk_files d)(destination \<mapsto> content, t \<mapsto> content)))
      | Inl e \<Rightarrow> (e = DestinationExists \<longrightarrow> dk_files d destination \<noteq> None)
          \<and> (dk_files d' = dk_files d
            \<or> (dk_files d t = None \<and> (\<exists>x. dk_files d' = (dk_files d)(t \<mapsto> x)))))"

lemma atomic_copy_outcome:
  assumes "atomic_copy fault source (directory @ [Normal n]) d = (r, d')"
  shows "copy_outcome source (directory @ [Normal n]) (temporary_in d directory n) d r d'"
proof -
  let ?t = "temporary_in d directory n" and ?q = "directory @ [Normal n]"
  let ?d1 = "d\<lparr>dk_next_temporary_id := (dk_next_temporary_id d + 1) mod 2 ^ 64\<rparr>"
  obtain r0 d0 where o0: "open_source fault source d = (r0, d0)" by fastforce
  show ?thesis
  proof (cases r0)
    case (Inl e)
    with assms o0 show ?thesis by (auto simp: atomic_copy_eq copy_outcome_def)
  next
    case (Inr content)
    then have src: "dk_files d source = Some content" using open_source_result [OF o0] by simp
    obtain r2 d2 where o2: "create_new fault ?t ?d1 = (r2, d2)" by fastforce
    note c2 = create_new_result [OF o2]
    show ?thesis
    proof (cases r2)
      case (Inl e)
      with assms o0 o2 \<open>r0 = Inr content\<close> c2 show ?thesis
        by (auto simp: atomic_copy_eq copy_outcome_def Let_def)
    next
      case (Inr u)
      with c2 have new: "dk_files d ?t = None" and f2: "dk_files d2 = (dk_files d)(?t \<mapsto> [])"
        and p2: "dk_process_id d2 = dk_process_id d" by simp_all
      note run = atomic_copy_eq Let_def o0 \<open>r0 = Inr content\<close> o2 \<open>r2 = Inr u\<close>
      obtain r3 d3 where o3: "copy_into fault content ?t d2 = (r3, d3)" by fastforce
      then obtain x where f3: "dk_files d3 = (dk_files d)(?t \<mapsto> x)" and p3: "dk_process_id d3 = dk_process_id d"
        and x: "\<And>k. r3 = Inr k \<Longrightarrow> x = content \<and> k = length content"
        using copy_into_result [OF o3] f2 p2 by auto
      obtain r4 d4 where o4: "sync_file fault ?t d3 = (r4, d4)" by fastforce
      then have d4: "d4 = d3" by (rule sync_file_result)
      obtain r5 d5 where o5: "hard_link fault ?t ?q d3 = (r5, d5)" by fastforce
      note c5 = hard_link_result [OF o5] temporary_in_differs [of directory d n]
      note undo = remove_file_result [of fault ?t]
      have failed: "copy_outcome source ?q ?t d (Inl (map_io_error e)) (snd (remove_file fault ?t d3))" for e
        using undo [of d3] f3 p3 new by (auto simp: copy_outcome_def)
      show ?thesis
      proof (cases "r3 \<in> range Inr \<and> r4 = Inr ()")
        case False
        have "\<exists>e. atomic_copy fault source ?q d = (Inl (map_io_error e), snd (remove_file fault ?t d3))"
        proof (cases r3)
          case (Inl e)
          then have "atomic_copy fault source ?q d = (Inl (map_io_error e), snd (remove_file fault ?t d3))"
            by (simp only: run o3 prod.case sum.case)
          then show ?thesis by (rule exI)
        next
          case (Inr k)
          with False obtain e where "r4 = Inl e" by (cases r4) auto
          with Inr have "atomic_copy fault source ?q d = (Inl (map_io_error e), snd (remove_file fault ?t d3))"
            by (simp only: run o3 o4 d4 prod.case sum.case)
          then show ?thesis by (rule exI)
        qed
        with assms obtain e where "r = Inl (map_io_error e)" "d' = snd (remove_file fault ?t d3)" by auto
        with failed show ?thesis by simp
      next
        case True
        then obtain k where "r3 = Inr k" by blast
        with x have k: "r3 = Inr k" "x = content" "k = length content" by blast+
        have "atomic_copy fault source ?q d
            = (map_sum map_destination_error (\<lambda>_. k) r5, snd (remove_file fault ?t d5))"
          using k(1) True [THEN conjunct2] by (simp only: run o3 o4 d4 o5 prod.case sum.case)
        with assms have rd: "r = map_sum map_destination_error (\<lambda>_. k) r5" "d' = snd (remove_file fault ?t d5)"
          by simp_all
        show ?thesis
        proof (cases r5)
          case (Inl e)
          then have "d5 = d3" using c5 by simp
          moreover have "dk_files d ?q \<noteq> None" if "e = AlreadyExists"
            using c5 f3 Inl that by auto
          ultimately show ?thesis
            using rd Inl undo [of d3] f3 p3 new
            by (auto simp: copy_outcome_def map_destination_error_def)
        next
          case (Inr v)
          then have "dk_files d ?q = None" "dk_files d5 = (dk_files d)(?t \<mapsto> content, ?q \<mapsto> content)"
            "dk_process_id d5 = dk_process_id d"
            using c5 f3 p3 k by auto
          with rd Inr undo [of d5] src new k c5(2) show ?thesis
            by (auto simp: copy_outcome_def fun_upd_twist)
        qed
      qed
    qed
  qed
qed

section \<open>Exports\<close>

text \<open>The stem every candidate of a clip shares.\<close>

definition export_stem :: "clip \<Rightarrow> string" where
  "export_stem c = sanitize_filename_component (cl_title c) ''clip'' @ ''-''
     @ sanitize_filename_component (clip_id_str (cl_id c)) ''id''"

definition export_path :: "clip \<Rightarrow> path \<Rightarrow> nat \<Rightarrow> path" where
  "export_path c directory k =
     directory @ [Normal (export_stem c @ (if k = 1 then [] else ''-'' @ show_nat k) @ ''.mp4'')]"

lemma strip_mp4_snoc: "strip_mp4 (xs @ ''.mp4'') = xs"
  by (simp add: strip_mp4_def)

lemma export_candidate_eq:
  "directory @ [Normal (export_candidate (sanitize_export_filename (cl_title c) (cl_id c)) k)]
     = export_path c directory k"
proof -
  have "sanitize_export_filename (cl_title c) (cl_id c) = export_stem c @ ''.mp4''"
    by (simp add: sanitize_export_filename_def export_stem_def)
  then show ?thesis
    by (simp add: export_candidate_def export_path_def strip_mp4_snoc del: append.simps)
qed

text \<open>Temporary names start with a dot; the rest of the disk is the frame of a copy.\<close>

definition dotted :: "path \<Rightarrow> bool" where
  "dotted p \<longleftrightarrow> (case file_name p of Some (c # _) \<Rightarrow> c = CHR ''.'' | _ \<Rightarrow> False)"

definition keeps_files :: "disk \<Rightarrow> disk \<Rightarrow> bool" where
  "keeps_files d d' \<longleftrightarrow> (\<forall>p. dk_files d p \<noteq> None \<or> \<not> dotted p \<longrightarrow> dk_files d' p = dk_files d p)"

lemma keeps_files_refl [simp]: "keeps_files d d"
  by (simp add: keeps_files_def)

lemma keeps_files_trans: "keeps_files d e \<Longrightarrow> keeps_files e f \<Longrightarrow> keeps_files d f"
  unfolding keeps_files_def by metis

lemma keeps_existing: "keeps_files d d' \<Longrightarrow> dk_files d p = Some x \<Longrightarrow> dk_files d' p = Some x"
  by (simp add: keeps_files_def)

lemma keeps_put_existing:
  "keeps_files (d\<lparr>dk_files := (dk_files d)(q \<mapsto> y)\<rparr>) d' \<Longrightarrow> dk_files d q = None \<Longrightarrow>
     dk_files d p = Some x \<Longrightarrow> dk_files d' p = Some x"
  by (cases "p = q") (auto simp: keeps_files_def)

lemma temporary_dotted [simp]: "dotted (temporary_in d directory n)"
  by (simp add: dotted_def temporary_name_def)

lemma sanitized_hd: "sanitize_filename_component v fallback \<noteq> []
    \<and> hd (sanitize_filename_component v fallback) \<noteq> CHR ''.''"
  if "fallback \<noteq> []" "hd fallback \<noteq> CHR ''.''"
proof (cases "name_words v = []")
  case False
  then have "name_char (hd (hyphenated (name_words v)))" "hyphenated (name_words v) \<noteq> []"
    using hyphenated_hd [OF name_words_words] hyphenated_empty [OF name_words_words] by auto
  with False show ?thesis by (auto simp: sanitize_eq name_char_def)
qed (use that in \<open>simp add: sanitize_eq\<close>)

lemma export_path_plain [simp]: "\<not> dotted (export_path c directory k)"
proof -
  have "export_stem c \<noteq> []" "hd (export_stem c) \<noteq> CHR ''.''"
    using sanitized_hd [of "''clip''" "cl_title c"] by (simp_all add: export_stem_def)
  then show ?thesis by (cases "export_stem c") (auto simp: dotted_def export_path_def)
qed

lemma copy_step:
  assumes "atomic_copy fault source q d = (r, d')" and "q = export_path c directory k"
  shows "r = Inl e \<Longrightarrow> keeps_files d d' \<and> (e = DestinationExists \<longrightarrow> dk_files d q \<noteq> None)"
    and "r = Inr n \<Longrightarrow> dk_files d q = None \<and> (\<exists>content. dk_files d source = Some content
      \<and> n = length content \<and> keeps_files (d\<lparr>dk_files := (dk_files d)(q \<mapsto> content)\<rparr>) d')"
proof -
  obtain name where q: "q = directory @ [Normal name]" using assms(2) by (simp add: export_path_def)
  note out = atomic_copy_outcome [OF assms(1) [unfolded q]]
  have plain: "\<not> dotted q" using assms(2) by simp
  show "keeps_files d d' \<and> (e = DestinationExists \<longrightarrow> dk_files d q \<noteq> None)" if "r = Inl e"
    using out that temporary_dotted [where d = d and directory = directory and n = name]
    by (auto simp: copy_outcome_def keeps_files_def q simp del: temporary_dotted)
  show "dk_files d q = None \<and> (\<exists>content. dk_files d source = Some content
      \<and> n = length content \<and> keeps_files (d\<lparr>dk_files := (dk_files d)(q \<mapsto> content)\<rparr>) d')" if "r = Inr n"
    using out that plain temporary_dotted [where d = d and directory = directory and n = name] temporary_in_differs [where d = d and directory = directory and n = name]
    by (auto simp: copy_outcome_def keeps_files_def q simp del: temporary_dotted)
qed

declare export_loop.simps [simp del]

text \<open>What the search for a free name, from the \<open>k\<close>-th candidate on, promises.\<close>

definition export_outcome :: "clip \<Rightarrow> path \<Rightarrow> path \<Rightarrow> nat \<Rightarrow> disk \<Rightarrow> (export_error, export_receipt) result \<Rightarrow> disk \<Rightarrow> bool" where
  "export_outcome c source directory k d r d' \<longleftrightarrow> (case r of
     Inr receipt \<Rightarrow> ex_clip receipt = c \<and> (\<exists>n content. k \<le> n \<and> n \<le> max k u32_max
       \<and> ex_destination_path receipt = export_path c directory n
       \<and> (\<forall>j. k \<le> j \<and> j < n \<longrightarrow> dk_files d (export_path c directory j) \<noteq> None)
       \<and> dk_files d (export_path c directory n) = None
       \<and> dk_files d source = Some content \<and> ex_bytes receipt = length content
       \<and> keeps_files (d\<lparr>dk_files := (dk_files d)(export_path c directory n \<mapsto> content)\<rparr>) d')
   | Inl e \<Rightarrow> keeps_files d d' \<and> (e = NameSpaceExhausted \<longrightarrow>
       (\<forall>j. k \<le> j \<and> j \<le> u32_max \<longrightarrow> dk_files d (export_path c directory j) \<noteq> None)))"

lemma keeps_files_put:
  assumes "keeps_files d e" "\<not> dotted q"
  shows "keeps_files (d\<lparr>dk_files := (dk_files d)(q \<mapsto> x)\<rparr>) (e\<lparr>dk_files := (dk_files e)(q \<mapsto> x)\<rparr>)"
  using assms by (auto simp: keeps_files_def)

lemma export_outcome_step:
  assumes "keeps_files d e" "dk_files d (export_path c directory k) \<noteq> None" "dk_files d source \<noteq> None"
    "k + 1 \<le> u32_max" "export_outcome c source directory (k + 1) e r d'"
  shows "export_outcome c source directory k d r d'"
proof -
  have same: "dk_files e (export_path c directory j) = dk_files d (export_path c directory j)" for j
    using assms(1) by (simp add: keeps_files_def)
  have below: "\<And>n. (\<forall>j. k + 1 \<le> j \<and> j < n \<longrightarrow> dk_files d (export_path c directory j) \<noteq> None) \<Longrightarrow>
      (\<forall>j. k \<le> j \<and> j < n \<longrightarrow> dk_files d (export_path c directory j) \<noteq> None)"
    and upto: "\<And>n. (\<forall>j. k + 1 \<le> j \<and> j \<le> n \<longrightarrow> dk_files d (export_path c directory j) \<noteq> None) \<Longrightarrow>
      (\<forall>j. k \<le> j \<and> j \<le> n \<longrightarrow> dk_files d (export_path c directory j) \<noteq> None)"
    using assms(2) by (metis Suc_eq_plus1 le_neq_implies_less less_eq_Suc_le)+
  show ?thesis
  proof (cases r)
    case (Inl x)
    with assms(1,5) upto [of u32_max] show ?thesis
      by (auto simp: export_outcome_def same intro: keeps_files_trans)
  next
    case (Inr receipt)
    with assms(5) obtain n content where n: "k + 1 \<le> n" "n \<le> max (k + 1) u32_max"
        "ex_destination_path receipt = export_path c directory n" "ex_clip receipt = c"
        "\<forall>j. k + 1 \<le> j \<and> j < n \<longrightarrow> dk_files d (export_path c directory j) \<noteq> None"
        "dk_files d (export_path c directory n) = None" "dk_files e source = Some content"
        "ex_bytes receipt = length content"
        "keeps_files (e\<lparr>dk_files := (dk_files e)(export_path c directory n \<mapsto> content)\<rparr>) d'"
      by (auto simp: export_outcome_def same)
    moreover have "dk_files d source = Some content"
      using assms(1,3) n(7) by (simp add: keeps_files_def)
    moreover note keeps_files_trans [OF keeps_files_put [OF assms(1) export_path_plain] n(9)]
    moreover have "k \<le> n" "n \<le> max k u32_max" using n(1,2) assms(4) by (simp_all add: max_def)
    ultimately show ?thesis
      unfolding export_outcome_def Inr sum.case using below [OF n(5)] by blast
  qed
qed

text \<open>A copy that finds its destination taken has opened its source.\<close>

lemma destination_exists_source:
  assumes "atomic_copy fault source (export_path c directory k) d = (Inl DestinationExists, d')"
  shows "dk_files d source \<noteq> None"
proof -
  obtain name where "export_path c directory k = directory @ [Normal name]" by (simp add: export_path_def)
  then have run: "atomic_copy fault source (directory @ [Normal name]) d = (Inl DestinationExists, d')"
    using assms by simp
  obtain r0 d0 where o0: "open_source fault source d = (r0, d0)" by fastforce
  show ?thesis
  proof (cases r0)
    case (Inl e)
    have "atomic_copy fault source (directory @ [Normal name]) d = (Inl (map_source_error e), d)"
      by (simp only: atomic_copy_eq Let_def o0 Inl prod.case sum.case)
    with run show ?thesis by simp
  next
    case (Inr content)
    then show ?thesis using open_source_result [OF o0] by simp
  qed
qed

lemma export_loop_step:
  "export_loop copy c source directory (sanitize_export_filename (cl_title c) (cl_id c)) k w =
     (case copy source (export_path c directory k) w of
        (Inr bytes, w') \<Rightarrow> (Inr \<lparr>ex_clip = c, ex_destination_path = export_path c directory k, ex_bytes = bytes\<rparr>, w')
      | (Inl DestinationExists, w') \<Rightarrow>
          if k + 1 \<le> u32_max then export_loop copy c source directory
            (sanitize_export_filename (cl_title c) (cl_id c)) (k + 1) w'
          else (Inl NameSpaceExhausted, w')
      | (Inl e, w') \<Rightarrow> (Inl (ExportFile e), w'))"
  by (subst export_loop.simps) (simp only: export_candidate_eq Let_def)

lemma export_loop_outcome:
  "k \<le> u32_max \<Longrightarrow> export_loop (atomic_copy fault) c source directory
       (sanitize_export_filename (cl_title c) (cl_id c)) k d = (r, d') \<Longrightarrow>
     export_outcome c source directory k d r d'"
proof (induction "u32_max - k" arbitrary: k d rule: less_induct)
  case (less k d)
  let ?q = "export_path c directory k"
  obtain q e where copied: "atomic_copy fault source ?q d = (q, e)" by fastforce
  show ?case
  proof (cases q)
    case (Inr bytes)
    with less.prems(2) copied have "r = Inr \<lparr>ex_clip = c, ex_destination_path = ?q, ex_bytes = bytes\<rparr>" "d' = e"
      by (simp_all add: export_loop_step [of _ _ _ _ k])
    with copy_step(2) [OF copied refl Inr] show ?thesis by (auto simp: export_outcome_def)
  next
    case (Inl x)
    note kept = copy_step(1) [OF copied refl Inl]
    show ?thesis
    proof (cases "x = DestinationExists \<and> k + 1 \<le> u32_max")
      case True
      with less.prems(2) copied Inl have "export_loop (atomic_copy fault) c source directory
          (sanitize_export_filename (cl_title c) (cl_id c)) (k + 1) e = (r, d')"
        by (simp add: export_loop_step [of _ _ _ _ k])
      moreover have "u32_max - (k + 1) < u32_max - k" using True by (intro diff_less_mono2) simp_all
      ultimately have "export_outcome c source directory (k + 1) e r d'"
        using less.hyps [of "k + 1" e] True by blast
      moreover have "dk_files d source \<noteq> None"
        using destination_exists_source copied Inl True by blast
      ultimately show ?thesis using True kept export_outcome_step by blast
    next
      case False
      with less.prems copied Inl have "(r = Inl NameSpaceExhausted \<and> x = DestinationExists \<and> k = u32_max
          \<or> r = Inl (ExportFile x)) \<and> d' = e"
        by (cases x) (auto simp: export_loop_step [of _ _ _ _ k])
      with kept show ?thesis by (auto simp: export_outcome_def)
    qed
  qed
qed

text \<open>Without faults.\<close>

abbreviation no_fault :: faults where
  "no_fault \<equiv> \<lambda>_ _. None"

lemma atomic_copy_clean:
  assumes "dk_files d source = Some content" and "dk_files d (temporary_in d directory n) = None"
  shows "\<exists>d'. dk_files d' = (if dk_files d (directory @ [Normal n]) = None
        then (dk_files d)(directory @ [Normal n] \<mapsto> content) else dk_files d)
    \<and> atomic_copy no_fault source (directory @ [Normal n]) d
      = (if dk_files d (directory @ [Normal n]) = None then Inr (length content) else Inl DestinationExists, d')"
proof -
  let ?t = "temporary_in d directory n" and ?q = "directory @ [Normal n]"
  have removed: "(dk_files d)(?t \<mapsto> x, ?t := None) = dk_files d"
    "((dk_files d)(?t \<mapsto> x, ?q \<mapsto> y))(?t := None) = (dk_files d)(?q \<mapsto> y)" for x y
    using assms(2) temporary_in_differs [where d = d and directory = directory and n = n]
    by (simp_all add: fun_upd_twist [of ?t ?q] fun_upd_idem)
  note calls = atomic_copy_eq Let_def open_source_def create_new_def copy_into_def sync_file_def
    hard_link_def remove_file_def map_destination_error_def
  show ?thesis
  proof (cases "dk_files d ?q = None")
    case True
    with assms temporary_in_differs [where d = d and directory = directory and n = n] show ?thesis
      by (simp add: calls removed)
  next
    case False
    then obtain y where "dk_files d ?q = Some y" by blast
    with assms temporary_in_differs [where d = d and directory = directory and n = n] show ?thesis
      by (simp add: calls fun_upd_idem)
  qed
qed

lemma export_loop_succeeds:
  assumes "dk_files d source = Some content" and "\<And>p. dotted p \<Longrightarrow> dk_files d p = None"
    and "k \<le> n" "n \<le> u32_max" "dk_files d (export_path c directory n) = None"
  shows "\<exists>receipt d'. export_loop (atomic_copy no_fault) c source directory
    (sanitize_export_filename (cl_title c) (cl_id c)) k d = (Inr receipt, d')"
  using assms
proof (induction "n - k" arbitrary: k d rule: less_induct)
  case (less k d)
  obtain name where q: "export_path c directory k = directory @ [Normal name]" by (simp add: export_path_def)
  have "dk_files d (temporary_in d directory name) = None" by (rule less.prems(2)) simp
  from atomic_copy_clean [OF less.prems(1) this]
  obtain d' where d': "dk_files d' = (if dk_files d (export_path c directory k) = None
        then (dk_files d)(export_path c directory k \<mapsto> content) else dk_files d)"
      "atomic_copy no_fault source (export_path c directory k) d
        = (if dk_files d (export_path c directory k) = None then Inr (length content) else Inl DestinationExists, d')"
    unfolding q by (elim exE conjE)
  show ?case
  proof (cases "dk_files d (export_path c directory k) = None")
    case True
    then show ?thesis by (simp add: export_loop_step [of _ _ _ _ k] d'(2))
  next
    case False
    with less.prems have "k < n" by (metis le_neq_implies_less)
    with False less.hyps [of "k + 1" d'] less.prems d' show ?thesis
      by (simp add: export_loop_step [of _ _ _ _ k])
  qed
qed

section \<open>Properties\<close>

text \<open>
  A snapshot is rehydrated exactly when it is that of a storable clip, and then that clip comes back
  unchanged: nothing is lost by storing a clip, and no other clip is ever loaded.
\<close>
theorem durable_roundtrip:
  "from_durable_snapshot d = Inr c \<longleftrightarrow> clip_snapshot c = d \<and> storable c"
  by (rule from_durable_iff)

definition same_clip :: "clip \<Rightarrow> clip \<Rightarrow> bool" where
  "same_clip c u \<longleftrightarrow> cl_id u = cl_id c \<and> cl_source_capture u = cl_source_capture c
     \<and> cl_capture_session_id u = cl_capture_session_id c \<and> cl_origin u = cl_origin c
     \<and> cl_revision u = saturating_add_u64 (cl_revision c) 1"

text \<open>
  C34: A review or a rejection of a storable clip keeps its identity, source and evidence, adds one to the
  revision, and records the verdict, and the result is storable unless the edit's derivative has
  the artifact identifier of the source itself; a rejected clip takes no further verdict.
\<close>
theorem review_keeps_storable:
  assumes "storable c" and "decide cas c v r = (Inr u, r')"
  shows "same_clip c u \<and> \<not> is_rejected (cl_review_state c)
    \<and> cl_review_state u = (case v of Review edit at \<Rightarrow> Reviewed at | Reject at \<Rightarrow> Rejected at)
    \<and> (storable u \<longleftrightarrow> (\<forall>edit at d. v = Review edit at \<and> re_derivative edit = Some d
         \<longrightarrow> ap_artifact_id (dp_artifact d) \<noteq> ap_artifact_id (cl_source_capture c)))"
proof (cases v)
  case (Review edit at)
  with assms have "check_edit c edit = None" and live: "\<not> is_rejected (cl_review_state c)"
    and u: "u = c\<lparr>cl_revision := saturating_add_u64 (cl_revision c) 1,
        cl_review_state := Reviewed at, cl_title := re_title edit, cl_note := re_note edit,
        cl_tags := re_tags edit, cl_favorite := re_favorite edit, cl_derivative := re_derivative edit\<rparr>"
    by (auto simp: review_clip_eq Let_def map_sum_Inr split: if_splits option.splits prod.splits)
  then show ?thesis
    using assms(1) Review by (auto simp: same_clip_def storable_def check_edit_None split: option.split)
next
  case (Reject at)
  with assms have "\<not> is_rejected (cl_review_state c)"
    and "u = c\<lparr>cl_revision := saturating_add_u64 (cl_revision c) 1, cl_review_state := Rejected at\<rparr>"
    by (auto simp: reject_clip_eq Let_def map_sum_Inr split: if_splits prod.splits)
  with assms(1) Reject show ?thesis
    by (auto simp: same_clip_def storable_def split: option.splits if_splits)
qed

definition sample_source :: artifact_provenance where
  "sample_source = \<lparr>ap_artifact_id = ''a'', ap_path = [Normal ''a.mp4''], ap_sha256 = ''h'',
     ap_duration_ms = 9, ap_bytes = 3\<rparr>"

definition sample_clip :: clip where
  "sample_clip = \<lparr>cl_id = ClipId ''C 1'', cl_revision = 0, cl_source_capture = sample_source,
     cl_capture_session_id = ''s'', cl_origin = ManualFlagOrigin ''f'' 1 {||}, cl_review_state = Provisional,
     cl_title = ''My Clip!'', cl_note = [], cl_tags = {||}, cl_favorite = False, cl_derivative = None\<rparr>"

definition sample_edit :: review_edit where
  "sample_edit = \<lparr>re_title = ''My Clip!'', re_note = [], re_tags = {||}, re_favorite = True,
     re_derivative = None\<rparr>"

text \<open>The repository as a map from clips to revisions.\<close>

definition map_swap :: "(clip_id \<rightharpoonup> nat) compare_and_swap" where
  "map_swap n c m = (if m (cl_id c) = Some n then (Inr (), m(cl_id c \<mapsto> cl_revision c))
     else (Inl ''conflict'', m))"

definition reviewed_sample :: clip where
  "reviewed_sample = sample_clip\<lparr>cl_revision := 1, cl_review_state := Reviewed 5, cl_favorite := True\<rparr>"

lemma sample_storable: "storable sample_clip"
  by (simp add: storable_def sample_clip_def)

lemma sample_review:
  "decide map_swap sample_clip (Review sample_edit 5) [ClipId ''C 1'' \<mapsto> 0]
     = (Inr reviewed_sample, [ClipId ''C 1'' \<mapsto> 1])"
  by (simp add: review_clip_eq sample_clip_def sample_edit_def check_edit_def map_swap_def
    reviewed_sample_def saturating_add_u64_def u64_max_def)

theorem review_keeps_storable_witness: "storable reviewed_sample \<and> same_clip sample_clip reviewed_sample"
  using review_keeps_storable [OF sample_storable sample_review] by (simp add: sample_edit_def)

text \<open>
  C32: No review is lost: over any repository that compares and swaps revisions, once a verdict on a clip
  was stored, any other verdict decided from the same old copy is refused and changes no revision,
  whatever verdicts on whatever clips came in between.
\<close>
theorem no_lost_review:
  assumes "swaps cas revision_of" and "cl_revision c < u64_max"
    and "decide cas c v r = (Inr u, r1)"
    and "r2 = foldl (\<lambda>r (c, v). snd (decide cas c v r)) r1 others"
    and "decide cas c v' r2 = (q, r3)"
  shows "q \<in> range Inl \<and> revision_of r3 = revision_of r2"
proof -
  have grows: "\<exists>m > cl_revision c. revision_of t' (cl_id c) = Some m"
    if known: "\<exists>m > cl_revision c. revision_of t (cl_id c) = Some m" and step: "decide cas b w t = (p, t')"
    for t t' b w p
    using step
  proof (cases rule: decide_cases)
    case refused
    with known show ?thesis by simp
  next
    case (swapped x a)
    from known obtain m where m: "m > cl_revision c" "revision_of t (cl_id c) = Some m" by blast
    show ?thesis
    proof (cases a)
      case (Inl e)
      with swapsD(2) [OF assms(1) swapped(1)] known show ?thesis by simp
    next
      case (Inr u)
      with swapsD(1) [OF assms(1) swapped(1)] swapped m assms(2) show ?thesis
        by (auto simp: saturating_add_u64_def min_def)
    qed
  qed
  have "\<exists>m > cl_revision c. revision_of r1 (cl_id c) = Some m"
    using assms(3)
  proof (cases rule: decide_cases)
    case (swapped x a)
    then have "a = Inr ()" by (cases a) auto
    with swapsD(1) [OF assms(1) swapped(1)] swapped assms(2) show ?thesis
      by (auto simp: saturating_add_u64_def)
  qed simp
  then have "\<exists>m > cl_revision c. revision_of (foldl (\<lambda>r (c, v). snd (decide cas c v r)) r1 others) (cl_id c) = Some m"
  proof (induction others arbitrary: r1)
    case (Cons o' others)
    obtain b w where o': "o' = (b, w)" by fastforce
    from grows [OF Cons.prems, of b w] have
      "\<exists>m > cl_revision c. revision_of (snd (decide cas b w r1)) (cl_id c) = Some m"
      by (metis surjective_pairing)
    from Cons.IH [OF this] show ?case by (simp add: o')
  qed simp
  with assms(4) have now: "revision_of r2 (cl_id c) \<noteq> Some (cl_revision c)" by auto
  from assms(5) show ?thesis
  proof (cases rule: decide_cases)
    case refused
    then show ?thesis by simp
  next
    case (swapped x a)
    with swapsD [OF assms(1) swapped(1)] now show ?thesis by (cases a) auto
  qed
qed

lemma map_swap_swaps: "swaps map_swap (\<lambda>m. m)"
  by (simp add: swaps_def map_swap_def)

theorem no_lost_review_witness:
  "fst (decide map_swap sample_clip (Reject 6) [ClipId ''C 1'' \<mapsto> 1]) \<in> range Inl"
proof -
  have few: "cl_revision sample_clip < u64_max" by (simp add: sample_clip_def u64_max_def)
  obtain q r3 where q: "decide map_swap sample_clip (Reject 6) [ClipId ''C 1'' \<mapsto> 1] = (q, r3)" by fastforce
  have "[ClipId ''C 1'' \<mapsto> 1] = foldl (\<lambda>r (c, v). snd (decide map_swap c v r)) [ClipId ''C 1'' \<mapsto> 1] []" by simp
  from no_lost_review [OF map_swap_swaps few sample_review this q] show ?thesis unfolding q by simp
qed

text \<open>
  A sanitized name is the lower-case words of the text (its maximal runs of ASCII letters and digits)
  joined by single hyphens, or the fallback when there is none; it holds only letters, digits and
  inner hyphens, so no separator, dot or space of the text survives, and sanitizing it again
  changes nothing.
\<close>
theorem sanitized_name_safe:
  "case name_words v of
     [] \<Rightarrow> sanitize_filename_component v fallback = fallback
   | _ \<Rightarrow> (let name = sanitize_filename_component v fallback in
       name = hyphenated (name_words v) \<and> list_all name_word (name_words v)
       \<and> list_all (\<lambda>c. name_char c \<or> c = CHR ''-'') name
       \<and> name \<noteq> [] \<and> name_char (hd name) \<and> name_char (last name)
       \<and> sanitize_filename_component name fallback = name)"
proof (cases "name_words v")
  case (Cons w ws)
  note words = name_words_words [of v]
  have "hyphenated (name_words v) \<noteq> []" using hyphenated_empty [OF words] Cons by simp
  moreover have "list_all (\<lambda>c. name_char c \<or> c = CHR ''-'') (hyphenated (name_words v))"
    using hyphenated_chars [OF words] by (auto simp: list_all_iff)
  ultimately show ?thesis
    using words words_of_hyphenated [OF words] hyphenated_hd [OF words] hyphenated_last [OF words] Cons
    by (simp add: sanitize_eq Let_def)
qed (simp add: sanitize_eq)

text \<open>
  The copy is atomic under any failures: it either publishes the whole source under a destination
  that was free, or leaves the destination as it was; it reports an existing destination only for
  one, and touches no other file but its own temporary one, which was new.
\<close>
theorem copy_is_atomic:
  assumes "atomic_copy fault source (directory @ [Normal n]) d = (r, d')"
  shows "(case r of
      Inr k \<Rightarrow> \<exists>content. dk_files d source = Some content \<and> k = length content
        \<and> dk_files d (directory @ [Normal n]) = None
        \<and> dk_files d' (directory @ [Normal n]) = Some content
    | Inl e \<Rightarrow> dk_files d' (directory @ [Normal n]) = dk_files d (directory @ [Normal n])
        \<and> (e = DestinationExists \<longrightarrow> dk_files d (directory @ [Normal n]) \<noteq> None))
    \<and> (\<forall>p. p \<noteq> directory @ [Normal n] \<and> dk_files d' p \<noteq> dk_files d p \<longrightarrow>
        p = directory @ [Normal (temporary_name d n)] \<and> dk_files d p = None)"
proof -
  note out = atomic_copy_outcome [OF assms]
    temporary_in_differs [where d = d and directory = directory and n = n]
  show ?thesis
    by (cases r) (use out in \<open>auto simp: copy_outcome_def split: if_splits\<close>)
qed

definition sample_disk :: disk where
  "sample_disk = \<lparr>dk_files = [[Normal ''a.mp4''] \<mapsto> ''xyz'', [Normal ''my-clip-c-1.mp4''] \<mapsto> ''old''],
     dk_process_id = 7, dk_next_temporary_id = 0\<rparr>"

definition disk_full :: faults where
  "disk_full call d = (case call of CopyInto _ \<Rightarrow> Some (''disk full'', 1) | RemoveFile _ \<Rightarrow> Some (''busy'', 0) | _ \<Rightarrow> None)"

theorem copy_is_atomic_witness:
  "fst (atomic_copy disk_full [Normal ''a.mp4''] [Normal ''b.mp4''] sample_disk) = Inl (FileIo ''disk full'')
    \<and> dk_files (snd (atomic_copy disk_full [Normal ''a.mp4''] [Normal ''b.mp4''] sample_disk)) [Normal ''b.mp4''] = None"
proof -
  have temp: "temporary_name sample_disk n = CHR ''.'' # n @ ''.openfrag-tmp-7-0''" for n
  proof -
    have "show_nat 7 = ''7''" "show_nat 0 = ''0''" by code_simp+
    then show ?thesis by (simp add: temporary_name_def sample_disk_def)
  qed
  define d' where "d' = sample_disk\<lparr>dk_next_temporary_id := 1,
      dk_files := (dk_files sample_disk)([Normal ''.b.mp4.openfrag-tmp-7-0''] \<mapsto> ''x'')\<rparr>"
  have run: "atomic_copy disk_full [Normal ''a.mp4''] ([] @ [Normal ''b.mp4'']) sample_disk
      = (Inl (FileIo ''disk full''), d')"
    by (simp only: atomic_copy_eq)
      (simp add: temp [unfolded sample_disk_def] Let_def open_source_def create_new_def copy_into_def
        remove_file_def disk_full_def map_io_error_def sample_disk_def d'_def)
  have "dk_files d' [Normal ''b.mp4''] = dk_files sample_disk [Normal ''b.mp4'']"
    using copy_is_atomic [OF run] by simp
  with run show ?thesis by (simp add: sample_disk_def)
qed

text \<open>
  C33: An export of a reviewed clip takes the first free candidate name: on success every earlier candidate
  was taken, this one was free and now holds the whole artifact, whatever calls failed; no file
  that existed is changed, and the name space is exhausted only when all candidates are taken.
  A clip that is not reviewed touches no file.
\<close>
theorem export_takes_first_free:
  assumes "export_clip (atomic_copy fault) c directory d = (r, d')"
  shows "(is_reviewed (cl_review_state c) \<longrightarrow> export_outcome c (ap_path (export_artifact c)) directory 1 d r d')
    \<and> (\<not> is_reviewed (cl_review_state c) \<longrightarrow> r = Inl NotReviewed \<and> d' = d)
    \<and> (\<forall>p content. dk_files d p = Some content \<longrightarrow> dk_files d' p = Some content)"
proof (cases "is_reviewed (cl_review_state c)")
  case True
  with assms have "export_loop (atomic_copy fault) c (ap_path (export_artifact c)) directory
      (sanitize_export_filename (cl_title c) (cl_id c)) 1 d = (r, d')"
    by (simp add: export_clip_def)
  moreover have "1 \<le> u32_max" by (simp add: u32_max_def)
  ultimately have out: "export_outcome c (ap_path (export_artifact c)) directory 1 d r d'"
    by (rule export_loop_outcome [rotated])
  have "dk_files d' p = Some content" if "dk_files d p = Some content" for p content
    by (cases r) (use out that in \<open>auto simp: export_outcome_def dest: keeps_existing keeps_put_existing\<close>)
  with True out show ?thesis by blast
qed (use assms in \<open>simp add: export_clip_def effect_simps\<close>)

lemma export_free_iff:
  assumes "is_reviewed (cl_review_state c)"
    and "dk_files d (ap_path (export_artifact c)) = Some content" and "\<And>p. dotted p \<Longrightarrow> dk_files d p = None"
  shows "(\<exists>receipt. fst (export_clip (atomic_copy no_fault) c directory d) = Inr receipt)
    \<longleftrightarrow> (\<exists>n. 1 \<le> n \<and> n \<le> u32_max \<and> dk_files d (export_path c directory n) = None)"
proof
  let ?run = "export_loop (atomic_copy no_fault) c (ap_path (export_artifact c)) directory
      (sanitize_export_filename (cl_title c) (cl_id c)) 1 d"
  have run: "export_clip (atomic_copy no_fault) c directory d = ?run" using assms(1) by (simp add: export_clip_def)
  have one: "1 \<le> u32_max" by (simp add: u32_max_def)
  show "\<exists>n. 1 \<le> n \<and> n \<le> u32_max \<and> dk_files d (export_path c directory n) = None"
    if "\<exists>receipt. fst (export_clip (atomic_copy no_fault) c directory d) = Inr receipt"
  proof -
    from that obtain receipt d' where "?run = (Inr receipt, d')" unfolding run by (metis surjective_pairing)
    from export_loop_outcome [OF one this] one show ?thesis
      by (auto simp: export_outcome_def max_def)
  qed
  show "\<exists>receipt. fst (export_clip (atomic_copy no_fault) c directory d) = Inr receipt"
    if "\<exists>n. 1 \<le> n \<and> n \<le> u32_max \<and> dk_files d (export_path c directory n) = None"
    using that export_loop_succeeds [OF assms(2,3)] unfolding run by (metis fst_conv)
qed

text \<open>
  C35: When the calls do not fail, the artifact exists and no dot file is in the way, exporting a reviewed
  clip returns a receipt exactly when one of its candidate names is free.
\<close>
theorem export_succeeds_iff_free:
  assumes "is_reviewed (cl_review_state c)" and "dk_files d (ap_path (export_artifact c)) = Some content"
    and "\<And>p. dotted p \<Longrightarrow> dk_files d p = None"
  shows "(\<exists>receipt. fst (export_clip (atomic_copy (\<lambda>_ _. None)) c directory d) = Inr receipt)
    \<longleftrightarrow> (\<exists>n. 1 \<le> n \<and> n \<le> u32_max \<and> dk_files d (export_path c directory n) = None)"
  by (rule export_free_iff [OF assms])

lemma sample_path: "export_path reviewed_sample [] k
    = [Normal (''my-clip-c-1'' @ (if k = 1 then [] else ''-'' @ show_nat k) @ ''.mp4'')]"
proof -
  have "sanitize_filename_component ''My Clip!'' ''clip'' = ''my-clip''"
    "sanitize_filename_component ''C 1'' ''id'' = ''c-1''"
    by code_simp+
  then show ?thesis by (simp add: export_path_def export_stem_def reviewed_sample_def sample_clip_def)
qed

lemma sample_free: "dk_files sample_disk (export_path reviewed_sample [] 1) \<noteq> None"
  "dk_files sample_disk (export_path reviewed_sample [] 2) = None"
proof -
  have "show_nat 2 = ''2''" by code_simp
  then show "dk_files sample_disk (export_path reviewed_sample [] 1) \<noteq> None"
    "dk_files sample_disk (export_path reviewed_sample [] 2) = None"
    by (simp_all add: sample_path sample_disk_def)
qed

lemma sample_source_file: "is_reviewed (cl_review_state reviewed_sample)"
  "dk_files sample_disk (ap_path (export_artifact reviewed_sample)) = Some ''xyz''"
  by (simp_all add: reviewed_sample_def sample_clip_def export_artifact_def sample_source_def sample_disk_def)

lemma sample_undotted: "dotted p \<Longrightarrow> dk_files sample_disk p = None"
  by (auto simp: sample_disk_def dotted_def file_name_def)

theorem export_takes_first_free_witness:
  "\<exists>receipt d'. export_clip (atomic_copy no_fault) reviewed_sample [] sample_disk = (Inr receipt, d')
    \<and> ex_destination_path receipt = [Normal ''my-clip-c-1-2.mp4''] \<and> ex_bytes receipt = 3"
proof -
  have "2 \<le> u32_max" by (simp add: u32_max_def)
  then have "\<exists>n. 1 \<le> n \<and> n \<le> u32_max \<and> dk_files sample_disk (export_path reviewed_sample [] n) = None"
    using sample_free(2) by (intro exI [of _ 2]) simp
  with export_free_iff [OF sample_source_file, of "[]"] sample_undotted
  obtain receipt where "fst (export_clip (atomic_copy no_fault) reviewed_sample [] sample_disk) = Inr receipt" by blast
  then obtain d' where run: "export_clip (atomic_copy no_fault) reviewed_sample [] sample_disk = (Inr receipt, d')"
    by (metis surjective_pairing)
  with export_takes_first_free [OF run] sample_source_file
  obtain n where n: "1 \<le> n" "ex_destination_path receipt = export_path reviewed_sample [] n"
      "\<forall>j. 1 \<le> j \<and> j < n \<longrightarrow> dk_files sample_disk (export_path reviewed_sample [] j) \<noteq> None"
      "dk_files sample_disk (export_path reviewed_sample [] n) = None" "ex_bytes receipt = length ''xyz''"
    by (auto simp: export_outcome_def)
  have "\<not> 2 < n" using n(3) [rule_format, of 2] sample_free(2) by auto
  moreover have "n \<noteq> 1" using n(4) sample_free(1) by auto
  ultimately have "n = 2" using n(1) by simp
  moreover have "show_nat 2 = ''2''" by code_simp
  ultimately have "ex_destination_path receipt = [Normal ''my-clip-c-1-2.mp4'']"
    using n(2) by (simp add: sample_path)
  with run n(5) show ?thesis by auto
qed

theorem export_succeeds_iff_free_witness:
  "\<exists>receipt. fst (export_clip (atomic_copy (\<lambda>_ _. None)) reviewed_sample [] sample_disk) = Inr receipt"
proof -
  have "1 \<le> (2::nat) \<and> 2 \<le> u32_max \<and> dk_files sample_disk (export_path reviewed_sample [] 2) = None"
    using sample_free(2) by (simp add: u32_max_def)
  then show ?thesis
    using export_succeeds_iff_free [OF sample_source_file sample_undotted, of "[]"] by blast
qed

end
