(* ===== verification/Demo.thy ===== *)
theory Demo
  imports Prelude
begin

text \<open>
  The evidence of a demo, \<open>crates/openfrag-import/src/lib.rs\<close>: the normalized events, the output of
  the parse, the diagnostics, and the conversion of the vendored parser's output.

  A tick is an \<open>i32\<close>, an ordinal and a SteamID a \<open>u64\<close>. The JSON values of \<open>serde_json\<close>, the
  hash over an encoded event and the SHA-256 of the file are parameters.
\<close>

section \<open>Integers and numerals\<close>

definition i32_max :: int where "i32_max = 2 ^ 31 - 1"

text \<open>\<open>as i32\<close>, and \<open>i32\<close> arithmetic without overflow checks.\<close>

definition wrap_i32 :: "int \<Rightarrow> int" where
  "wrap_i32 x = (x + 2 ^ 31) mod 2 ^ 32 - 2 ^ 31"

lemma wrap_i32_id: "- (2 ^ 31) \<le> x \<Longrightarrow> x < 2 ^ 31 \<Longrightarrow> wrap_i32 x = x"
  by (simp add: wrap_i32_def mod_pos_pos_trivial)

text \<open>\<open>parse\<close> of an integer: an optional sign, then digits only, within the bound.\<close>

definition parse_digits :: "string \<Rightarrow> nat option" where
  "parse_digits s = (if s = [] \<or> \<not> list_all is_ascii_digit s then None else Some (decimal_value s))"

definition drop_plus :: "string \<Rightarrow> string" where
  "drop_plus s = (case s of [] \<Rightarrow> [] | c # cs \<Rightarrow> if c = CHR ''+'' then cs else s)"

definition parse_unsigned :: "nat \<Rightarrow> string \<Rightarrow> nat option" where
  "parse_unsigned bound s = Option.bind (parse_digits (drop_plus s)) (\<lambda>n. if n \<le> bound then Some n else None)"

definition parse_i64 :: "string \<Rightarrow> int option" where
  "parse_i64 s = (case s of
     CHR ''-'' # cs \<Rightarrow> Option.bind (parse_digits cs) (\<lambda>n. if n \<le> 2 ^ 63 then Some (- int n) else None)
   | _ \<Rightarrow> Option.bind (parse_digits (drop_plus s)) (\<lambda>n. if n < 2 ^ 63 then Some (int n) else None))"

definition i32_of :: "int \<Rightarrow> int option" where
  "i32_of x = (if - (2 ^ 31) \<le> x \<and> x \<le> i32_max then Some x else None)"

section \<open>Events\<close>

datatype event_kind = RoundFreezeEndKind | RoundEndKind | PlayerHurtKind | PlayerDeathKind | PlayerDisconnectKind

fun event_kind_name :: "event_kind \<Rightarrow> string" where
  "event_kind_name RoundFreezeEndKind = ''round_freeze_end''"
| "event_kind_name RoundEndKind = ''round_end''"
| "event_kind_name PlayerHurtKind = ''player_hurt''"
| "event_kind_name PlayerDeathKind = ''player_death''"
| "event_kind_name PlayerDisconnectKind = ''player_disconnect''"

type_synonym steam_id = nat

record round_freeze_end_event =
  rf_warmup :: bool

record round_end_event =
  rn_winner :: "int option"

record player_hurt_event =
  ph_attacker :: "steam_id option"
  ph_victim :: "steam_id option"
  ph_damage_health :: "int option"
  ph_weapon :: "string option"

record player_death_event =
  dt_attacker :: "steam_id option"
  dt_victim :: "steam_id option"
  dt_assister :: "steam_id option"
  dt_assisted_flash :: bool
  dt_weapon :: "string option"

record player_disconnect_event =
  dc_player :: "steam_id option"

datatype normalized_event = RoundFreezeEnd round_freeze_end_event | RoundEnd round_end_event
  | PlayerHurt player_hurt_event | PlayerDeath player_death_event | PlayerDisconnect player_disconnect_event

fun event_kind_of :: "normalized_event \<Rightarrow> event_kind" where
  "event_kind_of (RoundFreezeEnd _) = RoundFreezeEndKind"
| "event_kind_of (RoundEnd _) = RoundEndKind"
| "event_kind_of (PlayerHurt _) = PlayerHurtKind"
| "event_kind_of (PlayerDeath _) = PlayerDeathKind"
| "event_kind_of (PlayerDisconnect _) = PlayerDisconnectKind"

record parsed_event =
  pe_tick :: int
  pe_ordinal :: nat
  pe_event :: normalized_event

definition pe_kind :: "parsed_event \<Rightarrow> event_kind" where
  "pe_kind e = event_kind_of (pe_event e)"

definition pe_name :: "parsed_event \<Rightarrow> string" where
  "pe_name e = event_kind_name (pe_kind e)"

definition pe_attacker :: "parsed_event \<Rightarrow> steam_id option" where
  "pe_attacker e = (case pe_event e of PlayerHurt h \<Rightarrow> ph_attacker h | PlayerDeath d \<Rightarrow> dt_attacker d | _ \<Rightarrow> None)"

definition pe_victim :: "parsed_event \<Rightarrow> steam_id option" where
  "pe_victim e = (case pe_event e of PlayerHurt h \<Rightarrow> ph_victim h | PlayerDeath d \<Rightarrow> dt_victim d | _ \<Rightarrow> None)"

definition pe_weapon :: "parsed_event \<Rightarrow> string option" where
  "pe_weapon e = (case pe_event e of PlayerHurt h \<Rightarrow> ph_weapon h | PlayerDeath d \<Rightarrow> dt_weapon d | _ \<Rightarrow> None)"

section \<open>The parsed output\<close>

record demo_metadata =
  dm_map :: "string option"
  dm_patch_build :: "string option"
  dm_demo_stamp :: "string option"
  dm_server :: "string option"
  dm_game_directory :: "string option"
  dm_tick_rate :: "string option"
  dm_tick_rate_unavailable_reason :: "string option"

record participant =
  pt_steam_id :: steam_id
  pt_name :: "string option"
  pt_team :: "int option"

record 'j event_receipt =
  rc_ordinal :: nat
  rc_event_name :: string
  rc_tick :: int
  rc_fields :: "string \<rightharpoonup> string"
  rc_raw_fields :: "string \<rightharpoonup> 'j"
  rc_evidence_sha256 :: string

record parsed_round =
  pr_number :: nat
  pr_end_tick :: int
  pr_winner :: "int option"

datatype snapshot_phase = RequestedTick | AfterEventPacket

record player_snapshot =
  sn_tick :: int
  sn_ordinal :: nat
  sn_phase :: snapshot_phase
  sn_steam_id :: steam_id
  sn_entity_id :: "int option"
  sn_team :: "int option"
  sn_health :: "int option"
  sn_alive :: "bool option"
  sn_life_state :: "int option"
  sn_round_counter :: "int option"

record import_identity =
  ii_source_sha256 :: string
  ii_parser_commit :: string
  ii_parser_build :: string
  ii_generated_proto_build :: string
  ii_requested_schema_hash :: string
  ii_metric_definition_version :: string
  ii_formula_version :: string
  ii_evidence_semantics_epoch :: string

record 'j parsed_output =
  po_metadata :: demo_metadata
  po_participants :: "participant list"
  po_rounds :: "parsed_round list"
  po_events :: "parsed_event list"
  po_receipts :: "'j event_receipt list"
  po_snapshots :: "player_snapshot list"
  po_suspicious_empty :: bool
  po_identity :: import_identity

section \<open>Diagnostics\<close>

datatype diagnostic_category = SourceIo | Truncated | UnsupportedCommand | SchemaDrift | Corrupt
  | MissingEvidence | InternalInvariant

datatype parse_stage = SourceRead | FrameScan | FirstPass | SecondPass | Normalize | Finalize

record parse_diagnostic =
  pg_category :: diagnostic_category
  pg_stage :: parse_stage
  pg_game_build :: "string option"
  pg_byte_offset :: "nat option"
  pg_frame_index :: "nat option"
  pg_tick :: "int option"
  pg_command :: "int option"
  pg_required_item :: "string option"
  pg_observed_counts :: "string \<rightharpoonup> nat"
  pg_upstream_source :: string

definition parser_error :: "diagnostic_category \<Rightarrow> parse_stage \<Rightarrow> string \<Rightarrow> parse_diagnostic" where
  "parser_error category stage source = \<lparr>pg_category = category, pg_stage = stage, pg_game_build = None,
     pg_byte_offset = None, pg_frame_index = None, pg_tick = None, pg_command = None,
     pg_required_item = None, pg_observed_counts = Map.empty, pg_upstream_source = source\<rparr>"

definition missing_evidence_error :: "string \<Rightarrow> string option \<Rightarrow> (string \<rightharpoonup> nat) \<Rightarrow> parse_diagnostic" where
  "missing_evidence_error required_item game_build observed_counts =
     (parser_error MissingEvidence Finalize (''required canonical evidence is absent: '' @ required_item))
       \<lparr>pg_game_build := game_build, pg_required_item := Some required_item,
        pg_observed_counts := observed_counts\<rparr>"

section \<open>Normalization\<close>

record 'j json_api =
  js_u64 :: "'j \<Rightarrow> nat option"
  js_i64 :: "'j \<Rightarrow> int option"
  js_bool :: "'j \<Rightarrow> bool option"
  js_str :: "'j \<Rightarrow> string option"

definition json_u64 :: "'j json_api \<Rightarrow> 'j \<Rightarrow> nat option" where
  "json_u64 j v = or_else (js_u64 j v) (Option.bind (js_str j v) (parse_unsigned u64_max))"

fun raw_u64 :: "'j json_api \<Rightarrow> (string \<rightharpoonup> 'j) \<Rightarrow> string list \<Rightarrow> nat option" where
  "raw_u64 j fs [] = None"
| "raw_u64 j fs (name # names) =
     or_else (Option.bind (fs name) (json_u64 j)) (raw_u64 j fs names)"

definition flag_field :: "'j json_api \<Rightarrow> 'j option \<Rightarrow> bool" where
  "flag_field j v = (case Option.bind v (js_bool j) of None \<Rightarrow> False | Some b \<Rightarrow> b)"

definition normalize_event :: "'j json_api \<Rightarrow> string \<Rightarrow> (string \<rightharpoonup> 'j) \<Rightarrow> normalized_event option" where
  "normalize_event j name fs =
     (if name = ''round_freeze_end'' then
        Some (RoundFreezeEnd \<lparr>rf_warmup = flag_field j (or_else (fs ''warmup'') (fs ''warmup_period''))\<rparr>)
      else if name = ''round_end'' then
        Some (RoundEnd \<lparr>rn_winner = Option.bind (fs ''winner'') (\<lambda>v.
          Option.bind (or_else (js_i64 j v) (Option.bind (js_str j v) parse_i64)) i32_of)\<rparr>)
      else if name = ''player_hurt'' then
        Some (PlayerHurt \<lparr>ph_attacker = raw_u64 j fs [''attacker_steamid'', ''attacker''],
          ph_victim = raw_u64 j fs [''user_steamid'', ''userid'', ''victim''],
          ph_damage_health = Option.bind (fs ''dmg_health'') (js_i64 j),
          ph_weapon = Option.bind (fs ''weapon'') (js_str j)\<rparr>)
      else if name = ''player_death'' then
        Some (PlayerDeath \<lparr>dt_attacker = raw_u64 j fs [''attacker_steamid'', ''attacker''],
          dt_victim = raw_u64 j fs [''user_steamid'', ''userid'', ''victim''],
          dt_assister = raw_u64 j fs [''assister_steamid'', ''assister''],
          dt_assisted_flash = flag_field j (fs ''assistedflash''),
          dt_weapon = Option.bind (fs ''weapon'') (js_str j)\<rparr>)
      else if name = ''player_disconnect'' then
        Some (PlayerDisconnect \<lparr>dc_player = raw_u64 j fs [''user_steamid'', ''userid'', ''player'']\<rparr>)
      else None)"

definition from_raw :: "'j json_api \<Rightarrow> string \<Rightarrow> int \<Rightarrow> nat \<Rightarrow> (string \<rightharpoonup> 'j) \<Rightarrow> parsed_event option" where
  "from_raw j name tick n fs =
     map_option (\<lambda>e. \<lparr>pe_tick = tick, pe_ordinal = n, pe_event = e\<rparr>) (normalize_event j name fs)"

section \<open>The parser's output\<close>

text \<open>
  What the vendored parser returns: the rows of the snapshot table as property maps, the roster,
  the header and the console variables, and the events with their fields in order, a field
  without data being \<open>None\<close>.
\<close>

record 'j upstream_event =
  ue_name :: string
  ue_tick :: int
  ue_fields :: "(string \<times> 'j option) list"

record 'j upstream_output =
  up_rows :: "(string \<rightharpoonup> 'j) list"
  up_roster :: "(nat option \<times> string option \<times> int option) list"
  up_header :: "string \<rightharpoonup> string"
  up_convars :: "string \<rightharpoonup> string"
  up_events :: "'j upstream_event list"

record 'j import_api =
  ia_json :: "'j json_api"
  ia_text :: "'j \<Rightarrow> string"
  ia_evidence_hash :: "nat \<Rightarrow> string \<Rightarrow> int \<Rightarrow> (string \<rightharpoonup> 'j) \<Rightarrow> (string, string) result"
  ia_query_plan_hash :: string

definition snapshot_of_row :: "'j json_api \<Rightarrow> nat \<Rightarrow> (string \<rightharpoonup> 'j) \<Rightarrow> player_snapshot option" where
  "snapshot_of_row j n row =
     (let i64 = (\<lambda>name. Option.bind (row name) (js_i64 j)) in
      Option.bind (Option.bind (row ''steamid'') (json_u64 j)) (\<lambda>steam_id.
      Option.bind (i64 ''tick'') (\<lambda>tick.
      Some \<lparr>sn_tick = wrap_i32 tick, sn_ordinal = n, sn_phase = AfterEventPacket, sn_steam_id = steam_id,
        sn_entity_id = map_option wrap_i32 (i64 ''entity_id''),
        sn_team = map_option wrap_i32 (i64 ''team_num''),
        sn_health = map_option wrap_i32 (i64 ''health''),
        sn_alive = Option.bind (row ''is_alive'') (js_bool j),
        sn_life_state = map_option wrap_i32 (i64 ''life_state''),
        sn_round_counter = map_option wrap_i32 (i64 ''total_rounds_played'')\<rparr>)))"

definition snapshots_of :: "'j json_api \<Rightarrow> (string \<rightharpoonup> 'j) list \<Rightarrow> player_snapshot list" where
  "snapshots_of j rows = List.map_filter (\<lambda>(n, row). snapshot_of_row j n row) (List.enumerate 0 rows)"

definition participants_of :: "(nat option \<times> string option \<times> int option) list \<Rightarrow> participant list" where
  "participants_of roster = List.map_filter (\<lambda>(steam_id, name, team).
     map_option (\<lambda>i. \<lparr>pt_steam_id = i, pt_name = name, pt_team = team\<rparr>) steam_id) roster"

text \<open>Collecting into a \<open>BTreeMap\<close>: the last entry of a name wins.\<close>

definition fields_of :: "(string \<times> 'j option) list \<Rightarrow> string \<rightharpoonup> 'j" where
  "fields_of fs = map_of (rev (List.map_filter (\<lambda>(name, v). map_option (\<lambda>x. (name, x)) v) fs))"

type_synonym 'j collected = "parsed_event list \<times> 'j event_receipt list \<times> parsed_round list"

fun collect_events :: "'j import_api \<Rightarrow> string option \<Rightarrow> (nat \<times> 'j upstream_event) list \<Rightarrow> 'j collected
    \<Rightarrow> (parse_diagnostic, 'j collected) result" where
  "collect_events api build [] acc = Inr acc"
| "collect_events api build ((n, e) # rest) (events, receipts, rounds) =
     (let raw_fields = fields_of (ue_fields e) in
      case normalize_event (ia_json api) (ue_name e) raw_fields of
        None \<Rightarrow> Inl ((parser_error SchemaDrift Normalize (''unrecognized requested event '' @ ue_name e))
          \<lparr>pg_game_build := build, pg_tick := Some (ue_tick e), pg_required_item := Some (ue_name e)\<rparr>)
      | Some normalized \<Rightarrow>
        and_then
          (if ue_name e = ''round_end'' then
             (case normalized of RoundEnd r \<Rightarrow>
                Inr (rounds @ [\<lparr>pr_number = length rounds + 1, pr_end_tick = ue_tick e, pr_winner = rn_winner r\<rparr>])
              | _ \<Rightarrow> Inl ((parser_error InternalInvariant Normalize ''round_end normalized to a different event variant'')
                  \<lparr>pg_game_build := build, pg_tick := Some (ue_tick e)\<rparr>))
           else Inr rounds) (\<lambda>rounds.
        case ia_evidence_hash api n (ue_name e) (ue_tick e) raw_fields of
          Inl source \<Rightarrow> Inl ((parser_error InternalInvariant Finalize source)
            \<lparr>pg_game_build := build, pg_tick := Some (ue_tick e)\<rparr>)
        | Inr sha \<Rightarrow> collect_events api build rest
           (events @ [\<lparr>pe_tick = ue_tick e, pe_ordinal = n, pe_event = normalized\<rparr>],
            receipts @ [\<lparr>rc_ordinal = n, rc_event_name = ue_name e, rc_tick = ue_tick e,
              rc_fields = map_option (ia_text api) \<circ> raw_fields, rc_raw_fields = raw_fields,
              rc_evidence_sha256 = sha\<rparr>],
            rounds)))"

definition has_kind :: "event_kind \<Rightarrow> parsed_event list \<Rightarrow> bool" where
  "has_kind k events \<longleftrightarrow> list_ex (\<lambda>e. pe_kind e = k) events"

text \<open>The first required item that is absent, in the order of the checks.\<close>

definition missing_item :: "participant list \<Rightarrow> parsed_round list \<Rightarrow> parsed_event list \<Rightarrow> player_snapshot list
    \<Rightarrow> string option" where
  "missing_item participants rounds events snapshots =
     (if participants = [] then Some ''participants''
      else if rounds = [] then Some ''round_end''
      else if \<not> has_kind PlayerDeathKind events then Some ''player_death''
      else if \<not> has_kind RoundFreezeEndKind events then Some (event_kind_name RoundFreezeEndKind)
      else if \<not> has_kind PlayerHurtKind events then Some (event_kind_name PlayerHurtKind)
      else if snapshots = [] then Some ''player_snapshots'' else None)"

definition DEMOPARSER_COMMIT :: string where
  "DEMOPARSER_COMMIT = ''ba39cc44cd5abfd7f34df2b3c0a7dd3630048311''"

definition DEMOPARSER_BUILD :: string where
  "DEMOPARSER_BUILD = ''parser-0.1.1+openfrag-typed-evidence-diagnostics-1/csgoproto-0.1.5''"

definition EVIDENCE_SEMANTICS_EPOCH :: string where
  "EVIDENCE_SEMANTICS_EPOCH = ''openfrag-evidence-3''"

definition GENERATED_PROTO_BUILD :: string where
  "GENERATED_PROTO_BUILD = ''csgoproto-0.1.5''"

definition assemble_metadata :: "(string \<rightharpoonup> string) \<Rightarrow> (string \<rightharpoonup> string) \<Rightarrow> demo_metadata" where
  "assemble_metadata header convars = \<lparr>dm_map = header ''map_name'', dm_patch_build = header ''patch_version'',
     dm_demo_stamp = header ''demo_file_stamp'', dm_server = header ''server_name'',
     dm_game_directory = header ''game_directory'', dm_tick_rate = convars ''sv_tickrate'',
     dm_tick_rate_unavailable_reason = (if convars ''sv_tickrate'' = None
       then Some ''pinned parser did not expose sv_tickrate in demo convars'' else None)\<rparr>"

definition assemble_output :: "'j import_api \<Rightarrow> string \<Rightarrow> 'j upstream_output \<Rightarrow> (parse_diagnostic, 'j parsed_output) result" where
  "assemble_output api source_sha256 out =
     (let snapshots = snapshots_of (ia_json api) (up_rows out);
          header = up_header out;
          build = header ''patch_version'';
          participants = participants_of (up_roster out) in
      and_then (collect_events api build (List.enumerate 0 (up_events out)) ([], [], []))
        (\<lambda>(events, receipts, rounds).
      let counts = [''participants'' \<mapsto> length participants, ''rounds'' \<mapsto> length rounds,
            ''events'' \<mapsto> length events, ''receipts'' \<mapsto> length receipts,
            ''player_snapshots'' \<mapsto> length snapshots] in
      case missing_item participants rounds events snapshots of
        Some item \<Rightarrow> Inl (missing_evidence_error item build counts)
      | None \<Rightarrow> Inr \<lparr>po_metadata = assemble_metadata header (up_convars out),
          po_participants = participants, po_rounds = rounds, po_events = events, po_receipts = receipts,
          po_snapshots = snapshots,
          po_suspicious_empty = (participants = [] \<or> rounds = [] \<or> \<not> has_kind PlayerDeathKind events),
          po_identity = \<lparr>ii_source_sha256 = source_sha256, ii_parser_commit = DEMOPARSER_COMMIT,
            ii_parser_build = DEMOPARSER_BUILD, ii_generated_proto_build = GENERATED_PROTO_BUILD,
            ii_requested_schema_hash = ia_query_plan_hash api,
            ii_metric_definition_version = ''openfrag-rating-1'', ii_formula_version = ''ofr-1.0.0'',
            ii_evidence_semantics_epoch = EVIDENCE_SEMANTICS_EPOCH\<rparr>\<rparr>))"

end
