(* ===== verification/Frames.thy ===== *)
theory Frames
  imports Demo "HOL-Library.Word"
begin

unbundle bit_operations_syntax

text \<open>
  The scan of a demo file into frames and the mapping of the parser's errors,
  \<open>scan_frame_locations\<close> and \<open>map_upstream_error\<close> of \<open>crates/openfrag-import/src/lib.rs\<close>, with the
  vendored \<open>read_varint\<close> and command table they call.

  Bytes are 8-bit words, a varint is a 32-bit word. The text \<open>{source:?}\<close> of an error is a parameter.
\<close>

section \<open>Errors of the parser\<close>

datatype upstream_stage = UpstreamFirstPass | UpstreamSecondPass

record upstream_context =
  uc_stage :: upstream_stage
  uc_byte_offset :: "nat option"
  uc_tick :: "int option"
  uc_game_build :: "string option"

datatype upstream_error = UpstreamContext upstream_context upstream_error
  | ClassMapperNotFoundFirstPass | FieldNoDecoder | OutOfBitsError | OutOfBytesError | FailedByteRead string
  | UnknownPathOP | EntityNotFound | ClassNotFound | MalformedMessage | StringTableNotFound | Source1DemoError
  | DemoEndsEarly string | UnknownFile | IncorrectMetaDataProp | UnknownPropName string | GameEventListNotSet
  | PropTypeNotFound string | GameEventUnknownId string | UnknownPawnPrefix string | UnknownEntityHandle string
  | ClsIdOutOfBounds | UnknownGameEventVariant string | FileNotFound string | NoEvents | DecompressionFailure string
  | NoSendTableMessage | UserIdNotFound | EventListFallbackNotFound string | VoiceDataWriteError string
  | UnknownDemoCmd int | IllegalPathOp | VectorResizeFailure | ImpossibleCmd | UnkVoiceFormat | MalformedVoicePacket

section \<open>Varints\<close>

type_synonym bytes = "8 word list"

text \<open>The loop of \<open>read_varint\<close>; the first argument counts the bytes it may still read.\<close>

fun varint_loop :: "nat \<Rightarrow> bytes \<Rightarrow> nat \<Rightarrow> 32 word \<Rightarrow> nat \<Rightarrow> (upstream_error, 32 word \<times> nat) result" where
  "varint_loop 0 bytes ptr res shift = Inr (res, ptr)"
| "varint_loop (Suc left) bytes ptr res shift =
     (if ptr < length bytes then
        let b = ucast (bytes ! ptr) :: 32 word;
            res = res OR push_bit (7 * shift) (b AND 127)
        in if b AND 0x80 = 0 then Inr (res, ptr + 1) else varint_loop left bytes (ptr + 1) res (shift + 1)
      else Inl OutOfBytesError)"

definition read_varint :: "bytes \<Rightarrow> nat \<Rightarrow> (upstream_error, 32 word \<times> nat) result" where
  "read_varint bytes ptr = varint_loop 5 bytes ptr 0 0"

lemma varint_loop_progress:
  "varint_loop left bytes ptr res shift = Inr (w, ptr') \<Longrightarrow> ptr \<le> ptr' \<and> (0 < left \<longrightarrow> ptr < ptr' \<and> ptr' \<le> length bytes)"
  by (induction left bytes ptr res shift rule: varint_loop.induct) (fastforce simp: Let_def split: if_splits)+

lemma read_varint_progress: "read_varint bytes ptr = Inr (w, ptr') \<Longrightarrow> ptr < ptr' \<and> ptr' \<le> length bytes"
  using varint_loop_progress [of 5 bytes ptr 0 0 w ptr'] by (simp add: read_varint_def)

section \<open>The scan\<close>

record frame_location =
  fl_index :: nat
  fl_byte_offset :: nat
  fl_tick :: int
  fl_command :: int

definition DEMO_MAGIC :: bytes where
  "DEMO_MAGIC = [0x50, 0x42, 0x44, 0x45, 0x4D, 0x53, 0x32, 0x00]"

text \<open>The discriminants of the generated \<open>EDemoCommands\<close>.\<close>

definition demo_commands :: "int list" where
  "demo_commands = [-1, 0, 1, 2, 3, 4, 5, 6, 7, 8, 9, 10, 11, 12, 13, 14, 15, 16, 17, 18, 19, 64]"

definition demo_cmd_type_from_int :: "int \<Rightarrow> (upstream_error, int) result" where
  "demo_cmd_type_from_int v = (if v \<in> set demo_commands then Inr v else Inl (UnknownDemoCmd v))"

definition usize_max :: nat where
  "usize_max = 2 ^ 64 - 1"

definition saturating_succ_u64 :: "nat \<Rightarrow> nat" where
  "saturating_succ_u64 n = min (n + 1) u64_max"

definition truncated_frame_error :: "(upstream_error \<Rightarrow> string) \<Rightarrow> nat \<Rightarrow> nat \<Rightarrow> int option \<Rightarrow> upstream_error \<Rightarrow> parse_diagnostic" where
  "truncated_frame_error debug frame_index byte_offset tick source =
     (parser_error Truncated FrameScan (debug source))
       \<lparr>pg_byte_offset := Some byte_offset, pg_frame_index := Some frame_index, pg_tick := tick\<rparr>"

definition unsupported_frame_error :: "(upstream_error \<Rightarrow> string) \<Rightarrow> nat \<Rightarrow> nat \<Rightarrow> int \<Rightarrow> int \<Rightarrow> upstream_error \<Rightarrow> parse_diagnostic" where
  "unsupported_frame_error debug frame_index byte_offset tick command source =
     (parser_error UnsupportedCommand FrameScan (debug source))
       \<lparr>pg_byte_offset := Some byte_offset, pg_frame_index := Some frame_index, pg_tick := Some tick,
        pg_command := Some command\<rparr>"

text \<open>One turn of the loop: the location of the frame at \<open>ptr\<close> and the end of its payload.\<close>

definition scan_frame :: "(upstream_error \<Rightarrow> string) \<Rightarrow> bytes \<Rightarrow> nat \<Rightarrow> nat
    \<Rightarrow> (parse_diagnostic, frame_location \<times> nat) result" where
  "scan_frame debug bytes frame_index frame_start =
     (let fail = truncated_frame_error debug frame_index frame_start in
      and_then (map_err (fail None) (read_varint bytes frame_start)) (\<lambda>(command, ptr).
      and_then (map_err (fail None) (read_varint bytes ptr)) (\<lambda>(tick, ptr).
      let tick = sint tick in
      and_then (map_err (fail (Some tick)) (read_varint bytes ptr)) (\<lambda>(size, ptr).
      let command_number = sint (command AND NOT 64) in
      and_then (map_err (unsupported_frame_error debug frame_index frame_start tick command_number)
        (demo_cmd_type_from_int command_number)) (\<lambda>_.
      if usize_max < ptr + unat size then Inl (fail (Some tick) OutOfBytesError)
      else let payload_end = ptr + unat size in
      if length bytes < payload_end then
        Inl (fail (Some tick) (DemoEndsEarly (''declared frame payload ends at byte '' @ show_nat payload_end
          @ '', file has '' @ show_nat (length bytes) @ '' bytes'')))
      else Inr (\<lparr>fl_index = frame_index, fl_byte_offset = frame_start, fl_tick = tick,
        fl_command = command_number\<rparr>, payload_end))))))"

lemma scan_frame_progress:
  "scan_frame debug bytes i start = Inr (loc, ptr) \<Longrightarrow> start < ptr \<and> ptr \<le> length bytes"
  by (auto simp: scan_frame_def Let_def and_then_eq_Inr map_err_eq_Inr dest!: read_varint_progress split: if_splits)

function scan_frames :: "(upstream_error \<Rightarrow> string) \<Rightarrow> bytes \<Rightarrow> nat \<Rightarrow> nat \<Rightarrow> frame_location list
    \<Rightarrow> (parse_diagnostic, frame_location list) result" where
  "scan_frames debug bytes frame_index ptr locations =
     (if ptr < length bytes then
        (case scan_frame debug bytes frame_index ptr of
           Inl e \<Rightarrow> Inl e
         | Inr (loc, payload_end) \<Rightarrow>
             scan_frames debug bytes (saturating_succ_u64 frame_index) payload_end (locations @ [loc]))
      else Inr locations)"
  by auto
termination
  by (relation "measure (\<lambda>(_, bytes, _, ptr, _). length bytes - ptr)") (auto dest: scan_frame_progress)

declare scan_frames.simps [simp del]

definition scan_frame_locations :: "(upstream_error \<Rightarrow> string) \<Rightarrow> bytes \<Rightarrow> (parse_diagnostic, frame_location list) result" where
  "scan_frame_locations debug bytes =
     (if length bytes < 16 then
        Inl ((parser_error Truncated FrameScan ''file ended before the 16-byte Demo preamble'')
          \<lparr>pg_byte_offset := Some (length bytes)\<rparr>)
      else if take (length DEMO_MAGIC) bytes \<noteq> DEMO_MAGIC then
        Inl (parser_error UnsupportedCommand FrameScan ''unsupported Demo file signature'')
      else scan_frames debug bytes 0 16 [])"

section \<open>Mapping the parser's errors\<close>

fun upstream_category :: "upstream_error \<Rightarrow> diagnostic_category" where
  "upstream_category OutOfBitsError = Truncated"
| "upstream_category OutOfBytesError = Truncated"
| "upstream_category (FailedByteRead _) = Truncated"
| "upstream_category (DemoEndsEarly _) = Truncated"
| "upstream_category (UnknownDemoCmd _) = UnsupportedCommand"
| "upstream_category Source1DemoError = UnsupportedCommand"
| "upstream_category UnknownFile = UnsupportedCommand"
| "upstream_category ClassMapperNotFoundFirstPass = SchemaDrift"
| "upstream_category FieldNoDecoder = SchemaDrift"
| "upstream_category UnknownPathOP = SchemaDrift"
| "upstream_category ClassNotFound = SchemaDrift"
| "upstream_category StringTableNotFound = SchemaDrift"
| "upstream_category IncorrectMetaDataProp = SchemaDrift"
| "upstream_category (UnknownPropName _) = SchemaDrift"
| "upstream_category GameEventListNotSet = SchemaDrift"
| "upstream_category (PropTypeNotFound _) = SchemaDrift"
| "upstream_category (GameEventUnknownId _) = SchemaDrift"
| "upstream_category (UnknownPawnPrefix _) = SchemaDrift"
| "upstream_category (UnknownEntityHandle _) = SchemaDrift"
| "upstream_category ClsIdOutOfBounds = SchemaDrift"
| "upstream_category (UnknownGameEventVariant _) = SchemaDrift"
| "upstream_category NoSendTableMessage = SchemaDrift"
| "upstream_category IllegalPathOp = SchemaDrift"
| "upstream_category MalformedMessage = Corrupt"
| "upstream_category (DecompressionFailure _) = Corrupt"
| "upstream_category MalformedVoicePacket = Corrupt"
| "upstream_category NoEvents = MissingEvidence"
| "upstream_category EntityNotFound = InternalInvariant"
| "upstream_category UserIdNotFound = InternalInvariant"
| "upstream_category (EventListFallbackNotFound _) = InternalInvariant"
| "upstream_category (VoiceDataWriteError _) = InternalInvariant"
| "upstream_category VectorResizeFailure = InternalInvariant"
| "upstream_category ImpossibleCmd = InternalInvariant"
| "upstream_category UnkVoiceFormat = InternalInvariant"
| "upstream_category (FileNotFound _) = InternalInvariant"
| "upstream_category (UpstreamContext _ _) = InternalInvariant"

fun split_context :: "upstream_error \<Rightarrow> upstream_context option \<times> upstream_error" where
  "split_context (UpstreamContext context source) = (Some context, source)"
| "split_context source = (None, source)"

definition stage_of :: "upstream_context option \<Rightarrow> parse_stage" where
  "stage_of context = (case context of None \<Rightarrow> FirstPass | Some c \<Rightarrow>
     (case uc_stage c of UpstreamFirstPass \<Rightarrow> FirstPass | UpstreamSecondPass \<Rightarrow> SecondPass))"

text \<open>The last frame that starts at or before the offset.\<close>

definition frame_at :: "frame_location list \<Rightarrow> nat \<Rightarrow> frame_location option" where
  "frame_at frames offset = List.find (\<lambda>f. fl_byte_offset f \<le> offset) (rev frames)"

definition with_frame :: "frame_location list \<Rightarrow> parse_diagnostic \<Rightarrow> parse_diagnostic" where
  "with_frame frames d = (case Option.bind (pg_byte_offset d) (frame_at frames) of
     None \<Rightarrow> d
   | Some f \<Rightarrow> d\<lparr>pg_frame_index := Some (fl_index f), pg_command := Some (fl_command f),
       pg_tick := or_else (pg_tick d) (Some (fl_tick f))\<rparr>)"

definition map_upstream_error :: "(upstream_error \<Rightarrow> string) \<Rightarrow> upstream_error \<Rightarrow> frame_location list \<Rightarrow> parse_diagnostic" where
  "map_upstream_error debug error frames =
     (let (context, source) = split_context error;
          mapped = parser_error (upstream_category source) (stage_of context) (debug source);
          mapped = (case context of None \<Rightarrow> mapped
            | Some c \<Rightarrow> with_frame frames (mapped\<lparr>pg_game_build := uc_game_build c,
                pg_byte_offset := uc_byte_offset c, pg_tick := uc_tick c\<rparr>)) in
      case source of UnknownDemoCmd command \<Rightarrow> mapped\<lparr>pg_command := Some command\<rparr> | _ \<Rightarrow> mapped)"

end
