(* ===== verification/Frames_Correct.thy ===== *)
theory Frames_Correct
  imports Frames
begin

text \<open>
  What the scan of a demo guarantees: it reads back what a writer of frames wrote, its frames tile the
  file, a failure points behind the longest well-formed prefix, and an error of the parser is
  attributed to the frame that holds its offset.
\<close>

section \<open>Writing varints\<close>

fun put_varint_loop :: "nat \<Rightarrow> 32 word \<Rightarrow> bytes" where
  "put_varint_loop 0 w = []"
| "put_varint_loop (Suc left) w =
     (if drop_bit 7 w = 0 then [ucast w]
      else ucast (take_bit 7 w OR 128) # put_varint_loop left (drop_bit 7 w))"

definition put_varint :: "32 word \<Rightarrow> bytes" where
  "put_varint w = put_varint_loop 5 w"

lemma and_127: "w AND 127 = take_bit 7 w" for w :: "32 word"
  by (simp add: take_bit_eq_mask mask_eq_exp_minus_1)

lemma and_128: "w AND 128 = 0 \<longleftrightarrow> \<not> bit w 7" for w :: "32 word"
  using and_exp_eq_0_iff_not_bit [of w 7] by simp

lemma bit_128: "bit (128 :: 'a::len word) i \<longleftrightarrow> i = 7 \<and> 7 < LENGTH('a)"
  using bit_exp_iff [of 7 i, where 'a = "'a word"] by auto

lemma bit_128_int: "bit (128 :: int) i \<longleftrightarrow> i = 7" "bit (128 :: nat) i \<longleftrightarrow> i = 7"
  using bit_exp_iff [of 7 i, where 'a = int] bit_exp_iff [of 7 i, where 'a = nat] by auto

lemma put_first_byte:
  fixes v :: "32 word"
  shows "take_bit 7 (ucast (ucast (take_bit 7 v OR 128) :: 8 word) :: 32 word) = take_bit 7 v"
    "bit (ucast (ucast (take_bit 7 v OR 128) :: 8 word) :: 32 word) 7"
    "drop_bit 7 v = 0 \<Longrightarrow> take_bit 7 (ucast (ucast v :: 8 word) :: 32 word) = v"
    "drop_bit 7 v = 0 \<Longrightarrow> \<not> bit (ucast (ucast v :: 8 word) :: 32 word) 7"
proof -
  show "take_bit 7 (ucast (ucast (take_bit 7 v OR 128) :: 8 word) :: 32 word) = take_bit 7 v"
    by (rule bit_word_eqI) (auto simp: bit_simps bit_128 bit_128_int)
  show "bit (ucast (ucast (take_bit 7 v OR 128) :: 8 word) :: 32 word) 7"
    by (simp add: bit_simps bit_128 bit_128_int)
next
  assume zero: "drop_bit 7 v = 0"
  have "bit (drop_bit 7 v) i \<longleftrightarrow> bit v (7 + i)" for i by (simp add: bit_drop_bit_eq)
  with zero have high: "\<not> bit v (7 + i)" for i by simp
  have low: "i < 7" if "bit v i" for i
    using high [of "i - 7"] that by (cases "i < 7") auto
  show "take_bit 7 (ucast (ucast v :: 8 word) :: 32 word) = v"
    by (rule bit_word_eqI) (auto simp: bit_simps dest: low)
  show "\<not> bit (ucast (ucast v :: 8 word) :: 32 word) 7"
    using high [of 0] by (simp add: bit_simps)
qed

lemma take_bit_grow:
  "take_bit m w OR push_bit m (take_bit k (drop_bit m w)) = take_bit (m + k) w" for w :: "32 word"
  by (rule bit_word_eqI) (auto simp: bit_simps)

lemma varint_loop_put:
  "left + shift = 5 \<Longrightarrow> ptr = length pre \<Longrightarrow> res = take_bit (7 * shift) w \<Longrightarrow>
     varint_loop left (pre @ put_varint_loop left (drop_bit (7 * shift) w) @ post) ptr res shift
       = Inr (w, ptr + length (put_varint_loop left (drop_bit (7 * shift) w)))"
proof (induction left arbitrary: shift ptr pre res)
  case 0
  then have "res = w" by (simp add: take_bit_word_eq_self)
  then show ?case by simp
next
  case (Suc left)
  let ?v = "drop_bit (7 * shift) w"
  have drop: "drop_bit 7 ?v = drop_bit (7 * Suc shift) w" by (simp add: add.commute)
  show ?case
  proof (cases "drop_bit 7 ?v = 0")
    case True
    have "take_bit (7 * shift) w OR push_bit (7 * shift) ?v = w"
    proof (rule bit_word_eqI)
      fix i assume "i < LENGTH(32)"
      then show "bit (take_bit (7 * shift) w OR push_bit (7 * shift) ?v) i \<longleftrightarrow> bit w i"
        by (cases "i < 7 * shift") (auto simp: bit_simps)
    qed
    then show ?thesis using True put_first_byte(3,4) [OF True] Suc.prems
      by (simp add: Let_def and_127 and_128 nth_append)
  next
    case False
    let ?b = "ucast (take_bit 7 ?v OR 128) :: 8 word"
    have put: "put_varint_loop (Suc left) ?v = ?b # put_varint_loop left (drop_bit (7 * Suc shift) w)"
      using False by (simp only: put_varint_loop.simps drop if_False)
    have grow: "res OR push_bit (7 * shift) (take_bit 7 (ucast ?b)) = take_bit (7 * Suc shift) w"
      using take_bit_grow [of "7 * shift" w 7] Suc.prems(3) by (simp add: put_first_byte(1) add.commute)
    have "varint_loop (Suc left) (pre @ put_varint_loop (Suc left) ?v @ post) ptr res shift
        = varint_loop left ((pre @ [?b]) @ put_varint_loop left (drop_bit (7 * Suc shift) w) @ post)
            (ptr + 1) (take_bit (7 * Suc shift) w) (shift + 1)"
      unfolding put using put_first_byte(2) [of ?v] grow Suc.prems(2) by (simp add: Let_def and_127 and_128)
    also have "\<dots> = Inr (w, ptr + 1 + length (put_varint_loop left (drop_bit (7 * Suc shift) w)))"
      using Suc.IH [of "Suc shift" "ptr + 1" "pre @ [?b]"] Suc.prems(1,2) by simp
    finally show ?thesis unfolding put by simp
  qed
qed

lemma read_put_varint:
  "read_varint (pre @ put_varint w @ post) (length pre) = Inr (w, length pre + length (put_varint w))"
  using varint_loop_put [of 5 0 "length pre" pre 0 w post] by (simp add: read_varint_def put_varint_def)

section \<open>Writing frames\<close>

record raw_frame =
  fr_command :: "32 word"
  fr_tick :: "32 word"
  fr_payload :: bytes

definition encode_frame :: "raw_frame \<Rightarrow> bytes" where
  "encode_frame f = put_varint (fr_command f) @ put_varint (fr_tick f)
     @ put_varint (word_of_nat (length (fr_payload f))) @ fr_payload f"

definition encode_demo :: "bytes \<Rightarrow> raw_frame list \<Rightarrow> bytes" where
  "encode_demo preamble fs = DEMO_MAGIC @ preamble @ concat (map encode_frame fs)"

definition writable_frame :: "raw_frame \<Rightarrow> bool" where
  "writable_frame f \<longleftrightarrow> sint (fr_command f AND NOT 64) \<in> set demo_commands \<and> length (fr_payload f) < 2 ^ 32"

definition location_of :: "raw_frame \<Rightarrow> nat \<Rightarrow> nat \<Rightarrow> frame_location" where
  "location_of f index offset = \<lparr>fl_index = index, fl_byte_offset = offset, fl_tick = sint (fr_tick f),
     fl_command = sint (fr_command f AND NOT 64)\<rparr>"

fun locations_of :: "raw_frame list \<Rightarrow> nat \<Rightarrow> nat \<Rightarrow> frame_location list" where
  "locations_of [] index offset = []"
| "locations_of (f # fs) index offset =
     location_of f index offset # locations_of fs (index + 1) (offset + length (encode_frame f))"

lemma put_varint_nonempty: "put_varint w \<noteq> []"
  by (simp add: put_varint_def numeral_eq_Suc)

lemma put_varint_short:
  "drop_bit 7 w = 0 \<Longrightarrow> put_varint w = [ucast w]"
  "drop_bit 7 w \<noteq> 0 \<Longrightarrow> drop_bit 14 w = 0 \<Longrightarrow>
     put_varint w = [ucast (take_bit 7 w OR 128), ucast (drop_bit 7 w)]"
proof -
  have five: "put_varint w = put_varint_loop (Suc (Suc 3)) w" by (simp add: put_varint_def)
  show "drop_bit 7 w = 0 \<Longrightarrow> put_varint w = [ucast w]" unfolding five put_varint_loop.simps by simp
  show "drop_bit 7 w \<noteq> 0 \<Longrightarrow> drop_bit 14 w = 0 \<Longrightarrow>
     put_varint w = [ucast (take_bit 7 w OR 128), ucast (drop_bit 7 w)]"
    unfolding five put_varint_loop.simps by simp
qed

lemma encode_frame_nonempty: "0 < length (encode_frame f)"
  by (simp add: encode_frame_def put_varint_nonempty)

lemma scan_frame_encode:
  assumes "writable_frame f" "length (pre @ encode_frame f @ post) \<le> usize_max"
  shows "scan_frame debug (pre @ encode_frame f @ post) i (length pre)
    = Inr (location_of f i (length pre), length pre + length (encode_frame f))"
proof -
  let ?c = "put_varint (fr_command f)" and ?t = "put_varint (fr_tick f)"
    and ?n = "put_varint (word_of_nat (length (fr_payload f)))"
  have size: "unat (word_of_nat (length (fr_payload f)) :: 32 word) = length (fr_payload f)"
    using assms(1) by (simp add: writable_frame_def unsigned_of_nat take_bit_nat_eq_self)
  have reads: "read_varint (pre @ encode_frame f @ post) (length pre) = Inr (fr_command f, length pre + length ?c)"
    "read_varint (pre @ encode_frame f @ post) (length pre + length ?c)
      = Inr (fr_tick f, length pre + length ?c + length ?t)"
    "read_varint (pre @ encode_frame f @ post) (length pre + length ?c + length ?t)
      = Inr (word_of_nat (length (fr_payload f)), length pre + length ?c + length ?t + length ?n)"
    using read_put_varint [of pre "fr_command f" "?t @ ?n @ fr_payload f @ post"]
      read_put_varint [of "pre @ ?c" "fr_tick f" "?n @ fr_payload f @ post"]
      read_put_varint [of "pre @ ?c @ ?t" "word_of_nat (length (fr_payload f))" "fr_payload f @ post"]
    by (simp_all add: encode_frame_def add.assoc)
  have "length (encode_frame f) = length ?c + length ?t + length ?n + length (fr_payload f)"
    by (simp add: encode_frame_def)
  with assms show ?thesis
    by (simp add: scan_frame_def Let_def reads size demo_cmd_type_from_int_def writable_frame_def location_of_def)
qed

lemma scan_frames_encode:
  assumes "list_all writable_frame fs" "length (pre @ concat (map encode_frame fs)) \<le> usize_max"
    "i \<le> length pre" "ptr = length pre"
  shows "scan_frames debug (pre @ concat (map encode_frame fs)) i ptr locs = Inr (locs @ locations_of fs i ptr)"
  using assms
proof (induction fs arbitrary: pre i ptr locs)
  case Nil
  then show ?case by (simp add: scan_frames.simps)
next
  case (Cons f fs)
  let ?rest = "concat (map encode_frame fs)"
  have scan: "scan_frame debug (pre @ encode_frame f @ ?rest) i (length pre)
      = Inr (location_of f i (length pre), length pre + length (encode_frame f))"
    by (rule scan_frame_encode) (use Cons.prems in auto)
  have one: "1 \<le> length (encode_frame f)" using encode_frame_nonempty [of f] by linarith
  have succ: "saturating_succ_u64 i = i + 1"
  proof -
    have "length pre + length (encode_frame f) \<le> usize_max" using Cons.prems(2) by simp
    with one Cons.prems(3) have "i + 1 \<le> usize_max" by linarith
    then show ?thesis by (simp add: saturating_succ_u64_def usize_max_def u64_max_def)
  qed
  have "scan_frames debug ((pre @ encode_frame f) @ ?rest) (i + 1) (length (pre @ encode_frame f))
        (locs @ [location_of f i (length pre)])
      = Inr ((locs @ [location_of f i (length pre)]) @ locations_of fs (i + 1) (length (pre @ encode_frame f)))"
    by (rule Cons.IH) (use Cons.prems one in \<open>auto simp del: length_greater_0_conv dest: order.trans\<close>)
  then show ?case using Cons.prems(4) encode_frame_nonempty [of f]
    by (subst scan_frames.simps) (simp add: scan succ)
qed

text \<open>
  C36: The scan reads back what a writer of frames wrote: a file of the magic, eight bytes and frames with
  known commands is scanned into one location per frame, with its number, its offset, its tick and its
  command without the compression flag, whatever the payloads hold.
\<close>
theorem frame_scan_roundtrip:
  assumes "length preamble = 8" "list_all writable_frame fs" "length (encode_demo preamble fs) \<le> usize_max"
  shows "scan_frame_locations debug (encode_demo preamble fs) = Inr (locations_of fs 0 16)"
proof -
  have "scan_frames debug ((DEMO_MAGIC @ preamble) @ concat (map encode_frame fs)) 0 16 []
      = Inr ([] @ locations_of fs 0 16)"
    by (rule scan_frames_encode) (use assms in \<open>auto simp: encode_demo_def DEMO_MAGIC_def\<close>)
  then show ?thesis using assms(1) by (simp add: scan_frame_locations_def encode_demo_def DEMO_MAGIC_def)
qed

definition sample_frames :: "raw_frame list" where
  "sample_frames = [\<lparr>fr_command = 1, fr_tick = 5, fr_payload = [7, 7, 7]\<rparr>,
     \<lparr>fr_command = 71, fr_tick = 300, fr_payload = []\<rparr>]"

theorem frame_scan_roundtrip_witness:
  "scan_frame_locations (\<lambda>_. '''') (encode_demo [0, 0, 0, 0, 0, 0, 0, 0] sample_frames)
    = Inr [\<lparr>fl_index = 0, fl_byte_offset = 16, fl_tick = 5, fl_command = 1\<rparr>,
        \<lparr>fl_index = 1, fl_byte_offset = 22, fl_tick = 300, fl_command = 7\<rparr>]"
proof -
  have bytes: "put_varint 1 = [1]" "put_varint 5 = [5]" "put_varint 3 = [3]" "put_varint 71 = [71]"
    "put_varint 300 = [172, 2]" "put_varint 0 = [0]"
    by (simp_all add: put_varint_short)
  then have "length (encode_demo [0, 0, 0, 0, 0, 0, 0, 0] sample_frames) \<le> usize_max"
    by (simp add: encode_demo_def sample_frames_def encode_frame_def DEMO_MAGIC_def usize_max_def)
  moreover have "list_all writable_frame sample_frames"
    by (simp add: sample_frames_def writable_frame_def demo_commands_def)
  moreover have "locations_of sample_frames 0 16 = [\<lparr>fl_index = 0, fl_byte_offset = 16, fl_tick = 5, fl_command = 1\<rparr>,
        \<lparr>fl_index = 1, fl_byte_offset = 22, fl_tick = 300, fl_command = 7\<rparr>]"
    by (simp add: sample_frames_def location_of_def encode_frame_def bytes)
  ultimately show ?thesis
    using frame_scan_roundtrip [of "[0, 0, 0, 0, 0, 0, 0, 0]" sample_frames] by simp
qed

section \<open>Where a scan fails\<close>

lemma varint_loop_take:
  "varint_loop left bytes ptr res shift = Inr (w, p) \<Longrightarrow> p \<le> n \<Longrightarrow>
     varint_loop left (take n bytes) ptr res shift = Inr (w, p)"
proof (induction left bytes ptr res shift rule: varint_loop.induct)
  case (2 left bytes ptr res shift)
  then have "ptr < p" using varint_loop_progress [OF 2(2)] by simp
  with 2 show ?case by (auto simp: Let_def split: if_splits)
qed simp

lemma read_varint_take:
  "read_varint bytes ptr = Inr (w, p) \<Longrightarrow> p \<le> n \<Longrightarrow> read_varint (take n bytes) ptr = Inr (w, p)"
  by (simp add: read_varint_def varint_loop_take)

lemma scan_frame_take:
  assumes "scan_frame debug bytes i start = Inr (loc, e)" "e \<le> n"
  shows "scan_frame debug (take n bytes) i start = Inr (loc, e)"
proof -
  obtain command p1 tick p2 size p3 c where
    reads: "read_varint bytes start = Inr (command, p1)" "read_varint bytes p1 = Inr (tick, p2)"
      "read_varint bytes p2 = Inr (size, p3)"
    and rest: "demo_cmd_type_from_int (sint (command AND NOT 64)) = Inr c" "p3 + unat size \<le> usize_max"
      "p3 + unat size \<le> length bytes" "e = p3 + unat size"
      "loc = \<lparr>fl_index = i, fl_byte_offset = start, fl_tick = sint tick, fl_command = sint (command AND NOT 64)\<rparr>"
    using assms(1) by (auto simp: scan_frame_def Let_def and_then_eq_Inr map_err_eq_Inr split: if_splits)
  from reads [THEN read_varint_progress] rest(4) assms(2) have "p1 \<le> n" "p2 \<le> n" "p3 \<le> n" by linarith+
  then have "read_varint (take n bytes) start = Inr (command, p1)" "read_varint (take n bytes) p1 = Inr (tick, p2)"
      "read_varint (take n bytes) p2 = Inr (size, p3)"
    using reads by (simp_all add: read_varint_take)
  with rest assms(2) show ?thesis by (simp add: scan_frame_def Let_def)
qed

definition frame_error_at :: "nat \<Rightarrow> nat \<Rightarrow> parse_diagnostic \<Rightarrow> bool" where
  "frame_error_at i start e \<longleftrightarrow> pg_byte_offset e = Some start \<and> pg_frame_index e = Some i
     \<and> pg_stage e = FrameScan \<and> pg_category e \<in> {Truncated, UnsupportedCommand}"

lemma frame_errors [simp]:
  "frame_error_at i start (truncated_frame_error debug i start tick source)"
  "frame_error_at i start (unsupported_frame_error debug i start t c source)"
  by (simp_all add: frame_error_at_def truncated_frame_error_def unsupported_frame_error_def parser_error_def)

lemma frame_errors_comp [simp]:
  "frame_error_at i start \<circ> truncated_frame_error debug i start tick = (\<lambda>_. True)"
  "frame_error_at i start \<circ> unsupported_frame_error debug i start t c = (\<lambda>_. True)"
  by (simp_all add: fun_eq_iff)

lemma scan_frame_error: "scan_frame debug bytes i start = Inl e \<Longrightarrow> frame_error_at i start e"
proof (erule errors_inD [rotated])
  show "errors_in (frame_error_at i start) (scan_frame debug bytes i start)"
    unfolding scan_frame_def Let_def
    by (intro errors_in_intros) (simp_all only: errors_in_simps frame_errors_comp errors_in_True frame_errors)
qed

lemma scan_frames_prefix:
  "scan_frames debug bytes i ptr locs = Inl e \<Longrightarrow> i + (length bytes - ptr) \<le> u64_max \<Longrightarrow>
     \<exists>n new. pg_byte_offset e = Some n \<and> ptr \<le> n \<and> n < length bytes
       \<and> pg_frame_index e = Some (i + length new) \<and> pg_stage e = FrameScan
       \<and> pg_category e \<in> {Truncated, UnsupportedCommand}
       \<and> scan_frames debug (take n bytes) i ptr locs = Inr (locs @ new)"
proof (induction debug bytes i ptr locs rule: scan_frames.induct)
  case (1 debug bytes i ptr locs)
  from 1(2) have ptr: "ptr < length bytes" by (simp add: scan_frames.simps split: if_splits)
  show ?case
  proof (cases "scan_frame debug bytes i ptr")
    case (Inl e')
    with 1(2) ptr have "e' = e" by (simp add: scan_frames.simps)
    with Inl scan_frame_error [of debug bytes i ptr e] ptr show ?thesis
      by (auto intro!: exI [of _ "[]"] simp: scan_frames.simps frame_error_at_def)
  next
    case (Inr r)
    obtain loc q where r: "r = (loc, q)" by fastforce
    note scan = Inr [unfolded r]
    from scan_frame_progress [OF scan] have q: "ptr < q" "q \<le> length bytes" by auto
    with 1(3) have succ: "saturating_succ_u64 i = i + 1" by (simp add: saturating_succ_u64_def)
    have rest: "scan_frames debug bytes (i + 1) q (locs @ [loc]) = Inl e"
      using 1(2) ptr scan succ by (simp add: scan_frames.simps [of debug bytes i ptr])
    obtain n new where n: "pg_byte_offset e = Some n" "q \<le> n" "n < length bytes"
      "pg_frame_index e = Some (i + 1 + length new)" "pg_stage e = FrameScan"
      "pg_category e \<in> {Truncated, UnsupportedCommand}"
      "scan_frames debug (take n bytes) (i + 1) q (locs @ [loc]) = Inr ((locs @ [loc]) @ new)"
    proof -
      have "i + 1 + (length bytes - q) \<le> u64_max" using 1(3) q by linarith
      with 1(1) [OF ptr scan refl] rest succ that show thesis by auto
    qed
    moreover have "scan_frames debug (take n bytes) i ptr locs = Inr (locs @ loc # new)"
      using n ptr q succ scan_frame_take [OF scan n(2)] by (simp add: scan_frames.simps [of debug "take n bytes" i])
    ultimately show ?thesis using q by (intro exI [of _ n] exI [of _ "loc # new"]) simp
  qed
qed

text \<open>
  A failed scan of a file with a valid preamble points behind its longest well-formed prefix: the offset
  of the diagnostic is a frame boundary inside the file, the bytes before it scan without an error,
  and the frame number of the diagnostic is the number of frames they hold.
\<close>
theorem scan_error_after_good_prefix:
  assumes "scan_frame_locations debug bytes = Inl e" "16 \<le> length bytes" "take 8 bytes = DEMO_MAGIC"
    "length bytes \<le> u64_max"
  shows "\<exists>n frames. pg_byte_offset e = Some n \<and> 16 \<le> n \<and> n < length bytes
    \<and> scan_frame_locations debug (take n bytes) = Inr frames \<and> pg_frame_index e = Some (length frames)
    \<and> pg_stage e = FrameScan \<and> pg_category e \<in> {Truncated, UnsupportedCommand}"
proof -
  have "length DEMO_MAGIC = 8" by (simp add: DEMO_MAGIC_def)
  with assms have "scan_frames debug bytes 0 16 [] = Inl e" by (simp add: scan_frame_locations_def)
  moreover have "0 + (length bytes - 16) \<le> u64_max" using assms(4) by simp
  ultimately obtain n new where
    n: "pg_byte_offset e = Some n" "16 \<le> n" "n < length bytes" "pg_frame_index e = Some (length new)"
      "pg_stage e = FrameScan" "pg_category e \<in> {Truncated, UnsupportedCommand}"
      "scan_frames debug (take n bytes) 0 16 [] = Inr new"
    by (auto dest: scan_frames_prefix)
  then have "scan_frame_locations debug (take n bytes) = Inr new"
    using assms(2,3) \<open>length DEMO_MAGIC = 8\<close> by (simp add: scan_frame_locations_def min_def)
  with n show ?thesis by blast
qed

section \<open>Which frame an error belongs to\<close>

fun tiles :: "(upstream_error \<Rightarrow> string) \<Rightarrow> bytes \<Rightarrow> nat \<Rightarrow> frame_location list \<Rightarrow> bool" where
  "tiles debug bytes ptr [] \<longleftrightarrow> length bytes \<le> ptr"
| "tiles debug bytes ptr (l # ls) \<longleftrightarrow>
     fl_byte_offset l = ptr \<and> (\<exists>e. scan_frame debug bytes (fl_index l) ptr = Inr (l, e) \<and> tiles debug bytes e ls)"

lemma scan_frame_location: "scan_frame debug bytes i start = Inr (loc, e) \<Longrightarrow> fl_index loc = i \<and> fl_byte_offset loc = start"
  by (auto simp: scan_frame_def Let_def and_then_eq_Inr split: if_splits)

lemma scan_frames_tiles:
  "scan_frames debug bytes i ptr locs = Inr locs' \<Longrightarrow> \<exists>new. locs' = locs @ new \<and> tiles debug bytes ptr new"
proof (induction debug bytes i ptr locs rule: scan_frames.induct)
  case (1 debug bytes i ptr locs)
  show ?case
  proof (cases "ptr < length bytes")
    case True
    with 1(2) obtain loc q where scan: "scan_frame debug bytes i ptr = Inr (loc, q)"
      by (auto simp: scan_frames.simps [of debug bytes i] split: sum.splits)
    with 1(2) True have "scan_frames debug bytes (saturating_succ_u64 i) q (locs @ [loc]) = Inr locs'"
      by (simp add: scan_frames.simps [of debug bytes i])
    from 1(1) [OF True scan refl this] obtain new where "locs' = (locs @ [loc]) @ new" "tiles debug bytes q new" by blast
    with scan scan_frame_location [OF scan] show ?thesis by (intro exI [of _ "loc # new"]) simp
  qed (use 1(2) in \<open>simp add: scan_frames.simps [of debug bytes i]\<close>)
qed

lemma find_append: "List.find P (xs @ ys) = (case List.find P xs of None \<Rightarrow> List.find P ys | Some x \<Rightarrow> Some x)"
  by (induction xs) auto

lemma tiles_offsets: "tiles debug bytes ptr ls \<Longrightarrow> l \<in> set ls \<Longrightarrow> ptr \<le> fl_byte_offset l"
  by (induction ls arbitrary: ptr) (fastforce dest: scan_frame_progress)+

lemma frame_at_tiles:
  "tiles debug bytes ptr ls \<Longrightarrow> ptr \<le> offset \<Longrightarrow> offset < length bytes \<Longrightarrow>
     \<exists>f e. frame_at ls offset = Some f \<and> f \<in> set ls \<and> fl_byte_offset f \<le> offset \<and> offset < e
       \<and> scan_frame debug bytes (fl_index f) (fl_byte_offset f) = Inr (f, e)"
proof (induction ls arbitrary: ptr)
  case (Cons l ls)
  then obtain e where e: "fl_byte_offset l = ptr" "scan_frame debug bytes (fl_index l) ptr = Inr (l, e)"
    "tiles debug bytes e ls" by auto
  show ?case
  proof (cases "offset < e")
    case True
    then have "frame_at ls offset = None"
      using tiles_offsets [OF e(3)] by (fastforce simp: frame_at_def find_None_iff)
    with True e Cons.prems show ?thesis by (auto simp: frame_at_def find_append)
  next
    case False
    with Cons.IH [OF e(3)] Cons.prems show ?thesis by (fastforce simp: frame_at_def find_append)
  qed
qed simp

text \<open>
  An error that the parser reports with an offset behind the preamble is attributed to the one frame that
  holds that offset: the diagnostic has the number of that frame, its tick unless the parser knows
  a better one, and its command unless the error names another.
\<close>
theorem parser_error_located:
  assumes "scan_frame_locations debug bytes = Inr frames" "uc_byte_offset context = Some offset"
    "16 \<le> offset" "offset < length bytes"
  shows "\<exists>f e. f \<in> set frames \<and> fl_byte_offset f \<le> offset \<and> offset < e
    \<and> scan_frame debug bytes (fl_index f) (fl_byte_offset f) = Inr (f, e)
    \<and> (let d = map_upstream_error debug (UpstreamContext context source) frames in
        pg_category d = upstream_category source \<and> pg_byte_offset d = Some offset
        \<and> pg_frame_index d = Some (fl_index f)
        \<and> pg_tick d = Some (case uc_tick context of None \<Rightarrow> fl_tick f | Some t \<Rightarrow> t)
        \<and> pg_command d = Some (case source of UnknownDemoCmd c \<Rightarrow> c | _ \<Rightarrow> fl_command f))"
proof -
  from assms(1) have "scan_frames debug bytes 0 16 [] = Inr frames"
    by (simp add: scan_frame_locations_def split: if_splits)
  from scan_frames_tiles [OF this] have "tiles debug bytes 16 frames" by auto
  from frame_at_tiles [OF this assms(3,4)] obtain f e where
    f: "frame_at frames offset = Some f" "f \<in> set frames" "fl_byte_offset f \<le> offset" "offset < e"
      "scan_frame debug bytes (fl_index f) (fl_byte_offset f) = Inr (f, e)" by blast
  have "(let d = map_upstream_error debug (UpstreamContext context source) frames in
        pg_category d = upstream_category source \<and> pg_byte_offset d = Some offset
        \<and> pg_frame_index d = Some (fl_index f)
        \<and> pg_tick d = Some (case uc_tick context of None \<Rightarrow> fl_tick f | Some t \<Rightarrow> t)
        \<and> pg_command d = Some (case source of UnknownDemoCmd c \<Rightarrow> c | _ \<Rightarrow> fl_command f))"
    using f(1) assms(2)
    by (simp add: map_upstream_error_def with_frame_def parser_error_def or_else_def Let_def
        split: option.split upstream_error.split)
  with f show ?thesis by blast
qed

section \<open>A broken file\<close>

text \<open>A preamble, one frame and a cut second one.\<close>

definition cut_demo :: bytes where
  "cut_demo = DEMO_MAGIC @ [0, 0, 0, 0, 0, 0, 0, 0] @ [1, 5, 1, 9] @ [7, 6]"

lemma cut_scan:
  "scan_frame_locations debug cut_demo = Inl (truncated_frame_error debug 1 20 (Some 6) OutOfBytesError)"
  "scan_frame_locations debug (take 20 cut_demo)
    = Inr [\<lparr>fl_index = 0, fl_byte_offset = 16, fl_tick = 5, fl_command = 1\<rparr>]"
proof -
  let ?two = "Suc (Suc 3)"
  have read: "read_varint bytes ptr = varint_loop ?two bytes ptr 0 0" for bytes ptr by (simp add: read_varint_def)
  have first: "scan_frame debug cut_demo 0 16 = Inr (\<lparr>fl_index = 0, fl_byte_offset = 16, fl_tick = 5, fl_command = 1\<rparr>, 20)"
    unfolding scan_frame_def read varint_loop.simps
    by (simp add: cut_demo_def DEMO_MAGIC_def demo_cmd_type_from_int_def demo_commands_def usize_max_def Let_def)
  have second: "scan_frame debug cut_demo 1 20 = Inl (truncated_frame_error debug 1 20 (Some 6) OutOfBytesError)"
    unfolding scan_frame_def read varint_loop.simps
    by (simp add: cut_demo_def DEMO_MAGIC_def Let_def)
  have preamble: "length cut_demo = 22" "length DEMO_MAGIC = 8" "take 8 cut_demo = DEMO_MAGIC"
    by (simp_all add: cut_demo_def DEMO_MAGIC_def)
  have succ: "saturating_succ_u64 0 = 1" by (simp add: saturating_succ_u64_def u64_max_def)
  show "scan_frame_locations debug cut_demo = Inl (truncated_frame_error debug 1 20 (Some 6) OutOfBytesError)"
    by (simp add: scan_frame_locations_def preamble scan_frames.simps [of _ _ 0] scan_frames.simps [of _ _ "Suc 0"]
        first second [unfolded One_nat_def] succ)
  show "scan_frame_locations debug (take 20 cut_demo)
    = Inr [\<lparr>fl_index = 0, fl_byte_offset = 16, fl_tick = 5, fl_command = 1\<rparr>]"
    by (simp add: scan_frame_locations_def preamble scan_frames.simps [of _ _ 0] scan_frames.simps [of _ _ "Suc 0"]
        scan_frame_take [OF first] succ min_def)
qed

theorem scan_error_after_good_prefix_witness:
  "\<exists>n frames. n < length cut_demo \<and> scan_frame_locations (\<lambda>_. []) (take n cut_demo) = Inr frames \<and> length frames = 1"
proof -
  have "16 \<le> length cut_demo" "take 8 cut_demo = DEMO_MAGIC" "length cut_demo \<le> u64_max"
    by (simp_all add: cut_demo_def DEMO_MAGIC_def u64_max_def)
  from scan_error_after_good_prefix [OF cut_scan(1) this]
  show ?thesis by (fastforce simp: truncated_frame_error_def)
qed

theorem parser_error_located_witness:
  "pg_frame_index (map_upstream_error (\<lambda>_. []) (UpstreamContext \<lparr>uc_stage = UpstreamSecondPass,
     uc_byte_offset = Some 18, uc_tick = None, uc_game_build = None\<rparr> MalformedMessage)
     [\<lparr>fl_index = 0, fl_byte_offset = 16, fl_tick = 5, fl_command = 1\<rparr>]) = Some 0"
proof -
  have "length cut_demo = 22" by (simp add: cut_demo_def DEMO_MAGIC_def)
  with parser_error_located [OF cut_scan(2), of "\<lparr>uc_stage = UpstreamSecondPass, uc_byte_offset = Some 18,
    uc_tick = None, uc_game_build = None\<rparr>" 18 "\<lambda>_. []" MalformedMessage]
  show ?thesis by (auto simp: Let_def)
qed

end
