(* ===== verification/Evidence_Json.thy ===== *)
theory Evidence_Json
  imports Demo
begin

text \<open>
  The normalized evidence as JSON: \<open>compatibility_hashes\<close>, \<open>normalized_event_json\<close> and the published
  schema \<open>normalized_event_schema\<close> of \<open>crates/openfrag-import/src/lib.rs\<close>.

  An object is the list of its members in the order of the source; \<open>serde_json\<close> writes them in a fixed
  order of its own, so equal values still have equal bytes. SHA-256 over the bytes is a parameter.
\<close>

section \<open>Values\<close>

datatype json = JNull | JBool bool | JInt int | JString string | JArray "json list"
  | JObject "(string \<times> json) list"

definition json_option :: "('a \<Rightarrow> json) \<Rightarrow> 'a option \<Rightarrow> json" where
  "json_option f v = (case v of None \<Rightarrow> JNull | Some x \<Rightarrow> f x)"

abbreviation json_nat :: "nat \<Rightarrow> json" where "json_nat n \<equiv> JInt (int n)"

abbreviation optional_nat :: "nat option \<Rightarrow> json" where "optional_nat \<equiv> json_option json_nat"

abbreviation optional_int :: "int option \<Rightarrow> json" where "optional_int \<equiv> json_option JInt"

abbreviation optional_string :: "string option \<Rightarrow> json" where "optional_string \<equiv> json_option JString"

abbreviation optional_bool :: "bool option \<Rightarrow> json" where "optional_bool \<equiv> json_option JBool"

section \<open>The evidence\<close>

definition NORMALIZED_SCHEMA_VERSION :: string where
  "NORMALIZED_SCHEMA_VERSION = ''openfrag-demo-evidence-1''"

fun event_data_json :: "normalized_event \<Rightarrow> json" where
  "event_data_json (RoundFreezeEnd v) = JObject [(''warmup'', JBool (rf_warmup v))]"
| "event_data_json (RoundEnd v) = JObject [(''winner'', optional_int (rn_winner v))]"
| "event_data_json (PlayerHurt v) = JObject [(''attacker'', optional_nat (ph_attacker v)),
     (''victim'', optional_nat (ph_victim v)), (''damage_health'', optional_int (ph_damage_health v)),
     (''weapon'', optional_string (ph_weapon v))]"
| "event_data_json (PlayerDeath v) = JObject [(''attacker'', optional_nat (dt_attacker v)),
     (''victim'', optional_nat (dt_victim v)), (''assister'', optional_nat (dt_assister v)),
     (''assisted_flash'', JBool (dt_assisted_flash v)), (''weapon'', optional_string (dt_weapon v))]"
| "event_data_json (PlayerDisconnect v) = JObject [(''player'', optional_nat (dc_player v))]"

definition normalized_event_json :: "parsed_event \<Rightarrow> json" where
  "normalized_event_json e = JObject [(''type'', JString (pe_name e)), (''tick'', JInt (pe_tick e)),
     (''ingestion_ordinal'', json_nat (pe_ordinal e)), (''data'', event_data_json (pe_event e))]"

definition participant_json :: "participant \<Rightarrow> json" where
  "participant_json p = JObject [(''steam_id'', json_nat (pt_steam_id p)), (''name'', optional_string (pt_name p)),
     (''team'', optional_int (pt_team p))]"

definition round_json :: "parsed_round \<Rightarrow> json" where
  "round_json r = JObject [(''number'', json_nat (pr_number r)), (''end_tick'', JInt (pr_end_tick r)),
     (''winner'', optional_int (pr_winner r))]"

fun phase_json :: "snapshot_phase \<Rightarrow> json" where
  "phase_json RequestedTick = JString ''requested_tick''"
| "phase_json AfterEventPacket = JString ''after_event_packet''"

definition snapshot_json :: "player_snapshot \<Rightarrow> json" where
  "snapshot_json s = JObject [(''tick'', JInt (sn_tick s)), (''ingestion_ordinal'', json_nat (sn_ordinal s)),
     (''phase'', phase_json (sn_phase s)), (''steam_id'', json_nat (sn_steam_id s)),
     (''entity_id'', optional_int (sn_entity_id s)), (''team'', optional_int (sn_team s)),
     (''health'', optional_int (sn_health s)), (''alive'', optional_bool (sn_alive s)),
     (''life_state'', optional_int (sn_life_state s)), (''round_counter'', optional_int (sn_round_counter s))]"

definition metadata_json :: "demo_metadata \<Rightarrow> json" where
  "metadata_json m = JObject [(''map'', optional_string (dm_map m)), (''patch_build'', optional_string (dm_patch_build m)),
     (''demo_stamp'', optional_string (dm_demo_stamp m)), (''server'', optional_string (dm_server m)),
     (''game_directory'', optional_string (dm_game_directory m)), (''tick_rate'', optional_string (dm_tick_rate m)),
     (''tick_rate_unavailable_reason'', optional_string (dm_tick_rate_unavailable_reason m))]"

definition normalized_evidence :: "'j parsed_output \<Rightarrow> json" where
  "normalized_evidence parsed = JObject [(''schema'', JString NORMALIZED_SCHEMA_VERSION),
     (''evidence_semantics_epoch'', JString (ii_evidence_semantics_epoch (po_identity parsed))),
     (''query_plan_hash'', JString (ii_requested_schema_hash (po_identity parsed))),
     (''metadata'', metadata_json (po_metadata parsed)),
     (''participants'', JArray (map participant_json (po_participants parsed))),
     (''rounds'', JArray (map round_json (po_rounds parsed))),
     (''events'', JArray (map normalized_event_json (po_events parsed))),
     (''player_snapshots'', JArray (map snapshot_json (po_snapshots parsed))),
     (''suspicious_empty'', JBool (po_suspicious_empty parsed))]"

definition receipt_json :: "'j event_receipt \<Rightarrow> json" where
  "receipt_json r = JObject [(''ingestion_ordinal'', json_nat (rc_ordinal r)), (''event_name'', JString (rc_event_name r)),
     (''tick'', JInt (rc_tick r)), (''evidence_sha256'', JString (rc_evidence_sha256 r))]"

record compatibility_hash_pair =
  ch_normalized_evidence :: string
  ch_receipt_hashes :: string

definition compatibility_hashes :: "(json \<Rightarrow> string) \<Rightarrow> 'j parsed_output \<Rightarrow> compatibility_hash_pair" where
  "compatibility_hashes json_sha256 parsed = \<lparr>ch_normalized_evidence = json_sha256 (normalized_evidence parsed),
     ch_receipt_hashes = json_sha256 (JArray (map receipt_json (po_receipts parsed)))\<rparr>"

section \<open>The schema\<close>

datatype schema_scalar = BooleanScalar | IntegerScalar | StringScalar | SteamIdScalar

record normalized_field_spec =
  fs_name :: string
  fs_scalar :: schema_scalar
  fs_required :: bool

record normalized_event_spec =
  es_kind :: event_kind
  es_fields :: "normalized_field_spec list"

definition field_spec :: "string \<Rightarrow> schema_scalar \<Rightarrow> bool \<Rightarrow> normalized_field_spec" where
  "field_spec name scalar req = \<lparr>fs_name = name, fs_scalar = scalar, fs_required = req\<rparr>"

fun event_fields :: "event_kind \<Rightarrow> normalized_field_spec list" where
  "event_fields RoundFreezeEndKind = [field_spec ''warmup'' BooleanScalar True]"
| "event_fields RoundEndKind = [field_spec ''winner'' IntegerScalar False]"
| "event_fields PlayerHurtKind = [field_spec ''attacker'' SteamIdScalar False, field_spec ''victim'' SteamIdScalar False,
     field_spec ''damage_health'' IntegerScalar False, field_spec ''weapon'' StringScalar False]"
| "event_fields PlayerDeathKind = [field_spec ''attacker'' SteamIdScalar False, field_spec ''victim'' SteamIdScalar False,
     field_spec ''assister'' SteamIdScalar False, field_spec ''assisted_flash'' BooleanScalar True,
     field_spec ''weapon'' StringScalar False]"
| "event_fields PlayerDisconnectKind = [field_spec ''player'' SteamIdScalar False]"

definition NORMALIZED_EVENT_SPEC :: "normalized_event_spec list" where
  "NORMALIZED_EVENT_SPEC = map (\<lambda>k. \<lparr>es_kind = k, es_fields = event_fields k\<rparr>)
     [RoundFreezeEndKind, RoundEndKind, PlayerHurtKind, PlayerDeathKind, PlayerDisconnectKind]"

fun scalar_schema :: "schema_scalar \<Rightarrow> json" where
  "scalar_schema BooleanScalar = JObject [(''type'', JString ''boolean'')]"
| "scalar_schema IntegerScalar = JObject [(''type'', JString ''integer'')]"
| "scalar_schema StringScalar = JObject [(''type'', JString ''string'')]"
| "scalar_schema SteamIdScalar = JObject [(''type'', JString ''integer''), (''minimum'', JInt 0),
     (''maximum'', json_nat u64_max), (''x-openfrag-type'', JString ''SteamId'')]"

definition variant_schema :: "normalized_event_spec \<Rightarrow> json" where
  "variant_schema event = JObject [(''type'', JString ''object''), (''additionalProperties'', JBool False),
     (''properties'', JObject [
        (''type'', JObject [(''const'', JString (event_kind_name (es_kind event)))]),
        (''tick'', JObject [(''type'', JString ''integer''), (''x-openfrag-type'', JString ''DemoTick'')]),
        (''ingestion_ordinal'', JObject [(''type'', JString ''integer''), (''minimum'', JInt 0),
          (''maximum'', json_nat u64_max), (''x-openfrag-type'', JString ''IngestionOrdinal'')]),
        (''data'', JObject [(''type'', JString ''object''), (''additionalProperties'', JBool False),
          (''properties'', JObject (map (\<lambda>f. (fs_name f, scalar_schema (fs_scalar f))) (es_fields event))),
          (''required'', JArray (map (JString \<circ> fs_name) (filter fs_required (es_fields event))))])]),
     (''required'', JArray [JString ''type'', JString ''tick'', JString ''ingestion_ordinal'', JString ''data''])]"

definition normalized_event_schema :: json where
  "normalized_event_schema = JObject [(''$schema'', JString ''https://json-schema.org/draft/2020-12/schema''),
     (''$id'', JString NORMALIZED_SCHEMA_VERSION), (''title'', JString ''OpenFrag normalized Demo evidence''),
     (''oneOf'', JArray (map variant_schema NORMALIZED_EVENT_SPEC))]"

section \<open>Specification: what the schema says\<close>

text \<open>
  The keywords of JSON Schema that the published schema uses; any other keyword is an annotation.
\<close>

fun has_type :: "string \<Rightarrow> json \<Rightarrow> bool" where
  "has_type t JNull \<longleftrightarrow> t = ''null''"
| "has_type t (JBool _) \<longleftrightarrow> t = ''boolean''"
| "has_type t (JInt _) \<longleftrightarrow> t = ''integer''"
| "has_type t (JString _) \<longleftrightarrow> t = ''string''"
| "has_type t (JArray _) \<longleftrightarrow> t = ''array''"
| "has_type t (JObject _) \<longleftrightarrow> t = ''object''"

fun members :: "json \<Rightarrow> (string \<times> json) list" where
  "members (JObject ms) = ms"
| "members _ = []"

fun strings :: "json \<Rightarrow> string list" where
  "strings (JArray xs) = map (\<lambda>x. case x of JString s \<Rightarrow> s | _ \<Rightarrow> []) xs"
| "strings _ = []"

datatype keyword = TypeKeyword | ConstKeyword | MinimumKeyword | MaximumKeyword | RequiredKeyword
  | AdditionalKeyword | PropertiesKeyword | OneOfKeyword | Annotation

definition keyword_of :: "string \<Rightarrow> keyword" where
  "keyword_of k = (if k = ''type'' then TypeKeyword else if k = ''const'' then ConstKeyword
     else if k = ''minimum'' then MinimumKeyword else if k = ''maximum'' then MaximumKeyword
     else if k = ''required'' then RequiredKeyword else if k = ''additionalProperties'' then AdditionalKeyword
     else if k = ''properties'' then PropertiesKeyword else if k = ''oneOf'' then OneOfKeyword else Annotation)"

fun in_bound :: "(int \<Rightarrow> int \<Rightarrow> bool) \<Rightarrow> json \<Rightarrow> json \<Rightarrow> bool" where
  "in_bound ok (JInt m) (JInt n) \<longleftrightarrow> ok m n"
| "in_bound ok _ _ \<longleftrightarrow> True"

definition only_properties :: "(string \<times> json) list \<Rightarrow> json \<Rightarrow> bool" where
  "only_properties ks v \<longleftrightarrow> (let names = (case map_of ks ''properties'' of None \<Rightarrow> [] | Some ps \<Rightarrow> map fst (members ps))
     in list_all (\<lambda>(name, _). name \<in> set names) (members v))"

fun string_of :: "json \<Rightarrow> string" where
  "string_of (JString s) = s"
| "string_of _ = []"

lemma size_members: "size_list (size_prod (\<lambda>_. 0) size) (members s) \<le> size s"
  by (cases s) auto

lemma size_members_le: "2 * size s \<le> n \<Longrightarrow> 2 * size_list (size_prod (\<lambda>_. 0) size) (members s) \<le> n"
  using size_members [of s] by linarith

function valid :: "json \<Rightarrow> json \<Rightarrow> bool"
  and valid_keywords :: "(string \<times> json) list \<Rightarrow> (string \<times> json) list \<Rightarrow> json \<Rightarrow> bool"
  and valid_members :: "(string \<times> json) list \<Rightarrow> json \<Rightarrow> bool"
  and matching :: "json list \<Rightarrow> json \<Rightarrow> nat" where
  "valid s v = (case s of JObject ks \<Rightarrow> valid_keywords ks ks v | _ \<Rightarrow> True)"
| "valid_keywords all [] v = True"
| "valid_keywords all ((k, s) # rest) v = ((case keyword_of k of
       TypeKeyword \<Rightarrow> has_type (string_of s) v
     | ConstKeyword \<Rightarrow> v = s
     | MinimumKeyword \<Rightarrow> in_bound (\<le>) s v
     | MaximumKeyword \<Rightarrow> in_bound (\<ge>) s v
     | RequiredKeyword \<Rightarrow> list_all (\<lambda>name. name \<in> set (map fst (members v))) (strings s)
     | AdditionalKeyword \<Rightarrow> s = JBool False \<longrightarrow> only_properties all v
     | PropertiesKeyword \<Rightarrow> valid_members (members s) v
     | OneOfKeyword \<Rightarrow> (case s of JArray ss \<Rightarrow> matching ss v = 1 | _ \<Rightarrow> True)
     | Annotation \<Rightarrow> True) \<and> valid_keywords all rest v)"
| "valid_members [] v = True"
| "valid_members ((name, s) # ps) v =
     ((case map_of (members v) name of None \<Rightarrow> True | Some x \<Rightarrow> valid s x) \<and> valid_members ps v)"
| "matching [] v = 0"
| "matching (s # ss) v = (if valid s v then 1 else 0) + matching ss v"
  by pat_completeness auto

termination
  by (relation "measure (\<lambda>x. case x of Inl (Inl (s, v)) \<Rightarrow> Suc (2 * size s)
      | Inl (Inr (all, ks, v)) \<Rightarrow> 2 * size_list (size_prod (\<lambda>_. 0) size) ks
      | Inr (Inl (ps, v)) \<Rightarrow> 2 * size_list (size_prod (\<lambda>_. 0) size) ps
      | Inr (Inr (ss, v)) \<Rightarrow> 2 * size_list size ss)")
    (auto simp: less_Suc_eq_le intro: size_members_le)

declare valid.simps [simp del]

lemma valid_object [simp]: "valid (JObject ks) v = valid_keywords ks ks v"
  by (simp add: valid.simps)

section \<open>Events against the schema\<close>

text \<open>The optional parts of an event that are present.\<close>

fun complete_event :: "normalized_event \<Rightarrow> bool" where
  "complete_event (RoundFreezeEnd _) \<longleftrightarrow> True"
| "complete_event (RoundEnd v) \<longleftrightarrow> rn_winner v \<noteq> None"
| "complete_event (PlayerHurt v) \<longleftrightarrow> ph_attacker v \<noteq> None \<and> ph_victim v \<noteq> None
     \<and> ph_damage_health v \<noteq> None \<and> ph_weapon v \<noteq> None"
| "complete_event (PlayerDeath v) \<longleftrightarrow> dt_attacker v \<noteq> None \<and> dt_victim v \<noteq> None
     \<and> dt_assister v \<noteq> None \<and> dt_weapon v \<noteq> None"
| "complete_event (PlayerDisconnect v) \<longleftrightarrow> dc_player v \<noteq> None"

fun steam_ids_of :: "normalized_event \<Rightarrow> nat list" where
  "steam_ids_of (PlayerHurt v) = List.map_filter id [ph_attacker v, ph_victim v]"
| "steam_ids_of (PlayerDeath v) = List.map_filter id [dt_attacker v, dt_victim v, dt_assister v]"
| "steam_ids_of (PlayerDisconnect v) = List.map_filter id [dc_player v]"
| "steam_ids_of _ = []"

definition data_schema :: "event_kind \<Rightarrow> json" where
  "data_schema k = JObject [(''type'', JString ''object''), (''additionalProperties'', JBool False),
     (''properties'', JObject (map (\<lambda>f. (fs_name f, scalar_schema (fs_scalar f))) (event_fields k))),
     (''required'', JArray (map (JString \<circ> fs_name) (filter fs_required (event_fields k))))]"

lemma keyword_kinds [simp]:
  "keyword_of ''type'' = TypeKeyword" "keyword_of ''const'' = ConstKeyword" "keyword_of ''minimum'' = MinimumKeyword"
  "keyword_of ''maximum'' = MaximumKeyword" "keyword_of ''required'' = RequiredKeyword"
  "keyword_of ''additionalProperties'' = AdditionalKeyword" "keyword_of ''properties'' = PropertiesKeyword"
  "keyword_of ''oneOf'' = OneOfKeyword" "keyword_of ''x-openfrag-type'' = Annotation" "keyword_of ''title'' = Annotation"
  "keyword_of ''$schema'' = Annotation" "keyword_of ''$id'' = Annotation"
  by (simp_all add: keyword_of_def)

lemma valid_scalar [simp]:
  "valid (scalar_schema BooleanScalar) v \<longleftrightarrow> has_type ''boolean'' v"
  "valid (scalar_schema IntegerScalar) v \<longleftrightarrow> has_type ''integer'' v"
  "valid (scalar_schema StringScalar) v \<longleftrightarrow> has_type ''string'' v"
  "valid (scalar_schema SteamIdScalar) v \<longleftrightarrow> has_type ''integer'' v \<and> in_bound (\<le>) (JInt 0) v
     \<and> in_bound (\<ge>) (json_nat u64_max) v"
  by simp_all

lemma optional_types [simp]:
  "has_type ''integer'' (optional_int x) \<longleftrightarrow> x \<noteq> None" "has_type ''integer'' (optional_nat y) \<longleftrightarrow> y \<noteq> None"
  "has_type ''string'' (optional_string z) \<longleftrightarrow> z \<noteq> None"
  "in_bound (\<le>) (JInt 0) (optional_nat y)"
  "in_bound (\<ge>) (json_nat u64_max) (optional_nat y) \<longleftrightarrow> (case y of None \<Rightarrow> True | Some n \<Rightarrow> n \<le> u64_max)"
  by (auto simp: json_option_def split: option.split)

declare scalar_schema.simps [simp del]

lemma valid_data:
  assumes "list_all (\<lambda>i. i \<le> u64_max) (steam_ids_of e)"
  shows "valid (data_schema (event_kind_of e)) (event_data_json e) \<longleftrightarrow> complete_event e"
  using assms
  by (cases e) (auto simp: data_schema_def field_spec_def only_properties_def List.map_filter_def split: option.splits)

lemma event_kind_names: "event_kind_name k = event_kind_name k' \<longleftrightarrow> k = k'"
  by (cases k; cases k') simp_all

lemma valid_variant:
  assumes "pe_ordinal e \<le> u64_max" "list_all (\<lambda>i. i \<le> u64_max) (steam_ids_of (pe_event e))"
  shows "valid (variant_schema \<lparr>es_kind = k, es_fields = event_fields k\<rparr>) (normalized_event_json e)
    \<longleftrightarrow> k = pe_kind e \<and> complete_event (pe_event e)"
proof (cases "k = pe_kind e")
  case True
  have "valid (data_schema (pe_kind e)) (event_data_json (pe_event e)) \<longleftrightarrow> complete_event (pe_event e)"
    using valid_data [OF assms(2)] by (simp add: pe_kind_def)
  with True assms(1) show ?thesis
    by (simp add: variant_schema_def normalized_event_json_def only_properties_def pe_name_def valid.simps
        flip: data_schema_def)
next
  case False
  then show ?thesis
    by (auto simp: variant_schema_def normalized_event_json_def pe_name_def event_kind_names)
qed

text \<open>
  An event is written as a document of the published schema exactly when it is complete: a missing
  attacker, victim, assister, player, damage, weapon or winner is written as \<open>null\<close>, and the schema,
  which makes these members optional, does not allow that value.
\<close>
theorem event_matches_schema_iff_complete:
  assumes "pe_ordinal e \<le> u64_max" "list_all (\<lambda>i. i \<le> u64_max) (steam_ids_of (pe_event e))"
  shows "valid normalized_event_schema (normalized_event_json e) \<longleftrightarrow> complete_event (pe_event e)"
proof -
  have "matching (map variant_schema NORMALIZED_EVENT_SPEC) (normalized_event_json e)
      = (if complete_event (pe_event e) then 1 else 0)"
    by (cases "pe_kind e") (simp_all add: NORMALIZED_EVENT_SPEC_def valid_variant [OF assms] del: event_fields.simps)
  then show ?thesis by (simp add: normalized_event_schema_def)
qed

theorem event_matches_schema_iff_complete_witness:
  "\<not> valid normalized_event_schema (normalized_event_json
     \<lparr>pe_tick = 5, pe_ordinal = 0, pe_event = RoundEnd \<lparr>rn_winner = None\<rparr>\<rparr>)"
  using event_matches_schema_iff_complete [of "\<lparr>pe_tick = 5, pe_ordinal = 0, pe_event = RoundEnd \<lparr>rn_winner = None\<rparr>\<rparr>"]
  by simp

section \<open>Nothing is lost\<close>

lemma json_option_inject: "inj f \<Longrightarrow> (\<And>x. f x \<noteq> JNull) \<Longrightarrow> json_option f a = json_option f b \<longleftrightarrow> a = b"
  by (auto simp: json_option_def inj_eq split: option.splits) metis

lemma optional_inject [simp]:
  "optional_nat a = optional_nat b \<longleftrightarrow> a = b" "optional_int c = optional_int d \<longleftrightarrow> c = d"
  "optional_string s = optional_string t \<longleftrightarrow> s = t" "optional_bool p = optional_bool q \<longleftrightarrow> p = q"
  by (rule json_option_inject; simp add: inj_def)+

lemma event_data_inject:
  "event_kind_of e = event_kind_of f \<Longrightarrow> event_data_json e = event_data_json f \<longleftrightarrow> e = f"
  by (cases e; cases f) auto

lemma record_json_inject:
  "inj normalized_event_json" "inj participant_json" "inj round_json" "inj snapshot_json" "inj metadata_json"
proof -
  have "phase_json a = phase_json b \<longleftrightarrow> a = b" for a b by (cases a; cases b) simp_all
  then show "inj snapshot_json" by (auto simp: inj_def snapshot_json_def)
  show "inj normalized_event_json"
    by (auto simp: inj_def normalized_event_json_def pe_name_def event_kind_names pe_kind_def event_data_inject)
qed (auto simp: inj_def participant_json_def round_json_def metadata_json_def)


end
