(* ===== verification/Analysis.thy ===== *)
theory Analysis
  imports Demo Rating
begin

text \<open>
  The analysis of a parsed demo, \<open>crates/openfrag-analysis/src/lib.rs\<close>: the order check, the ledger of
  rounds with the eligibility of the local player, the scoring of one eligible round after the
  other into the metrics, and the receipt of the rating.

  The counters of the metrics are \<open>u32\<close> and wrap, as Rust's release arithmetic does; so does the
  \<open>i32\<close> arithmetic on ticks and rnd counters.
\<close>

section \<open>Values\<close>

datatype analysis_unavailable = MissingTickRate | MissingGameBuild | MissingStream string
  | MissingLocalParticipant | MissingIdentity | MissingTeamOrLiveness | MalformedOrdering
  | MalformedEvidence | DomainFailure rating_input_error

datatype round_exclusion = Warmup | MissingFreezeState | LocalPlayerNotAlive | InvalidTeam
  | MissingCanonicalEnd

record round_ledger =
  rl_number :: nat
  rl_freeze_tick :: int
  rl_end_tick :: int
  rl_winner :: int
  rl_local_team :: int
  rl_eligible :: bool
  rl_exclusion :: "round_exclusion option"
  rl_hashes :: "string list"

record analysis_receipt =
  an_rounds :: "round_ledger list"
  an_rating_input :: rating_input
  an_rating_receipt :: rating_receipt

definition UTILITY_WEAPONS :: "string list" where
  "UTILITY_WEAPONS = [''hegrenade'', ''inferno'', ''molotov'', ''incgrenade'']"

definition unwrap_or :: "'a \<Rightarrow> 'a option \<Rightarrow> 'a" where
  "unwrap_or d v = (case v of None \<Rightarrow> d | Some x \<Rightarrow> x)"

section \<open>Snapshots\<close>

text \<open>\<open>max_by_key\<close>: the last of the maxima.\<close>

fun max_by_key :: "('a \<Rightarrow> 'k::linorder) \<Rightarrow> 'a list \<Rightarrow> 'a option" where
  "max_by_key f [] = None"
| "max_by_key f (x # xs) =
     (case max_by_key f xs of None \<Rightarrow> Some x | Some y \<Rightarrow> Some (if f x \<le> f y then y else x))"

definition snapshot_at :: "'j parsed_output \<Rightarrow> steam_id \<Rightarrow> int \<Rightarrow> player_snapshot option" where
  "snapshot_at parsed i tick =
     max_by_key (\<lambda>s. (sn_tick s, sn_ordinal s))
       (filter (\<lambda>s. sn_steam_id s = i \<and> sn_tick s \<le> tick) (po_snapshots parsed))"

definition team_at :: "'j parsed_output \<Rightarrow> steam_id \<Rightarrow> int \<Rightarrow> int option" where
  "team_at parsed i tick = Option.bind (snapshot_at parsed i tick) sn_team"

definition alive_at :: "'j parsed_output \<Rightarrow> steam_id \<Rightarrow> int \<Rightarrow> bool option" where
  "alive_at parsed i tick = Option.bind (snapshot_at parsed i tick) sn_alive"

section \<open>Order\<close>

definition verify_order :: "'j parsed_output \<Rightarrow> (analysis_unavailable, unit) result" where
  "verify_order parsed =
     (if \<not> successively (\<lambda>a b. (pe_tick a, pe_ordinal a) < (pe_tick b, pe_ordinal b)) (po_events parsed)
         \<or> \<not> successively (\<lambda>a b. rc_ordinal a < rc_ordinal b) (po_receipts parsed)
         \<or> \<not> successively (\<lambda>a b. sn_ordinal a < sn_ordinal b) (po_snapshots parsed)
      then Inl MalformedOrdering else Inr ())"

section \<open>Rounds\<close>

definition is_freeze :: "parsed_event \<Rightarrow> bool" where
  "is_freeze e \<longleftrightarrow> pe_kind e = RoundFreezeEndKind"

definition is_round_end :: "parsed_event \<Rightarrow> bool" where
  "is_round_end e \<longleftrightarrow> pe_kind e = RoundEndKind"

text \<open>Team, liveness and exclusion of the local player at the freeze; the match in its order.\<close>

definition classify_round :: "bool \<Rightarrow> player_snapshot option
    \<Rightarrow> (analysis_unavailable, int \<times> bool \<times> round_exclusion option) result" where
  "classify_round warmup snapshot =
     (if warmup then Inr (0, False, Some Warmup)
      else case snapshot of None \<Rightarrow> Inl MissingTeamOrLiveness
      | Some state \<Rightarrow>
        if \<not> unwrap_or False (sn_alive state)
        then Inr (unwrap_or 0 (sn_team state), False, Some LocalPlayerNotAlive)
        else if sn_team state \<noteq> Some 2 \<and> sn_team state \<noteq> Some 3
        then Inr (unwrap_or 0 (sn_team state), unwrap_or False (sn_alive state), Some InvalidTeam)
        else Inr (unwrap_or 0 (sn_team state), True, None))"

definition check_counter :: "'j parsed_output \<Rightarrow> steam_id \<Rightarrow> player_snapshot option \<Rightarrow> int
    \<Rightarrow> (analysis_unavailable, unit) result" where
  "check_counter parsed local snapshot end_tick =
     and_then (ok_or MissingTeamOrLiveness (Option.bind snapshot sn_round_counter)) (\<lambda>start_counter.
     and_then (ok_or MissingTeamOrLiveness
       (Option.bind (snapshot_at parsed local end_tick) sn_round_counter)) (\<lambda>end_counter.
     if end_counter \<noteq> wrap_i32 (start_counter + 1) then Inl MalformedEvidence else Inr ()))"

definition build_round :: "'j parsed_output \<Rightarrow> steam_id \<Rightarrow> nat \<Rightarrow> parsed_event \<Rightarrow> int \<Rightarrow> parsed_event list
    \<Rightarrow> (analysis_unavailable, round_ledger) result" where
  "build_round parsed local number freeze next_freeze_tick ends =
     (case filter (\<lambda>e. pe_tick freeze < pe_tick e \<and> pe_tick e < next_freeze_tick) ends of
        [end_event] \<Rightarrow>
          let snapshot = (case snapshot_at parsed local (pe_tick freeze) of None \<Rightarrow> None
                | Some state \<Rightarrow> if sn_tick state = pe_tick freeze then Some state else None) in
          (case pe_event freeze of
             RoundFreezeEnd freeze_data \<Rightarrow>
               and_then (classify_round (rf_warmup freeze_data) snapshot) (\<lambda>(team, alive, exclusion).
               and_then (if exclusion = None then check_counter parsed local snapshot (pe_tick end_event)
                 else Inr ()) (\<lambda>_.
               case pe_event end_event of
                 RoundEnd end_data \<Rightarrow>
                   and_then (ok_or MalformedEvidence (rn_winner end_data)) (\<lambda>winner.
                   Inr \<lparr>rl_number = number, rl_freeze_tick = pe_tick freeze, rl_end_tick = pe_tick end_event,
                     rl_winner = winner, rl_local_team = team, rl_eligible = (alive \<and> exclusion = None),
                     rl_exclusion = exclusion,
                     rl_hashes = map rc_evidence_sha256 (filter
                       (\<lambda>r. pe_tick freeze \<le> rc_tick r \<and> rc_tick r \<le> pe_tick end_event) (po_receipts parsed))\<rparr>)
               | _ \<Rightarrow> Inl MalformedEvidence))
           | _ \<Rightarrow> Inl MalformedEvidence)
      | _ \<Rightarrow> Inl MalformedEvidence)"

fun rounds_loop :: "'j parsed_output \<Rightarrow> steam_id \<Rightarrow> parsed_event list \<Rightarrow> nat \<Rightarrow> parsed_event list
    \<Rightarrow> (analysis_unavailable, round_ledger list) result" where
  "rounds_loop parsed local ends index [] = Inr []"
| "rounds_loop parsed local ends index (freeze # freezes) =
     and_then (build_round parsed local (index + 1) freeze
       (case freezes of [] \<Rightarrow> i32_max | next_freeze # _ \<Rightarrow> pe_tick next_freeze) ends) (\<lambda>rnd.
     and_then (rounds_loop parsed local ends (index + 1) freezes) (\<lambda>rounds. Inr (rnd # rounds)))"

definition build_rounds :: "'j parsed_output \<Rightarrow> steam_id \<Rightarrow> (analysis_unavailable, round_ledger list) result" where
  "build_rounds parsed local =
     (let ends = filter is_round_end (po_events parsed) in
      and_then (rounds_loop parsed local ends 0 (filter is_freeze (po_events parsed))) (\<lambda>rounds.
      if length ends \<noteq> length rounds then Inl MalformedEvidence
      else if rounds = [] then Inl (MissingStream ''eligible round ledger'')
      else Inr rounds))"

section \<open>Scoring\<close>

definition add_u32 :: "nat \<Rightarrow> nat \<Rightarrow> nat" where
  "add_u32 a b = (a + b) mod 2 ^ 32"

definition u32_of :: "int \<Rightarrow> nat option" where
  "u32_of x = (if 0 \<le> x \<and> x < 2 ^ 32 then Some (nat x) else None)"

definition in_round :: "round_ledger \<Rightarrow> int \<Rightarrow> bool" where
  "in_round rnd tick \<longleftrightarrow> rl_freeze_tick rnd \<le> tick \<and> tick \<le> rl_end_tick rnd"

definition round_events :: "'j parsed_output \<Rightarrow> round_ledger \<Rightarrow> parsed_event list" where
  "round_events parsed rnd = filter (\<lambda>e. in_round rnd (pe_tick e)) (po_events parsed)"

definition is_utility :: "player_hurt_event \<Rightarrow> bool" where
  "is_utility hurt \<longleftrightarrow> (case ph_weapon hurt of None \<Rightarrow> False | Some w \<Rightarrow> w \<in> set UTILITY_WEAPONS)"

definition score_hurt :: "'j parsed_output \<Rightarrow> steam_id \<Rightarrow> int \<Rightarrow> player_hurt_event \<Rightarrow> rating_metrics
    \<Rightarrow> (analysis_unavailable, rating_metrics) result" where
  "score_hurt parsed local tick hurt m =
     (if ph_attacker hurt \<noteq> Some local then Inr m else
      and_then (ok_or MissingIdentity (ph_victim hurt)) (\<lambda>victim.
      and_then (ok_or MissingTeamOrLiveness (team_at parsed local tick)) (\<lambda>attacker_team.
      and_then (ok_or MissingTeamOrLiveness (team_at parsed victim tick)) (\<lambda>victim_team.
      if attacker_team \<noteq> victim_team \<and> victim \<noteq> local then
        and_then (ok_or MalformedEvidence (ph_damage_health hurt)) (\<lambda>damage.
        and_then (ok_or MalformedEvidence (u32_of damage)) (\<lambda>reported.
        and_then (ok_or MissingTeamOrLiveness
          (Option.bind (snapshot_at parsed victim tick) sn_health)) (\<lambda>health.
        and_then (ok_or MalformedEvidence (u32_of health)) (\<lambda>health.
        let scored = min reported health in
        Inr (if is_utility hurt then m\<lparr>m_utility_damage := add_u32 (m_utility_damage m) scored\<rparr>
          else m\<lparr>m_direct_damage := add_u32 (m_direct_damage m) scored\<rparr>)))))
      else Inr m))))"

text \<open>The first death between known enemies is the opening duel.\<close>

definition is_duel :: "'j parsed_output \<Rightarrow> int \<Rightarrow> steam_id option \<Rightarrow> steam_id \<Rightarrow> bool" where
  "is_duel parsed tick attacker victim \<longleftrightarrow>
     (case attacker of None \<Rightarrow> False
      | Some a \<Rightarrow> a \<noteq> victim \<and> (case (team_at parsed a tick, team_at parsed victim tick) of
          (Some ta, Some tv) \<Rightarrow> ta \<noteq> tv | _ \<Rightarrow> False))"

definition score_opening :: "steam_id \<Rightarrow> steam_id option \<Rightarrow> steam_id \<Rightarrow> rating_metrics \<Rightarrow> rating_metrics" where
  "score_opening local attacker victim m =
     (let m = (if attacker = Some local then m\<lparr>m_opening_wins := add_u32 (m_opening_wins m) 1\<rparr> else m) in
      if victim = local then m\<lparr>m_opening_losses := add_u32 (m_opening_losses m) 1\<rparr> else m)"

definition score_flash :: "'j parsed_output \<Rightarrow> steam_id \<Rightarrow> int \<Rightarrow> player_death_event \<Rightarrow> rating_metrics
    \<Rightarrow> (analysis_unavailable, rating_metrics) result" where
  "score_flash parsed local tick death m =
     (if dt_assisted_flash death \<and> dt_assister death = Some local then
        and_then (ok_or MissingIdentity (dt_attacker death)) (\<lambda>attacker.
        if team_at parsed attacker tick = team_at parsed local tick
        then Inr (m\<lparr>m_flash_assists := add_u32 (m_flash_assists m) 1\<rparr>)
        else Inl MalformedEvidence)
      else Inr m)"

definition score_death :: "'j parsed_output \<Rightarrow> steam_id \<Rightarrow> int \<Rightarrow> player_death_event \<Rightarrow> rating_metrics \<times> bool
    \<Rightarrow> (analysis_unavailable, rating_metrics \<times> bool) result" where
  "score_death parsed local tick death acc =
     (let (m, opening_seen) = acc in
      and_then (ok_or MissingIdentity (dt_victim death)) (\<lambda>victim.
      let attacker = dt_attacker death;
          m = (if victim = local then m\<lparr>m_deaths := add_u32 (m_deaths m) 1\<rparr> else m);
          m = (if attacker = Some local \<and> team_at parsed local tick \<noteq> team_at parsed victim tick
            then m\<lparr>m_kills := add_u32 (m_kills m) 1\<rparr> else m);
          duel = (\<not> opening_seen \<and> is_duel parsed tick attacker victim);
          m = (if duel then score_opening local attacker victim m else m) in
      and_then (score_flash parsed local tick death m) (\<lambda>m. Inr (m, opening_seen \<or> duel))))"

definition score_event :: "'j parsed_output \<Rightarrow> steam_id \<Rightarrow> parsed_event \<Rightarrow> rating_metrics \<times> bool
    \<Rightarrow> (analysis_unavailable, rating_metrics \<times> bool) result" where
  "score_event parsed local e acc =
     (case pe_event e of
        PlayerHurt hurt \<Rightarrow> and_then (score_hurt parsed local (pe_tick e) hurt (fst acc)) (\<lambda>m. Inr (m, snd acc))
      | PlayerDeath death \<Rightarrow> score_death parsed local (pe_tick e) death acc
      | _ \<Rightarrow> Inr acc)"

fun score_events :: "'j parsed_output \<Rightarrow> steam_id \<Rightarrow> parsed_event list \<Rightarrow> rating_metrics \<times> bool
    \<Rightarrow> (analysis_unavailable, rating_metrics \<times> bool) result" where
  "score_events parsed local [] acc = Inr acc"
| "score_events parsed local (e # es) acc =
     and_then (score_event parsed local e acc) (score_events parsed local es)"

definition deaths_of :: "parsed_event list \<Rightarrow> (int \<times> player_death_event) list" where
  "deaths_of es = List.map_filter (\<lambda>e. case pe_event e of PlayerDeath d \<Rightarrow> Some (pe_tick e, d) | _ \<Rightarrow> None) es"

definition is_traded :: "'j parsed_output \<Rightarrow> round_ledger \<Rightarrow> int \<Rightarrow> int \<Rightarrow> steam_id
    \<Rightarrow> int \<times> player_death_event \<Rightarrow> bool" where
  "is_traded parsed rnd window kill_tick victim prior \<longleftrightarrow>
     (let (tick, death) = prior in
      tick \<le> kill_tick \<and> wrap_i32 (kill_tick - tick) \<le> window \<and> dt_attacker death = Some victim
      \<and> (case dt_victim death of None \<Rightarrow> False
         | Some mate \<Rightarrow> team_at parsed mate tick = Some (rl_local_team rnd)))"

fun score_trades :: "'j parsed_output \<Rightarrow> round_ledger \<Rightarrow> int \<Rightarrow> (int \<times> player_death_event) list
    \<Rightarrow> (int \<times> player_death_event) list \<Rightarrow> rating_metrics \<Rightarrow> (analysis_unavailable, rating_metrics) result" where
  "score_trades parsed rnd window deaths [] m = Inr m"
| "score_trades parsed rnd window deaths ((tick, kill) # kills) m =
     and_then (ok_or MissingIdentity (dt_victim kill)) (\<lambda>victim.
     score_trades parsed rnd window deaths kills
       (if list_ex (is_traded parsed rnd window tick victim) (rev deaths)
        then m\<lparr>m_trade_kills := add_u32 (m_trade_kills m) 1\<rparr> else m))"

definition living :: "'j parsed_output \<Rightarrow> int \<Rightarrow> (participant \<Rightarrow> bool) \<Rightarrow> nat" where
  "living parsed tick P = length (filter (\<lambda>p. alive_at parsed (pt_steam_id p) tick = Some True)
     (filter P (po_participants parsed)))"

definition is_teammate :: "steam_id \<Rightarrow> round_ledger \<Rightarrow> participant \<Rightarrow> bool" where
  "is_teammate local rnd p \<longleftrightarrow> pt_steam_id p \<noteq> local \<and> pt_team p = Some (rl_local_team rnd)"

definition is_enemy :: "round_ledger \<Rightarrow> participant \<Rightarrow> bool" where
  "is_enemy rnd p \<longleftrightarrow> (case pt_team p of None \<Rightarrow> False
     | Some team \<Rightarrow> team \<noteq> rl_local_team rnd \<and> (team = 2 \<or> team = 3))"

fun score_clutch :: "'j parsed_output \<Rightarrow> steam_id \<Rightarrow> round_ledger \<Rightarrow> int list \<Rightarrow> rating_metrics
    \<Rightarrow> (analysis_unavailable, rating_metrics) result" where
  "score_clutch parsed local rnd [] m = Inr m"
| "score_clutch parsed local rnd (tick # ticks) m =
     and_then (ok_or MissingTeamOrLiveness (alive_at parsed local tick)) (\<lambda>local_alive.
     if local_alive \<and> living parsed tick (is_teammate local rnd) = 0
         \<and> living parsed tick (is_enemy rnd) > 0
     then let m = m\<lparr>m_clutch_opportunities := add_u32 (m_clutch_opportunities m) 1\<rparr> in
       Inr (if rl_local_team rnd = rl_winner rnd
         then m\<lparr>m_clutch_wins := add_u32 (m_clutch_wins m) 1\<rparr> else m)
     else score_clutch parsed local rnd ticks m)"

definition transition_ticks :: "'j parsed_output \<Rightarrow> round_ledger \<Rightarrow> int list" where
  "transition_ticks parsed rnd = filter (in_round rnd) (map sn_tick (po_snapshots parsed))"

definition saturating_mul_u32 :: "nat \<Rightarrow> nat \<Rightarrow> nat" where
  "saturating_mul_u32 a b = min (a * b) u32_max"

definition trade_window :: "nat \<Rightarrow> (analysis_unavailable, int) result" where
  "trade_window tick_rate = ok_or MalformedEvidence (i32_of (int (saturating_mul_u32 tick_rate 5)))"

definition score_round :: "'j parsed_output \<Rightarrow> round_ledger \<Rightarrow> steam_id \<Rightarrow> nat \<Rightarrow> rating_metrics
    \<Rightarrow> (analysis_unavailable, rating_metrics) result" where
  "score_round parsed rnd local tick_rate m =
     (let es = round_events parsed rnd; deaths = deaths_of es in
      and_then (score_events parsed local es (m, False)) (\<lambda>(m, _).
      and_then (trade_window tick_rate) (\<lambda>window.
      and_then (score_trades parsed rnd window deaths
        (filter (\<lambda>(_, d). dt_attacker d = Some local) deaths) m) (\<lambda>m.
      score_clutch parsed local rnd (transition_ticks parsed rnd) m))))"

fun score_rounds :: "'j parsed_output \<Rightarrow> steam_id \<Rightarrow> nat \<Rightarrow> round_ledger list \<Rightarrow> rating_metrics
    \<Rightarrow> (analysis_unavailable, rating_metrics) result" where
  "score_rounds parsed local tick_rate [] m = Inr m"
| "score_rounds parsed local tick_rate (rnd # rounds) m =
     and_then (score_round parsed rnd local tick_rate m) (score_rounds parsed local tick_rate rounds)"

section \<open>The analysis\<close>

definition parse_tick_rate :: "'j parsed_output \<Rightarrow> (analysis_unavailable, nat) result" where
  "parse_tick_rate parsed =
     and_then (ok_or MissingTickRate (dm_tick_rate (po_metadata parsed))) (\<lambda>text.
     and_then (ok_or MissingTickRate (parse_unsigned u32_max text)) (\<lambda>tick_rate.
     if tick_rate = 0 then Inl MissingTickRate else Inr tick_rate))"

fun require_streams :: "(event_kind \<times> string) list \<Rightarrow> parsed_event list \<Rightarrow> (analysis_unavailable, unit) result" where
  "require_streams [] events = Inr ()"
| "require_streams ((kind, stream) # rest) events =
     (if \<not> has_kind kind events then Inl (MissingStream stream) else require_streams rest events)"

definition required_streams :: "(event_kind \<times> string) list" where
  "required_streams = [(RoundFreezeEndKind, ''round_freeze_end''), (RoundEndKind, ''round_end''),
     (PlayerHurtKind, ''player_hurt''), (PlayerDeathKind, ''player_death'')]"

definition zero_metrics :: "nat \<Rightarrow> rating_metrics" where
  "zero_metrics eligible_rounds = \<lparr>m_eligible_rounds = eligible_rounds, m_direct_damage = 0, m_kills = 0,
     m_deaths = 0, m_opening_wins = 0, m_opening_losses = 0, m_trade_kills = 0, m_utility_damage = 0,
     m_flash_assists = 0, m_clutch_wins = 0, m_clutch_opportunities = 0\<rparr>"

definition identity_of :: "import_identity \<Rightarrow> calculation_identity" where
  "identity_of i = ofr_v1_identity (ii_source_sha256 i) (ii_parser_commit i) (ii_parser_build i)
     (ii_generated_proto_build i) (ii_requested_schema_hash i) (ii_metric_definition_version i)
     (ii_evidence_semantics_epoch i)"

definition evidence_of :: "'j parsed_output \<Rightarrow> round_ledger list \<Rightarrow> rating_evidence" where
  "evidence_of parsed rounds =
     (let eligible_ids = concat (map rl_hashes (filter rl_eligible rounds));
          excluded_ids = concat (map rl_hashes (filter (\<lambda>r. \<not> rl_eligible r) rounds));
          component_ids = map rc_evidence_sha256 (po_receipts parsed);
          nonempty_excluded = (if excluded_ids = []
            then [''none:'' @ ii_source_sha256 (po_identity parsed)] else excluded_ids) in
      \<lparr>ev_eligible_round_ledger = eligible_ids, ev_excluded_round_ledger = nonempty_excluded,
       ev_direct_damage = component_ids, ev_frag_balance = component_ids,
       ev_opening_duels = component_ids, ev_trade_kills = component_ids, ev_utility = component_ids,
       ev_clutch_conversion = component_ids\<rparr>)"

definition is_short_roster :: "'j parsed_output \<Rightarrow> round_ledger \<Rightarrow> bool" where
  "is_short_roster parsed rnd \<longleftrightarrow>
     list_ex (\<lambda>team. living parsed (rl_freeze_tick rnd) (\<lambda>p. pt_team p = Some team) < 5) [2, 3]"

definition irregularities_of :: "'j parsed_output \<Rightarrow> round_ledger list \<Rightarrow> nat \<Rightarrow> match_irregularities" where
  "irregularities_of parsed rounds eligible_rounds =
     \<lparr>ir_missed_live_round = list_ex (\<lambda>r. rl_exclusion r = Some MissingFreezeState) rounds,
      ir_roster_imbalanced = (1 < length (filter (is_short_roster parsed) (filter rl_eligible rounds))),
      ir_surrender = False, ir_forfeit_without_canonical_winner = False,
      ir_overtime = (24 < eligible_rounds)\<rparr>"

definition analyze :: "'j parsed_output \<Rightarrow> steam_id \<Rightarrow> (analysis_unavailable, analysis_receipt) result" where
  "analyze parsed local =
     and_then (parse_tick_rate parsed) (\<lambda>tick_rate.
     and_then (ok_or MissingGameBuild (dm_patch_build (po_metadata parsed))) (\<lambda>game_build.
     if \<not> list_ex (\<lambda>p. pt_steam_id p = local) (po_participants parsed) then Inl MissingLocalParticipant
     else
     and_then (verify_order parsed) (\<lambda>_.
     and_then (require_streams required_streams (po_events parsed)) (\<lambda>_.
     and_then (build_rounds parsed local) (\<lambda>rounds.
     let eligible = filter rl_eligible rounds in
     if length eligible > u32_max then Inl MalformedEvidence else
     and_then (score_rounds parsed local tick_rate eligible (zero_metrics (length eligible))) (\<lambda>metrics.
     let rating_input = \<lparr>in_identity = identity_of (po_identity parsed), in_game_build = game_build,
           in_metrics = metrics,
           in_irregularities = irregularities_of parsed rounds (m_eligible_rounds metrics),
           in_evidence_failure = None, in_evidence = evidence_of parsed rounds\<rparr> in
     and_then (map_err DomainFailure (calculate_rating rating_input)) (\<lambda>rating_receipt.
     Inr \<lparr>an_rounds = rounds, an_rating_input = rating_input, an_rating_receipt = rating_receipt\<rparr>)))))))"

end
