(* ===== verification/Analysis_Correct.thy ===== *)
theory Analysis_Correct
  imports Analysis
begin

text \<open>
  What the analysis guarantees: a ledger of disjoint rounds that uses every end of a round once, a score
  that is the sum of the scores of its eligible rounds, each the counts of the rating document,
  bounds on the counters, and that the parse delivers the evidence the analysis asks for.
\<close>

section \<open>The ledger\<close>

text \<open>What one row of the ledger records of its freeze and of the ends in its span.\<close>

definition row_of :: "'j parsed_output \<Rightarrow> parsed_event \<Rightarrow> int \<Rightarrow> parsed_event list \<Rightarrow> round_ledger \<Rightarrow> bool" where
  "row_of parsed freeze next_freeze_tick ends r \<longleftrightarrow>
     rl_freeze_tick r = pe_tick freeze \<and> rl_freeze_tick r < rl_end_tick r \<and> rl_end_tick r < next_freeze_tick
     \<and> (\<exists>e. filter (\<lambda>e. pe_tick freeze < pe_tick e \<and> pe_tick e < next_freeze_tick) ends = [e]
         \<and> pe_tick e = rl_end_tick r \<and> (\<exists>w. pe_event e = RoundEnd w \<and> rn_winner w = Some (rl_winner r)))
     \<and> (rl_eligible r \<longleftrightarrow> rl_exclusion r = None)
     \<and> (rl_eligible r \<longrightarrow> rl_local_team r = 2 \<or> rl_local_team r = 3)
     \<and> rl_exclusion r \<noteq> Some MissingFreezeState \<and> rl_exclusion r \<noteq> Some MissingCanonicalEnd
     \<and> rl_hashes r = map rc_evidence_sha256 (filter (\<lambda>x. in_round r (rc_tick x)) (po_receipts parsed))"

lemma classify_round_Inr:
  "classify_round warmup snapshot = Inr (team, alive, exclusion) \<Longrightarrow>
     (alive \<and> exclusion = None \<longleftrightarrow> exclusion = None) \<and> (exclusion = None \<longrightarrow> team = 2 \<or> team = 3)
     \<and> exclusion \<noteq> Some MissingFreezeState \<and> exclusion \<noteq> Some MissingCanonicalEnd"
  by (auto simp: classify_round_def unwrap_or_def split: if_splits option.splits)

lemma filter_singleD: "filter P xs = [x] \<Longrightarrow> x \<in> set xs \<and> P x"
proof -
  assume "filter P xs = [x]"
  then have "x \<in> set (filter P xs)" by simp
  then show ?thesis by simp
qed

lemma build_round_row:
  assumes "build_round parsed local number freeze next_freeze_tick ends = Inr r"
  shows "rl_number r = number \<and> row_of parsed freeze next_freeze_tick ends r"
proof -
  obtain e where e: "filter (\<lambda>e. pe_tick freeze < pe_tick e \<and> pe_tick e < next_freeze_tick) ends = [e]"
    using assms by (auto simp: build_round_def split: list.splits)
  from filter_singleD [OF this] have span: "pe_tick freeze < pe_tick e" "pe_tick e < next_freeze_tick" by auto
  obtain d where d: "pe_event freeze = RoundFreezeEnd d"
    using assms by (cases "pe_event freeze") (simp_all add: build_round_def e)
  obtain w where w: "pe_event e = RoundEnd w"
    using assms by (cases "pe_event e") (auto simp: build_round_def e d Let_def and_then_eq_Inr)
  from assms obtain f team alive exclusion where
    c: "classify_round (rf_warmup d) f = Inr (team, alive, exclusion)" and
    "rn_winner w = Some (rl_winner r)" and
    r: "rl_number r = number" "rl_freeze_tick r = pe_tick freeze" "rl_end_tick r = pe_tick e"
      "rl_local_team r = team" "rl_eligible r = (alive \<and> exclusion = None)" "rl_exclusion r = exclusion"
      "rl_hashes r = map rc_evidence_sha256 (filter
         (\<lambda>x. pe_tick freeze \<le> rc_tick x \<and> rc_tick x \<le> pe_tick e) (po_receipts parsed))"
    by (auto simp: build_round_def e d w Let_def and_then_eq_Inr)
  moreover note classify_round_Inr [OF c]
  ultimately show ?thesis using span e w by (auto simp: row_of_def in_round_def)
qed

text \<open>The spans of the freezes: each ends where the next begins.\<close>

fun spans :: "parsed_event list \<Rightarrow> (parsed_event \<times> int) list" where
  "spans [] = []"
| "spans (f # fs) = (f, case fs of [] \<Rightarrow> i32_max | g # _ \<Rightarrow> pe_tick g) # spans fs"

lemma map_fst_spans [simp]: "map fst (spans fs) = fs"
  by (induction fs) auto

lemma rounds_loop_rows:
  "rounds_loop parsed local ends n fs = Inr rs \<Longrightarrow>
     list_all2 (\<lambda>s r. row_of parsed (fst s) (snd s) ends r) (spans fs) rs
     \<and> map rl_number rs = [Suc n..<Suc (n + length rs)]"
proof (induction fs arbitrary: n rs)
  case (Cons f fs)
  from Cons.prems obtain r qs where r: "rs = r # qs" "rounds_loop parsed local ends (n + 1) fs = Inr qs"
      "build_round parsed local (n + 1) f (case fs of [] \<Rightarrow> i32_max | g # _ \<Rightarrow> pe_tick g) ends = Inr r"
    by (auto simp: and_then_eq_Inr)
  from Cons.IH [OF r(2)] build_round_row [OF r(3)] r(1) show ?case
    by (simp add: upt_rec [of "Suc n"] del: upt_Suc)
qed simp

text \<open>Consecutive rows are disjoint: a round ends before the next one freezes.\<close>

lemma rows_chain:
  "list_all2 (\<lambda>s r. row_of parsed (fst s) (snd s) ends r) (spans fs) rs \<Longrightarrow>
     sorted_wrt (\<lambda>a b. rl_end_tick a < rl_freeze_tick b) rs"
proof (induction fs arbitrary: rs)
  case (Cons f fs)
  from Cons.prems obtain r qs where rs: "rs = r # qs"
      "row_of parsed f (case fs of [] \<Rightarrow> i32_max | g # _ \<Rightarrow> pe_tick g) ends r"
      "list_all2 (\<lambda>s r. row_of parsed (fst s) (snd s) ends r) (spans fs) qs"
    by (auto simp: list_all2_Cons1)
  note sorted = Cons.IH [OF rs(3)]
  have "rl_end_tick r < rl_freeze_tick q" if "q \<in> set qs" for q
  proof (cases qs)
    case (Cons p ps)
    then obtain g gs where g: "fs = g # gs" using rs(3) by (cases fs) auto
    with rs(3) Cons have p: "row_of parsed g (case gs of [] \<Rightarrow> i32_max | h # _ \<Rightarrow> pe_tick h) ends p" by simp
    have "rl_end_tick r < rl_freeze_tick p" using rs(2) p g by (simp add: row_of_def)
    moreover have "q = p \<or> rl_end_tick p < rl_freeze_tick q" using sorted that Cons by auto
    moreover have "rl_freeze_tick p < rl_end_tick p" using p by (simp add: row_of_def)
    ultimately show ?thesis by force
  qed (use that in simp)
  with sorted rs(1) show ?case by simp
qed simp

lemma chain_disjoint:
  "sorted_wrt (\<lambda>a b. rl_end_tick a < rl_freeze_tick b) rs \<Longrightarrow>
     (\<forall>r\<in>set rs. rl_freeze_tick r < rl_end_tick r) \<Longrightarrow> length (filter (\<lambda>r. in_round r t) rs) \<le> 1"
proof (induction rs)
  case (Cons r rs)
  show ?case
  proof (cases "in_round r t")
    case True
    have "filter (\<lambda>r. in_round r t) rs = []"
      using Cons.prems True by (auto simp: filter_empty_conv in_round_def)
    then show ?thesis by simp
  qed (use Cons in simp)
qed simp

text \<open>Every end lies in a span, by counting: one per row, and as many ends as rows.\<close>

lemma rows_use_ends:
  assumes "list_all2 (\<lambda>s r. row_of parsed (fst s) (snd s) ends r) (spans fs) rs"
  shows "length (filter (\<lambda>e. \<exists>r\<in>set rs. pe_tick e = rl_end_tick r) ends) \<ge> length rs"
  using assms
proof (induction fs arbitrary: rs)
  case (Cons f fs)
  note chain = rows_chain [OF Cons.prems]
  from Cons.prems obtain r qs where rs: "rs = r # qs"
      "row_of parsed f (case fs of [] \<Rightarrow> i32_max | g # _ \<Rightarrow> pe_tick g) ends r"
      "list_all2 (\<lambda>s r. row_of parsed (fst s) (snd s) ends r) (spans fs) qs"
    by (auto simp: list_all2_Cons1)
  from rs(2) obtain e where "e \<in> set ends" "pe_tick e = rl_end_tick r"
    unfolding row_of_def by (metis filter_singleD)
  then have one: "1 \<le> length (filter (\<lambda>e. pe_tick e = rl_end_tick r) ends)"
    by (metis (mono_tags, lifting) One_nat_def Suc_leI filter_empty_conv length_greater_0_conv)
  have valid: "\<forall>q\<in>set qs. rl_freeze_tick q < rl_end_tick q"
    using rs(3) by (auto simp: list_all2_conv_all_nth row_of_def in_set_conv_nth)
  have apart: "\<not> (\<exists>q\<in>set qs. pe_tick e = rl_end_tick q)" if "pe_tick e = rl_end_tick r" for e
    using chain rs(1) valid that by fastforce
  have split: "length (filter P xs) + length (filter Q xs) = length (filter (\<lambda>x. P x \<or> Q x) xs)"
    if "\<And>x. P x \<Longrightarrow> \<not> Q x" for P Q :: "parsed_event \<Rightarrow> bool" and xs
    using that by (induction xs) auto
  have "length (filter (\<lambda>e. pe_tick e = rl_end_tick r) ends)
      + length (filter (\<lambda>e. \<exists>q\<in>set qs. pe_tick e = rl_end_tick q) ends)
    = length (filter (\<lambda>e. pe_tick e = rl_end_tick r \<or> (\<exists>q\<in>set qs. pe_tick e = rl_end_tick q)) ends)"
    by (rule split) (rule apart)
  with one Cons.IH [OF rs(3)] rs(1) show ?case by simp
qed simp

lemma build_rounds_rows:
  assumes "build_rounds parsed local = Inr rs"
  shows "list_all2 (\<lambda>s r. row_of parsed (fst s) (snd s) (filter is_round_end (po_events parsed)) r)
      (spans (filter is_freeze (po_events parsed))) rs"
    and "map rl_number rs = [1..<Suc (length rs)]" and "rs \<noteq> []"
    and "length (filter is_round_end (po_events parsed)) = length rs"
proof -
  have loop: "rounds_loop parsed local (filter is_round_end (po_events parsed)) 0
        (filter is_freeze (po_events parsed)) = Inr rs"
    and rest: "rs \<noteq> []" "length (filter is_round_end (po_events parsed)) = length rs"
    using assms by (auto simp: build_rounds_def Let_def and_then_eq_Inr split: if_splits)
  note rows = rounds_loop_rows [OF loop]
  show "list_all2 (\<lambda>s r. row_of parsed (fst s) (snd s) (filter is_round_end (po_events parsed)) r)
      (spans (filter is_freeze (po_events parsed))) rs"
    using rows by (rule conjunct1)
  show "map rl_number rs = [1..<Suc (length rs)]" using rows [THEN conjunct2] by (simp del: upt_Suc)
  show "rs \<noteq> []" "length (filter is_round_end (po_events parsed)) = length rs" by (rule rest)+
qed

lemma rows_valid:
  "list_all2 (\<lambda>s r. row_of parsed (fst s) (snd s) ends r) xs rs \<Longrightarrow> r \<in> set rs \<Longrightarrow>
     \<exists>f n. row_of parsed f n ends r"
  by (induction rule: list_all2_induct) auto

lemma filter_all: "length (filter P xs) \<ge> length xs \<Longrightarrow> x \<in> set xs \<Longrightarrow> P x"
  by (metis length_filter_less linorder_not_le)

text \<open>
  C7: The ledger is well formed: its rows are numbered from one, one for each freeze in order, their
  spans are disjoint so that no tick belongs to two rounds, every end of a round closes exactly
  one of them, a row is eligible exactly when it has no exclusion, and then the local player is
  on one of the two teams; its evidence is that of the receipts in its span.
\<close>
theorem ledger_wellformed:
  assumes "build_rounds parsed local = Inr rounds"
  shows "map rl_number rounds = [1..<Suc (length rounds)] \<and> rounds \<noteq> []
    \<and> map rl_freeze_tick rounds = map pe_tick (filter is_freeze (po_events parsed))
    \<and> sorted_wrt (\<lambda>a b. rl_end_tick a < rl_freeze_tick b) rounds
    \<and> (\<forall>t. length (filter (\<lambda>r. in_round r t) rounds) \<le> 1)
    \<and> (\<forall>e\<in>set (po_events parsed). is_round_end e \<longrightarrow> (\<exists>r\<in>set rounds. pe_tick e = rl_end_tick r))
    \<and> (\<forall>r\<in>set rounds. rl_freeze_tick r < rl_end_tick r \<and> (rl_eligible r \<longleftrightarrow> rl_exclusion r = None)
        \<and> (rl_eligible r \<longrightarrow> rl_local_team r \<in> {2, 3})
        \<and> rl_hashes r = map rc_evidence_sha256 (filter (\<lambda>x. in_round r (rc_tick x)) (po_receipts parsed)))"
proof -
  let ?ends = "filter is_round_end (po_events parsed)"
  note rows = build_rounds_rows [OF assms]
  have row: "\<exists>f n. row_of parsed f n ?ends r" if "r \<in> set rounds" for r
    by (rule rows_valid [OF rows(1) that])
  then have valid: "\<forall>r\<in>set rounds. rl_freeze_tick r < rl_end_tick r" by (auto simp: row_of_def)
  note chain = rows_chain [OF rows(1)]
  have "map rl_freeze_tick rounds = map (pe_tick \<circ> fst) (spans (filter is_freeze (po_events parsed)))"
    using rows(1) by (induction rule: list_all2_induct) (auto simp: row_of_def)
  then have freezes: "map rl_freeze_tick rounds = map pe_tick (filter is_freeze (po_events parsed))"
    by (metis map_fst_spans map_map)
  have used: "\<exists>r\<in>set rounds. pe_tick e = rl_end_tick r" if "e \<in> set (po_events parsed)" "is_round_end e" for e
  proof -
    have "length ?ends \<le> length (filter (\<lambda>e. \<exists>r\<in>set rounds. pe_tick e = rl_end_tick r) ?ends)"
      using rows_use_ends [OF rows(1)] rows(4) by simp
    from filter_all [OF this, of e] that show ?thesis by simp
  qed
  have rest: "(rl_eligible r \<longleftrightarrow> rl_exclusion r = None) \<and> (rl_eligible r \<longrightarrow> rl_local_team r \<in> {2, 3})
      \<and> rl_hashes r = map rc_evidence_sha256 (filter (\<lambda>x. in_round r (rc_tick x)) (po_receipts parsed))"
    if "r \<in> set rounds" for r
    using row [OF that] by (auto simp: row_of_def)
  from rows(2,3) freezes chain chain_disjoint [OF chain valid] used valid rest show ?thesis by blast
qed

section \<open>Evaluation\<close>

text \<open>The bounds of the widths are evaluated on \<open>int\<close>, not in unary.\<close>

lemma add_u32_code [code]: "add_u32 a b = nat ((int a + int b) mod 4294967296)"
  by (simp add: add_u32_def nat_mod_distrib nat_add_distrib flip: of_nat_add)

lemma saturating_mul_u32_code [code]: "saturating_mul_u32 a b = nat (min (int a * int b) 4294967295)"
  by (simp add: saturating_mul_u32_def u32_max_def min_def flip: of_nat_mult)

section \<open>A sample demo\<close>

text \<open>Player 1 with teammate 2 against 3, one round: 3 kills 2, then 1 kills 3.\<close>

definition sample_snapshot :: "nat \<Rightarrow> int \<Rightarrow> steam_id \<Rightarrow> int \<Rightarrow> bool \<Rightarrow> int \<Rightarrow> player_snapshot" where
  "sample_snapshot n tick i team alive counter = \<lparr>sn_tick = tick, sn_ordinal = n, sn_phase = AfterEventPacket,
     sn_steam_id = i, sn_entity_id = None, sn_team = Some team, sn_health = Some (if alive then 100 else 0),
     sn_alive = Some alive, sn_life_state = None, sn_round_counter = Some counter\<rparr>"

definition sample_event :: "nat \<Rightarrow> int \<Rightarrow> normalized_event \<Rightarrow> parsed_event" where
  "sample_event n tick e = \<lparr>pe_tick = tick, pe_ordinal = n, pe_event = e\<rparr>"

definition sample_death :: "steam_id \<Rightarrow> steam_id \<Rightarrow> normalized_event" where
  "sample_death a v = PlayerDeath \<lparr>dt_attacker = Some a, dt_victim = Some v, dt_assister = None,
     dt_assisted_flash = False, dt_weapon = None\<rparr>"

definition sample_hurt :: normalized_event where
  "sample_hurt = PlayerHurt \<lparr>ph_attacker = Some 1, ph_victim = Some 3, ph_damage_health = Some 200,
     ph_weapon = Some ''ak47''\<rparr>"

definition sample_events :: "parsed_event list" where
  "sample_events = [sample_event 0 10 (RoundFreezeEnd \<lparr>rf_warmup = False\<rparr>),
     sample_event 1 20 sample_hurt, sample_event 2 30 (sample_death 3 2),
     sample_event 3 40 (sample_death 1 3), sample_event 4 90 (RoundEnd \<lparr>rn_winner = Some 2\<rparr>)]"

definition sample_demo :: "parsed_event list \<Rightarrow> unit parsed_output" where
  "sample_demo events = \<lparr>
     po_metadata = \<lparr>dm_map = None, dm_patch_build = Some ''b'', dm_demo_stamp = None, dm_server = None,
       dm_game_directory = None, dm_tick_rate = Some ''64'', dm_tick_rate_unavailable_reason = None\<rparr>,
     po_participants = [\<lparr>pt_steam_id = 1, pt_name = None, pt_team = Some 2\<rparr>,
       \<lparr>pt_steam_id = 2, pt_name = None, pt_team = Some 2\<rparr>, \<lparr>pt_steam_id = 3, pt_name = None, pt_team = Some 3\<rparr>],
     po_rounds = [\<lparr>pr_number = 1, pr_end_tick = 90, pr_winner = Some 2\<rparr>],
     po_events = events,
     po_receipts = map (\<lambda>e. \<lparr>rc_ordinal = pe_ordinal e, rc_event_name = pe_name e, rc_tick = pe_tick e,
       rc_fields = (\<lambda>_. None), rc_raw_fields = (\<lambda>_. None), rc_evidence_sha256 = show_nat (pe_ordinal e)\<rparr>) events,
     po_snapshots = [sample_snapshot 0 10 1 2 True 0, sample_snapshot 1 10 2 2 True 0, sample_snapshot 2 10 3 3 True 0,
       sample_snapshot 3 30 1 2 True 0, sample_snapshot 4 30 2 2 False 0, sample_snapshot 5 30 3 3 True 0,
       sample_snapshot 6 90 1 2 True 1],
     po_suspicious_empty = False,
     po_identity = \<lparr>ii_source_sha256 = ''s'', ii_parser_commit = ''c'', ii_parser_build = ''b'',
       ii_generated_proto_build = ''g'', ii_requested_schema_hash = ''q'', ii_metric_definition_version = ''m'',
       ii_formula_version = ''f'', ii_evidence_semantics_epoch = ''e''\<rparr>\<rparr>"

definition sample_round :: round_ledger where
  "sample_round = \<lparr>rl_number = 1, rl_freeze_tick = 10, rl_end_tick = 90, rl_winner = 2, rl_local_team = 2,
     rl_eligible = True, rl_exclusion = None, rl_hashes = [''0'', ''1'', ''2'', ''3'', ''4'']\<rparr>"

lemma sample_rounds: "build_rounds (sample_demo sample_events) 1 = Inr [sample_round]"
  by code_simp

lemma sample_score:
  "score_round (sample_demo sample_events) sample_round 1 64 (zero_metrics 1) = Inr ((zero_metrics 1)
     \<lparr>m_direct_damage := 100, m_kills := 1, m_trade_kills := 1,
      m_clutch_opportunities := 1, m_clutch_wins := 1\<rparr>)"
  by code_simp

theorem ledger_wellformed_witness:
  "build_rounds (sample_demo sample_events) 1 = Inr [sample_round]
    \<and> (\<forall>t. length (filter (\<lambda>r. in_round r t) [sample_round]) \<le> 1)"
  using ledger_wellformed [OF sample_rounds] sample_rounds by blast

section \<open>Scores add up\<close>

text \<open>Adding the counters of one score to those of another, as the \<open>u32\<close> counters do.\<close>

definition metrics_plus :: "rating_metrics \<Rightarrow> rating_metrics \<Rightarrow> rating_metrics" where
  "metrics_plus a b = \<lparr>m_eligible_rounds = m_eligible_rounds a,
     m_direct_damage = add_u32 (m_direct_damage a) (m_direct_damage b),
     m_kills = add_u32 (m_kills a) (m_kills b), m_deaths = add_u32 (m_deaths a) (m_deaths b),
     m_opening_wins = add_u32 (m_opening_wins a) (m_opening_wins b),
     m_opening_losses = add_u32 (m_opening_losses a) (m_opening_losses b),
     m_trade_kills = add_u32 (m_trade_kills a) (m_trade_kills b),
     m_utility_damage = add_u32 (m_utility_damage a) (m_utility_damage b),
     m_flash_assists = add_u32 (m_flash_assists a) (m_flash_assists b),
     m_clutch_wins = add_u32 (m_clutch_wins a) (m_clutch_wins b),
     m_clutch_opportunities = add_u32 (m_clutch_opportunities a) (m_clutch_opportunities b)\<rparr>"

lemma add_u32_assoc: "add_u32 (add_u32 a b) c = add_u32 a (add_u32 b c)"
  by (simp add: add_u32_def mod_add_left_eq mod_add_right_eq add.assoc)

lemma add_u32_le [simp]: "add_u32 a b \<le> u32_max"
proof -
  have "(a + b) mod 2 ^ 32 < Suc (2 ^ 32 - 1)" by simp
  then show ?thesis by (simp only: add_u32_def u32_max_def less_Suc_eq_le)
qed

lemma add_u32_zero: "a \<le> u32_max \<Longrightarrow> add_u32 a 0 = a"
  by (simp add: add_u32_def u32_max_def)

lemma add_u32_exact: "a + b \<le> u32_max \<Longrightarrow> add_u32 a b = a + b"
  by (simp add: add_u32_def u32_max_def)

lemma metrics_plus_updates:
  "(metrics_plus a b)\<lparr>m_direct_damage := add_u32 (m_direct_damage (metrics_plus a b)) x\<rparr>
     = metrics_plus a (b\<lparr>m_direct_damage := add_u32 (m_direct_damage b) x\<rparr>)"
  "(metrics_plus a b)\<lparr>m_utility_damage := add_u32 (m_utility_damage (metrics_plus a b)) x\<rparr>
     = metrics_plus a (b\<lparr>m_utility_damage := add_u32 (m_utility_damage b) x\<rparr>)"
  "(metrics_plus a b)\<lparr>m_kills := add_u32 (m_kills (metrics_plus a b)) x\<rparr>
     = metrics_plus a (b\<lparr>m_kills := add_u32 (m_kills b) x\<rparr>)"
  "(metrics_plus a b)\<lparr>m_deaths := add_u32 (m_deaths (metrics_plus a b)) x\<rparr>
     = metrics_plus a (b\<lparr>m_deaths := add_u32 (m_deaths b) x\<rparr>)"
  "(metrics_plus a b)\<lparr>m_opening_wins := add_u32 (m_opening_wins (metrics_plus a b)) x\<rparr>
     = metrics_plus a (b\<lparr>m_opening_wins := add_u32 (m_opening_wins b) x\<rparr>)"
  "(metrics_plus a b)\<lparr>m_opening_losses := add_u32 (m_opening_losses (metrics_plus a b)) x\<rparr>
     = metrics_plus a (b\<lparr>m_opening_losses := add_u32 (m_opening_losses b) x\<rparr>)"
  "(metrics_plus a b)\<lparr>m_trade_kills := add_u32 (m_trade_kills (metrics_plus a b)) x\<rparr>
     = metrics_plus a (b\<lparr>m_trade_kills := add_u32 (m_trade_kills b) x\<rparr>)"
  "(metrics_plus a b)\<lparr>m_flash_assists := add_u32 (m_flash_assists (metrics_plus a b)) x\<rparr>
     = metrics_plus a (b\<lparr>m_flash_assists := add_u32 (m_flash_assists b) x\<rparr>)"
  "(metrics_plus a b)\<lparr>m_clutch_wins := add_u32 (m_clutch_wins (metrics_plus a b)) x\<rparr>
     = metrics_plus a (b\<lparr>m_clutch_wins := add_u32 (m_clutch_wins b) x\<rparr>)"
  "(metrics_plus a b)\<lparr>m_clutch_opportunities := add_u32 (m_clutch_opportunities (metrics_plus a b)) x\<rparr>
     = metrics_plus a (b\<lparr>m_clutch_opportunities := add_u32 (m_clutch_opportunities b) x\<rparr>)"
  by (simp_all add: metrics_plus_def add_u32_assoc)

text \<open>A step is additive when what it adds does not depend on what was there.\<close>

abbreviation onto :: "rating_metrics \<Rightarrow> ('e, rating_metrics) result \<Rightarrow> ('e, rating_metrics) result" where
  "onto a \<equiv> map_sum id (metrics_plus a)"

abbreviation onto_fst :: "rating_metrics \<Rightarrow> ('e, rating_metrics \<times> 'b) result \<Rightarrow> ('e, rating_metrics \<times> 'b) result" where
  "onto_fst a \<equiv> map_sum id (map_prod (metrics_plus a) id)"

lemma score_hurt_plus:
  "score_hurt parsed local tick hurt (metrics_plus a b) = onto a (score_hurt parsed local tick hurt b)"
  by (simp add: score_hurt_def ok_or_def Let_def metrics_plus_updates split: option.split)

lemma score_opening_plus:
  "score_opening local attacker victim (metrics_plus a b) = metrics_plus a (score_opening local attacker victim b)"
  by (simp add: score_opening_def Let_def metrics_plus_updates)

lemma score_flash_plus:
  "score_flash parsed local tick death (metrics_plus a b) = onto a (score_flash parsed local tick death b)"
  by (simp add: score_flash_def ok_or_def metrics_plus_updates split: option.split)

lemma score_death_plus:
  "score_death parsed local tick death (metrics_plus a b, seen)
     = onto_fst a (score_death parsed local tick death (b, seen))"
proof (cases "dt_victim death")
  case (Some victim)
  let ?m = "\<lambda>m. let m = (if victim = local then m\<lparr>m_deaths := add_u32 (m_deaths m) 1\<rparr> else m);
      m = (if dt_attacker death = Some local \<and> team_at parsed local tick \<noteq> team_at parsed victim tick
        then m\<lparr>m_kills := add_u32 (m_kills m) 1\<rparr> else m)
      in if \<not> seen \<and> is_duel parsed tick (dt_attacker death) victim
        then score_opening local (dt_attacker death) victim m else m"
  have run: "score_death parsed local tick death (m, seen) =
      and_then (score_flash parsed local tick death (?m m))
        (\<lambda>m. Inr (m, seen \<or> \<not> seen \<and> is_duel parsed tick (dt_attacker death) victim))" for m
    by (simp add: score_death_def Some Let_def)
  have plus: "?m (metrics_plus a b) = metrics_plus a (?m b)"
    by (simp add: Let_def metrics_plus_updates score_opening_plus)
  show ?thesis
    by (cases "score_flash parsed local tick death (?m b)") (simp_all only: run plus score_flash_plus map_sum.simps
      and_then.simps map_prod_simp id_apply)
qed (simp add: score_death_def)

lemma score_event_plus:
  "score_event parsed local e (metrics_plus a b, seen) = onto_fst a (score_event parsed local e (b, seen))"
proof (cases "pe_event e")
  case (PlayerHurt h)
  then show ?thesis
    by (cases "score_hurt parsed local (pe_tick e) h b") (simp_all add: score_event_def score_hurt_plus)
qed (simp_all add: score_event_def score_death_plus)

lemma score_events_plus:
  "score_events parsed local es (metrics_plus a b, seen) = onto_fst a (score_events parsed local es (b, seen))"
proof (induction es arbitrary: b seen)
  case (Cons e es)
  show ?case
    by (cases "score_event parsed local e (b, seen)") (auto simp: score_event_plus Cons.IH)
qed simp

lemma score_trades_plus:
  "score_trades parsed r window deaths kills (metrics_plus a b) = onto a (score_trades parsed r window deaths kills b)"
  by (induction kills arbitrary: b) (auto simp: ok_or_def metrics_plus_updates split: option.split)

lemma score_clutch_plus:
  "score_clutch parsed local r ticks (metrics_plus a b) = onto a (score_clutch parsed local r ticks b)"
  by (induction ticks) (auto simp: ok_or_def Let_def metrics_plus_updates split: option.split)

lemma score_round_plus:
  "score_round parsed r local tick_rate (metrics_plus a b) = onto a (score_round parsed r local tick_rate b)"
proof -
  let ?es = "round_events parsed r"
  show ?thesis
  proof (cases "score_events parsed local ?es (b, False)")
    case (Inl e)
    then show ?thesis by (simp add: score_round_def score_events_plus Let_def)
  next
    case (Inr x)
    show ?thesis
    proof (cases "trade_window tick_rate")
      case (Inl e)
      with Inr \<open>score_events parsed local ?es (b, False) = Inr x\<close> show ?thesis
        by (cases x) (simp add: score_round_def score_events_plus Let_def)
    next
      case (Inr w)
      let ?t = "score_trades parsed r w (deaths_of ?es)
        (filter (\<lambda>(_, d). dt_attacker d = Some local) (deaths_of ?es)) (fst x)"
      from Inr \<open>score_events parsed local ?es (b, False) = Inr x\<close> show ?thesis
        by (cases x; cases ?t)
          (simp_all add: score_round_def score_events_plus Let_def score_trades_plus score_clutch_plus)
    qed
  qed
qed

lemma metrics_plus_zero:
  "u32_metrics m \<Longrightarrow> metrics_plus m (zero_metrics n) = m"
  by (simp add: metrics_plus_def zero_metrics_def u32_metrics_def add_u32_zero)

lemma metrics_plus_u32: "m_eligible_rounds a \<le> u32_max \<Longrightarrow> u32_metrics (metrics_plus a b)"
  by (simp add: u32_metrics_def metrics_plus_def)

lemma zero_u32: "n \<le> u32_max \<Longrightarrow> u32_metrics (zero_metrics n)"
  by (simp add: zero_metrics_def u32_metrics_def)

text \<open>The score of one round on its own.\<close>

definition round_score :: "'j parsed_output \<Rightarrow> steam_id \<Rightarrow> nat \<Rightarrow> round_ledger \<Rightarrow> (analysis_unavailable, rating_metrics) result" where
  "round_score parsed local tick_rate r = score_round parsed r local tick_rate (zero_metrics 0)"

lemma score_round_alone:
  assumes "u32_metrics m"
  shows "score_round parsed r local tick_rate m = onto m (round_score parsed local tick_rate r)"
  using score_round_plus [of parsed r local tick_rate m "zero_metrics 0"]
  by (simp add: metrics_plus_zero [OF assms] round_score_def)

lemma score_rounds_sum:
  "u32_metrics m \<Longrightarrow> score_rounds parsed local tick_rate rs m =
     map_sum id (foldl metrics_plus m) (collect_results (round_score parsed local tick_rate) rs)"
proof (induction rs arbitrary: m)
  case (Cons r rs)
  show ?case
  proof (cases "round_score parsed local tick_rate r")
    case (Inr d)
    have "u32_metrics (metrics_plus m d)" using Cons.prems by (intro metrics_plus_u32) (simp add: u32_metrics_def)
    from Cons.IH [OF this] show ?thesis
      by (cases "collect_results (round_score parsed local tick_rate) rs")
        (simp_all add: score_round_alone [OF Cons.prems] Inr)
  qed (simp add: score_round_alone [OF Cons.prems])
qed simp

text \<open>
  C8: The metrics of a match are the sum, in \<open>u32\<close>, of the scores of its eligible rounds, each computed on
  its own from zero; and the analysis of a round fails exactly as that round alone does, the
  first failing round deciding.
\<close>
theorem metrics_are_round_sums:
  assumes "n \<le> u32_max"
  shows "score_rounds parsed local tick_rate rs (zero_metrics n) =
    map_sum id (foldl metrics_plus (zero_metrics n))
      (collect_results (\<lambda>r. score_round parsed r local tick_rate (zero_metrics 0)) rs)"
  using score_rounds_sum [OF zero_u32 [OF assms]] unfolding round_score_def .

lemma sample_round_score: "score_round (sample_demo sample_events) sample_round 1 64 (zero_metrics 0)
    = Inr ((zero_metrics 0)\<lparr>m_direct_damage := 100, m_kills := 1, m_trade_kills := 1,
      m_clutch_opportunities := 1, m_clutch_wins := 1\<rparr>)"
  by code_simp

theorem metrics_are_round_sums_witness:
  "score_rounds (sample_demo sample_events) 1 64 [sample_round, sample_round] (zero_metrics 2)
    = Inr ((zero_metrics 2)\<lparr>m_direct_damage := 200, m_kills := 2, m_trade_kills := 2,
      m_clutch_opportunities := 2, m_clutch_wins := 2\<rparr>)"
proof -
  have "2 \<le> u32_max" by (simp add: u32_max_def)
  from metrics_are_round_sums [OF this, of "sample_demo sample_events" 1 64 "[sample_round, sample_round]"]
  show ?thesis
    by (simp del: score_rounds.simps One_nat_def add: sample_round_score)
      (simp add: metrics_plus_def zero_metrics_def add_u32_def)
qed

section \<open>What a round counts\<close>

definition clutch_at :: "'j parsed_output \<Rightarrow> steam_id \<Rightarrow> round_ledger \<Rightarrow> int \<Rightarrow> bool" where
  "clutch_at parsed local r tick \<longleftrightarrow> alive_at parsed local tick = Some True
     \<and> living parsed tick (is_teammate local r) = 0 \<and> living parsed tick (is_enemy r) > 0"

definition is_kill :: "'j parsed_output \<Rightarrow> steam_id \<Rightarrow> int \<times> player_death_event \<Rightarrow> bool" where
  "is_kill parsed local td \<longleftrightarrow> dt_attacker (snd td) = Some local
     \<and> team_at parsed local (fst td) \<noteq> Option.bind (dt_victim (snd td)) (\<lambda>v. team_at parsed v (fst td))"

definition is_trade :: "'j parsed_output \<Rightarrow> round_ledger \<Rightarrow> steam_id \<Rightarrow> int \<Rightarrow> (int \<times> player_death_event) list
    \<Rightarrow> int \<times> player_death_event \<Rightarrow> bool" where
  "is_trade parsed r local window deaths td \<longleftrightarrow> dt_attacker (snd td) = Some local
     \<and> (\<exists>v. dt_victim (snd td) = Some v \<and> (\<exists>prior\<in>set deaths. is_traded parsed r window (fst td) v prior))"

definition is_opening :: "'j parsed_output \<Rightarrow> int \<times> player_death_event \<Rightarrow> bool" where
  "is_opening parsed td \<longleftrightarrow> (\<exists>v. dt_victim (snd td) = Some v \<and> is_duel parsed (fst td) (dt_attacker (snd td)) v)"

definition hurts_of :: "parsed_event list \<Rightarrow> (int \<times> player_hurt_event) list" where
  "hurts_of es = List.map_filter (\<lambda>e. case pe_event e of PlayerHurt h \<Rightarrow> Some (pe_tick e, h) | _ \<Rightarrow> None) es"

text \<open>The damage of one hit: none but on an enemy, and never more than the victim's health.\<close>

definition hit_damage :: "'j parsed_output \<Rightarrow> steam_id \<Rightarrow> int \<times> player_hurt_event \<Rightarrow> nat" where
  "hit_damage parsed local th = (let tick = fst th; hurt = snd th in
     case ph_victim hurt of None \<Rightarrow> 0 | Some victim \<Rightarrow>
       if ph_attacker hurt = Some local \<and> victim \<noteq> local
           \<and> team_at parsed local tick \<noteq> team_at parsed victim tick
       then min (nat (unwrap_or 0 (ph_damage_health hurt)))
         (nat (unwrap_or 0 (Option.bind (snapshot_at parsed victim tick) sn_health)))
       else 0)"

lemma deaths_of_simps [simp]: "deaths_of [] = []"
  "deaths_of (e # es) = (case pe_event e of PlayerDeath d \<Rightarrow> (pe_tick e, d) # deaths_of es | _ \<Rightarrow> deaths_of es)"
  by (auto simp: deaths_of_def List.map_filter_def split: normalized_event.split)

lemma hurts_of_simps [simp]: "hurts_of [] = []"
  "hurts_of (e # es) = (case pe_event e of PlayerHurt h \<Rightarrow> (pe_tick e, h) # hurts_of es | _ \<Rightarrow> hurts_of es)"
  by (auto simp: hurts_of_def List.map_filter_def split: normalized_event.split)

locale counter =
  fixes f :: "rating_metrics \<Rightarrow> nat"
  assumes counter_plus: "f (metrics_plus a b) = add_u32 (f a) (f b)"
    and counter_zero: "f (zero_metrics n) = 0"
begin

lemma counter_u32: "x = onto (zero_metrics 0) y \<Longrightarrow> x = Inr m \<Longrightarrow> f m \<le> u32_max"
  by (cases y) (auto simp: counter_plus)

lemma events_counted:
  assumes "\<And>e seen m s. score_event parsed local e (zero_metrics 0, seen) = Inr (m, s) \<Longrightarrow> f m = g e"
  shows "score_events parsed local es (zero_metrics 0, seen) = Inr (m, s) \<Longrightarrow>
    f m = sum_list (map g es) mod 2 ^ 32"
proof (induction es arbitrary: seen m s)
  case (Cons e es)
  have zero: "zero_metrics 0 = metrics_plus (zero_metrics 0) (zero_metrics 0)"
    by (simp add: metrics_plus_def zero_metrics_def add_u32_def)
  from Cons.prems obtain m1 s1 where e: "score_event parsed local e (zero_metrics 0, seen) = Inr (m1, s1)"
    and es: "score_events parsed local es (m1, s1) = Inr (m, s)"
    by (auto simp: and_then_eq_Inr)
  have "score_event parsed local e (zero_metrics 0, seen)
      = onto_fst (zero_metrics 0) (score_event parsed local e (zero_metrics 0, seen))"
    using score_event_plus [of parsed local e "zero_metrics 0" "zero_metrics 0" seen] zero by simp
  with e have m1: "m1 = metrics_plus (zero_metrics 0) m1" by simp
  then have "u32_metrics m1" by (metis metrics_plus_u32 zero_le zero_metrics_def rating_metrics.simps(1))
  then have "score_events parsed local es (m1, s1)
      = onto_fst m1 (score_events parsed local es (zero_metrics 0, s1))"
    using score_events_plus [of parsed local es m1 "zero_metrics 0" s1] by (simp add: metrics_plus_zero)
  with es obtain m2 where m2: "score_events parsed local es (zero_metrics 0, s1) = Inr (m2, s)"
      "m = metrics_plus m1 m2"
    by (cases "score_events parsed local es (zero_metrics 0, s1)") auto
  from Cons.IH [OF m2(1)] assms [OF e] m2(2) show ?case
    by (simp add: counter_plus add_u32_def mod_add_right_eq)
qed (simp add: counter_zero)

end

interpretation deaths_counter: counter m_deaths
  by unfold_locales (simp_all add: metrics_plus_def zero_metrics_def)

interpretation kills_counter: counter m_kills
  by unfold_locales (simp_all add: metrics_plus_def zero_metrics_def)

interpretation flash_counter: counter m_flash_assists
  by unfold_locales (simp_all add: metrics_plus_def zero_metrics_def)

interpretation direct_counter: counter m_direct_damage
  by unfold_locales (simp_all add: metrics_plus_def zero_metrics_def)

interpretation utility_counter: counter m_utility_damage
  by unfold_locales (simp_all add: metrics_plus_def zero_metrics_def)

lemma opening_fields:
  "m_opening_wins (score_opening local a v m) = (if a = Some local then add_u32 (m_opening_wins m) 1 else m_opening_wins m)"
  "m_opening_losses (score_opening local a v m) = (if v = local then add_u32 (m_opening_losses m) 1 else m_opening_losses m)"
  "m_deaths (score_opening local a v m) = m_deaths m" "m_kills (score_opening local a v m) = m_kills m"
  "m_flash_assists (score_opening local a v m) = m_flash_assists m"
  "m_direct_damage (score_opening local a v m) = m_direct_damage m"
  "m_utility_damage (score_opening local a v m) = m_utility_damage m"
  "m_trade_kills (score_opening local a v m) = m_trade_kills m"
  "m_clutch_wins (score_opening local a v m) = m_clutch_wins m"
  "m_clutch_opportunities (score_opening local a v m) = m_clutch_opportunities m"
  by (simp_all add: score_opening_def Let_def)

lemma flash_fields:
  assumes "score_flash parsed local tick d m = Inr m'"
  shows "m' = (if dt_assisted_flash d \<and> dt_assister d = Some local
    then m\<lparr>m_flash_assists := add_u32 (m_flash_assists m) 1\<rparr> else m)"
  using assms by (auto simp: score_flash_def and_then_eq_Inr split: if_splits)

text \<open>A death's score as four independent conditional updates.\<close>

definition death_score :: "bool \<Rightarrow> bool \<Rightarrow> bool \<Rightarrow> bool \<Rightarrow> steam_id \<Rightarrow> steam_id option \<Rightarrow> steam_id \<Rightarrow> rating_metrics \<Rightarrow> rating_metrics" where
  "death_score dead kill duel flash local a v m =
     (let m = (if dead then m\<lparr>m_deaths := add_u32 (m_deaths m) 1\<rparr> else m);
          m = (if kill then m\<lparr>m_kills := add_u32 (m_kills m) 1\<rparr> else m);
          m = (if duel then score_opening local a v m else m) in
      if flash then m\<lparr>m_flash_assists := add_u32 (m_flash_assists m) 1\<rparr> else m)"

lemma death_score_fields:
  "m_deaths (death_score dead kill duel flash local a v m) = (if dead then add_u32 (m_deaths m) 1 else m_deaths m)"
  "m_kills (death_score dead kill duel flash local a v m) = (if kill then add_u32 (m_kills m) 1 else m_kills m)"
  "m_flash_assists (death_score dead kill duel flash local a v m)
     = (if flash then add_u32 (m_flash_assists m) 1 else m_flash_assists m)"
  "m_opening_wins (death_score dead kill duel flash local a v m)
     = (if duel \<and> a = Some local then add_u32 (m_opening_wins m) 1 else m_opening_wins m)"
  "m_opening_losses (death_score dead kill duel flash local a v m)
     = (if duel \<and> v = local then add_u32 (m_opening_losses m) 1 else m_opening_losses m)"
  "m_direct_damage (death_score dead kill duel flash local a v m) = m_direct_damage m"
  "m_utility_damage (death_score dead kill duel flash local a v m) = m_utility_damage m"
  "m_trade_kills (death_score dead kill duel flash local a v m) = m_trade_kills m"
  "m_clutch_wins (death_score dead kill duel flash local a v m) = m_clutch_wins m"
  "m_clutch_opportunities (death_score dead kill duel flash local a v m) = m_clutch_opportunities m"
  unfolding death_score_def Let_def
  by (cases dead; cases kill; cases duel; cases flash; simp add: opening_fields)+

lemma death_scored:
  assumes "score_death parsed local tick d (m, seen) = Inr (m', s)"
  obtains v where "dt_victim d = Some v" "s \<longleftrightarrow> seen \<or> is_opening parsed (tick, d)"
    "m' = death_score (v = local) (is_kill parsed local (tick, d)) (\<not> seen \<and> is_opening parsed (tick, d))
       (dt_assisted_flash d \<and> dt_assister d = Some local) local (dt_attacker d) v m"
proof -
  from assms obtain v where v: "dt_victim d = Some v" by (auto simp: score_death_def and_then_eq_Inr)
  then have kill: "dt_attacker d = Some local \<and> team_at parsed local tick \<noteq> team_at parsed v tick
      \<longleftrightarrow> is_kill parsed local (tick, d)"
    and duel: "is_duel parsed tick (dt_attacker d) v \<longleftrightarrow> is_opening parsed (tick, d)"
    by (simp_all add: is_kill_def is_opening_def)
  let ?n = "death_score (v = local) (is_kill parsed local (tick, d)) (\<not> seen \<and> is_opening parsed (tick, d))
    False local (dt_attacker d) v m"
  have "score_death parsed local tick d (m, seen) = and_then (score_flash parsed local tick d ?n)
      (\<lambda>m. Inr (m, seen \<or> \<not> seen \<and> is_opening parsed (tick, d)))"
    unfolding score_death_def death_score_def Let_def v ok_or_simps and_then.simps prod.case kill duel if_False ..
  with assms have s: "s \<longleftrightarrow> seen \<or> is_opening parsed (tick, d)"
    and "score_flash parsed local tick d ?n = Inr m'"
    by (auto simp: and_then_eq_Inr)
  from flash_fields [OF this(2)] have "m' = death_score (v = local) (is_kill parsed local (tick, d))
      (\<not> seen \<and> is_opening parsed (tick, d)) (dt_assisted_flash d \<and> dt_assister d = Some local)
      local (dt_attacker d) v m"
    by (simp add: death_score_def Let_def)
  with v s show thesis by (rule that)
qed

lemma u32_of_Some: "u32_of x = Some n \<longleftrightarrow> x = int n \<and> n \<le> u32_max"
  by (auto simp: u32_of_def u32_max_def)

text \<open>A hit is scored in one of the two damage counters, or not at all.\<close>

definition hurt_score :: "player_hurt_event \<Rightarrow> nat \<Rightarrow> rating_metrics \<Rightarrow> rating_metrics" where
  "hurt_score h n m = (if is_utility h then m\<lparr>m_utility_damage := add_u32 (m_utility_damage m) n\<rparr>
     else m\<lparr>m_direct_damage := add_u32 (m_direct_damage m) n\<rparr>)"

lemma hurt_scored:
  assumes "score_hurt parsed local tick h m = Inr m'"
  obtains (miss) "m' = m" "hit_damage parsed local (tick, h) = 0"
  | (hit) "m' = hurt_score h (hit_damage parsed local (tick, h)) m" "hit_damage parsed local (tick, h) \<le> u32_max"
proof (cases "ph_attacker h = Some local")
  case False
  with assms have "m' = m" by (simp add: score_hurt_def)
  moreover from False have "hit_damage parsed local (tick, h) = 0"
    by (simp add: hit_damage_def Let_def split: option.split)
  ultimately show thesis by (rule miss)
next
  case True
  with assms obtain v ta tv where v: "ph_victim h = Some v" "team_at parsed local tick = Some ta"
      "team_at parsed v tick = Some tv"
    by (auto simp: score_hurt_def and_then_eq_Inr)
  show thesis
  proof (cases "ta \<noteq> tv \<and> v \<noteq> local")
    case False
    with assms True v have "m' = m" by (simp add: score_hurt_def)
    moreover from False v have "hit_damage parsed local (tick, h) = 0" by (auto simp: hit_damage_def)
    ultimately show thesis by (rule miss)
  next
    case enemy: True
    with assms True v obtain x n y k where "ph_damage_health h = Some x" "x = int n" "n \<le> u32_max"
        "Option.bind (snapshot_at parsed v tick) sn_health = Some y" "y = int k" "k \<le> u32_max"
        "m' = hurt_score h (min n k) m"
      by (auto simp: score_hurt_def and_then_eq_Inr u32_of_Some hurt_score_def Let_def)
    with enemy True v show thesis by (intro hit) (simp_all add: hit_damage_def unwrap_or_def)
  qed
qed

text \<open>What each event adds to each counter.\<close>

definition event_deaths :: "steam_id \<Rightarrow> parsed_event \<Rightarrow> nat" where
  "event_deaths local e = (case pe_event e of PlayerDeath d \<Rightarrow> of_bool (dt_victim d = Some local) | _ \<Rightarrow> 0)"

definition event_kills :: "'j parsed_output \<Rightarrow> steam_id \<Rightarrow> parsed_event \<Rightarrow> nat" where
  "event_kills parsed local e = (case pe_event e of
     PlayerDeath d \<Rightarrow> of_bool (is_kill parsed local (pe_tick e, d)) | _ \<Rightarrow> 0)"

definition event_flashes :: "steam_id \<Rightarrow> parsed_event \<Rightarrow> nat" where
  "event_flashes local e = (case pe_event e of
     PlayerDeath d \<Rightarrow> of_bool (dt_assisted_flash d \<and> dt_assister d = Some local) | _ \<Rightarrow> 0)"

definition event_damage :: "(player_hurt_event \<Rightarrow> bool) \<Rightarrow> 'j parsed_output \<Rightarrow> steam_id \<Rightarrow> parsed_event \<Rightarrow> nat" where
  "event_damage P parsed local e = (case pe_event e of
     PlayerHurt h \<Rightarrow> if P h then hit_damage parsed local (pe_tick e, h) else 0 | _ \<Rightarrow> 0)"

lemma zero_fields [simp]: "m_deaths (zero_metrics n) = 0" "m_kills (zero_metrics n) = 0"
  "m_flash_assists (zero_metrics n) = 0" "m_direct_damage (zero_metrics n) = 0"
  "m_utility_damage (zero_metrics n) = 0" "m_opening_wins (zero_metrics n) = 0"
  "m_opening_losses (zero_metrics n) = 0" "m_trade_kills (zero_metrics n) = 0"
  "m_clutch_wins (zero_metrics n) = 0" "m_clutch_opportunities (zero_metrics n) = 0"
  "m_eligible_rounds (zero_metrics n) = n"
  by (simp_all add: zero_metrics_def)

lemma add_u32_one [simp]: "add_u32 0 (Suc 0) = Suc 0"
  by (simp add: add_u32_def)

lemma events_counts:
  assumes "score_events parsed local es (zero_metrics 0, False) = Inr (m, s)"
  shows "m_deaths m = sum_list (map (event_deaths local) es) mod 2 ^ 32"
    "m_kills m = sum_list (map (event_kills parsed local) es) mod 2 ^ 32"
    "m_flash_assists m = sum_list (map (event_flashes local) es) mod 2 ^ 32"
    "m_direct_damage m = sum_list (map (event_damage (\<lambda>h. \<not> is_utility h) parsed local) es) mod 2 ^ 32"
    "m_utility_damage m = sum_list (map (event_damage is_utility parsed local) es) mod 2 ^ 32"
proof -
  have step: "m_deaths m = event_deaths local e \<and> m_kills m = event_kills parsed local e
      \<and> m_flash_assists m = event_flashes local e
      \<and> m_direct_damage m = event_damage (\<lambda>h. \<not> is_utility h) parsed local e
      \<and> m_utility_damage m = event_damage is_utility parsed local e"
    if scored: "score_event parsed local e (zero_metrics 0, seen) = Inr (m, s)" for e seen m s
  proof (cases "pe_event e")
    case (PlayerHurt h)
    with scored have "score_hurt parsed local (pe_tick e) h (zero_metrics 0) = Inr m"
      by (auto simp: score_event_def and_then_eq_Inr)
    then show ?thesis
      by (cases rule: hurt_scored) (simp_all add: PlayerHurt hurt_score_def event_deaths_def event_kills_def
        event_flashes_def event_damage_def add_u32_exact)
  next
    case (PlayerDeath d)
    with scored have "score_death parsed local (pe_tick e) d (zero_metrics 0, seen) = Inr (m, s)"
      by (simp add: score_event_def)
    then obtain v where "dt_victim d = Some v" "m = death_score (v = local) (is_kill parsed local (pe_tick e, d))
        (\<not> seen \<and> is_opening parsed (pe_tick e, d))
        (dt_assisted_flash d \<and> dt_assister d = Some local) local (dt_attacker d) v (zero_metrics 0)"
      by (rule death_scored)
    then show ?thesis
      by (simp add: PlayerDeath death_score_fields event_deaths_def event_kills_def event_flashes_def event_damage_def)
  qed (use scored in \<open>auto simp: score_event_def event_deaths_def event_kills_def event_flashes_def event_damage_def\<close>)
  show "m_deaths m = sum_list (map (event_deaths local) es) mod 2 ^ 32"
    by (rule deaths_counter.events_counted [OF _ assms]) (use step in blast)
  show "m_kills m = sum_list (map (event_kills parsed local) es) mod 2 ^ 32"
    by (rule kills_counter.events_counted [OF _ assms]) (use step in blast)
  show "m_flash_assists m = sum_list (map (event_flashes local) es) mod 2 ^ 32"
    by (rule flash_counter.events_counted [OF _ assms]) (use step in blast)
  show "m_direct_damage m = sum_list (map (event_damage (\<lambda>h. \<not> is_utility h) parsed local) es) mod 2 ^ 32"
    by (rule direct_counter.events_counted [OF _ assms]) (use step in blast)
  show "m_utility_damage m = sum_list (map (event_damage is_utility parsed local) es) mod 2 ^ 32"
    by (rule utility_counter.events_counted [OF _ assms]) (use step in blast)
qed

text \<open>The opening duel is the first of the round's deaths that is one.\<close>

definition opening_counts :: "'j parsed_output \<Rightarrow> steam_id \<Rightarrow> (int \<times> player_death_event) list \<Rightarrow> rating_metrics \<Rightarrow> bool" where
  "opening_counts parsed local deaths m \<longleftrightarrow> (case List.find (is_opening parsed) deaths of
     None \<Rightarrow> m_opening_wins m = 0 \<and> m_opening_losses m = 0
   | Some td \<Rightarrow> m_opening_wins m = of_bool (dt_attacker (snd td) = Some local)
       \<and> m_opening_losses m = of_bool (dt_victim (snd td) = Some local))"

lemma opening_counts_Cons: "opening_counts parsed local (td # deaths) m \<longleftrightarrow>
    (if is_opening parsed td then m_opening_wins m = of_bool (dt_attacker (snd td) = Some local)
       \<and> m_opening_losses m = of_bool (dt_victim (snd td) = Some local)
     else opening_counts parsed local deaths m)"
  by (simp add: opening_counts_def)

lemma events_opening:
  "score_events parsed local es (m0, seen) = Inr (m, s) \<Longrightarrow> m_opening_wins m0 = 0 \<Longrightarrow> m_opening_losses m0 = 0 \<Longrightarrow>
     opening_counts parsed local (if seen then [] else deaths_of es) m"
proof (induction es arbitrary: m0 seen)
  case (Cons e es)
  from Cons.prems(1) obtain m1 s1 where e: "score_event parsed local e (m0, seen) = Inr (m1, s1)"
    and es: "score_events parsed local es (m1, s1) = Inr (m, s)"
    by (auto simp: and_then_eq_Inr)
  have quiet: ?case if "m_opening_wins m1 = 0" "m_opening_losses m1 = 0" "s1 = seen"
      "deaths_of (e # es) = deaths_of es \<or> (\<exists>td. deaths_of (e # es) = td # deaths_of es \<and> (seen \<or> \<not> is_opening parsed td))"
    using Cons.IH [OF es that(1,2)] that(3,4) by (cases seen) (auto simp: opening_counts_Cons)
  have after: "m_opening_wins m = m_opening_wins m1 \<and> m_opening_losses m = m_opening_losses m1"
    if "s1" "score_events parsed local es (m1, s1) = Inr (m, s)"
    for es m1 s1 m s
    using that
  proof (induction es arbitrary: m1 s1)
    case (Cons e es)
    then obtain m2 s2 where e: "score_event parsed local e (m1, s1) = Inr (m2, s2)"
      and es: "score_events parsed local es (m2, s2) = Inr (m, s)"
      by (auto simp: and_then_eq_Inr)
    have "s2 \<and> m_opening_wins m2 = m_opening_wins m1 \<and> m_opening_losses m2 = m_opening_losses m1"
    proof (cases "pe_event e")
      case (PlayerHurt h)
      with e have hurt: "score_hurt parsed local (pe_tick e) h m1 = Inr m2" and "s2 = s1"
        by (auto simp: score_event_def and_then_eq_Inr)
      with Cons.prems(1) have "s2" by simp
      from hurt show ?thesis by (cases rule: hurt_scored) (simp_all add: hurt_score_def \<open>s2\<close>)
    next
      case (PlayerDeath d)
      with e have "score_death parsed local (pe_tick e) d (m1, s1) = Inr (m2, s2)" by (simp add: score_event_def)
      with Cons.prems(1) show ?thesis by (elim death_scored) (simp add: death_score_fields)
    qed (use e Cons.prems(1) in \<open>simp_all add: score_event_def\<close>)
    with Cons.IH [OF _ es] show ?case by simp
  qed simp
  show ?case
  proof (cases "pe_event e")
    case (PlayerHurt h)
    with e have hurt: "score_hurt parsed local (pe_tick e) h m0 = Inr m1" and "s1 = seen"
      by (auto simp: score_event_def and_then_eq_Inr)
    from hurt have "m_opening_wins m1 = 0 \<and> m_opening_losses m1 = 0"
      by (cases rule: hurt_scored) (simp_all add: hurt_score_def Cons.prems(2,3))
    with quiet \<open>s1 = seen\<close> PlayerHurt show ?thesis by simp
  next
    case (PlayerDeath d)
    with e have "score_death parsed local (pe_tick e) d (m0, seen) = Inr (m1, s1)" by (simp add: score_event_def)
    then obtain v where v: "dt_victim d = Some v" "s1 \<longleftrightarrow> seen \<or> is_opening parsed (pe_tick e, d)"
      "m1 = death_score (v = local) (is_kill parsed local (pe_tick e, d)) (\<not> seen \<and> is_opening parsed (pe_tick e, d))
       (dt_assisted_flash d \<and> dt_assister d = Some local) local (dt_attacker d) v m0"
      by (rule death_scored)
    show ?thesis
    proof (cases "\<not> seen \<and> is_opening parsed (pe_tick e, d)")
      case True
      with after [OF _ es] v Cons.prems(2,3) PlayerDeath show ?thesis
        by (simp add: death_score_fields opening_counts_Cons)
    next
      case False
      with v Cons.prems(2,3) PlayerDeath show ?thesis by (intro quiet) (auto simp: death_score_fields)
    qed
  qed (use e Cons.prems(2,3) quiet in \<open>simp_all add: score_event_def\<close>)
qed (simp add: opening_counts_def)

lemma add_u32_Suc: "add_u32 (add_u32 a (Suc 0)) n = add_u32 a (Suc n)"
  using mod_add_left_eq [of "a + 1" "2 ^ 32" n] by (simp add: add_u32_def)

lemma trades_counted:
  "score_trades parsed r window deaths kills m = Inr m' \<Longrightarrow> u32_metrics m \<Longrightarrow>
     m' = m\<lparr>m_trade_kills := add_u32 (m_trade_kills m) (length (filter (\<lambda>td. \<exists>v. dt_victim (snd td) = Some v
       \<and> (\<exists>prior\<in>set deaths. is_traded parsed r window (fst td) v prior)) kills))\<rparr>"
proof (induction kills arbitrary: m)
  case Nil
  then show ?case by (simp add: u32_metrics_def add_u32_zero)
next
  case (Cons td kills)
  obtain tick k where td: "td = (tick, k)" by fastforce
  with Cons.prems obtain v where v: "dt_victim k = Some v"
    by (auto simp: and_then_eq_Inr)
  have bounded: "u32_metrics (m\<lparr>m_trade_kills := add_u32 (m_trade_kills m) 1\<rparr>)"
    using Cons.prems(2) by (simp add: u32_metrics_def)
  show ?case
  proof (cases "\<exists>prior\<in>set deaths. is_traded parsed r window tick v prior")
    case True
    with Cons.prems(1) have "score_trades parsed r window deaths kills
        (m\<lparr>m_trade_kills := add_u32 (m_trade_kills m) 1\<rparr>) = Inr m'"
      by (simp add: td v list_ex_iff)
    from Cons.IH [OF this bounded] True show ?thesis by (simp add: td v add_u32_Suc)
  next
    case False
    with Cons.prems(1) have "score_trades parsed r window deaths kills m = Inr m'"
      by (simp add: td v list_ex_iff)
    from Cons.IH [OF this Cons.prems(2)] False show ?thesis by (simp add: td v)
  qed
qed

lemma clutch_counted:
  "score_clutch parsed local r ticks m = Inr m' \<Longrightarrow>
     m' = (if \<exists>tick\<in>set ticks. clutch_at parsed local r tick
       then m\<lparr>m_clutch_opportunities := add_u32 (m_clutch_opportunities m) 1,
         m_clutch_wins := (if rl_local_team r = rl_winner r then add_u32 (m_clutch_wins m) 1 else m_clutch_wins m)\<rparr>
       else m)"
proof (induction ticks)
  case (Cons tick ticks)
  then obtain alive where alive: "alive_at parsed local tick = Some alive" by (auto simp: and_then_eq_Inr)
  show ?case
  proof (cases "clutch_at parsed local r tick")
    case True
    with Cons.prems alive show ?thesis by (auto simp: clutch_at_def Let_def split: if_splits)
  next
    case False
    with Cons.prems alive have "score_clutch parsed local r ticks m = Inr m'"
      by (auto simp: clutch_at_def split: if_splits)
    from Cons.IH [OF this] False show ?thesis by simp
  qed
qed simp

text \<open>The counts of the rating document, over the deaths and the hits of a round.\<close>

lemma deaths_sum:
  "sum_list (map (event_deaths local) es) = length (filter (\<lambda>td. dt_victim (snd td) = Some local) (deaths_of es))"
  "sum_list (map (event_kills parsed local) es) = length (filter (is_kill parsed local) (deaths_of es))"
  "sum_list (map (event_flashes local) es) = length (filter (\<lambda>td. dt_assisted_flash (snd td)
     \<and> dt_assister (snd td) = Some local) (deaths_of es))"
  "sum_list (map (event_damage P parsed local) es)
     = sum_list (map (hit_damage parsed local) (filter (\<lambda>th. P (snd th)) (hurts_of es)))"
  by (induction es)
    (auto simp: event_deaths_def event_kills_def event_flashes_def event_damage_def split: normalized_event.split)

definition round_counts :: "'j parsed_output \<Rightarrow> steam_id \<Rightarrow> int \<Rightarrow> round_ledger \<Rightarrow> rating_metrics \<Rightarrow> bool" where
  "round_counts parsed local window r m \<longleftrightarrow>
     (let deaths = deaths_of (round_events parsed r); hits = hurts_of (round_events parsed r) in
      m_deaths m = length (filter (\<lambda>td. dt_victim (snd td) = Some local) deaths) mod 2 ^ 32
    \<and> m_kills m = length (filter (is_kill parsed local) deaths) mod 2 ^ 32
    \<and> m_flash_assists m = length (filter (\<lambda>td. dt_assisted_flash (snd td)
        \<and> dt_assister (snd td) = Some local) deaths) mod 2 ^ 32
    \<and> m_direct_damage m = sum_list (map (hit_damage parsed local)
        (filter (\<lambda>th. \<not> is_utility (snd th)) hits)) mod 2 ^ 32
    \<and> m_utility_damage m = sum_list (map (hit_damage parsed local)
        (filter (\<lambda>th. is_utility (snd th)) hits)) mod 2 ^ 32
    \<and> opening_counts parsed local deaths m
    \<and> m_trade_kills m = length (filter (is_trade parsed r local window deaths) deaths) mod 2 ^ 32
    \<and> m_clutch_opportunities m = of_bool (\<exists>tick\<in>set (transition_ticks parsed r). clutch_at parsed local r tick)
    \<and> m_clutch_wins m = of_bool ((\<exists>tick\<in>set (transition_ticks parsed r). clutch_at parsed local r tick)
        \<and> rl_local_team r = rl_winner r))"

lemma events_untouched:
  "score_events parsed local es (m0, seen) = Inr (m, s) \<Longrightarrow>
     m_trade_kills m = m_trade_kills m0 \<and> m_clutch_wins m = m_clutch_wins m0
     \<and> m_clutch_opportunities m = m_clutch_opportunities m0 \<and> m_eligible_rounds m = m_eligible_rounds m0"
proof (induction es arbitrary: m0 seen)
  case (Cons e es)
  from Cons.prems obtain m1 s1 where e: "score_event parsed local e (m0, seen) = Inr (m1, s1)"
    and es: "score_events parsed local es (m1, s1) = Inr (m, s)"
    by (auto simp: and_then_eq_Inr)
  have "m_trade_kills m1 = m_trade_kills m0 \<and> m_clutch_wins m1 = m_clutch_wins m0
     \<and> m_clutch_opportunities m1 = m_clutch_opportunities m0 \<and> m_eligible_rounds m1 = m_eligible_rounds m0"
  proof (cases "pe_event e")
    case (PlayerHurt h)
    with e have "score_hurt parsed local (pe_tick e) h m0 = Inr m1" by (auto simp: score_event_def and_then_eq_Inr)
    then show ?thesis by (cases rule: hurt_scored) (simp_all add: hurt_score_def)
  next
    case (PlayerDeath d)
    with e have "score_death parsed local (pe_tick e) d (m0, seen) = Inr (m1, s1)" by (simp add: score_event_def)
    then show ?thesis
      by (elim death_scored) (simp add: death_score_fields, simp add: death_score_def Let_def score_opening_def)
  qed (use e in \<open>simp_all add: score_event_def\<close>)
  with Cons.IH [OF es] show ?case by simp
qed simp

lemma events_u32:
  assumes "score_events parsed local es (zero_metrics n, False) = Inr (m, s)" "n \<le> u32_max"
  shows "u32_metrics m"
proof -
  have "metrics_plus (zero_metrics n) (zero_metrics 0) = zero_metrics n"
    using assms(2) by (intro metrics_plus_zero zero_u32)
  with assms(1) score_events_plus [of parsed local es "zero_metrics n" "zero_metrics 0" False]
  have "onto_fst (zero_metrics n) (score_events parsed local es (zero_metrics 0, False)) = Inr (m, s)" by simp
  then obtain m' where "m = metrics_plus (zero_metrics n) m'"
    by (cases "score_events parsed local es (zero_metrics 0, False)") auto
  then show ?thesis using assms(2) by (simp add: metrics_plus_u32)
qed

lemma score_round_counted:
  assumes "score_round parsed r local tick_rate (zero_metrics 0) = Inr m"
  obtains window where "trade_window tick_rate = Inr window" "round_counts parsed local window r m"
    "m_eligible_rounds m = 0"
proof -
  let ?es = "round_events parsed r"
  from assms obtain m1 s window m2 where
    e: "score_events parsed local ?es (zero_metrics 0, False) = Inr (m1, s)" and
    w: "trade_window tick_rate = Inr window" and
    t: "score_trades parsed r window (deaths_of ?es)
        (filter (\<lambda>(_, d). dt_attacker d = Some local) (deaths_of ?es)) m1 = Inr m2" and
    c: "score_clutch parsed local r (transition_ticks parsed r) m2 = Inr m"
    by (auto simp: score_round_def Let_def and_then_eq_Inr)
  have "is_trade parsed r local window (deaths_of ?es) = (\<lambda>td. dt_attacker (snd td) = Some local
      \<and> (\<exists>v. dt_victim (snd td) = Some v \<and> (\<exists>prior\<in>set (deaths_of ?es). is_traded parsed r window (fst td) v prior)))"
    by (simp add: is_trade_def fun_eq_iff)
  then have m2: "m2 = m1\<lparr>m_trade_kills := length (filter (is_trade parsed r local window (deaths_of ?es)) (deaths_of ?es)) mod 2 ^ 32\<rparr>"
    using trades_counted [OF t events_u32 [OF e]] events_untouched [OF e]
    by (simp add: case_prod_unfold conj_commute add_u32_def)
  note c = clutch_counted [OF c]
  have "m_opening_wins m = m_opening_wins m1" "m_opening_losses m = m_opening_losses m1"
    by (simp_all add: c m2)
  with events_opening [OF e] have duel: "opening_counts parsed local (deaths_of ?es) m"
    by (simp add: opening_counts_def cong: option.case_cong)
  have "round_counts parsed local window r m \<and> m_eligible_rounds m = 0"
    unfolding round_counts_def Let_def using duel events_counts [OF e] events_untouched [OF e]
    by (simp add: c m2 deaths_sum)
  with w that show thesis by blast
qed



section \<open>Bounds of the counters\<close>

lemma round_counts_bounds:
  assumes "round_counts parsed local window r m"
  shows "m_opening_wins m + m_opening_losses m \<le> 1 \<and> m_clutch_opportunities m \<le> 1
    \<and> m_clutch_wins m \<le> m_clutch_opportunities m \<and> m_kills m < 2 ^ 32 \<and> m_trade_kills m < 2 ^ 32"
proof -
  have "m_opening_wins m + m_opening_losses m \<le> 1"
  proof (cases "List.find (is_opening parsed) (deaths_of (round_events parsed r))")
    case (Some td)
    then have "is_opening parsed td" by (auto dest: find_SomeD)
    then have "dt_attacker (snd td) \<noteq> dt_victim (snd td)" by (cases "dt_attacker (snd td)") (auto simp: is_opening_def is_duel_def)
    with assms Some show ?thesis by (auto simp: round_counts_def Let_def opening_counts_def)
  qed (use assms in \<open>simp add: round_counts_def Let_def opening_counts_def\<close>)
  with assms show ?thesis by (auto simp: round_counts_def Let_def)
qed

lemma sum_bounds:
  assumes "\<forall>d\<in>set ds. m_opening_wins d + m_opening_losses d \<le> 1 \<and> m_clutch_opportunities d \<le> 1
      \<and> m_clutch_wins d \<le> m_clutch_opportunities d"
    and "m_opening_wins m + m_opening_losses m + length ds \<le> u32_max"
    and "m_clutch_wins m \<le> m_clutch_opportunities m" "m_clutch_opportunities m + length ds \<le> u32_max"
  shows "let t = foldl metrics_plus m ds in
     m_opening_wins t + m_opening_losses t \<le> m_opening_wins m + m_opening_losses m + length ds
     \<and> m_clutch_opportunities t \<le> m_clutch_opportunities m + length ds \<and> m_clutch_wins t \<le> m_clutch_opportunities t
     \<and> m_eligible_rounds t = m_eligible_rounds m"
  using assms
proof (induction ds arbitrary: m)
  case (Cons d ds)
  have "m_opening_wins (metrics_plus m d) = m_opening_wins m + m_opening_wins d"
    "m_opening_losses (metrics_plus m d) = m_opening_losses m + m_opening_losses d"
    "m_clutch_opportunities (metrics_plus m d) = m_clutch_opportunities m + m_clutch_opportunities d"
    "m_clutch_wins (metrics_plus m d) = m_clutch_wins m + m_clutch_wins d"
    "m_eligible_rounds (metrics_plus m d) = m_eligible_rounds m"
    using Cons.prems by (auto simp: metrics_plus_def intro!: add_u32_exact)
  with Cons.IH [of "metrics_plus m d"] Cons.prems show ?case by (auto simp: Let_def)
qed simp

lemma score_rounds_bounds:
  assumes "score_rounds parsed local tick_rate rs (zero_metrics (length rs)) = Inr m" "length rs \<le> u32_max"
  shows "m_opening_wins m + m_opening_losses m \<le> length rs \<and> m_clutch_opportunities m \<le> length rs
    \<and> m_clutch_wins m \<le> m_clutch_opportunities m \<and> m_eligible_rounds m = length rs"
proof -
  from score_rounds_sum [OF zero_u32 [OF assms(2)], of parsed local tick_rate rs] assms(1) obtain ds where
    ds: "collect_results (round_score parsed local tick_rate) rs = Inr ds" and m: "m = foldl metrics_plus (zero_metrics (length rs)) ds"
    by (cases "collect_results (round_score parsed local tick_rate) rs") auto
  then have all: "list_all2 (\<lambda>r d. round_score parsed local tick_rate r = Inr d) rs ds"
    by (simp add: collect_results_Inr)
  then have len: "length ds = length rs" by (simp add: list_all2_lengthD)
  have "\<forall>d\<in>set ds. m_opening_wins d + m_opening_losses d \<le> 1 \<and> m_clutch_opportunities d \<le> 1
      \<and> m_clutch_wins d \<le> m_clutch_opportunities d"
    using all
  proof (induction rule: list_all2_induct)
    case (Cons r rs d ds)
    from Cons(1) obtain window where "round_counts parsed local window r d"
      unfolding round_score_def by (rule score_round_counted)
    with round_counts_bounds [OF this] Cons.IH show ?case by simp
  qed simp
  from sum_bounds [OF this, of "zero_metrics (length rs)"] len assms(2) m show ?thesis by (simp add: Let_def)
qed

lemma analyze_steps:
  assumes "analyze parsed local = Inr a"
  obtains tick_rate build where
    "parse_tick_rate parsed = Inr tick_rate" "dm_patch_build (po_metadata parsed) = Some build"
    "list_ex (\<lambda>p. pt_steam_id p = local) (po_participants parsed)" "verify_order parsed = Inr ()"
    "require_streams required_streams (po_events parsed) = Inr ()" "build_rounds parsed local = Inr (an_rounds a)"
    "length (filter rl_eligible (an_rounds a)) \<le> u32_max"
    "score_rounds parsed local tick_rate (filter rl_eligible (an_rounds a))
       (zero_metrics (length (filter rl_eligible (an_rounds a)))) = Inr (in_metrics (an_rating_input a))"
    "an_rating_input a = \<lparr>in_identity = identity_of (po_identity parsed), in_game_build = build,
       in_metrics = in_metrics (an_rating_input a),
       in_irregularities = irregularities_of parsed (an_rounds a) (m_eligible_rounds (in_metrics (an_rating_input a))),
       in_evidence_failure = None, in_evidence = evidence_of parsed (an_rounds a)\<rparr>"
    "calculate_rating (an_rating_input a) = Inr (an_rating_receipt a)"
  using assms by (auto simp: analyze_def Let_def and_then_eq_Inr map_err_eq_Inr split: if_splits)

text \<open>
  The order check, the required streams and the rating formula have errors of their own; every
  other step fails only for what it reads.
\<close>

fun is_reading_error :: "analysis_unavailable \<Rightarrow> bool" where
  "is_reading_error MalformedOrdering = False"
| "is_reading_error (MissingStream _) = False"
| "is_reading_error (DomainFailure _) = False"
| "is_reading_error _ = True"

abbreviation reads :: "(analysis_unavailable, 'a) result \<Rightarrow> bool" where
  "reads \<equiv> errors_in is_reading_error"

lemma reads_parts:
  "reads (parse_tick_rate parsed)" "reads (rounds_loop parsed local ends n fs)"
  "reads (score_rounds parsed local tick_rate rs m)"
proof -
  note rule = errors_in_and_then
  show "reads (parse_tick_rate parsed)" by (auto simp: parse_tick_rate_def intro!: rule)
  have "reads (classify_round w n)" for w n by (auto simp: classify_round_def split: option.split)
  moreover have "reads (check_counter parsed local n t)" for n t
    by (auto simp: check_counter_def intro!: rule)
  ultimately have "reads (build_round parsed local k f n ends)" for k f n ends
    by (auto simp: build_round_def Let_def intro!: rule split: list.split normalized_event.split)
  then show "reads (rounds_loop parsed local ends n fs)"
    by (induction fs arbitrary: n) (auto intro!: rule)
  have hurt: "reads (score_hurt parsed local t h m)" for t h m
    by (auto simp: score_hurt_def Let_def intro!: rule)
  have flash: "reads (score_flash parsed local t d m)" for t d m
    by (auto simp: score_flash_def intro!: rule)
  have "reads (score_death parsed local t d acc)" for t d acc
    by (cases acc) (auto simp: score_death_def Let_def intro!: rule flash)
  with hurt have "reads (score_event parsed local e acc)" for e acc
    by (auto simp: score_event_def intro!: rule split: normalized_event.split)
  then have events: "reads (score_events parsed local es acc)" for es acc
    by (induction es arbitrary: acc) (auto intro!: rule)
  have trades: "reads (score_trades parsed r w deaths kills m)" for r w deaths kills m
    by (induction kills arbitrary: m) (auto intro!: rule)
  have clutch: "reads (score_clutch parsed local r ticks m)" for r ticks m
    by (induction ticks) (auto simp: Let_def intro!: rule)
  have "reads (score_round parsed r local tick_rate m)" for r m
    by (auto simp: score_round_def Let_def trade_window_def intro!: rule events trades clutch)
  then show "reads (score_rounds parsed local tick_rate rs m)"
    by (induction rs arbitrary: m) (auto intro!: rule)
qed

lemma build_rounds_error:
  "build_rounds parsed local = Inl e \<Longrightarrow>
     is_reading_error e \<or> e = MissingStream ''eligible round ledger'' \<and> filter is_freeze (po_events parsed) = []"
  using reads_parts(2) [of parsed local "filter is_round_end (po_events parsed)" 0 "filter is_freeze (po_events parsed)"]
  by (cases "filter is_freeze (po_events parsed)")
    (auto simp: build_rounds_def Let_def and_then_eq_Inl and_then_eq_Inr errors_in_def split: if_splits)

text \<open>How an analysis fails.\<close>

lemma analyze_error:
  assumes "analyze parsed local = Inl e"
  obtains (reading) "is_reading_error e" | (ordering) "verify_order parsed = Inl e"
  | (stream) "require_streams required_streams (po_events parsed) = Inl e"
  | (empty) "e = MissingStream ''eligible round ledger''" "filter is_freeze (po_events parsed) = []"
  | (rating) i rs tick_rate d where "e = DomainFailure d" "calculate_rating i = Inl d" "length rs \<le> u32_max"
      "score_rounds parsed local tick_rate rs (zero_metrics (length rs)) = Inr (in_metrics i)"
proof -
  have parts: "is_reading_error e" if "parse_tick_rate parsed = Inl e
      \<or> (\<exists>rs m tick_rate. score_rounds parsed local tick_rate rs m = Inl e)"
    using that reads_parts [unfolded errors_in_def] by blast
  from assms consider (own) "is_reading_error e" | (order) "verify_order parsed = Inl e"
    | (streams) "require_streams required_streams (po_events parsed) = Inl e"
    | (ledger) "build_rounds parsed local = Inl e"
    | (part) "parse_tick_rate parsed = Inl e \<or> (\<exists>rs m tick_rate. score_rounds parsed local tick_rate rs m = Inl e)"
    | (domain) i rounds tick_rate d where "e = DomainFailure d" "calculate_rating i = Inl d"
      "\<not> u32_max < length (filter rl_eligible rounds)"
      "score_rounds parsed local tick_rate (filter rl_eligible rounds)
        (zero_metrics (length (filter rl_eligible rounds))) = Inr (in_metrics i)"
    by (fastforce simp: analyze_def Let_def and_then_eq_Inl map_err_eq_Inl split: if_splits)
  then show thesis
  proof cases
    case ledger
    with build_rounds_error reading empty show thesis by blast
  next
    case (domain i rounds tick_rate d)
    with rating [of d i "filter rl_eligible rounds" tick_rate] show thesis by simp
  qed (use reading ordering stream parts in blast)+
qed

lemma require_streams_error: "require_streams ks es = Inl e \<Longrightarrow>
    \<exists>k s. (k, s) \<in> set ks \<and> e = MissingStream s \<and> \<not> has_kind k es"
  by (induction ks es rule: require_streams.induct) (auto split: if_splits)

text \<open>
  C11: The counters of an analysed match are consistent: the rounds are the eligible rows of the ledger,
  there are at most that many opening duels and clutches, and no more clutches won than met; so
  the rating formula never refuses the input for its clutches.
\<close>
theorem analysis_counters_bounded:
  "(case analyze parsed local of
      Inr a \<Rightarrow> (let m = in_metrics (an_rating_input a) in
        m_eligible_rounds m = length (filter rl_eligible (an_rounds a))
        \<and> m_opening_wins m + m_opening_losses m \<le> m_eligible_rounds m
        \<and> m_clutch_opportunities m \<le> m_eligible_rounds m \<and> m_clutch_wins m \<le> m_clutch_opportunities m)
    | Inl e \<Rightarrow> e \<noteq> DomainFailure ClutchWinsExceedOpportunities)"
proof (cases "analyze parsed local")
  case (Inr a)
  from Inr show ?thesis
    by (elim analyze_steps) (auto simp: Inr Let_def dest!: score_rounds_bounds)
next
  case (Inl e)
  have "e \<noteq> DomainFailure ClutchWinsExceedOpportunities"
  proof
    assume "e = DomainFailure ClutchWinsExceedOpportunities"
    with Inl have "analyze parsed local = Inl (DomainFailure ClutchWinsExceedOpportunities)" by simp
    then show False
    proof (cases rule: analyze_error)
      case (rating i rs tick_rate d)
      with score_rounds_bounds [OF rating(4,3)] show False
        by (auto simp: calculate_rating_def map_err_eq_Inl split: if_splits option.splits)
    qed (auto simp: verify_order_def dest: require_streams_error split: if_splits)
  qed
  with Inl show ?thesis by simp
qed

section \<open>Irregular matches\<close>

text \<open>A sample analysis: one round is too few for a rating, and it is analysed all the same.\<close>

lemma short_match_unavailable:
  assumes "m_eligible_rounds (in_metrics i) < 8" "m_clutch_wins (in_metrics i) \<le> m_clutch_opportunities (in_metrics i)"
  shows "\<exists>r. calculate_rating i = Inr r"
  using assms by (auto simp: calculate_rating_def unavailable_reason_of_def split: option.split)

lemma sample_parts:
  "parse_tick_rate (sample_demo es) = Inr 64" "verify_order (sample_demo sample_events) = Inr ()"
  "require_streams required_streams (po_events (sample_demo sample_events)) = Inr ()"
  "dm_patch_build (po_metadata (sample_demo es)) = Some ''b''"
  "list_ex (\<lambda>p. pt_steam_id p = 1) (po_participants (sample_demo es))"
  "filter rl_eligible [sample_round] = [sample_round]"
proof -
  have "parse_digits (drop_plus ''64'') = Some 64" by code_simp
  then show "parse_tick_rate (sample_demo es) = Inr 64"
    by (simp add: parse_tick_rate_def parse_unsigned_def sample_demo_def u32_max_def)
  show "verify_order (sample_demo sample_events) = Inr ()" by code_simp
  show "require_streams required_streams (po_events (sample_demo sample_events)) = Inr ()" by code_simp
qed (simp_all add: sample_demo_def sample_round_def)

lemma sample_analysis:
  "\<exists>a. analyze (sample_demo sample_events) 1 = Inr a \<and> an_rounds a = [sample_round]"
proof -
  let ?m = "(zero_metrics 1)\<lparr>m_direct_damage := 100, m_kills := 1, m_trade_kills := 1,
      m_clutch_opportunities := 1, m_clutch_wins := 1\<rparr>"
  let ?i = "\<lparr>in_identity = identity_of (po_identity (sample_demo sample_events)), in_game_build = ''b'',
       in_metrics = ?m, in_irregularities = irregularities_of (sample_demo sample_events) [sample_round] 1,
       in_evidence_failure = None, in_evidence = evidence_of (sample_demo sample_events) [sample_round]\<rparr>"
  have "m_eligible_rounds (in_metrics ?i) < 8 \<and> m_clutch_wins (in_metrics ?i) \<le> m_clutch_opportunities (in_metrics ?i)"
    by (simp add: zero_metrics_def)
  with short_match_unavailable obtain r where r: "calculate_rating ?i = Inr r" by blast
  have few: "\<not> u32_max < length [sample_round]" by (simp add: u32_max_def)
  have "score_rounds (sample_demo sample_events) 1 64 [sample_round] (zero_metrics 1) = Inr ?m"
    unfolding score_rounds.simps sample_score and_then.simps ..
  then have score: "score_rounds (sample_demo sample_events) 1 64 [sample_round]
      (zero_metrics (length [sample_round])) = Inr ?m" by simp
  have one: "m_eligible_rounds ?m = 1" by (simp add: zero_metrics_def)
  have "analyze (sample_demo sample_events) 1
      = Inr \<lparr>an_rounds = [sample_round], an_rating_input = ?i, an_rating_receipt = r\<rparr>"
    unfolding analyze_def sample_parts sample_rounds and_then.simps ok_or_simps Let_def if_not_P [OF few] score one r
      map_err.simps
    using sample_parts(5) by simp
  then show ?thesis by simp
qed

lemma preview_status:
  "calculate_rating i = Inr r \<Longrightarrow> rr_status r = Preview reasons \<Longrightarrow>
     reasons = preview_reasons i \<and> preview_reasons i \<noteq> []"
  by (auto simp: calculate_rating_def map_err_eq_Inr and_then_eq_Inr Let_def split: if_splits option.splits)

text \<open>
  The rating document makes a missed live round a preview and excludes it from trends, and so a
  surrender; the analysis never reports either: every round without the local player alive on
  a team is only dropped, no preview is for these reasons, and a match with twelve eligible
  rounds is rated in full however many rounds were dropped.
\<close>
theorem missed_round_never_reported:
  assumes "analyze parsed local = Inr a"
  shows "\<not> ir_missed_live_round (in_irregularities (an_rating_input a))
    \<and> \<not> ir_surrender (in_irregularities (an_rating_input a))
    \<and> (\<forall>reasons. rr_status (an_rating_receipt a) = Preview reasons \<longrightarrow>
        reasons = [ShortSample (length (filter rl_eligible (an_rounds a))) 12]
        \<and> length (filter rl_eligible (an_rounds a)) < 12)"
proof -
  from assms obtain tick_rate build where
    rounds: "build_rounds parsed local = Inr (an_rounds a)" and
    few: "length (filter rl_eligible (an_rounds a)) \<le> u32_max" and
    score: "score_rounds parsed local tick_rate (filter rl_eligible (an_rounds a))
       (zero_metrics (length (filter rl_eligible (an_rounds a)))) = Inr (in_metrics (an_rating_input a))" and
    i: "an_rating_input a = \<lparr>in_identity = identity_of (po_identity parsed), in_game_build = build,
       in_metrics = in_metrics (an_rating_input a),
       in_irregularities = irregularities_of parsed (an_rounds a) (m_eligible_rounds (in_metrics (an_rating_input a))),
       in_evidence_failure = None, in_evidence = evidence_of parsed (an_rounds a)\<rparr>" and
    rate: "calculate_rating (an_rating_input a) = Inr (an_rating_receipt a)"
    by (rule analyze_steps)
  have "rl_exclusion r \<noteq> Some MissingFreezeState" if "r \<in> set (an_rounds a)" for r
    using rows_valid [OF build_rounds_rows(1) [OF rounds] that] by (auto simp: row_of_def)
  then have missed: "\<not> list_ex (\<lambda>r. rl_exclusion r = Some MissingFreezeState) (an_rounds a)"
    by (auto simp: list_ex_iff)
  have "in_irregularities (an_rating_input a)
      = irregularities_of parsed (an_rounds a) (m_eligible_rounds (in_metrics (an_rating_input a)))"
    by (subst i) simp
  with missed have none: "\<not> ir_missed_live_round (in_irregularities (an_rating_input a))"
    "\<not> ir_surrender (in_irregularities (an_rating_input a))"
    by (simp_all add: irregularities_of_def)
  note preview_status [OF rate]
  moreover have "m_eligible_rounds (in_metrics (an_rating_input a)) = length (filter rl_eligible (an_rounds a))"
    using score_rounds_bounds [OF score few] by simp
  ultimately show ?thesis using none by (auto simp: preview_reasons_def split: if_splits)
qed

theorem missed_round_never_reported_witness:
  "\<exists>a. analyze (sample_demo sample_events) 1 = Inr a \<and> \<not> ir_missed_live_round (in_irregularities (an_rating_input a))"
  using sample_analysis missed_round_never_reported by metis

section \<open>A suicide as a trade\<close>

text \<open>
  A suicide of the local player is scored as a trade kill: the death of the player by the player is
  its own prior death of a teammate, whenever the player's team at that tick is the team of the
  round and the counter does not wrap.
\<close>
theorem suicide_scores_as_trade:
  assumes "score_round parsed r local tick_rate (zero_metrics 0) = Inr m"
    and "e \<in> set (round_events parsed r)" and "pe_event e = PlayerDeath d"
    and "dt_attacker d = Some local" and "dt_victim d = Some local"
    and "team_at parsed local (pe_tick e) = Some (rl_local_team r)"
    and "length (po_events parsed) < 2 ^ 32"
  shows "1 \<le> m_trade_kills m"
proof -
  let ?ds = "deaths_of (round_events parsed r)"
  obtain window where w: "trade_window tick_rate = Inr window" and counts: "round_counts parsed local window r m"
    using assms(1) by (rule score_round_counted)
  then have "0 \<le> window" by (auto simp: trade_window_def i32_of_def split: if_splits)
  have d: "(pe_tick e, d) \<in> set ?ds"
    using assms(2,3) by (induction "round_events parsed r" arbitrary: r) (auto simp: deaths_of_def List.map_filter_def image_iff Bex_def)
  moreover have "is_traded parsed r window (pe_tick e) local (pe_tick e, d)"
    using assms(4-6) \<open>0 \<le> window\<close> by (simp add: is_traded_def wrap_i32_id)
  ultimately have "is_trade parsed r local window ?ds (pe_tick e, d)"
    using assms(4,5) by (auto simp: is_trade_def)
  with d have "1 \<le> length (filter (is_trade parsed r local window ?ds) ?ds)"
    by (metis (mono_tags, lifting) One_nat_def Suc_leI filter_empty_conv length_greater_0_conv)
  moreover have "length (filter (is_trade parsed r local window ?ds) ?ds) \<le> length (po_events parsed)"
    by (rule order_trans [OF length_filter_le])
      (simp add: deaths_of_def List.map_filter_def round_events_def order_trans [OF length_filter_le length_filter_le])
  ultimately show ?thesis using counts assms(7) by (simp add: round_counts_def Let_def)
qed

definition suicide_events :: "parsed_event list" where
  "suicide_events = [sample_event 0 10 (RoundFreezeEnd \<lparr>rf_warmup = False\<rparr>),
     sample_event 1 20 (sample_death 1 1), sample_event 2 90 (RoundEnd \<lparr>rn_winner = Some 3\<rparr>)]"

lemma suicide_score: "score_round (sample_demo suicide_events) sample_round 1 64 (zero_metrics 0)
    = Inr ((zero_metrics 0)\<lparr>m_deaths := 1, m_trade_kills := 1, m_clutch_opportunities := 1, m_clutch_wins := 1\<rparr>)"
  by code_simp

theorem suicide_scores_as_trade_witness: "1 \<le> m_trade_kills ((zero_metrics 0)\<lparr>m_deaths := 1,
    m_trade_kills := 1, m_clutch_opportunities := 1, m_clutch_wins := 1\<rparr>)"
proof (rule suicide_scores_as_trade [OF suicide_score, where d = "\<lparr>dt_attacker = Some 1, dt_victim = Some 1,
    dt_assister = None, dt_assisted_flash = False, dt_weapon = None\<rparr>"])
  show "sample_event 1 20 (sample_death 1 1) \<in> set (round_events (sample_demo suicide_events) sample_round)"
    by (simp add: round_events_def sample_demo_def suicide_events_def sample_event_def in_round_def sample_round_def)
  show "team_at (sample_demo suicide_events) 1 (pe_tick (sample_event 1 20 (sample_death 1 1))) = Some (rl_local_team sample_round)"
    by code_simp
qed (simp_all add: sample_event_def sample_death_def sample_demo_def suicide_events_def)

end
