(* ===== verification/Import_Analysis.thy ===== *)
theory Import_Analysis
  imports Analysis_Correct
begin

text \<open>
  From the parser's output to the analysis: the import keeps every event in its place with one receipt
  each and one round per end, and so the analysis of an imported demo finds the streams, the order
  and the evidence it asks for.
\<close>

section \<open>What the import collects\<close>

lemma normalize_round_end:
  "normalize_event j name fs = Some e \<Longrightarrow> name = ''round_end'' \<longleftrightarrow> event_kind_of e = RoundEndKind"
  by (auto simp: normalize_event_def split: if_splits)

definition event_of :: "'j import_api \<Rightarrow> nat \<times> 'j upstream_event \<Rightarrow> parsed_event \<Rightarrow> bool" where
  "event_of api u p \<longleftrightarrow> pe_tick p = ue_tick (snd u) \<and> pe_ordinal p = fst u
     \<and> normalize_event (ia_json api) (ue_name (snd u)) (fields_of (ue_fields (snd u))) = Some (pe_event p)"

definition receipt_for :: "'j import_api \<Rightarrow> nat \<times> 'j upstream_event \<Rightarrow> 'j event_receipt \<Rightarrow> bool" where
  "receipt_for api u r \<longleftrightarrow> rc_ordinal r = fst u \<and> rc_event_name r = ue_name (snd u) \<and> rc_tick r = ue_tick (snd u)
     \<and> rc_raw_fields r = fields_of (ue_fields (snd u))
     \<and> ia_evidence_hash api (fst u) (ue_name (snd u)) (ue_tick (snd u)) (rc_raw_fields r) = Inr (rc_evidence_sha256 r)"

definition round_of :: "nat \<times> parsed_event \<Rightarrow> parsed_round" where
  "round_of ne = (let (n, e) = ne in \<lparr>pr_number = n, pr_end_tick = pe_tick e,
     pr_winner = (case pe_event e of RoundEnd r \<Rightarrow> rn_winner r | _ \<Rightarrow> None)\<rparr>)"

definition collected_receipt :: "'j import_api \<Rightarrow> nat \<Rightarrow> 'j upstream_event \<Rightarrow> string \<Rightarrow> 'j event_receipt" where
  "collected_receipt api n e sha = (let fs = fields_of (ue_fields e) in
     \<lparr>rc_ordinal = n, rc_event_name = ue_name e, rc_tick = ue_tick e,
      rc_fields = map_option (ia_text api) \<circ> fs, rc_raw_fields = fs, rc_evidence_sha256 = sha\<rparr>)"

lemma collect_event_step:
  assumes "collect_events api build ((n, e) # us) (es, rs, ds) = Inr c"
  obtains v sha where
    "normalize_event (ia_json api) (ue_name e) (fields_of (ue_fields e)) = Some v"
    "ia_evidence_hash api n (ue_name e) (ue_tick e) (fields_of (ue_fields e)) = Inr sha"
    "collect_events api build us
       (es @ [\<lparr>pe_tick = ue_tick e, pe_ordinal = n, pe_event = v\<rparr>], rs @ [collected_receipt api n e sha],
        ds @ (if event_kind_of v = RoundEndKind
          then [round_of (Suc (length ds), \<lparr>pe_tick = ue_tick e, pe_ordinal = n, pe_event = v\<rparr>)] else [])) = Inr c"
proof -
  let ?fs = "fields_of (ue_fields e)"
  from assms obtain v where v: "normalize_event (ia_json api) (ue_name e) ?fs = Some v"
    by (cases "normalize_event (ia_json api) (ue_name e) ?fs") (auto simp: Let_def)
  from assms v obtain sha where sha: "ia_evidence_hash api n (ue_name e) (ue_tick e) ?fs = Inr sha"
    by (cases "ia_evidence_hash api n (ue_name e) (ue_tick e) ?fs") (auto simp: Let_def and_then_eq_Inr)
  note kind = normalize_round_end [OF v]
  show thesis
  proof (cases "event_kind_of v = RoundEndKind")
    case True
    then obtain r where r: "v = RoundEnd r" by (cases v) auto
    from assms v sha kind True show thesis
      by (intro that [OF v sha]) (simp add: Let_def r collected_receipt_def round_of_def)
  next
    case False
    with assms v sha kind show thesis
      by (intro that [OF v sha]) (simp add: Let_def collected_receipt_def)
  qed
qed

lemma collect_events_spec:
  "collect_events api build us (es, rs, ds) = Inr (es', rs', ds') \<Longrightarrow>
     \<exists>en rn. es' = es @ en \<and> rs' = rs @ rn \<and> list_all2 (event_of api) us en \<and> list_all2 (receipt_for api) us rn
       \<and> ds' = ds @ map round_of (List.enumerate (Suc (length ds)) (filter is_round_end en))"
proof (induction us arbitrary: es rs ds)
  case (Cons u us)
  obtain n e where u: "u = (n, e)" by fastforce
  from Cons.prems [unfolded u] obtain v sha where
    v: "normalize_event (ia_json api) (ue_name e) (fields_of (ue_fields e)) = Some v"
    and sha: "ia_evidence_hash api n (ue_name e) (ue_tick e) (fields_of (ue_fields e)) = Inr sha"
    and rest: "collect_events api build us
       (es @ [\<lparr>pe_tick = ue_tick e, pe_ordinal = n, pe_event = v\<rparr>], rs @ [collected_receipt api n e sha],
        ds @ (if event_kind_of v = RoundEndKind
          then [round_of (Suc (length ds), \<lparr>pe_tick = ue_tick e, pe_ordinal = n, pe_event = v\<rparr>)] else []))
       = Inr (es', rs', ds')"
    by (rule collect_event_step)
  let ?p = "\<lparr>pe_tick = ue_tick e, pe_ordinal = n, pe_event = v\<rparr>"
  from Cons.IH [OF rest] obtain en rn where
    "es' = (es @ [?p]) @ en" "rs' = (rs @ [collected_receipt api n e sha]) @ rn"
    "list_all2 (event_of api) us en" "list_all2 (receipt_for api) us rn"
    "ds' = (ds @ (if event_kind_of v = RoundEndKind then [round_of (Suc (length ds), ?p)] else []))
       @ map round_of (List.enumerate (Suc (length (ds @ (if event_kind_of v = RoundEndKind
           then [round_of (Suc (length ds), ?p)] else [])))) (filter is_round_end en))"
    by blast
  moreover have "event_of api u ?p" "receipt_for api u (collected_receipt api n e sha)"
    using v sha by (simp_all add: u event_of_def receipt_for_def collected_receipt_def Let_def)
  moreover have "is_round_end ?p \<longleftrightarrow> event_kind_of v = RoundEndKind"
    by (simp add: is_round_end_def pe_kind_def)
  ultimately show ?case
    by (intro exI [of _ "?p # en"] exI [of _ "collected_receipt api n e sha # rn"]) (simp split: if_splits)
qed simp

lemma snapshot_of_row_ordinal: "snapshot_of_row j n row = Some s \<Longrightarrow> sn_ordinal s = n"
  by (auto simp: snapshot_of_row_def Let_def bind_eq_Some_conv)

lemma snapshots_ordered_from:
  "sorted_wrt (\<lambda>a b. sn_ordinal a < sn_ordinal b)
     (List.map_filter (\<lambda>(n, row). snapshot_of_row j n row) (List.enumerate k rows))
   \<and> (\<forall>s\<in>set (List.map_filter (\<lambda>(n, row). snapshot_of_row j n row) (List.enumerate k rows)). k \<le> sn_ordinal s)"
proof (induction rows arbitrary: k)
  case (Cons row rows)
  from Cons.IH [of "Suc k"] show ?case
    by (cases "snapshot_of_row j k row") (auto dest!: snapshot_of_row_ordinal dest: Suc_leD Suc_le_lessD)
qed simp

lemma assembled:
  assumes "assemble_output api sha out = Inr p"
  shows "list_all2 (event_of api) (List.enumerate 0 (up_events out)) (po_events p)"
    "list_all2 (receipt_for api) (List.enumerate 0 (up_events out)) (po_receipts p)"
    "po_rounds p = map round_of (List.enumerate 1 (filter is_round_end (po_events p)))"
    "sorted_wrt (\<lambda>a b. sn_ordinal a < sn_ordinal b) (po_snapshots p)"
    "missing_item (po_participants p) (po_rounds p) (po_events p) (po_snapshots p) = None"
    "\<not> po_suspicious_empty p"
proof -
  from assms obtain es rs ds where
    c: "collect_events api (up_header out ''patch_version'') (List.enumerate 0 (up_events out)) ([], [], []) = Inr (es, rs, ds)"
    and p: "po_events p = es" "po_receipts p = rs" "po_rounds p = ds"
      "po_snapshots p = snapshots_of (ia_json api) (up_rows out)"
      "missing_item (po_participants p) ds es (po_snapshots p) = None"
      "po_suspicious_empty p = (po_participants p = [] \<or> ds = [] \<or> \<not> has_kind PlayerDeathKind es)"
    by (auto simp: assemble_output_def Let_def and_then_eq_Inr split: option.splits)
  from collect_events_spec [OF c] p(1-3)
  show "list_all2 (event_of api) (List.enumerate 0 (up_events out)) (po_events p)"
    "list_all2 (receipt_for api) (List.enumerate 0 (up_events out)) (po_receipts p)"
    "po_rounds p = map round_of (List.enumerate 1 (filter is_round_end (po_events p)))"
    by simp_all
  show "sorted_wrt (\<lambda>a b. sn_ordinal a < sn_ordinal b) (po_snapshots p)"
    using snapshots_ordered_from [of "ia_json api" 0 "up_rows out"] by (simp add: p(4) snapshots_of_def)
  show "missing_item (po_participants p) (po_rounds p) (po_events p) (po_snapshots p) = None"
    using p by simp
  then show "\<not> po_suspicious_empty p" using p(1,3,6) by (simp add: missing_item_def split: if_splits)
qed

lemma assembled_ordinals:
  assumes "assemble_output api sha out = Inr p"
  shows "map pe_ordinal (po_events p) = [0..<length (up_events out)]"
    "map pe_tick (po_events p) = map ue_tick (up_events out)"
    "map rc_ordinal (po_receipts p) = [0..<length (up_events out)]"
    "map rc_tick (po_receipts p) = map ue_tick (up_events out)"
proof -
  let ?us = "List.enumerate 0 (up_events out)"
  have ev: "map pe_ordinal es = map fst us \<and> map pe_tick es = map (ue_tick \<circ> snd) us"
    if "list_all2 (event_of api) us es" for us es
    using that by (induction rule: list_all2_induct) (auto simp: event_of_def)
  have rc: "map rc_ordinal rs = map fst us \<and> map rc_tick rs = map (ue_tick \<circ> snd) us"
    if "list_all2 (receipt_for api) us rs" for us rs
    using that by (induction rule: list_all2_induct) (auto simp: receipt_for_def)
  have us: "map fst ?us = [0..<length (up_events out)]" "map (ue_tick \<circ> snd) ?us = map ue_tick (up_events out)"
    by (simp_all add: map_fst_enumerate flip: map_map)
  note ev [OF assembled(1) [OF assms]] rc [OF assembled(2) [OF assms]]
  with us show "map pe_ordinal (po_events p) = [0..<length (up_events out)]"
    "map pe_tick (po_events p) = map ue_tick (up_events out)"
    "map rc_ordinal (po_receipts p) = [0..<length (up_events out)]"
    "map rc_tick (po_receipts p) = map ue_tick (up_events out)"
    by simp_all
qed

text \<open>
  C12: A successful import keeps every event of the parser in its place: the events and the receipts are
  those of the input one by one, numbered from zero, each event the normalization of its fields,
  the rounds are the round ends in their order numbered from one, the evidence hash of a receipt is
  that of its own fields, and the output is never flagged as suspiciously empty.
\<close>
theorem import_is_faithful:
  assumes "assemble_output api sha out = Inr p"
  shows "list_all2 (event_of api) (List.enumerate 0 (up_events out)) (po_events p)
    \<and> list_all2 (receipt_for api) (List.enumerate 0 (up_events out)) (po_receipts p)
    \<and> map pe_ordinal (po_events p) = [0..<length (up_events out)]
    \<and> map rc_ordinal (po_receipts p) = [0..<length (up_events out)]
    \<and> map pr_number (po_rounds p) = [1..<Suc (length (po_rounds p))]
    \<and> map pr_end_tick (po_rounds p) = map pe_tick (filter is_round_end (po_events p))
    \<and> \<not> po_suspicious_empty p"
proof -
  have "map pr_number (map round_of (List.enumerate k es)) = [k..<k + length es]"
    "map pr_end_tick (map round_of (List.enumerate k es)) = map pe_tick es" for k es
    by (induction es arbitrary: k) (simp_all add: round_of_def upt_conv_Cons del: upt_Suc)
  note rounds = this [of 1 "filter is_round_end (po_events p)"]
  have "length (po_rounds p) = length (filter is_round_end (po_events p))"
    using assembled(3) [OF assms] by simp
  with rounds have "map pr_number (po_rounds p) = [1..<Suc (length (po_rounds p))]"
    "map pr_end_tick (po_rounds p) = map pe_tick (filter is_round_end (po_events p))"
    using assembled(3) [OF assms] by (simp_all del: upt_Suc)
  then show ?thesis
    using assembled [OF assms] assembled_ordinals [OF assms] by (simp del: upt_Suc)
qed

section \<open>What the analysis asks for\<close>

lemma sorted_wrt_of_keys:
  "map f xs = ks \<Longrightarrow> sorted_wrt R ks \<Longrightarrow> sorted_wrt (\<lambda>a b. R (f a) (f b)) xs"
  by (auto simp: sorted_wrt_map)

lemma successively_of_sorted: "sorted_wrt R xs \<Longrightarrow> successively R xs"
  by (induction xs rule: induct_list012) auto

lemma imported_order:
  assumes "assemble_output api sha out = Inr p" and sorted: "sorted (map ue_tick (up_events out))"
  shows "verify_order p = Inr ()"
proof -
  note ordinals = assembled_ordinals [OF assms(1)]
  have "sorted_wrt (\<lambda>a b. pe_tick a \<le> pe_tick b) (po_events p)"
    by (rule sorted_wrt_of_keys [OF ordinals(2)]) (use sorted in simp)
  moreover have "sorted_wrt (\<lambda>a b. pe_ordinal a < pe_ordinal b) (po_events p)"
    by (rule sorted_wrt_of_keys [OF ordinals(1)]) simp
  ultimately have "sorted_wrt (\<lambda>a b. (pe_tick a, pe_ordinal a) < (pe_tick b, pe_ordinal b)) (po_events p)"
    by (auto simp: sorted_wrt_iff_nth_less less_prod_def less_le)
  moreover have "sorted_wrt (\<lambda>a b. rc_ordinal a < rc_ordinal b) (po_receipts p)"
    by (rule sorted_wrt_of_keys [OF ordinals(3)]) simp
  moreover note assembled(4) [OF assms(1)]
  ultimately show ?thesis by (simp add: verify_order_def successively_of_sorted del: less_prod_simp)
qed

lemma imported_streams:
  assumes "assemble_output api sha out = Inr p"
  shows "require_streams required_streams (po_events p) = Inr ()" "filter is_freeze (po_events p) \<noteq> []"
proof -
  have none: "missing_item (po_participants p) (po_rounds p) (po_events p) (po_snapshots p) = None"
    by (rule assembled(5) [OF assms])
  from none have "po_rounds p \<noteq> []" by (auto simp: missing_item_def split: if_splits)
  then have "filter is_round_end (po_events p) \<noteq> []" using assembled(3) [OF assms] by auto
  then have "has_kind RoundEndKind (po_events p)"
    by (auto simp: has_kind_def is_round_end_def filter_empty_conv list_ex_iff)
  moreover from none have kinds: "has_kind RoundFreezeEndKind (po_events p)" "has_kind PlayerHurtKind (po_events p)"
    "has_kind PlayerDeathKind (po_events p)"
    by (auto simp: missing_item_def split: if_splits)
  ultimately show "require_streams required_streams (po_events p) = Inr ()" by (simp add: required_streams_def)
  from kinds(1) show "filter is_freeze (po_events p) \<noteq> []"
    by (auto simp: has_kind_def is_freeze_def filter_empty_conv list_ex_iff)
qed

text \<open>An eligible row lists the receipt of its own freeze.\<close>

lemma row_has_evidence:
  assumes "assemble_output api sha out = Inr p" "build_rounds p local = Inr rounds" "r \<in> set rounds"
  shows "rl_hashes r \<noteq> []"
proof -
  note rows = build_rounds_rows [OF assms(2)]
  from rows_valid [OF rows(1) assms(3)] obtain f :: parsed_event and n e where
    span: "rl_freeze_tick r < rl_end_tick r" and
    hashes: "rl_hashes r = map rc_evidence_sha256 (filter (\<lambda>x. in_round r (rc_tick x)) (po_receipts p))"
    and e: "filter (\<lambda>e. pe_tick f < pe_tick e \<and> pe_tick e < n) (filter is_round_end (po_events p)) = [e]"
      "pe_tick e = rl_end_tick r"
    unfolding row_of_def by blast
  from filter_singleD [OF e(1)] have "e \<in> set (po_events p)" by simp
  then have "pe_tick e \<in> set (map pe_tick (po_events p))" by simp
  then have "rl_end_tick r \<in> set (map pe_tick (po_events p))" by (simp only: e(2))
  then have "rl_end_tick r \<in> set (map rc_tick (po_receipts p))"
    using assembled_ordinals(2,4) [OF assms(1)] by metis
  then obtain x where "x \<in> set (po_receipts p)" "rc_tick x = rl_end_tick r" by auto
  with span have "x \<in> set (filter (\<lambda>x. in_round r (rc_tick x)) (po_receipts p))" by (simp add: in_round_def)
  then have "filter (\<lambda>x. in_round r (rc_tick x)) (po_receipts p) \<noteq> []" by force
  then show ?thesis unfolding hashes by simp
qed

lemma analysed_evidence:
  assumes "assemble_output api sha out = Inr p" "build_rounds p local = Inr rounds" "filter rl_eligible rounds \<noteq> []"
  shows "first_missing (evidence_of p rounds) = None"
proof -
  from assms(3) obtain r where r: "r \<in> set rounds" "rl_eligible r" by (auto simp: filter_empty_conv)
  with row_has_evidence [OF assms(1,2)] have "concat (map rl_hashes (filter rl_eligible rounds)) \<noteq> []" by fastforce
  moreover from r row_has_evidence [OF assms(1,2)] build_rounds_rows(1) [OF assms(2)]
  have "po_receipts p \<noteq> []" by (fastforce simp: row_of_def dest: rows_valid)
  ultimately show ?thesis by (simp add: first_missing_def evidence_of_def Let_def)
qed

lemma rating_unavailable:
  "calculate_rating i = Inr r \<Longrightarrow> (\<exists>x. rr_status r = Unavailable x) \<longleftrightarrow> unavailable_reason_of i \<noteq> None"
  by (auto simp: calculate_rating_def map_err_eq_Inr and_then_eq_Inr Let_def split: if_splits option.splits)


section \<open>A sample import\<close>

text \<open>A JSON value is a number, a flag or a text; the hash of the evidence numbers it.\<close>

datatype sample_json = SampleNumber int | SampleFlag bool | SampleText string

definition sample_api :: "sample_json import_api" where
  "sample_api = \<lparr>ia_json = \<lparr>
       js_u64 = (\<lambda>v. case v of SampleNumber n \<Rightarrow> if 0 \<le> n then Some (nat n) else None | _ \<Rightarrow> None),
       js_i64 = (\<lambda>v. case v of SampleNumber n \<Rightarrow> Some n | _ \<Rightarrow> None),
       js_bool = (\<lambda>v. case v of SampleFlag b \<Rightarrow> Some b | _ \<Rightarrow> None),
       js_str = (\<lambda>v. case v of SampleText s \<Rightarrow> Some s | _ \<Rightarrow> None)\<rparr>,
     ia_text = (\<lambda>v. case v of SampleText s \<Rightarrow> s | _ \<Rightarrow> ''''),
     ia_evidence_hash = (\<lambda>n _ _ _. Inr (show_nat n)), ia_query_plan_hash = ''q''\<rparr>"

definition sample_upstream_event :: "string \<Rightarrow> int \<Rightarrow> (string \<times> sample_json) list \<Rightarrow> sample_json upstream_event" where
  "sample_upstream_event name tick fs = \<lparr>ue_name = name, ue_tick = tick, ue_fields = map (map_prod id Some) fs\<rparr>"

definition sample_upstream :: "sample_json upstream_output" where
  "sample_upstream = \<lparr>
     up_rows = [[''steamid'' \<mapsto> SampleNumber 1, ''tick'' \<mapsto> SampleNumber 10, ''team_num'' \<mapsto> SampleNumber 2,
         ''is_alive'' \<mapsto> SampleFlag True, ''total_rounds_played'' \<mapsto> SampleNumber 0],
       [''steamid'' \<mapsto> SampleNumber 1, ''tick'' \<mapsto> SampleNumber 90, ''total_rounds_played'' \<mapsto> SampleNumber 1]],
     up_roster = [(Some 1, Some ''a'', Some 2), (None, Some ''bot'', Some 3)],
     up_header = [''patch_version'' \<mapsto> ''b''], up_convars = [''sv_tickrate'' \<mapsto> ''64''],
     up_events = [sample_upstream_event ''round_freeze_end'' 10 [],
       sample_upstream_event ''player_hurt'' 20 [(''attacker'', SampleNumber 3)],
       sample_upstream_event ''player_death'' 30 [(''user_steamid'', SampleNumber 1)],
       sample_upstream_event ''round_end'' 90 [(''winner'', SampleNumber 2)]]\<rparr>"

lemma json_u64_code [code]: "json_u64 j v = (case js_u64 j v of Some n \<Rightarrow> Some n
    | None \<Rightarrow> (case js_str j v of None \<Rightarrow> None | Some s \<Rightarrow> parse_unsigned u64_max s))"
  by (simp add: json_u64_def or_else_def split: option.split)

lemma sample_import: "\<exists>p. assemble_output sample_api ''s'' sample_upstream = Inr p"
proof -
  have "(case assemble_output sample_api ''s'' sample_upstream of Inl _ \<Rightarrow> False | Inr _ \<Rightarrow> True)" by code_simp
  then show ?thesis by (auto split: sum.splits)
qed

theorem import_is_faithful_witness:
  "\<exists>p. assemble_output sample_api ''s'' sample_upstream = Inr p
    \<and> map pe_ordinal (po_events p) = [0..<length (up_events sample_upstream)] \<and> \<not> po_suspicious_empty p"
  using sample_import import_is_faithful by blast


end
