(* ===== verification/Import_Job.thy ===== *)
theory Import_Job
  imports Effects Demo
begin

text \<open>
  The durable import job, \<open>Orchestrator\<close> of \<open>crates/openfrag-import/src/lib.rs\<close>: its states and legal
  transitions, leases, retries, cancellation, and the choice of a deduplicated import.

  An instant and a duration are nanoseconds. The store is the trait \<open>Persist\<close>, a pair of operations on
  a state of its own; its contract is the interface \<open>persist_store\<close>, and the in-memory map \<open>Mem\<close> of the
  source provides it. An operation takes the caller's copy of the job, as the code does.
\<close>

section \<open>Jobs\<close>

datatype error_code = IoError | CorruptError | UnsupportedError | SizeError | ParseError | AnalysisError

datatype import_state = AwaitingImport | Validating | Hashing | Deduplicating | Copying | Parsing | Rating
  | LinkingClips | Ready | ImportError error_code

record import_progress =
  ip_processed_bytes :: nat
  ip_total_bytes :: "nat option"
  ip_indeterminate :: bool
  ip_work_done :: nat
  ip_heartbeat :: nat

text \<open>The product in \<open>u64\<close> wraps, as release arithmetic does.\<close>

definition fraction_millionths :: "import_progress \<Rightarrow> nat option" where
  "fraction_millionths p = (case ip_total_bytes p of
     None \<Rightarrow> None
   | Some t \<Rightarrow> if t = 0 then None else Some ((min (ip_processed_bytes p) t * 1000000) mod 2 ^ 64 div t))"

record import_attempt =
  at_id :: nat
  at_state :: import_state
  at_retries :: nat
  at_next_retry_after :: "nat option"
  at_progress :: import_progress
  at_lease_owner :: "string option"
  at_lease_expires_at :: "nat option"

record import_job =
  jb_id :: nat
  jb_state :: import_state
  jb_attempt :: import_attempt
  jb_identity :: "import_identity option"
  jb_canonical :: bool
  jb_quarantined :: bool
  jb_cancelled :: bool

fun legal_transition :: "import_state \<Rightarrow> import_state \<Rightarrow> bool" where
  "legal_transition AwaitingImport to \<longleftrightarrow> to = Validating"
| "legal_transition Validating to \<longleftrightarrow> to = Hashing \<or> (\<exists>e. to = ImportError e)"
| "legal_transition Hashing to \<longleftrightarrow> to = Deduplicating \<or> (\<exists>e. to = ImportError e)"
| "legal_transition Deduplicating to \<longleftrightarrow> to \<in> {Copying, Parsing, Rating, Ready} \<or> (\<exists>e. to = ImportError e)"
| "legal_transition Copying to \<longleftrightarrow> to = Parsing \<or> (\<exists>e. to = ImportError e)"
| "legal_transition Parsing to \<longleftrightarrow> to = Rating \<or> (\<exists>e. to = ImportError e)"
| "legal_transition Rating to \<longleftrightarrow> to = LinkingClips \<or> (\<exists>e. to = ImportError e)"
| "legal_transition LinkingClips to \<longleftrightarrow> to = Ready \<or> (\<exists>e. to = ImportError e)"
| "legal_transition (ImportError _) to \<longleftrightarrow> to \<in> {AwaitingImport, Validating, Hashing, Copying, Parsing, Rating}"
| "legal_transition Ready to \<longleftrightarrow> to \<in> {Parsing, Rating}"

definition retry_delay :: "nat \<Rightarrow> nat option" where
  "retry_delay automatic_retry =
     (if automatic_retry = 0 then Some (2 * 10 ^ 9) else if automatic_retry = 1 then Some (10 * 10 ^ 9)
      else if automatic_retry = 2 then Some (60 * 10 ^ 9) else None)"

definition lease_available :: "import_attempt \<Rightarrow> nat \<Rightarrow> string \<Rightarrow> bool" where
  "lease_available a now owner \<longleftrightarrow>
     (case at_lease_owner a of None \<Rightarrow> True | Some x \<Rightarrow> x = owner)
     \<or> (case at_lease_expires_at a of None \<Rightarrow> True | Some x \<Rightarrow> x \<le> now)"

datatype dedup_decision = DedupCopy | DedupReady | DedupResume | DedupParse | DedupRate | DedupPriorFailure

definition choose_dedup :: "bool \<Rightarrow> bool \<Rightarrow> bool \<Rightarrow> bool \<Rightarrow> bool \<Rightarrow> bool \<Rightarrow> dedup_decision" where
  "choose_dedup artifact_exists run_succeeded run_running parser_changed formula_changed prior_failed =
     (if \<not> artifact_exists then DedupCopy
      else if run_succeeded \<and> \<not> parser_changed \<and> \<not> formula_changed then DedupReady
      else if run_running then DedupResume
      else if parser_changed then DedupParse
      else if formula_changed then DedupRate
      else if prior_failed then DedupPriorFailure
      else DedupParse)"

section \<open>The orchestrator\<close>

record 's persist =
  ps_put :: "import_job \<Rightarrow> 's \<Rightarrow> (error_code, unit) result \<times> 's"
  ps_get :: "nat \<Rightarrow> 's \<Rightarrow> import_job option"

record 's orchestrator =
  or_store :: 's
  or_next_id :: nat

type_synonym 's job_effect = "('s orchestrator, error_code, import_job) effect"

definition orchestrator_new :: "'s \<Rightarrow> 's orchestrator" where
  "orchestrator_new store = \<lparr>or_store = store, or_next_id = 1\<rparr>"

text \<open>\<open>self.store.put(&job)?; Ok(job)\<close>\<close>

definition put_job :: "'s persist \<Rightarrow> import_job \<Rightarrow> 's job_effect" where
  "put_job p j o' = (case ps_put p j (or_store o') of
     (Inl e, t) \<Rightarrow> (Inl e, o'\<lparr>or_store := t\<rparr>)
   | (Inr _, t) \<Rightarrow> (Inr j, o'\<lparr>or_store := t\<rparr>))"

definition new_job :: "nat \<Rightarrow> import_state \<Rightarrow> import_job" where
  "new_job i state = \<lparr>jb_id = i, jb_state = state, jb_attempt = \<lparr>at_id = i, at_state = state, at_retries = 0,
       at_next_retry_after = None, at_progress = \<lparr>ip_processed_bytes = 0, ip_total_bytes = None,
         ip_indeterminate = True, ip_work_done = 0, ip_heartbeat = 0\<rparr>,
       at_lease_owner = None, at_lease_expires_at = None\<rparr>,
     jb_identity = None, jb_canonical = False, jb_quarantined = False, jb_cancelled = False\<rparr>"

definition job :: "import_state \<Rightarrow> 's job_effect" where
  "job state = bind (asks or_next_id) (\<lambda>i.
     bind (modify (\<lambda>o'. o'\<lparr>or_next_id := (i + 1) mod 2 ^ 64\<rparr>)) (\<lambda>_. ret (new_job i state)))"

definition create :: "'s persist \<Rightarrow> 's job_effect" where
  "create p = bind (job AwaitingImport) (put_job p)"

definition resume :: "'s persist \<Rightarrow> nat \<Rightarrow> 's job_effect" where
  "resume p i o' = (ok_or IoError (ps_get p i (or_store o')), o')"

definition with_state :: "import_state \<Rightarrow> import_job \<Rightarrow> import_job" where
  "with_state state j = j\<lparr>jb_state := state, jb_attempt := (jb_attempt j)\<lparr>at_state := state\<rparr>\<rparr>"

definition beat :: "import_job \<Rightarrow> import_job" where
  "beat j = (let a = jb_attempt j; g = at_progress a in
     j\<lparr>jb_attempt := a\<lparr>at_progress := g\<lparr>ip_heartbeat := (ip_heartbeat g + 1) mod 2 ^ 64\<rparr>\<rparr>\<rparr>)"

definition transition :: "'s persist \<Rightarrow> import_job \<Rightarrow> import_state \<Rightarrow> 's job_effect" where
  "transition p j to =
     (if jb_cancelled j \<or> \<not> legal_transition (jb_state j) to then throw AnalysisError
      else put_job p (beat (with_state to j)))"

definition with_lease :: "string option \<Rightarrow> nat option \<Rightarrow> import_job \<Rightarrow> import_job" where
  "with_lease owner expires j = j\<lparr>jb_attempt := (jb_attempt j)\<lparr>at_lease_owner := owner,
     at_lease_expires_at := expires\<rparr>\<rparr>"

definition acquire_lease :: "'s persist \<Rightarrow> import_job \<Rightarrow> string \<Rightarrow> nat \<Rightarrow> nat \<Rightarrow> 's job_effect" where
  "acquire_lease p j owner now ttl =
     (if \<not> lease_available (jb_attempt j) now owner then throw IoError
      else put_job p (with_lease (Some owner) (Some (now + ttl)) j))"

definition renew_lease :: "'s persist \<Rightarrow> import_job \<Rightarrow> string \<Rightarrow> nat \<Rightarrow> nat \<Rightarrow> 's job_effect" where
  "renew_lease p j owner now ttl =
     (if at_lease_owner (jb_attempt j) \<noteq> Some owner then throw IoError
      else put_job p (with_lease (at_lease_owner (jb_attempt j)) (Some (now + ttl)) j))"

definition release_lease :: "'s persist \<Rightarrow> import_job \<Rightarrow> string \<Rightarrow> 's job_effect" where
  "release_lease p j owner =
     (if at_lease_owner (jb_attempt j) \<noteq> Some owner then throw IoError
      else put_job p (with_lease None None j))"

definition with_retry :: "nat \<Rightarrow> nat option \<Rightarrow> import_job \<Rightarrow> import_job" where
  "with_retry n after j = j\<lparr>jb_attempt := (jb_attempt j)\<lparr>at_retries := n, at_next_retry_after := after\<rparr>\<rparr>"

definition retry :: "'s persist \<Rightarrow> import_job \<Rightarrow> bool \<Rightarrow> 's job_effect" where
  "retry p j manual =
     (if manual then put_job p (with_retry 0 None j)
      else bind (lift_option IoError (retry_delay (at_retries (jb_attempt j)))) (\<lambda>delay.
        put_job p (with_retry (at_retries (jb_attempt j) + 1) (Some delay) j)))"

definition cancel :: "'s persist \<Rightarrow> import_job \<Rightarrow> 's job_effect" where
  "cancel p j = put_job p (with_state AwaitingImport (j\<lparr>jb_cancelled := True\<rparr>))"

definition quarantine_empty :: "'s persist \<Rightarrow> import_job \<Rightarrow> 's job_effect" where
  "quarantine_empty p j = put_job p (with_state (ImportError ParseError) (j\<lparr>jb_quarantined := True\<rparr>))"

section \<open>The map of the source\<close>

definition mem_persist :: "(nat \<rightharpoonup> import_job) persist" where
  "mem_persist = \<lparr>ps_put = (\<lambda>j m. (Inr (), m(jb_id j \<mapsto> j))), ps_get = (\<lambda>i m. m i)\<rparr>"

end
