(* ===== verification/Import_Job_Correct.thy ===== *)
theory Import_Job_Correct
  imports Import_Job
begin

text \<open>
  What the import job guarantees: a successful operation is durable, jobs stay well formed, automatic
  retries are bounded, a fresh copy respects a lease, and what a stale copy overwrites.
\<close>

section \<open>Commands\<close>

datatype job_command = Transition import_state | Acquire string nat nat | Renew string nat nat | Release string
  | Retry bool | Cancel | Quarantine

fun run_command :: "'s persist \<Rightarrow> job_command \<Rightarrow> import_job \<Rightarrow> 's job_effect" where
  "run_command p (Transition to) j = transition p j to"
| "run_command p (Acquire owner now ttl) j = acquire_lease p j owner now ttl"
| "run_command p (Renew owner now ttl) j = renew_lease p j owner now ttl"
| "run_command p (Release owner) j = release_lease p j owner"
| "run_command p (Retry manual) j = retry p j manual"
| "run_command p Cancel j = cancel p j"
| "run_command p Quarantine j = quarantine_empty p j"

text \<open>The job that a command stores, or the error it is refused with: it depends on the copy alone.\<close>

fun command_result :: "job_command \<Rightarrow> import_job \<Rightarrow> (error_code, import_job) result" where
  "command_result (Transition to) j =
     (if jb_cancelled j \<or> \<not> legal_transition (jb_state j) to then Inl AnalysisError else Inr (beat (with_state to j)))"
| "command_result (Acquire owner now ttl) j =
     (if lease_available (jb_attempt j) now owner then Inr (with_lease (Some owner) (Some (now + ttl)) j) else Inl IoError)"
| "command_result (Renew owner now ttl) j =
     (if at_lease_owner (jb_attempt j) = Some owner then Inr (with_lease (Some owner) (Some (now + ttl)) j) else Inl IoError)"
| "command_result (Release owner) j =
     (if at_lease_owner (jb_attempt j) = Some owner then Inr (with_lease None None j) else Inl IoError)"
| "command_result (Retry manual) j =
     (if manual then Inr (with_retry 0 None j)
      else and_then (ok_or IoError (retry_delay (at_retries (jb_attempt j))))
        (\<lambda>delay. Inr (with_retry (at_retries (jb_attempt j) + 1) (Some delay) j)))"
| "command_result Cancel j = Inr (with_state AwaitingImport (j\<lparr>jb_cancelled := True\<rparr>))"
| "command_result Quarantine j = Inr (with_state (ImportError ParseError) (j\<lparr>jb_quarantined := True\<rparr>))"

lemma run_command_eq:
  "run_command p c j o' = (case command_result c j of Inl e \<Rightarrow> (Inl e, o') | Inr k \<Rightarrow> put_job p k o')"
  by (cases c; cases "retry_delay (at_retries (jb_attempt j))") (auto simp: transition_def acquire_lease_def
      renew_lease_def release_lease_def retry_def cancel_def quarantine_empty_def effect_simps)

declare run_command.simps [simp del]

lemma command_result_id: "command_result c j = Inr k \<Longrightarrow> jb_id k = jb_id j"
  by (cases c) (auto simp: beat_def with_state_def with_lease_def with_retry_def Let_def and_then_eq_Inr split: if_splits)

section \<open>The store\<close>

locale persist_store =
  fixes p :: "'s persist"
  assumes put_stores: "ps_put p j s = (Inr u, t) \<Longrightarrow> ps_get p i t = (if i = jb_id j then Some j else ps_get p i s)"
    and put_fails: "ps_put p j s = (Inl e, t) \<Longrightarrow> ps_get p i t = ps_get p i s"
begin

lemma put_job_Inr:
  assumes "put_job p j o' = (Inr k, t)"
  shows "k = j \<and> or_next_id t = or_next_id o'
    \<and> ps_get p i (or_store t) = (if i = jb_id j then Some j else ps_get p i (or_store o'))"
  using assms put_stores [of j "or_store o'"] by (auto simp: put_job_def split: prod.splits sum.splits)

lemma put_job_Inl:
  assumes "put_job p j o' = (Inl e, t)"
  shows "or_next_id t = or_next_id o' \<and> ps_get p i (or_store t) = ps_get p i (or_store o')"
  using assms put_fails [of j "or_store o'"] by (auto simp: put_job_def split: prod.splits sum.splits)

lemma command_durable:
  assumes "run_command p c j o' = (Inr k, t)"
  shows "command_result c j = Inr k \<and> or_next_id t = or_next_id o'
    \<and> ps_get p i (or_store t) = (if i = jb_id j then Some k else ps_get p i (or_store o'))"
proof -
  from assms obtain k' where k': "command_result c j = Inr k'" "put_job p k' o' = (Inr k, t)"
    by (auto simp: run_command_eq split: sum.splits)
  from put_job_Inr [OF k'(2), of i] command_result_id [OF k'(1)] k'(1) show ?thesis by auto
qed

lemma command_fails:
  "run_command p c j o' = (Inl e, t) \<Longrightarrow>
     or_next_id t = or_next_id o' \<and> ps_get p i (or_store t) = ps_get p i (or_store o')"
  using put_job_Inl [of _ o' e t i] by (auto simp: run_command_eq split: sum.splits)

end

interpretation mem: persist_store mem_persist
  by unfold_locales (auto simp: mem_persist_def)

text \<open>
  A successful operation on a job is durable and touches no other job: the job it returns is the one a
  resume reads back, every other job is unchanged; a refused or failed operation changes no job.
\<close>
theorem success_is_durable:
  "(case run_command mem_persist c j o' of
      (Inr k, t) \<Rightarrow> jb_id k = jb_id j \<and> resume mem_persist (jb_id j) t = (Inr k, t)
        \<and> (\<forall>i. i \<noteq> jb_id j \<longrightarrow> fst (resume mem_persist i t) = fst (resume mem_persist i o'))
    | (Inl e, t) \<Rightarrow> (\<forall>i. fst (resume mem_persist i t) = fst (resume mem_persist i o')))"
proof (cases "run_command mem_persist c j o'")
  case (Pair r t)
  show ?thesis
  proof (cases r)
    case (Inl e)
    with Pair mem.command_fails [of c j o' e t] show ?thesis by (simp add: resume_def)
  next
    case (Inr k)
    with Pair have run: "run_command mem_persist c j o' = (Inr k, t)" by simp
    from mem.command_durable [OF run] command_result_id have "jb_id k = jb_id j"
      "ps_get mem_persist i (or_store t) = (if i = jb_id j then Some k else ps_get mem_persist i (or_store o'))" for i
      by blast+
    with run show ?thesis by (simp add: resume_def)
  qed
qed

section \<open>Well-formed jobs\<close>

text \<open>
  A worker may keep every copy it was ever given; a run creates fewer than \<open>2 ^ 64\<close> jobs.
\<close>

inductive reachable :: "(nat \<rightharpoonup> import_job) orchestrator \<Rightarrow> import_job set \<Rightarrow> bool" where
  start: "reachable (orchestrator_new Map.empty) {}"
| created: "reachable o' held \<Longrightarrow> or_next_id o' + 1 < 2 ^ 64 \<Longrightarrow> create mem_persist o' = (Inr j, t) \<Longrightarrow>
    reachable t (insert j held)"
| resumed: "reachable o' held \<Longrightarrow> resume mem_persist i o' = (Inr j, t) \<Longrightarrow> reachable t (insert j held)"
| commanded: "reachable o' held \<Longrightarrow> j \<in> held \<Longrightarrow> run_command mem_persist c j o' = (Inr k, t) \<Longrightarrow>
    reachable t (insert k held)"
| refused: "reachable o' held \<Longrightarrow> j \<in> held \<Longrightarrow> run_command mem_persist c j o' = (Inl e, t) \<Longrightarrow> reachable t held"

definition wf_job :: "import_job \<Rightarrow> bool" where
  "wf_job j \<longleftrightarrow> at_id (jb_attempt j) = jb_id j \<and> at_state (jb_attempt j) = jb_state j
     \<and> (at_lease_owner (jb_attempt j) = None \<longleftrightarrow> at_lease_expires_at (jb_attempt j) = None)
     \<and> at_retries (jb_attempt j) \<le> 3 \<and> (at_retries (jb_attempt j) = 0 \<longleftrightarrow> at_next_retry_after (jb_attempt j) = None)
     \<and> \<not> jb_canonical j \<and> jb_identity j = None"

lemma command_result_wf:
  "command_result c j = Inr k \<Longrightarrow> wf_job j \<Longrightarrow> wf_job k"
  by (cases c) (auto simp: wf_job_def beat_def with_state_def with_lease_def with_retry_def Let_def
      and_then_eq_Inr retry_delay_def split: if_splits)

lemma create_steps:
  "create mem_persist o' = (Inr j, t) \<Longrightarrow> or_next_id o' + 1 < 2 ^ 64 \<Longrightarrow>
     j = new_job (or_next_id o') AwaitingImport \<and> or_next_id t = or_next_id o' + 1
     \<and> or_store t = (or_store o')(or_next_id o' \<mapsto> j)"
  by (auto simp: create_def job_def put_job_def mem_persist_def effect_simps new_job_def)

text \<open>
  C13: Whatever copies the workers keep and whatever commands they run, every stored job and every held copy
  is well formed: one state for the job and its attempt, an expiry exactly with an owner, at most
  three automatic retries and a delay exactly with a retry; a job is stored under its own number,
  numbers are never given twice, and no job is ever canonical or has an identity.
\<close>
theorem import_jobs_wellformed:
  assumes "reachable o' held"
  shows "(\<forall>j\<in>held \<union> ran (or_store o'). wf_job j \<and> 1 \<le> jb_id j \<and> jb_id j < or_next_id o')
    \<and> (\<forall>i j. or_store o' i = Some j \<longrightarrow> jb_id j = i) \<and> (\<forall>j\<in>held. jb_id j \<in> dom (or_store o'))
    \<and> or_next_id o' \<notin> dom (or_store o') \<and> 1 \<le> or_next_id o'"
  using assms
proof (induction rule: reachable.induct)
  case start
  then show ?case by (simp add: orchestrator_new_def)
next
  case (created o' held j t)
  from create_steps [OF created(3,2)] have t: "j = new_job (or_next_id o') AwaitingImport"
    "or_next_id t = or_next_id o' + 1" "or_store t = (or_store o')(or_next_id o' \<mapsto> j)" by blast+
  have new: "wf_job j" "jb_id j = or_next_id o'" by (simp_all add: t(1) new_job_def wf_job_def)
  have "or_store o' (or_next_id o' + 1) \<noteq> Some j'" for j'
  proof
    assume stored: "or_store o' (or_next_id o' + 1) = Some j'"
    then have "jb_id j' = or_next_id o' + 1" using created.IH by blast
    moreover have "jb_id j' < or_next_id o'" using stored created.IH by (blast intro: ranI)
    ultimately show False by simp
  qed
  then have fresh: "or_next_id o' + 1 \<notin> dom (or_store o')"
    by (cases "or_store o' (or_next_id o' + 1)") (auto simp: domIff)
  have "wf_job j' \<and> 1 \<le> jb_id j' \<and> jb_id j' < or_next_id t" if "j' \<in> insert j held \<union> ran (or_store t)" for j'
  proof (cases "j' = j")
    case True
    with new created.IH show ?thesis by (simp add: t(2))
  next
    case False
    with that have "j' \<in> held \<union> ran (or_store o')" by (auto simp: t(3) ran_def split: if_splits)
    with created.IH have "wf_job j' \<and> 1 \<le> jb_id j' \<and> jb_id j' < or_next_id o'" by blast
    then show ?thesis by (simp add: t(2))
  qed
  moreover have "jb_id j' = i" if "or_store t i = Some j'" for i j'
    using that created.IH new(2) by (auto simp: t(3) split: if_splits)
  moreover have "\<forall>j'\<in>insert j held. jb_id j' \<in> dom (or_store t)"
    using created.IH new(2) by (auto simp: t(3))
  moreover have "or_next_id t \<notin> dom (or_store t)" "1 \<le> or_next_id t" using fresh by (simp_all add: t(2,3))
  ultimately show ?case by blast
next
  case (resumed o' held i j t)
  then have "t = o'" "or_store o' i = Some j" by (auto simp: resume_def mem_persist_def)
  with resumed.IH show ?case by (auto simp: ran_def)
next
  case (commanded o' held j c k t)
  from mem.command_durable [OF commanded(3)] have k: "command_result c j = Inr k" "or_next_id t = or_next_id o'"
    "or_store t i = (if i = jb_id j then Some k else or_store o' i)" for i
    by (simp_all add: mem_persist_def)
  have store: "or_store t = (or_store o')(jb_id j \<mapsto> k)" using k(3) by auto
  then have ran: "ran (or_store t) \<subseteq> insert k (ran (or_store o'))" by (auto simp: ran_def)
  have held: "wf_job j" "1 \<le> jb_id j" "jb_id j < or_next_id o'" "jb_id j \<in> dom (or_store o')"
    using commanded.IH commanded(2) by blast+
  have new: "wf_job k" "jb_id k = jb_id j"
    using command_result_wf [OF k(1) held(1)] command_result_id [OF k(1)] by simp_all
  have dom: "dom (or_store t) = dom (or_store o')" using held(4) by (simp add: store insert_absorb)
  have "wf_job j' \<and> 1 \<le> jb_id j' \<and> jb_id j' < or_next_id t" if "j' \<in> insert k held \<union> ran (or_store t)" for j'
  proof (cases "j' = k")
    case True
    with new held show ?thesis by (simp add: k(2))
  next
    case False
    with that ran have "j' \<in> held \<union> ran (or_store o')" by blast
    with commanded.IH have "wf_job j' \<and> 1 \<le> jb_id j' \<and> jb_id j' < or_next_id o'" by blast
    then show ?thesis by (simp add: k(2))
  qed
  moreover have "\<forall>i j'. or_store t i = Some j' \<longrightarrow> jb_id j' = i"
    using commanded.IH new(2) by (simp add: store)
  moreover have "\<forall>j'\<in>insert k held. jb_id j' \<in> dom (or_store t)"
    using commanded.IH new(2) held(4) unfolding dom by simp
  ultimately show ?case using commanded.IH unfolding dom k(2) by blast
next
  case (refused o' held j c e t)
  from mem.command_fails [OF refused(3)] have "or_next_id t = or_next_id o'" "or_store t = or_store o'"
    by (auto simp: mem_persist_def)
  with refused.IH show ?case by simp
qed

definition sample_orchestrator :: "(nat \<rightharpoonup> import_job) orchestrator" where
  "sample_orchestrator = \<lparr>or_store = [1 \<mapsto> new_job 1 AwaitingImport], or_next_id = 2\<rparr>"

lemma sample_created: "create mem_persist (orchestrator_new Map.empty) = (Inr (new_job 1 AwaitingImport), sample_orchestrator)"
  by (simp add: create_def job_def put_job_def mem_persist_def effect_simps orchestrator_new_def
      sample_orchestrator_def new_job_def)

theorem import_jobs_wellformed_witness: "wf_job (new_job 1 AwaitingImport) \<and> 2 \<notin> dom (or_store sample_orchestrator)"
proof -
  have "or_next_id (orchestrator_new Map.empty) + 1 < 2 ^ 64" by (simp add: orchestrator_new_def)
  from import_jobs_wellformed [OF reachable.created [OF reachable.start this sample_created]]
  show ?thesis by (simp add: sample_orchestrator_def)
qed

section \<open>Retries\<close>

fun auto_retries :: "nat \<Rightarrow> import_job \<Rightarrow> 's persist \<Rightarrow> 's job_effect" where
  "auto_retries 0 j p = ret j"
| "auto_retries (Suc n) j p = bind (run_command p (Retry False) j) (\<lambda>k. auto_retries n k p)"

definition backoff :: "nat \<Rightarrow> nat" where
  "backoff n = (if n = 1 then 2 * 10 ^ 9 else if n = 2 then 10 * 10 ^ 9 else 60 * 10 ^ 9)"

lemma retry_mem: "at_retries (jb_attempt j) = n \<Longrightarrow> retry_delay n = Some d \<Longrightarrow>
    run_command mem_persist (Retry False) j o'
      = (Inr (with_retry (Suc n) (Some d) j), o'\<lparr>or_store := (or_store o')(jb_id j \<mapsto> with_retry (Suc n) (Some d) j)\<rparr>)"
  by (simp add: run_command_eq put_job_def mem_persist_def with_retry_def)

lemma retry_delays: "retry_delay 0 = Some (backoff 1)" "retry_delay 1 = Some (backoff 2)"
  "retry_delay 2 = Some (backoff 3)" "retry_delay 3 = None"
  by (simp_all add: retry_delay_def backoff_def)

text \<open>
  The automatic budget of a job is three retries, after two, ten and sixty seconds: from a job without a
  retry, one to three automatic retries succeed and record their number and delay, a fourth is refused
  and changes nothing, and a manual retry gives the whole budget back.
\<close>
theorem auto_retry_budget:
  assumes "at_retries (jb_attempt j) = 0"
  shows "(\<forall>n\<in>{1, 2, 3}. \<exists>k t. auto_retries n j mem_persist o' = (Inr k, t) \<and> or_store t (jb_id j) = Some k
        \<and> k = with_retry n (Some (backoff n)) j)
    \<and> (\<exists>t. auto_retries 4 j mem_persist o' = (Inl IoError, t)
        \<and> fst (resume mem_persist (jb_id j) t) = Inr (with_retry 3 (Some (backoff 3)) j))
    \<and> (\<forall>k. \<exists>t. run_command mem_persist (Retry True) k o' = (Inr (with_retry 0 None k), t))"
proof -
  have with_retry [simp]: "with_retry n d (with_retry m e j) = with_retry n d j" "jb_id (with_retry n d j) = jb_id j"
    "at_retries (jb_attempt (with_retry n d j)) = n" for n m d e by (simp_all add: with_retry_def)
  let ?k = "\<lambda>n. with_retry n (Some (backoff n)) j"
  let ?s = "\<lambda>n. o'\<lparr>or_store := (or_store o')(jb_id j \<mapsto> ?k n)\<rparr>"
  have numbers: "Suc 0 = 1" "Suc 1 = 2" "Suc 2 = 3" "Suc 3 = 4" by simp_all
  note run = retry_mem [unfolded numbers]
  have one: "run_command mem_persist (Retry False) j o' = (Inr (?k 1), ?s 1)"
    using retry_mem [of j 0, OF assms retry_delays(1)] by (simp only: numbers)
  have two: "run_command mem_persist (Retry False) (?k 1) (?s 1) = (Inr (?k 2), ?s 2)"
    using retry_mem [of "?k 1" 1, OF with_retry(3) retry_delays(2)] by (simp only: numbers with_retry) simp
  have three: "run_command mem_persist (Retry False) (?k 2) (?s 2) = (Inr (?k 3), ?s 3)"
    using retry_mem [of "?k 2" 2, OF with_retry(3) retry_delays(3)] by (simp only: numbers with_retry) simp
  have four: "run_command mem_persist (Retry False) (?k 3) (?s 3) = (Inl IoError, ?s 3)"
    by (simp add: run_command_eq retry_delays(4))
  note step = auto_retries.simps bind_apply one two three four fst_conv snd_conv sum.case ret_def
  have runs: "auto_retries (Suc 0) j mem_persist o' = (Inr (?k 1), ?s 1)"
    "auto_retries (Suc (Suc 0)) j mem_persist o' = (Inr (?k 2), ?s 2)"
    "auto_retries (Suc (Suc (Suc 0))) j mem_persist o' = (Inr (?k 3), ?s 3)"
    "auto_retries (Suc (Suc (Suc (Suc 0)))) j mem_persist o' = (Inl IoError, ?s 3)"
    by (simp_all only: step)
  moreover have "\<exists>t. run_command mem_persist (Retry True) k o' = (Inr (with_retry 0 None k), t)" for k
    by (simp add: run_command_eq put_job_def mem_persist_def)
  moreover have "or_store (?s n) (jb_id j) = Some (?k n)" for n by simp
  ultimately show ?thesis
    by (simp only: numbers ball_simps insert_iff empty_iff resume_def mem_persist_def persist.simps) auto
qed

theorem auto_retry_budget_witness:
  "\<exists>t. auto_retries 4 (new_job 1 AwaitingImport) mem_persist sample_orchestrator = (Inl IoError, t)"
proof -
  have "at_retries (jb_attempt (new_job 1 AwaitingImport)) = 0" by (simp add: new_job_def)
  from auto_retry_budget [OF this] show ?thesis by blast
qed

section \<open>Leases and stale copies\<close>

text \<open>
  A lease holds against a worker that reads the job first, not against a worker with an older copy: after
  one worker acquired the lease, a second that resumes the job is refused until the expiry, but one
  that still has the copy from before acquires it at once, and the first goes on renewing it; in the
  same way a transition of a copy from before a cancellation revives the job.
\<close>
theorem lease_checks_only_the_copy:
  assumes "lease_available (jb_attempt j) now a" "at_lease_owner (jb_attempt j) = None" "a \<noteq> b" "0 < ttl"
  shows "\<exists>held_a t. run_command mem_persist (Acquire a now ttl) j o' = (Inr held_a, t)
    \<and> (\<forall>fresh u later. resume mem_persist (jb_id j) t = (Inr fresh, u) \<longrightarrow> later < now + ttl \<longrightarrow>
        fst (run_command mem_persist (Acquire b later ttl) fresh u) = Inl IoError)
    \<and> (\<exists>held_b u. run_command mem_persist (Acquire b now ttl) j t = (Inr held_b, u)
        \<and> at_lease_owner (jb_attempt held_b) = Some b
        \<and> (\<exists>again v. run_command mem_persist (Renew a now ttl) held_a u = (Inr again, v)
            \<and> at_lease_owner (jb_attempt again) = Some a))
    \<and> (jb_state j = AwaitingImport \<longrightarrow> \<not> jb_cancelled j \<longrightarrow>
        (\<exists>k u revived v. run_command mem_persist Cancel j o' = (Inr k, u) \<and> jb_cancelled k
          \<and> run_command mem_persist (Transition Validating) j u = (Inr revived, v)
          \<and> resume mem_persist (jb_id j) v = (Inr revived, v) \<and> \<not> jb_cancelled revived))"
  using assms
  by (simp add: run_command_eq put_job_def mem_persist_def resume_def lease_available_def with_lease_def
      with_state_def beat_def Let_def)

theorem lease_checks_only_the_copy_witness:
  "\<exists>held_a t held_b u. run_command mem_persist (Acquire ''a'' 0 60) (new_job 1 AwaitingImport) sample_orchestrator = (Inr held_a, t)
    \<and> run_command mem_persist (Acquire ''b'' 0 60) (new_job 1 AwaitingImport) t = (Inr held_b, u)"
proof -
  have "lease_available (jb_attempt (new_job 1 AwaitingImport)) 0 ''a''"
    "at_lease_owner (jb_attempt (new_job 1 AwaitingImport)) = None" "''a'' \<noteq> ''b''" "0 < (60 :: nat)"
    by (simp_all add: lease_available_def new_job_def)
  from lease_checks_only_the_copy [OF this] show ?thesis by blast
qed

section \<open>Ways to ready\<close>

text \<open>
  A job becomes ready only after its validation and then by deduplication or the linking of clips, and
  linking follows a rating; but an error may be left for any stage, so a job that failed its
  validation can be rated, linked and made ready without being hashed, copied or parsed.
\<close>
theorem ready_paths:
  "(\<forall>states. successively legal_transition (AwaitingImport # states @ [Ready]) \<longrightarrow>
      Validating \<in> set states
      \<and> (states = butlast states @ [Deduplicating]
         \<or> states = butlast states @ [LinkingClips] \<and> last (butlast states) = Rating))
    \<and> successively legal_transition [AwaitingImport, Validating, ImportError e, Rating, LinkingClips, Ready]"
proof -
  have first: "Validating \<in> set states" if "successively legal_transition (AwaitingImport # states @ [Ready])" for states
    using that by (cases states) auto
  have into_ready: "s = Deduplicating \<or> s = LinkingClips" if "legal_transition s Ready" for s
    using that by (cases s) auto
  have into_linking: "s = Rating" if "legal_transition s LinkingClips" for s
    using that by (cases s) auto
  have last: "states = butlast states @ [Deduplicating]
      \<or> states = butlast states @ [LinkingClips] \<and> last (butlast states) = Rating"
    if path: "successively legal_transition (AwaitingImport # states @ [Ready])" for states
  proof -
    from path have "states \<noteq> []" by (cases states) auto
    then obtain xs s where states: "states = xs @ [s]" by (cases states rule: rev_cases) auto
    with path have "successively legal_transition (((AwaitingImport # xs) @ [s]) @ [Ready])" by simp
    then have step: "legal_transition s Ready" "successively legal_transition ((AwaitingImport # xs) @ [s])"
      by (simp_all only: successively_append_iff) auto
    show ?thesis
    proof (cases "s = LinkingClips")
      case True
      from step(2) have "legal_transition (last (AwaitingImport # xs)) s" by (simp only: successively_append_iff) auto
      with True into_linking have "last (AwaitingImport # xs) = Rating" by blast
      then have "xs \<noteq> [] \<and> last xs = Rating" by (auto split: if_splits)
      with True states show ?thesis by simp
    next
      case False
      with into_ready [OF step(1)] states show ?thesis by simp
    qed
  qed
  from first last show ?thesis by simp
qed

end
