(* ===== verification/Import_Files.thy ===== *)
theory Import_Files
  imports Import_Job Frames
begin

text \<open>
  The files of an import, \<open>crates/openfrag-import/src/lib.rs\<close>: validation, fingerprint and the copies into
  the store of demos.

  What the operating system answers about a source is given: its metadata before and after, whether it
  opens, and the successive results of \<open>read\<close>, so a source may be cut, grow or fail under way.
  A call on the destination fails as the oracle \<open>faults\<close> says; a failed write may leave a
  prefix. A path is a string; \<open>parent\<close> and the name of the staging file are given.
\<close>

section \<open>The source\<close>

definition MAX_DEMO_BYTES :: nat where
  "MAX_DEMO_BYTES = 2147483648"

record file_metadata =
  fm_len :: nat
  fm_is_file :: bool
  fm_modified :: "nat option"

record demo_source =
  so_symlink :: bool
  so_before :: "file_metadata option"
  so_opens :: bool
  so_head :: "bytes option"
  so_reads :: "bytes option list"
  so_after :: "file_metadata option"

definition validate_demo :: "demo_source \<Rightarrow> nat \<Rightarrow> (error_code, nat) result" where
  "validate_demo src free_bytes =
     (if so_symlink src then Inl CorruptError else
      and_then (ok_or IoError (so_before src)) (\<lambda>meta.
      if \<not> fm_is_file meta then Inl CorruptError
      else if MAX_DEMO_BYTES < fm_len meta then Inl SizeError
      else if free_bytes < fm_len meta + fm_len meta div 10 then Inl IoError
      else if fm_len meta < length DEMO_MAGIC then Inl CorruptError
      else if \<not> so_opens src then Inl IoError
      else and_then (ok_or CorruptError (so_head src)) (\<lambda>magic.
        if magic \<noteq> DEMO_MAGIC then Inl UnsupportedError else Inr (fm_len meta))))"

definition progress_at :: "nat \<Rightarrow> nat \<Rightarrow> import_progress" where
  "progress_at processed total_len = \<lparr>ip_processed_bytes = processed, ip_total_bytes = Some total_len, ip_indeterminate = False,
     ip_work_done = 0, ip_heartbeat = processed\<rparr>"

section \<open>The fingerprint\<close>

text \<open>
  The loop of reads: the bytes read so far and the progress reported, until an empty read or the end
  of the answers.
\<close>

fun hash_loop :: "nat \<Rightarrow> bytes option list \<Rightarrow> bytes \<Rightarrow> import_progress list
    \<Rightarrow> (error_code, bytes) result \<times> import_progress list" where
  "hash_loop total_len [] acc log = (Inr acc, log)"
| "hash_loop total_len (None # reads) acc log = (Inl IoError, log)"
| "hash_loop total_len (Some chunk # reads) acc log =
     (if chunk = [] then (Inr acc, log)
      else let acc = acc @ chunk in hash_loop total_len reads acc (log @ [progress_at (length acc) total_len]))"

definition hash_file :: "(bytes \<Rightarrow> string) \<Rightarrow> demo_source \<Rightarrow> nat \<Rightarrow> (error_code, string) result \<times> import_progress list" where
  "hash_file sha src total_len =
     (case so_before src of None \<Rightarrow> (Inl IoError, [])
      | Some before \<Rightarrow>
        if \<not> so_opens src then (Inl IoError, [])
        else let (r, log) = hash_loop total_len (so_reads src) [] [] in
          (and_then r (\<lambda>content.
           and_then (ok_or IoError (so_after src)) (\<lambda>after.
           if fm_len before \<noteq> fm_len after \<or> fm_modified before \<noteq> fm_modified after \<or> length content \<noteq> total_len
           then Inl IoError else Inr (sha content))), log))"

section \<open>The copies\<close>

type_synonym file_path = string

record copy_state =
  cs_files :: "file_path \<rightharpoonup> bytes"
  cs_log :: "import_progress list"

datatype copy_call = CreateDirectory file_path | CreateStaging file_path | WriteChunk file_path | SyncStaging file_path
  | RenameInto file_path file_path | SyncDirectory file_path | RemoveStaging file_path

text \<open>\<open>None\<close>: the call succeeds; \<open>Some n\<close>: it fails, a write after \<open>n\<close> bytes.\<close>

type_synonym copy_faults = "copy_call \<Rightarrow> copy_state \<Rightarrow> nat option"

type_synonym 'a copy_effect = "(copy_state, error_code, 'a) effect"

definition call_port :: "copy_faults \<Rightarrow> copy_call \<Rightarrow> (copy_state \<Rightarrow> copy_state) \<Rightarrow> unit copy_effect" where
  "call_port faults c f s = (if faults c s = None then (Inr (), f s) else (Inl IoError, s))"

definition set_file :: "file_path \<Rightarrow> bytes option \<Rightarrow> copy_state \<Rightarrow> copy_state" where
  "set_file p content s = s\<lparr>cs_files := (cs_files s)(p := content)\<rparr>"

definition create_new_staging :: "copy_faults \<Rightarrow> file_path \<Rightarrow> unit copy_effect" where
  "create_new_staging faults tmp s =
     (if cs_files s tmp \<noteq> None then (Inl IoError, s) else call_port faults (CreateStaging tmp) (set_file tmp (Some [])) s)"

definition append_bytes :: "file_path \<Rightarrow> bytes \<Rightarrow> copy_state \<Rightarrow> copy_state" where
  "append_bytes p chunk s = set_file p (Some ((case cs_files s p of None \<Rightarrow> [] | Some c \<Rightarrow> c) @ chunk)) s"

definition write_chunk :: "copy_faults \<Rightarrow> file_path \<Rightarrow> bytes \<Rightarrow> unit copy_effect" where
  "write_chunk faults tmp chunk s = (case faults (WriteChunk tmp) s of
     Some n \<Rightarrow> (Inl IoError, append_bytes tmp (take n chunk) s)
   | None \<Rightarrow> (Inr (), append_bytes tmp chunk s))"

definition rename_file :: "copy_faults \<Rightarrow> file_path \<Rightarrow> file_path \<Rightarrow> unit copy_effect" where
  "rename_file faults tmp dst =
     call_port faults (RenameInto tmp dst) (\<lambda>s. set_file tmp None (set_file dst (cs_files s tmp) s))"

definition report :: "import_progress \<Rightarrow> unit copy_effect" where
  "report p = modify (\<lambda>s. s\<lparr>cs_log := cs_log s @ [p]\<rparr>)"

fun copy_loop :: "copy_faults \<Rightarrow> file_path \<Rightarrow> nat \<Rightarrow> bytes option list \<Rightarrow> bytes \<Rightarrow> bytes copy_effect" where
  "copy_loop faults tmp total_len [] acc = ret acc"
| "copy_loop faults tmp total_len (None # reads) acc = throw IoError"
| "copy_loop faults tmp total_len (Some chunk # reads) acc =
     (if chunk = [] then ret acc
      else bind (write_chunk faults tmp chunk) (\<lambda>_.
        let acc = acc @ chunk in
        bind (report (progress_at (length acc) total_len)) (\<lambda>_. copy_loop faults tmp total_len reads acc)))"

text \<open>\<open>if result.is_err() { let _ = fs::remove_file(&tmp); } result\<close>\<close>

definition or_discard :: "copy_faults \<Rightarrow> file_path \<Rightarrow> 'a copy_effect \<Rightarrow> 'a copy_effect" where
  "or_discard faults tmp m =
     bind (attempt m) (\<lambda>r. case r of
       Inl e \<Rightarrow> bind (attempt (call_port faults (RemoveStaging tmp) (set_file tmp None))) (\<lambda>_. throw e)
     | Inr x \<Rightarrow> ret x)"

definition publish_checked :: "copy_faults \<Rightarrow> (bytes \<Rightarrow> string) \<Rightarrow> file_path \<Rightarrow> file_path \<Rightarrow> file_path \<Rightarrow> string \<Rightarrow> nat
    \<Rightarrow> bytes option list \<Rightarrow> file_path copy_effect" where
  "publish_checked faults sha tmp dst parent expected_hash total_len reads =
     bind (copy_loop faults tmp total_len reads []) (\<lambda>content.
     bind (call_port faults (SyncStaging tmp) id) (\<lambda>_.
     if length content \<noteq> total_len \<or> sha content \<noteq> expected_hash then throw CorruptError else
     bind (rename_file faults tmp dst) (\<lambda>_.
     bind (call_port faults (SyncDirectory parent) id) (\<lambda>_. ret dst))))"

definition copy_content_addressed :: "copy_faults \<Rightarrow> (bytes \<Rightarrow> string) \<Rightarrow> (file_path \<Rightarrow> file_path option) \<Rightarrow> file_path
    \<Rightarrow> demo_source \<Rightarrow> file_path \<Rightarrow> string \<Rightarrow> nat \<Rightarrow> file_path copy_effect" where
  "copy_content_addressed faults sha parent_of tmp src dst expected_hash total_len =
     bind (asks (\<lambda>s. cs_files s dst \<noteq> None)) (\<lambda>exists.
     if exists then ret dst else
     bind (lift_option IoError (parent_of dst)) (\<lambda>parent.
     bind (call_port faults (CreateDirectory parent) id) (\<lambda>_.
     bind (create_new_staging faults tmp) (\<lambda>_.
     if \<not> so_opens src then throw IoError
     else or_discard faults tmp (publish_checked faults sha tmp dst parent expected_hash total_len (so_reads src))))))"

definition publish_unchecked :: "copy_faults \<Rightarrow> (bytes \<Rightarrow> string) \<Rightarrow> file_path \<Rightarrow> file_path \<Rightarrow> nat
    \<Rightarrow> bytes option list \<Rightarrow> string copy_effect" where
  "publish_unchecked faults sha tmp dst total_len reads =
     bind (copy_loop faults tmp total_len reads []) (\<lambda>content.
     bind (call_port faults (SyncStaging tmp) id) (\<lambda>_.
     bind (rename_file faults tmp dst) (\<lambda>_. ret (sha content))))"

definition hash_and_copy :: "copy_faults \<Rightarrow> (bytes \<Rightarrow> string) \<Rightarrow> (file_path \<Rightarrow> file_path option) \<Rightarrow> file_path
    \<Rightarrow> demo_source \<Rightarrow> file_path \<Rightarrow> nat \<Rightarrow> string copy_effect" where
  "hash_and_copy faults sha parent_of tmp src dst total_len =
     (if \<not> so_opens src then throw IoError else
      bind (case parent_of dst of None \<Rightarrow> ret () | Some parent \<Rightarrow> call_port faults (CreateDirectory parent) id) (\<lambda>_.
      bind (create_new_staging faults tmp) (\<lambda>_.
      or_discard faults tmp (publish_unchecked faults sha tmp dst total_len (so_reads src)))))"

end
