(* ===== verification/Import_Files_Correct.thy ===== *)
theory Import_Files_Correct
  imports Import_Files
begin

text \<open>
  What the files of an import guarantee: a fingerprint is that of a source that did not change, a copy is
  published whole and verified or not at all, and where a copy is trusted without a check.
\<close>

section \<open>Reading a source\<close>

text \<open>What a source delivers: the reads up to the first empty one, unless one of them fails.\<close>

fun delivered :: "bytes option list \<Rightarrow> bytes option" where
  "delivered [] = Some []"
| "delivered (None # reads) = None"
| "delivered (Some chunk # reads) = (if chunk = [] then Some [] else map_option ((@) chunk) (delivered reads))"

lemma hash_loop_result:
  "fst (hash_loop n reads acc log) = (case delivered reads of None \<Rightarrow> Inl IoError | Some d \<Rightarrow> Inr (acc @ d))"
  by (induction n reads acc log rule: hash_loop.induct) (auto simp: Let_def split: option.split)

text \<open>The positions reported from a position on: they grow, and end with what was read.\<close>

definition reports_from :: "nat \<Rightarrow> nat \<Rightarrow> import_progress list \<Rightarrow> bool" where
  "reports_from n start log \<longleftrightarrow> sorted_wrt (<) (start # map ip_processed_bytes log)
     \<and> (\<forall>p\<in>set log. p = progress_at (ip_processed_bytes p) n)"

lemma hash_loop_log:
  "\<exists>new. snd (hash_loop n reads acc log) = log @ new \<and> reports_from n (length acc) new
     \<and> (\<forall>d. delivered reads = Some d \<longrightarrow> last (length acc # map ip_processed_bytes new) = length acc + length d)"
proof (induction n reads acc log rule: hash_loop.induct)
  case (3 n chunk reads acc log)
  show ?case
  proof (cases "chunk = []")
    case True
    then show ?thesis by (simp add: reports_from_def)
  next
    case False
    let ?p = "progress_at (length (acc @ chunk)) n"
    from 3 [OF False refl] obtain new where
      new: "snd (hash_loop n reads (acc @ chunk) (log @ [?p])) = (log @ [?p]) @ new"
        "reports_from n (length (acc @ chunk)) new"
        "\<And>d. delivered reads = Some d \<Longrightarrow>
           last (length (acc @ chunk) # map ip_processed_bytes new) = length (acc @ chunk) + length d"
      by blast
    have p: "ip_processed_bytes ?p = length acc + length chunk" by (simp add: progress_at_def)
    have "reports_from n (length acc) (?p # new)"
      using new(2) False p by (auto simp: reports_from_def)
    moreover have "last (length acc # map ip_processed_bytes (?p # new)) = length acc + length d"
      if "delivered (Some chunk # reads) = Some d" for d
      using that False new(3) p by (auto simp: last_map split: if_splits)
    ultimately show ?thesis using False new(1)
      by (intro exI [of _ "?p # new"]) (simp add: Let_def)
  qed
qed (auto simp: reports_from_def)

text \<open>
  A fingerprint is the hash of exactly what was read, and it is given only for a source of the expected
  length whose length and modification time are the same before and after; every other outcome is an
  input error. The progress reported grows strictly, and ends at the whole length on success.
\<close>
theorem fingerprint_of_unchanged_source:
  "(case hash_file sha src n of
      (Inr h, log) \<Rightarrow> (\<exists>before after content. so_before src = Some before \<and> so_opens src \<and> so_after src = Some after
        \<and> delivered (so_reads src) = Some content \<and> h = sha content \<and> length content = n
        \<and> fm_len before = fm_len after \<and> fm_modified before = fm_modified after)
        \<and> reports_from n 0 log \<and> last (0 # map ip_processed_bytes log) = n
    | (Inl e, log) \<Rightarrow> e = IoError \<and> reports_from n 0 log
        \<and> \<not> (\<exists>before after content. so_before src = Some before \<and> so_opens src \<and> so_after src = Some after
        \<and> delivered (so_reads src) = Some content \<and> length content = n
        \<and> fm_len before = fm_len after \<and> fm_modified before = fm_modified after))"
proof (cases "so_before src = None \<or> \<not> so_opens src")
  case True
  then show ?thesis by (auto simp: hash_file_def reports_from_def split: option.split)
next
  case False
  then obtain before where b: "so_before src = Some before" "so_opens src" by auto
  obtain r log where loop: "hash_loop n (so_reads src) [] [] = (r, log)" by fastforce
  have r: "r = (case delivered (so_reads src) of None \<Rightarrow> Inl IoError | Some d \<Rightarrow> Inr d)"
    using hash_loop_result [of n "so_reads src" "[]" "[]"] by (simp add: loop split: option.split)
  have log: "reports_from n 0 log"
    "\<And>d. delivered (so_reads src) = Some d \<Longrightarrow> last (0 # map ip_processed_bytes log) = length d"
    using hash_loop_log [of n "so_reads src" "[]" "[]"] by (simp_all add: loop)
  show ?thesis
    using b r log by (cases "delivered (so_reads src)"; cases "so_after src") (auto simp: hash_file_def loop)
qed

section \<open>Copying a source\<close>

lemma set_file_files [simp]: "cs_files (set_file p c s) = (cs_files s)(p := c)"
  by (simp add: set_file_def)

lemma copy_loop_spec:
  "cs_files s tmp = Some w \<Longrightarrow> copy_loop faults tmp n reads acc s = (r, t) \<Longrightarrow>
     (\<forall>q. q \<noteq> tmp \<longrightarrow> cs_files t q = cs_files s q) \<and> (\<exists>w'. cs_files t tmp = Some w')
     \<and> (\<forall>c. r = Inr c \<longrightarrow> (\<exists>d. delivered reads = Some d \<and> c = acc @ d \<and> cs_files t tmp = Some (w @ d)))"
proof (induction faults tmp n reads acc arbitrary: s w rule: copy_loop.induct)
  case (1 faults tmp n acc)
  then show ?case by (auto simp: pure_eq)
next
  case (2 faults tmp n reads acc)
  then show ?case by (auto simp: pure_eq)
next
  case (3 faults tmp n chunk reads acc)
  show ?case
  proof (cases "chunk = []")
    case True
    with 3 show ?thesis by (auto simp: pure_eq)
  next
    case False
    show ?thesis
    proof (cases "faults (WriteChunk tmp) s")
      case (Some k)
      with 3 False show ?thesis by (auto simp: write_chunk_def append_bytes_def bind_def)
    next
      case None
      let ?u = "(append_bytes tmp chunk s)\<lparr>cs_log := cs_log s @ [progress_at (length (acc @ chunk)) n]\<rparr>"
      have "copy_loop faults tmp n reads (acc @ chunk) ?u = (r, t)"
        using 3(3) False None
        by (simp add: write_chunk_def bind_def report_def modify_def Let_def append_bytes_def set_file_def)
      from 3(1) [OF False refl _ this, of "w @ chunk"] 3(2) False show ?thesis
        by (auto simp: append_bytes_def)
    qed
  qed
qed

definition verified :: "(bytes \<Rightarrow> string) \<Rightarrow> string \<Rightarrow> nat \<Rightarrow> demo_source \<Rightarrow> bytes \<Rightarrow> bool" where
  "verified sha expected_hash n src content \<longleftrightarrow> delivered (so_reads src) = Some content
     \<and> length content = n \<and> sha content = expected_hash"

lemma publish_checked_spec:
  assumes "cs_files s tmp = Some []" "tmp \<noteq> dst"
    "publish_checked faults sha tmp dst parent expected_hash n (so_reads src) s = (r, t)"
  shows "(\<forall>q. q \<noteq> tmp \<longrightarrow> q \<noteq> dst \<longrightarrow> cs_files t q = cs_files s q)
    \<and> (cs_files t dst = cs_files s dst \<and> (\<exists>e. r = Inl e)
       \<or> (\<exists>c. verified sha expected_hash n src c \<and> cs_files t dst = Some c \<and> cs_files t tmp = None
           \<and> (r = Inr dst \<or> r = Inl IoError)))"
proof -
  obtain r1 s1 where loop: "copy_loop faults tmp n (so_reads src) [] s = (r1, s1)" by fastforce
  note spec = copy_loop_spec [OF assms(1) loop]
  show ?thesis
  proof (cases r1)
    case (Inl e)
    with assms(2,3) loop spec show ?thesis by (auto simp: publish_checked_def bind_def)
  next
    case (Inr c)
    with spec have c: "delivered (so_reads src) = Some c" "cs_files s1 tmp = Some c" by auto
    with assms(2,3) loop spec Inr show ?thesis
      by (auto simp: publish_checked_def bind_def call_port_def rename_file_def pure_eq verified_def
          split: if_splits)
  qed
qed

text \<open>
  C14: A copy into the store never leaves a damaged demo: whatever calls fail, the destination afterwards is
  what it was, or, if it did not exist, holds exactly what the source delivered, with the expected
  length and hash; no file but it and the staging file changes, and success means it is there.
\<close>
theorem copy_is_verified:
  assumes "tmp \<noteq> dst"
  shows "(case copy_content_addressed faults sha parent_of tmp src dst expected_hash n s of (r, t) \<Rightarrow>
      (\<forall>q. q \<noteq> tmp \<longrightarrow> q \<noteq> dst \<longrightarrow> cs_files t q = cs_files s q)
      \<and> (cs_files t dst = cs_files s dst
         \<or> cs_files s dst = None \<and> (\<exists>c. cs_files t dst = Some c \<and> verified sha expected_hash n src c))
      \<and> (\<forall>p. r = Inr p \<longrightarrow> p = dst \<and> cs_files t dst \<noteq> None))"
proof -
  let ?publish = "publish_checked faults sha tmp dst"
  have discarded: "(\<forall>q. q \<noteq> tmp \<longrightarrow> q \<noteq> dst \<longrightarrow> cs_files t q = cs_files u q)
      \<and> (cs_files t dst = cs_files u dst \<and> (\<exists>e. r = Inl e)
         \<or> (\<exists>c. cs_files t dst = Some c \<and> verified sha expected_hash n src c) \<and> (\<forall>p. r = Inr p \<longrightarrow> p = dst))"
    if "or_discard faults tmp (?publish parent expected_hash n (so_reads src)) u = (r, t)" "cs_files u tmp = Some []"
    for parent u r t
  proof -
    obtain r1 u1 where p: "?publish parent expected_hash n (so_reads src) u = (r1, u1)" by fastforce
    from that(1) p show ?thesis using publish_checked_spec [OF that(2) assms p] assms
      by (cases r1) (auto simp: or_discard_def bind_def attempt_def call_port_def pure_eq split: if_splits)
  qed
  obtain r t where run: "copy_content_addressed faults sha parent_of tmp src dst expected_hash n s = (r, t)" by fastforce
  show ?thesis
  proof (cases "cs_files s dst")
    case (Some c)
    with run show ?thesis by (auto simp: copy_content_addressed_def effect_simps)
  next
    case None
    show ?thesis
    proof (cases "\<exists>e. r = Inl e \<and> (t = s \<or> t = set_file tmp (Some []) s)")
      case True
      with run assms show ?thesis by auto
    next
      case False
      with run None obtain parent where "cs_files s tmp = None"
        "or_discard faults tmp (?publish parent expected_hash n (so_reads src)) (set_file tmp (Some []) s) = (r, t)"
        by (auto simp: copy_content_addressed_def bind_def asks_def lift_option_def ok_or_def call_port_def
            create_new_staging_def throw_def split: option.splits if_splits)
      from discarded [OF this(2)] assms None show ?thesis by (auto simp: run)
    qed
  qed
qed

definition sample_source :: demo_source where
  "sample_source = \<lparr>so_symlink = False, so_before = Some \<lparr>fm_len = 3, fm_is_file = True, fm_modified = Some 5\<rparr>,
     so_opens = True, so_head = None, so_reads = [Some [1, 2], Some [3]],
     so_after = Some \<lparr>fm_len = 3, fm_is_file = True, fm_modified = Some 5\<rparr>\<rparr>"

definition empty_store :: copy_state where
  "empty_store = \<lparr>cs_files = Map.empty, cs_log = []\<rparr>"

theorem copy_is_verified_witness:
  "cs_files (snd (copy_content_addressed (\<lambda>c s. if c = SyncDirectory ''d'' then Some 0 else None) (\<lambda>b. show_nat (length b))
     (\<lambda>_. Some ''d'') ''t'' sample_source ''f'' ''3'' 3 empty_store)) ''other'' = None"
  using copy_is_verified [of "''t''" "''f''", where faults = "\<lambda>c s. if c = SyncDirectory ''d'' then Some 0 else None"
      and sha = "\<lambda>b. show_nat (length b)" and parent_of = "\<lambda>_. Some ''d''" and src = sample_source
      and expected_hash = "''3''" and n = 3 and s = empty_store]
  by (simp add: empty_store_def split: prod.splits)

section \<open>Trust\<close>

text \<open>
  The copies trust what they do not check: a destination that exists is returned as copied whatever it
  holds; a source that does not open after the staging file was made leaves that file behind; and the
  copy that hashes on the way publishes whatever it could read over the destination, without
  comparing it with the expected length.
\<close>
theorem unchecked_copies:
  "(\<forall>s. cs_files s dst \<noteq> None \<longrightarrow>
      copy_content_addressed faults sha parent_of tmp src dst expected_hash n s = (Inr dst, s))
    \<and> (\<forall>s parent. cs_files s dst = None \<longrightarrow> cs_files s tmp = None \<longrightarrow> parent_of dst = Some parent \<longrightarrow> \<not> so_opens src \<longrightarrow>
      copy_content_addressed (\<lambda>_ _. None) sha parent_of tmp src dst expected_hash n s
        = (Inl IoError, set_file tmp (Some []) s))
    \<and> (\<forall>s h t. hash_and_copy faults sha parent_of tmp src dst n s = (Inr h, t) \<longrightarrow> tmp \<noteq> dst \<longrightarrow>
      (\<exists>content. delivered (so_reads src) = Some content \<and> h = sha content \<and> cs_files t dst = Some content))"
proof (intro conjI allI impI)
  fix s :: copy_state
  assume "cs_files s dst \<noteq> None"
  then show "copy_content_addressed faults sha parent_of tmp src dst expected_hash n s = (Inr dst, s)"
    by (simp add: copy_content_addressed_def effect_simps)
next
  fix s :: copy_state and parent
  assume "cs_files s dst = None" "cs_files s tmp = None" "parent_of dst = Some parent" "\<not> so_opens src"
  then show "copy_content_addressed (\<lambda>_ _. None) sha parent_of tmp src dst expected_hash n s
        = (Inl IoError, set_file tmp (Some []) s)"
    by (simp add: copy_content_addressed_def effect_simps call_port_def create_new_staging_def)
next
  fix s t :: copy_state and h
  assume run: "hash_and_copy faults sha parent_of tmp src dst n s = (Inr h, t)" and neq: "tmp \<noteq> dst"
  then have "or_discard faults tmp (publish_unchecked faults sha tmp dst n (so_reads src)) (set_file tmp (Some []) s) = (Inr h, t)"
    by (auto simp: hash_and_copy_def bind_def throw_def ret_def call_port_def create_new_staging_def
        split: option.splits if_splits)
  then have "publish_unchecked faults sha tmp dst n (so_reads src) (set_file tmp (Some []) s) = (Inr h, t)"
    by (cases "publish_unchecked faults sha tmp dst n (so_reads src) (set_file tmp (Some []) s)")
      (auto simp: or_discard_def bind_def attempt_def throw_def ret_def call_port_def split: sum.splits if_splits)
  then obtain content u v where
    loop: "copy_loop faults tmp n (so_reads src) [] (set_file tmp (Some []) s) = (Inr content, u)"
    and "v = u" "rename_file faults tmp dst v = (Inr (), t)" "h = sha content"
    by (auto simp: publish_unchecked_def bind_Inr pure_eq call_port_def split: if_splits)
  moreover from copy_loop_spec [OF _ loop, of "[]"] have "delivered (so_reads src) = Some content" "cs_files u tmp = Some content"
    by auto
  ultimately show "\<exists>content. delivered (so_reads src) = Some content \<and> h = sha content \<and> cs_files t dst = Some content"
    using neq by (auto simp: rename_file_def call_port_def split: if_splits)
qed

theorem unchecked_copies_witness:
  "copy_content_addressed (\<lambda>_ _. None) (\<lambda>b. show_nat (length b)) (\<lambda>_. None) ''t'' sample_source ''f'' ''3'' 3
     (set_file ''f'' (Some [9]) empty_store) = (Inr ''f'', set_file ''f'' (Some [9]) empty_store)"
proof -
  have "cs_files (set_file ''f'' (Some [9]) empty_store) ''f'' \<noteq> None" by simp
  with unchecked_copies [THEN conjunct1] show ?thesis by blast
qed

end
