(* ===== verification/Reconcile.thy ===== *)
theory Reconcile
  imports Analysis Highlight Effects Gsi "HOL-Library.Sublist"
begin

text \<open>
  The reconciliation of live candidates with an imported demo,
  \<open>crates/openfrag-pipeline/src/reconcile.rs\<close>: the evidence of a round, the decision on a candidate and
  the persistence of the decisions in order.

  The look-up of a snapshot is the one of the analysis (the two functions have the same text); the
  persistence is a state with a partial operation.
\<close>

section \<open>Candidates and decisions\<close>

datatype candidate_origin = ProvisionalAutoRound | ManualFlagOrigin

record reconciliation_candidate =
  rc_candidate_id :: string
  rc_clip_id :: string
  rc_demo_round_number :: "nat option"
  rc_origin :: candidate_origin

datatype unavailable_evidence = RoundLinkMissing | RoundMissingOrAmbiguous | LocalTeam | VictimIdentityOrTeam
  | KillWeapon | Liveness | RoundWinner

datatype evidence_completeness = CompleteEvidence | PartialEvidence unavailable_evidence

datatype disposition = Confirm "final_label fset" demo_evidence evidence_completeness | RejectOrdinary
  | EvidenceUnavailable unavailable_evidence | ManualIndependent

record reconciliation_decision =
  rd_candidate_id :: string
  rd_clip_id :: string
  rd_disposition :: disposition

section \<open>Evidence of a round\<close>

text \<open>The team of a player: of its last snapshot, else of the roster.\<close>

definition roster_team_at :: "'j parsed_output \<Rightarrow> steam_id \<Rightarrow> int \<Rightarrow> int option" where
  "roster_team_at parsed i tick =
     or_else (Option.bind (snapshot_at parsed i tick) sn_team)
       (Option.bind (List.find (\<lambda>p. pt_steam_id p = i) (po_participants parsed)) pt_team)"

definition is_knife :: "string \<Rightarrow> bool" where
  "is_knife weapon \<longleftrightarrow> (let normalized = map ascii_lower weapon in
     sublist ''knife'' normalized
     \<or> normalized \<in> {''bayonet'', ''karambit'', ''daggers'', ''butterfly'', ''falchion'', ''kukri'', ''machete''})"

definition u8_max :: nat where "u8_max = 255"

definition saturating_succ_u8 :: "nat \<Rightarrow> nat" where
  "saturating_succ_u8 n = min (n + 1) u8_max"

text \<open>What the deaths add up to: the kills, whether one was with a knife, and the first gap.\<close>

record kill_tally =
  kt_kills :: nat
  kt_knife :: bool
  kt_partial :: "unavailable_evidence option"

definition note_gap :: "unavailable_evidence \<Rightarrow> kill_tally \<Rightarrow> kill_tally" where
  "note_gap reason t = t\<lparr>kt_partial := or_else (kt_partial t) (Some reason)\<rparr>"

definition tally_death :: "'j parsed_output \<Rightarrow> steam_id \<Rightarrow> int \<times> player_death_event \<Rightarrow> kill_tally \<Rightarrow> kill_tally" where
  "tally_death parsed local td t =
     (let (tick, death) = td in
      case dt_victim death of
        None \<Rightarrow> note_gap VictimIdentityOrTeam t
      | Some victim \<Rightarrow>
        (case (roster_team_at parsed local tick, roster_team_at parsed victim tick) of
           (Some local_team, Some victim_team) \<Rightarrow>
             if local_team = victim_team then t
             else let t = t\<lparr>kt_kills := saturating_succ_u8 (kt_kills t)\<rparr> in
               (case dt_weapon death of
                  Some weapon \<Rightarrow> t\<lparr>kt_knife := (kt_knife t \<or> is_knife weapon)\<rparr>
                | None \<Rightarrow> note_gap KillWeapon t)
         | _ \<Rightarrow> note_gap VictimIdentityOrTeam t))"

fun tally_deaths :: "'j parsed_output \<Rightarrow> steam_id \<Rightarrow> (int \<times> player_death_event) list \<Rightarrow> kill_tally \<Rightarrow> kill_tally" where
  "tally_deaths parsed local [] t = t"
| "tally_deaths parsed local (td # deaths) t = tally_deaths parsed local deaths (tally_death parsed local td t)"

definition kills_between :: "'j parsed_output \<Rightarrow> steam_id \<Rightarrow> int \<Rightarrow> int \<Rightarrow> (int \<times> player_death_event) list" where
  "kills_between parsed local start_tick end_tick =
     filter (\<lambda>(tick, d). dt_attacker d = Some local \<and> start_tick < tick \<and> tick \<le> end_tick)
       (deaths_of (po_events parsed))"

text \<open>The living teammates and enemies of the local player at a tick.\<close>

fun count_living :: "'j parsed_output \<Rightarrow> int \<Rightarrow> int \<Rightarrow> participant list \<Rightarrow> nat \<times> nat
    \<Rightarrow> (unavailable_evidence, nat \<times> nat) result" where
  "count_living parsed tick local_team [] acc = Inr acc"
| "count_living parsed tick local_team (p # ps) (teammates, enemies) =
     and_then (ok_or Liveness (snapshot_at parsed (pt_steam_id p) tick)) (\<lambda>snapshot.
     and_then (ok_or LocalTeam (sn_team snapshot)) (\<lambda>team.
     and_then (ok_or Liveness (sn_alive snapshot)) (\<lambda>alive.
     count_living parsed tick local_team ps
       (if alive \<and> team = local_team then (saturating_succ_u8 teammates, enemies)
        else if alive \<and> (team = 2 \<or> team = 3) then (teammates, saturating_succ_u8 enemies)
        else (teammates, enemies)))))"

fun clutch_scan :: "'j parsed_output \<Rightarrow> steam_id \<Rightarrow> int list \<Rightarrow> (unavailable_evidence, nat option) result" where
  "clutch_scan parsed local [] = Inr None"
| "clutch_scan parsed local (tick # ticks) =
     and_then (ok_or Liveness (snapshot_at parsed local tick)) (\<lambda>local_snapshot.
     and_then (ok_or LocalTeam (sn_team local_snapshot)) (\<lambda>local_team.
     and_then (ok_or Liveness (sn_alive local_snapshot)) (\<lambda>local_alive.
     if \<not> local_alive then clutch_scan parsed local ticks
     else and_then (count_living parsed tick local_team
         (filter (\<lambda>p. pt_steam_id p \<noteq> local) (po_participants parsed)) (0, 0))
       (\<lambda>(teammates_alive, enemies_alive).
       if teammates_alive = 0 \<and> 2 \<le> enemies_alive then Inr (Some enemies_alive)
       else clutch_scan parsed local ticks))))"

definition clutch_opponents :: "'j parsed_output \<Rightarrow> steam_id \<Rightarrow> int \<Rightarrow> int
    \<Rightarrow> (unavailable_evidence, nat option) result" where
  "clutch_opponents parsed local start_tick end_tick =
     (let ticks = sorted_list_of_set (set (map sn_tick (filter
           (\<lambda>s. start_tick < sn_tick s \<and> sn_tick s \<le> end_tick) (po_snapshots parsed)))) in
      if ticks = [] then Inl Liveness else clutch_scan parsed local ticks)"

section \<open>The decision\<close>

definition i32_min :: int where "i32_min = - (2 ^ 31)"

definition previous_end :: "'j parsed_output \<Rightarrow> nat \<Rightarrow> int" where
  "previous_end parsed number =
     (case map pr_end_tick (filter (\<lambda>r. pr_number r < number) (po_rounds parsed)) of
        [] \<Rightarrow> i32_min | t # ts \<Rightarrow> fold max ts t)"

text \<open>Whether the round was won, asked only when there was a clutch; the gap if that is not known.\<close>

definition clutch_won :: "'j parsed_output \<Rightarrow> steam_id \<Rightarrow> parsed_round \<Rightarrow> nat option
    \<Rightarrow> unavailable_evidence option \<Rightarrow> bool \<times> unavailable_evidence option" where
  "clutch_won parsed local rnd opponents partial =
     (if opponents = None then (False, partial)
      else case (roster_team_at parsed local (pr_end_tick rnd), pr_winner rnd) of
        (Some local_team, Some winner) \<Rightarrow> (local_team = winner, partial)
      | (None, _) \<Rightarrow> (False, or_else partial (Some LocalTeam))
      | (Some _, None) \<Rightarrow> (False, or_else partial (Some RoundWinner)))"

definition gather_evidence :: "'j parsed_output \<Rightarrow> steam_id \<Rightarrow> parsed_round \<Rightarrow> int
    \<Rightarrow> demo_evidence \<times> unavailable_evidence option" where
  "gather_evidence parsed local rnd start_tick =
     (let tally = tally_deaths parsed local (kills_between parsed local start_tick (pr_end_tick rnd))
            \<lparr>kt_kills = 0, kt_knife = False, kt_partial = None\<rparr>;
          (opponents, partial) = (case clutch_opponents parsed local start_tick (pr_end_tick rnd) of
            Inr v \<Rightarrow> (v, kt_partial tally) | Inl reason \<Rightarrow> (None, or_else (kt_partial tally) (Some reason)));
          (won, partial) = clutch_won parsed local rnd opponents partial in
      (\<lparr>de_enemy_kills = kt_kills tally, de_clutch_opponents = opponents, de_team_won = won,
        de_knife_kill = kt_knife tally\<rparr>, partial))"

definition decide :: "demo_evidence \<Rightarrow> unavailable_evidence option \<Rightarrow> disposition" where
  "decide evidence partial =
     (let labels = final_labels evidence in
      if labels \<noteq> {||} then
        Confirm labels evidence (case partial of None \<Rightarrow> CompleteEvidence | Some r \<Rightarrow> PartialEvidence r)
      else (case partial of None \<Rightarrow> RejectOrdinary | Some r \<Rightarrow> EvidenceUnavailable r))"

definition evaluate :: "'j parsed_output \<Rightarrow> steam_id \<Rightarrow> reconciliation_candidate \<Rightarrow> disposition" where
  "evaluate parsed local candidate =
     (if rc_origin candidate = ManualFlagOrigin then ManualIndependent else
      case rc_demo_round_number candidate of
        None \<Rightarrow> EvidenceUnavailable RoundLinkMissing
      | Some number \<Rightarrow>
        (case filter (\<lambda>r. pr_number r = number) (po_rounds parsed) of
           [rnd] \<Rightarrow> (case gather_evidence parsed local rnd (previous_end parsed number) of
             (evidence, partial) \<Rightarrow> decide evidence partial)
         | _ \<Rightarrow> EvidenceUnavailable RoundMissingOrAmbiguous))"

section \<open>The decisions\<close>

definition candidate_before :: "reconciliation_candidate \<Rightarrow> reconciliation_candidate \<Rightarrow> bool" where
  "candidate_before a b \<longleftrightarrow> (rc_candidate_id a, rc_clip_id a) \<le> (rc_candidate_id b, rc_clip_id b)"

definition decision_of :: "'j parsed_output \<Rightarrow> steam_id \<Rightarrow> reconciliation_candidate \<Rightarrow> reconciliation_decision" where
  "decision_of parsed local c = \<lparr>rd_candidate_id = rc_candidate_id c, rd_clip_id = rc_clip_id c,
     rd_disposition = evaluate parsed local c\<rparr>"

fun persist_decisions :: "(reconciliation_decision \<Rightarrow> ('p, 'e, unit) effect) \<Rightarrow> reconciliation_decision list
    \<Rightarrow> reconciliation_decision list \<Rightarrow> ('p, 'e, reconciliation_decision list) effect" where
  "persist_decisions persist [] decisions = ret decisions"
| "persist_decisions persist (d # ds) decisions =
     bind (persist d) (\<lambda>_. persist_decisions persist ds (decisions @ [d]))"

definition reconcile_demo_candidates :: "'j parsed_output \<Rightarrow> steam_id \<Rightarrow> reconciliation_candidate list
    \<Rightarrow> (reconciliation_decision \<Rightarrow> ('p, 'e, unit) effect) \<Rightarrow> ('p, 'e, reconciliation_decision list) effect" where
  "reconcile_demo_candidates parsed local candidates persist =
     persist_decisions persist (map (decision_of parsed local) (sort_by candidate_before candidates)) []"

end
