(* ===== verification/Reconcile_Correct.thy ===== *)
theory Reconcile_Correct
  imports Reconcile
begin

text \<open>
  What the reconciliation guarantees: a candidate is rejected only on complete evidence, confirmed only for
  labels the counts support, and the decisions are persisted in one order whatever the order given.
\<close>

section \<open>Complete evidence\<close>

text \<open>The death is known to be a kill of an enemy, or known not to be one.\<close>

definition known_kill :: "'j parsed_output \<Rightarrow> steam_id \<Rightarrow> int \<times> player_death_event \<Rightarrow> bool" where
  "known_kill parsed local td \<longleftrightarrow> (\<exists>victim ta tv. dt_victim (snd td) = Some victim
     \<and> roster_team_at parsed local (fst td) = Some ta \<and> roster_team_at parsed victim (fst td) = Some tv
     \<and> (ta \<noteq> tv \<longrightarrow> dt_weapon (snd td) \<noteq> None))"

definition enemy_kill :: "'j parsed_output \<Rightarrow> steam_id \<Rightarrow> int \<times> player_death_event \<Rightarrow> bool" where
  "enemy_kill parsed local td \<longleftrightarrow> (\<exists>victim ta tv. dt_victim (snd td) = Some victim
     \<and> roster_team_at parsed local (fst td) = Some ta \<and> roster_team_at parsed victim (fst td) = Some tv \<and> ta \<noteq> tv)"

definition knife_kill :: "'j parsed_output \<Rightarrow> steam_id \<Rightarrow> int \<times> player_death_event \<Rightarrow> bool" where
  "knife_kill parsed local td \<longleftrightarrow> enemy_kill parsed local td \<and> (\<exists>w. dt_weapon (snd td) = Some w \<and> is_knife w)"

lemma tally_death_fields:
  "kt_kills (tally_death parsed local td t) =
     (if enemy_kill parsed local td then saturating_succ_u8 (kt_kills t) else kt_kills t)"
  "kt_knife (tally_death parsed local td t) \<longleftrightarrow> kt_knife t \<or> knife_kill parsed local td"
  "kt_partial (tally_death parsed local td t) = None \<longleftrightarrow> kt_partial t = None \<and> known_kill parsed local td"
  by (cases td; auto simp: tally_death_def note_gap_def or_else_def enemy_kill_def knife_kill_def known_kill_def Let_def
      split: option.splits)+

lemma tally_deaths_fields:
  "kt_kills t \<le> u8_max \<Longrightarrow> kt_kills (tally_deaths parsed local deaths t)
      = min (kt_kills t + length (filter (enemy_kill parsed local) deaths)) u8_max"
  "kt_knife (tally_deaths parsed local deaths t) \<longleftrightarrow> kt_knife t \<or> (\<exists>td\<in>set deaths. knife_kill parsed local td)"
  "kt_partial (tally_deaths parsed local deaths t) = None
      \<longleftrightarrow> kt_partial t = None \<and> (\<forall>td\<in>set deaths. known_kill parsed local td)"
  by (induction deaths arbitrary: t) (auto simp: tally_death_fields saturating_succ_u8_def)

definition round_kills :: "'j parsed_output \<Rightarrow> steam_id \<Rightarrow> parsed_round \<Rightarrow> int \<Rightarrow> (int \<times> player_death_event) list" where
  "round_kills parsed local rnd start = kills_between parsed local start (pr_end_tick rnd)"

lemma gather_fields:
  assumes "gather_evidence parsed local rnd start = (e, partial)"
  shows "de_enemy_kills e = min (length (filter (enemy_kill parsed local) (round_kills parsed local rnd start))) u8_max"
    "de_knife_kill e \<longleftrightarrow> (\<exists>td\<in>set (round_kills parsed local rnd start). knife_kill parsed local td)"
    "de_clutch_opponents e = (case clutch_opponents parsed local start (pr_end_tick rnd) of Inr v \<Rightarrow> v | Inl _ \<Rightarrow> None)"
    "de_team_won e \<longleftrightarrow> de_clutch_opponents e \<noteq> None \<and> pr_winner rnd \<noteq> None
       \<and> roster_team_at parsed local (pr_end_tick rnd) = pr_winner rnd"
    "partial = None \<longleftrightarrow> (\<forall>td\<in>set (round_kills parsed local rnd start). known_kill parsed local td)
       \<and> (\<exists>v. clutch_opponents parsed local start (pr_end_tick rnd) = Inr v
           \<and> (v \<noteq> None \<longrightarrow> roster_team_at parsed local (pr_end_tick rnd) \<noteq> None \<and> pr_winner rnd \<noteq> None))"
proof -
  let ?t = "tally_deaths parsed local (round_kills parsed local rnd start) \<lparr>kt_kills = 0, kt_knife = False, kt_partial = None\<rparr>"
  note tally = tally_deaths_fields [where parsed = parsed and local = local
      and deaths = "round_kills parsed local rnd start" and t = "\<lparr>kt_kills = 0, kt_knife = False, kt_partial = None\<rparr>"]
  have kills: "de_enemy_kills e = kt_kills ?t" "de_knife_kill e = kt_knife ?t"
    using assms by (auto simp: gather_evidence_def round_kills_def Let_def split: prod.splits)
  then show "de_enemy_kills e = min (length (filter (enemy_kill parsed local) (round_kills parsed local rnd start))) u8_max"
    "de_knife_kill e \<longleftrightarrow> (\<exists>td\<in>set (round_kills parsed local rnd start). knife_kill parsed local td)"
    using tally by simp_all
  show "de_clutch_opponents e = (case clutch_opponents parsed local start (pr_end_tick rnd) of Inr v \<Rightarrow> v | Inl _ \<Rightarrow> None)"
    using assms by (auto simp: gather_evidence_def Let_def split: prod.splits sum.splits)
  show "de_team_won e \<longleftrightarrow> de_clutch_opponents e \<noteq> None \<and> pr_winner rnd \<noteq> None
       \<and> roster_team_at parsed local (pr_end_tick rnd) = pr_winner rnd"
    using assms by (auto simp: gather_evidence_def clutch_won_def Let_def split: prod.splits sum.splits option.splits if_splits)
  show "partial = None \<longleftrightarrow> (\<forall>td\<in>set (round_kills parsed local rnd start). known_kill parsed local td)
       \<and> (\<exists>v. clutch_opponents parsed local start (pr_end_tick rnd) = Inr v
           \<and> (v \<noteq> None \<longrightarrow> roster_team_at parsed local (pr_end_tick rnd) \<noteq> None \<and> pr_winner rnd \<noteq> None))"
    using assms tally(3)
    by (auto simp: gather_evidence_def clutch_won_def round_kills_def or_else_def Let_def
        split: prod.splits sum.splits option.splits if_splits)
qed

text \<open>What makes a round ordinary: nothing that a label asks for.\<close>

definition round_of_candidate :: "'j parsed_output \<Rightarrow> reconciliation_candidate \<Rightarrow> parsed_round option" where
  "round_of_candidate parsed c = Option.bind (rc_demo_round_number c) (\<lambda>number.
     case filter (\<lambda>r. pr_number r = number) (po_rounds parsed) of [rnd] \<Rightarrow> Some rnd | _ \<Rightarrow> None)"

lemma round_of_candidate_Some:
  "round_of_candidate parsed c = Some rnd \<Longrightarrow> rc_demo_round_number c = Some (pr_number rnd)
     \<and> filter (\<lambda>r. pr_number r = pr_number rnd) (po_rounds parsed) = [rnd]"
proof -
  assume "round_of_candidate parsed c = Some rnd"
  then obtain n where number: "rc_demo_round_number c = Some n"
    and one: "(case filter (\<lambda>r. pr_number r = n) (po_rounds parsed) of [r] \<Rightarrow> Some r | _ \<Rightarrow> None) = Some rnd"
    by (auto simp: round_of_candidate_def bind_eq_Some_conv)
  from one have "filter (\<lambda>r. pr_number r = n) (po_rounds parsed) = [rnd]"
    by (cases "filter (\<lambda>r. pr_number r = n) (po_rounds parsed)" rule: remdups_adj.cases) auto
  with number have n: "rc_demo_round_number c = Some n" "filter (\<lambda>r. pr_number r = n) (po_rounds parsed) = [rnd]" .
  from n(2) have "rnd \<in> set (filter (\<lambda>r. pr_number r = n) (po_rounds parsed))" by simp
  then have "pr_number rnd = n" by simp
  with n show ?thesis by simp
qed

lemma evaluate_round:
  "rc_origin c = ProvisionalAutoRound \<Longrightarrow> round_of_candidate parsed c = Some rnd \<Longrightarrow>
     evaluate parsed local c = (case gather_evidence parsed local rnd (previous_end parsed (pr_number rnd)) of
       (evidence, partial) \<Rightarrow> decide evidence partial)"
  by (drule round_of_candidate_Some) (simp add: evaluate_def)

lemma evaluate_no_round:
  "round_of_candidate parsed c = None \<Longrightarrow> evaluate parsed local c \<noteq> RejectOrdinary
     \<and> (\<forall>l e k. evaluate parsed local c \<noteq> Confirm l e k)"
  by (auto simp: evaluate_def round_of_candidate_def split: option.splits list.splits)

lemma candidate_cases:
  obtains (manual) "rc_origin c = ManualFlagOrigin" "evaluate parsed local c = ManualIndependent"
  | (unlinked) "rc_origin c = ProvisionalAutoRound" "round_of_candidate parsed c = None"
  | (linked) rnd e partial where "rc_origin c = ProvisionalAutoRound" "round_of_candidate parsed c = Some rnd"
      "gather_evidence parsed local rnd (previous_end parsed (pr_number rnd)) = (e, partial)"
      "evaluate parsed local c = decide e partial"
proof (cases "rc_origin c")
  case ManualFlagOrigin
  then show thesis by (intro manual) (simp_all add: evaluate_def)
next
  case ProvisionalAutoRound
  show thesis
  proof (cases "round_of_candidate parsed c")
    case (Some rnd)
    with evaluate_round [OF ProvisionalAutoRound Some, of local] ProvisionalAutoRound show thesis
      by (cases "gather_evidence parsed local rnd (previous_end parsed (pr_number rnd))") (auto intro: linked)
  qed (use ProvisionalAutoRound unlinked in blast)
qed

lemma no_labels: "final_labels e = {||} \<longleftrightarrow> de_enemy_kills e < 3 \<and> \<not> de_knife_kill e
    \<and> \<not> (de_team_won e \<and> (\<exists>n\<ge>2. de_clutch_opponents e = Some n))"
proof
  assume "final_labels e = {||}"
  then have "\<And>l. l |\<notin>| final_labels e" by simp
  from this [of Ace] this [of FourKill] this [of Multikill] this [of Clutch] this [of Knife]
  show "de_enemy_kills e < 3 \<and> \<not> de_knife_kill e \<and> \<not> (de_team_won e \<and> (\<exists>n\<ge>2. de_clutch_opponents e = Some n))"
    by auto
qed (auto simp: final_labels_def Let_def split: option.splits)

section \<open>Clutches\<close>

lemma count_living_spec:
  "count_living parsed tick team ps acc = Inr out \<Longrightarrow> fst acc \<le> u8_max \<Longrightarrow> snd acc \<le> u8_max \<Longrightarrow>
     fst out = min (fst acc + length (filter (\<lambda>p. alive_at parsed (pt_steam_id p) tick = Some True
         \<and> team_at parsed (pt_steam_id p) tick = Some team) ps)) u8_max
     \<and> snd out = min (snd acc + length (filter (\<lambda>p. alive_at parsed (pt_steam_id p) tick = Some True
         \<and> team_at parsed (pt_steam_id p) tick \<noteq> Some team
         \<and> team_at parsed (pt_steam_id p) tick \<in> {Some 2, Some 3}) ps)) u8_max"
proof (induction parsed tick team ps acc rule: count_living.induct)
  case (2 parsed tick team p ps mates enemies)
  from 2(2) obtain s t a where s: "snapshot_at parsed (pt_steam_id p) tick = Some s" "sn_team s = Some t" "sn_alive s = Some a"
    by (auto simp: and_then_eq_Inr)
  then have at: "alive_at parsed (pt_steam_id p) tick = Some a" "team_at parsed (pt_steam_id p) tick = Some t"
    by (simp_all add: alive_at_def team_at_def)
  let ?acc = "if a \<and> t = team then (saturating_succ_u8 mates, enemies)
        else if a \<and> (t = 2 \<or> t = 3) then (mates, saturating_succ_u8 enemies) else (mates, enemies)"
  have "count_living parsed tick team ps ?acc = Inr out" using 2(2) s by simp
  moreover have "fst ?acc \<le> u8_max" "snd ?acc \<le> u8_max" using 2(3,4) by (auto simp: saturating_succ_u8_def)
  ultimately have ih: "fst out = min (fst ?acc + length (filter (\<lambda>p. alive_at parsed (pt_steam_id p) tick = Some True
         \<and> team_at parsed (pt_steam_id p) tick = Some team) ps)) u8_max"
    "snd out = min (snd ?acc + length (filter (\<lambda>p. alive_at parsed (pt_steam_id p) tick = Some True
         \<and> team_at parsed (pt_steam_id p) tick \<noteq> Some team
         \<and> team_at parsed (pt_steam_id p) tick \<in> {Some 2, Some 3}) ps)) u8_max"
    using 2(1) s by simp_all
  show ?case by (simp only: ih) (auto simp: at saturating_succ_u8_def)
qed simp

definition clutch_at :: "'j parsed_output \<Rightarrow> steam_id \<Rightarrow> int \<Rightarrow> nat \<Rightarrow> bool" where
  "clutch_at parsed local tick n \<longleftrightarrow> alive_at parsed local tick = Some True
     \<and> (\<exists>team. team_at parsed local tick = Some team
       \<and> (let others = filter (\<lambda>p. pt_steam_id p \<noteq> local \<and> alive_at parsed (pt_steam_id p) tick = Some True)
             (po_participants parsed);
           foes = length (filter (\<lambda>p. team_at parsed (pt_steam_id p) tick \<noteq> Some team
             \<and> team_at parsed (pt_steam_id p) tick \<in> {Some 2, Some 3}) others) in
         (\<forall>p\<in>set others. team_at parsed (pt_steam_id p) tick \<noteq> Some team) \<and> 2 \<le> foes \<and> n = min foes u8_max))"

lemma clutch_scan_spec:
  "clutch_scan parsed local ticks = Inr (Some n) \<Longrightarrow> \<exists>tick\<in>set ticks. clutch_at parsed local tick n"
proof (induction ticks)
  case (Cons tick ticks)
  from Cons.prems obtain s team a where s: "snapshot_at parsed local tick = Some s" "sn_team s = Some team" "sn_alive s = Some a"
    by (auto simp: and_then_eq_Inr)
  show ?case
  proof (cases "clutch_scan parsed local ticks = Inr (Some n)")
    case False
    let ?ps = "filter (\<lambda>p. pt_steam_id p \<noteq> local) (po_participants parsed)"
    from False Cons.prems s obtain mates foes where
      "count_living parsed tick team ?ps (0, 0) = Inr (mates, foes)" "a" "mates = 0" "2 \<le> foes" "n = foes"
      by (auto simp: and_then_eq_Inr split: if_splits)
    with count_living_spec [of parsed tick team ?ps "(0, 0)" "(mates, foes)"] s
    have "clutch_at parsed local tick n"
      by (auto simp: clutch_at_def alive_at_def [of _ local] team_at_def [of _ local] Let_def min_def u8_max_def
          filter_empty_conv conj_ac split: if_splits)
    then show ?thesis by simp
  qed (use Cons.IH in auto)
qed simp

lemma clutch_opponents_spec:
  assumes "clutch_opponents parsed local start_tick end_tick = Inr (Some n)"
  shows "2 \<le> n \<and> (\<exists>tick. start_tick < tick \<and> tick \<le> end_tick \<and> clutch_at parsed local tick n)"
proof -
  let ?ticks = "sorted_list_of_set (set (map sn_tick (filter
           (\<lambda>s. start_tick < sn_tick s \<and> sn_tick s \<le> end_tick) (po_snapshots parsed))))"
  from assms have "clutch_scan parsed local ?ticks = Inr (Some n)"
    by (auto simp: clutch_opponents_def Let_def split: if_splits)
  from clutch_scan_spec [OF this] obtain tick where "tick \<in> set ?ticks" "clutch_at parsed local tick n" by blast
  moreover from this(2) have "2 \<le> n" by (auto simp: clutch_at_def Let_def u8_max_def)
  ultimately show ?thesis by auto
qed

section \<open>The decisions\<close>

lemma decision_cases:
  "decide e partial = RejectOrdinary \<longleftrightarrow> final_labels e = {||} \<and> partial = None"
  "decide e partial = Confirm l ev k \<longleftrightarrow> l = final_labels e \<and> ev = e \<and> l \<noteq> {||}
     \<and> k = (case partial of None \<Rightarrow> CompleteEvidence | Some r \<Rightarrow> PartialEvidence r)"
  "decide e partial \<noteq> ManualIndependent"
  by (auto simp: decide_def Let_def split: option.split)



section \<open>Order and persistence\<close>

interpretation candidate_order: keyed_order_on "\<lambda>_. True" "\<lambda>c. (rc_candidate_id c, rc_clip_id c)" candidate_before
  by unfold_locales (simp add: candidate_before_def)

text \<open>A persistence that logs what it stored and may refuse a decision.\<close>

definition log_decision :: "(reconciliation_decision \<Rightarrow> bool) \<Rightarrow> reconciliation_decision
    \<Rightarrow> (reconciliation_decision list, unit, unit) effect" where
  "log_decision refuses d stored = (if refuses d then (Inl (), stored) else (Inr (), stored @ [d]))"

lemma persist_decisions_log:
  "persist_decisions (log_decision refuses) ds done' stored =
     (let kept = takeWhile (\<lambda>d. \<not> refuses d) ds in
      (if kept = ds then Inr (done' @ ds) else Inl (), stored @ kept))"
  by (induction ds arbitrary: done' stored) (auto simp: log_decision_def bind_def ret_def Let_def)

text \<open>
  C17: The decisions do not depend on the order of the candidates as long as their identifiers differ; they are
  persisted in the order of the identifiers, each at most once, up to the first that is refused, and
  they are returned only if none is.
\<close>
theorem reconciliation_order_independent:
  assumes "mset cs = mset ds" "distinct (map (\<lambda>c. (rc_candidate_id c, rc_clip_id c)) cs)"
  shows "reconcile_demo_candidates parsed local cs persist = reconcile_demo_candidates parsed local ds persist
    \<and> (\<exists>decisions. set decisions = decision_of parsed local ` set cs
        \<and> sorted_wrt (\<lambda>a b. (rd_candidate_id a, rd_clip_id a) < (rd_candidate_id b, rd_clip_id b)) decisions
        \<and> reconcile_demo_candidates parsed local cs (log_decision refuses) stored =
            (if \<exists>d\<in>set decisions. refuses d then Inl () else Inr decisions,
             stored @ takeWhile (\<lambda>d. \<not> refuses d) decisions))"
proof -
  let ?key = "\<lambda>c. (rc_candidate_id c, rc_clip_id c)"
  let ?sorted = "sort_by candidate_before cs"
  let ?decisions = "map (decision_of parsed local) ?sorted"
  have sort: "sort_by candidate_before xs = sort_key ?key xs" for xs by (rule candidate_order.sort_by_key) simp
  have "inj_on ?key (set cs)" using assms(2) by (simp add: distinct_map)
  then have "sort_key ?key cs = sort_key ?key ds"
    using assms(1) by (intro sort_key_inj_key_eq) simp_all
  then have same: "reconcile_demo_candidates parsed local cs persist = reconcile_demo_candidates parsed local ds persist"
    by (simp add: reconcile_demo_candidates_def sort)
  have "sorted (map ?key (sort_key ?key cs))" by (rule sorted_sort_key)
  moreover have "distinct (map ?key (sort_key ?key cs))"
    using assms(2) by (simp add: distinct_map)
  ultimately have "sorted_wrt (<) (map ?key (sort_key ?key cs))" by (simp add: strict_sorted_iff)
  then have ordered: "sorted_wrt (\<lambda>a b. (rd_candidate_id a, rd_clip_id a) < (rd_candidate_id b, rd_clip_id b)) ?decisions"
    by (simp add: sorted_wrt_map decision_of_def sort del: less_prod_simp)
  have "reconcile_demo_candidates parsed local cs (log_decision refuses) stored =
      (if \<exists>d\<in>set ?decisions. refuses d then Inl () else Inr ?decisions, stored @ takeWhile (\<lambda>d. \<not> refuses d) ?decisions)"
    by (auto simp: reconcile_demo_candidates_def persist_decisions_log Let_def takeWhile_eq_all_conv)
  with same ordered show ?thesis by (intro conjI exI [of _ ?decisions]) simp_all
qed

definition sample_candidate_of :: "string \<Rightarrow> nat option \<Rightarrow> reconciliation_candidate" where
  "sample_candidate_of i number = \<lparr>rc_candidate_id = i, rc_clip_id = ''c'', rc_demo_round_number = number,
     rc_origin = ProvisionalAutoRound\<rparr>"

section \<open>A knife round\<close>

definition knife_player :: "nat \<Rightarrow> int \<Rightarrow> bool \<Rightarrow> player_snapshot" where
  "knife_player i team alive = \<lparr>sn_tick = 10, sn_ordinal = i, sn_phase = RequestedTick, sn_steam_id = i, sn_entity_id = None,
     sn_team = Some team, sn_health = None, sn_alive = Some alive, sn_life_state = None, sn_round_counter = None\<rparr>"

definition knife_demo :: "unit parsed_output" where
  "knife_demo = \<lparr>po_metadata = \<lparr>dm_map = None, dm_patch_build = None, dm_demo_stamp = None, dm_server = None,
       dm_game_directory = None, dm_tick_rate = None, dm_tick_rate_unavailable_reason = None\<rparr>,
     po_participants = map (\<lambda>(i, t). \<lparr>pt_steam_id = i, pt_name = None, pt_team = Some t\<rparr>) [(1, 2), (2, 2), (3, 3), (4, 3)],
     po_rounds = [\<lparr>pr_number = 1, pr_end_tick = 100, pr_winner = Some 2\<rparr>],
     po_events = [\<lparr>pe_tick = 20, pe_ordinal = 0, pe_event = PlayerDeath \<lparr>dt_attacker = Some 1, dt_victim = Some 3,
       dt_assister = None, dt_assisted_flash = False, dt_weapon = Some ''Knife_karambit''\<rparr>\<rparr>],
     po_receipts = [], po_snapshots = [knife_player 1 2 True, knife_player 2 2 False, knife_player 3 3 True, knife_player 4 3 True],
     po_suspicious_empty = False, po_identity = \<lparr>ii_source_sha256 = [], ii_parser_commit = [], ii_parser_build = [],
       ii_generated_proto_build = [], ii_requested_schema_hash = [], ii_metric_definition_version = [],
       ii_formula_version = [], ii_evidence_semantics_epoch = []\<rparr>\<rparr>"

lemma knife_evaluated: "evaluate knife_demo 1 (sample_candidate_of ''a'' (Some 1)) =
    Confirm {|Clutch, Knife|} \<lparr>de_enemy_kills = 1, de_clutch_opponents = Some 2, de_team_won = True, de_knife_kill = True\<rparr>
      CompleteEvidence"
  by code_simp


theorem reconciliation_order_independent_witness:
  "reconcile_demo_candidates knife_demo 1 [sample_candidate_of ''z'' None, sample_candidate_of ''a'' None] (log_decision (\<lambda>_. False))
    = reconcile_demo_candidates knife_demo 1 [sample_candidate_of ''a'' None, sample_candidate_of ''z'' None] (log_decision (\<lambda>_. False))"
proof -
  have "mset [sample_candidate_of ''z'' None, sample_candidate_of ''a'' None]
      = mset [sample_candidate_of ''a'' None, sample_candidate_of ''z'' None]"
    "distinct (map (\<lambda>c. (rc_candidate_id c, rc_clip_id c)) [sample_candidate_of ''z'' None, sample_candidate_of ''a'' None])"
    by (simp_all add: sample_candidate_of_def)
  from reconciliation_order_independent [OF this] show ?thesis by (rule conjunct1)
qed

text \<open>The same round played with a rifle and lost.\<close>

definition lost_demo :: "unit parsed_output" where
  "lost_demo = knife_demo\<lparr>po_rounds := [\<lparr>pr_number = 1, pr_end_tick = 100, pr_winner = Some 3\<rparr>],
     po_events := [\<lparr>pe_tick = 20, pe_ordinal = 0, pe_event = PlayerDeath \<lparr>dt_attacker = Some 1, dt_victim = Some 3,
       dt_assister = None, dt_assisted_flash = False, dt_weapon = Some ''ak47''\<rparr>\<rparr>]\<rparr>"


end
