(* ===== verification/Database.thy ===== *)
theory Database
  imports Effects
begin

text \<open>
  The SQLite ledger of \<open>crates/openfrag-storage/src/lib.rs\<close> with the files beside it: the rows of its
  tables as the migrations declare them, the statements over them and the identifiers, the clock and
  the failures of the outside.

  A statement is atomic: it changes the tables or, when a constraint, a trigger or the engine itself
  refuses it, leaves them as they were. Every identifier drawn, every reading of the clock, every
  statement and every file operation takes one step of the environment, so the environment may fail any of
  them and may answer differently each time. Only columns that the code writes are kept.
\<close>

section \<open>Errors\<close>

datatype sql_fault = ConstraintFailed | StatementFailed | NoRows

datatype storage_error = DatabaseError sql_fault | IoError | InvalidValue string | NotFound string
  | IllegalTransition string | ConflictError string | UnavailableValue string

section \<open>Rows\<close>

record artifact_row =
  ar_sha256 :: string
  ar_relative_path :: "string option"
  ar_byte_length :: int
  ar_media_type :: "string option"
  ar_availability :: string
  ar_missing_reason :: "string option"
  ar_duration_ms :: "int option"

record job_row =
  jr_id :: string
  jr_demo_sha256 :: string
  jr_status :: string
  jr_progress_bp :: int
  jr_lease_owner :: "string option"
  jr_lease_expires_at_ms :: "int option"
  jr_error_code :: "string option"
  jr_remediation_code :: "string option"
  jr_diagnostic_json :: "string option"
  jr_bytes_done :: "int option"
  jr_bytes_total :: "int option"
  jr_heartbeat_at_ms :: "int option"
  jr_next_retry_at_ms :: "int option"
  jr_retry_budget :: int
  jr_work_phase :: "string option"
  jr_frames_done :: "int option"
  jr_events_emitted :: "int option"
  jr_updated_at_ms :: int

record attempt_row =
  at_id :: string
  at_job :: string
  at_number :: nat
  at_started_at_ms :: int
  at_finished_at_ms :: "int option"
  at_status :: string
  at_error_code :: "string option"
  at_remediation_code :: "string option"
  at_diagnostic_json :: "string option"

record match_row =
  mt_id :: string
  mt_demo_sha256 :: string
  mt_local_steam_id :: string
  mt_map_name :: "string option"
  mt_canonical_run :: "string option"
  mt_status :: string

text \<open>The calculation identity of a run; its seven columns and the match are unique.\<close>

record analysis_identity =
  ai_parser_commit :: string
  ai_parser_build :: string
  ai_generated_proto_build :: string
  ai_requested_schema_hash :: string
  ai_metric_definition_version :: string
  ai_formula_id :: string
  ai_evidence_semantics_epoch :: string

record run_row =
  rn_id :: string
  rn_match :: string
  rn_identity :: analysis_identity
  rn_status :: string

record round_row =
  rd_id :: string
  rd_run :: string
  rd_number :: int
  rd_end_tick :: int
  rd_winner :: "string option"

record receipt_row =
  re_id :: string
  re_run :: string
  re_round :: "string option"
  re_metric_key :: string
  re_event_tick :: "int option"
  re_ordinal :: "int option"
  re_participants_json :: string
  re_payload_json :: string
  re_snapshots_json :: string
  re_parameters_json :: string

record player_row =
  pl_steam_id :: string
  pl_display_name :: "string option"
  pl_first_seen_at_ms :: int
  pl_last_seen_at_ms :: int

record round_metric_row =
  rm_run :: string
  rm_round :: string
  rm_steam_id :: string
  rm_metric_key :: string
  rm_numerator :: int
  rm_denominator :: int
  rm_receipt :: "string option"

record vector_row =
  vr_id :: string
  vr_run :: string
  vr_steam_id :: string
  vr_formula_id :: string
  vr_rating_bp :: int
  vr_receipt :: string

record component_row =
  cr_vector :: string
  cr_component_key :: string
  cr_component_numerator :: int
  cr_component_denominator :: int
  cr_value_bp :: int
  cr_weight_bp :: int
  cr_component_receipt :: string

record unavailable_row =
  ur_run :: string
  ur_steam_id :: string
  ur_formula_id :: string
  ur_reason_code :: string
  ur_receipt :: string

record save_row =
  sr_id :: string
  sr_request_id :: string
  sr_session :: string
  sr_requested_ns :: int
  sr_status :: string
  sr_acknowledgements :: nat
  sr_artifact :: "string option"
  sr_start_ns :: "int option"
  sr_end_ns :: "int option"
  sr_error_code :: "string option"

record clip_row =
  cp_id :: string
  cp_artifact :: string
  cp_session :: string
  cp_disposition :: string
  cp_title :: "string option"
  cp_note :: "string option"
  cp_favorite :: bool
  cp_provenance :: string
  cp_recorded_at_ms :: int
  cp_pre_roll_truncated :: bool
  cp_retention_class :: string
  cp_review_decision :: string
  cp_review_revision :: "int option"
  cp_reviewed_at_ms :: "int option"
  cp_origin_kind :: "string option"
  cp_flag_time_ms :: "int option"
  cp_deleted_at_ms :: "int option"

record export_row =
  er_id :: string
  er_clip :: string
  er_target_path :: string
  er_status :: string
  er_completed_at_ms :: "int option"
  er_error_code :: "string option"
  er_output_sha256 :: "string option"
  er_output_byte_length :: "int option"
  er_output_media_profile :: "string option"

text \<open>\<open>clip_tags\<close> and \<open>clip_origin_receipts\<close>; a derivation of a clip from its source.\<close>

record tag_row =
  tg_clip :: string
  tg_position :: nat
  tg_tag :: string

record origin_row =
  og_clip :: string
  og_kind :: string
  og_position :: nat
  og_receipt :: string

record derivation_row =
  dv_derived :: string
  dv_source :: string
  dv_operation :: string
  dv_start_ms :: "int option"
  dv_end_ms :: "int option"

record snapshot_row =
  gs_sha256 :: string
  gs_session :: string
  gs_arrival_ordinal :: int
  gs_received_at_ms :: int

section \<open>The store\<close>

text \<open>
  An entry below the data directory, by its path relative to it: a regular file with its bytes, a symbolic
  link (whether it leads anywhere) or a directory.
\<close>

type_synonym bytes = "nat list"

datatype node = Regular bytes | SymbolicLink bool | DirectoryNode

record store =
  st_step :: nat
  st_files :: "(string \<times> node) list"
  st_artifacts :: "artifact_row list"
  st_jobs :: "job_row list"
  st_attempts :: "attempt_row list"
  st_matches :: "match_row list"
  st_runs :: "run_row list"
  st_rounds :: "round_row list"
  st_players :: "player_row list"
  st_match_players :: "(string \<times> string \<times> string) list"
  st_receipts :: "receipt_row list"
  st_round_metrics :: "round_metric_row list"
  st_vectors :: "vector_row list"
  st_components :: "component_row list"
  st_unavailable :: "unavailable_row list"
  st_sessions :: "(string \<times> string) list"
  st_snapshots :: "snapshot_row list"
  st_saves :: "save_row list"
  st_clips :: "clip_row list"
  st_save_clips :: "(string \<times> string) list"
  st_tags :: "tag_row list"
  st_origins :: "origin_row list"
  st_derivations :: "derivation_row list"
  st_exports :: "export_row list"

text \<open>What the outside answers at each step: a fresh identifier, the time, and whether the step fails.\<close>

record environment =
  env_uuid :: "nat \<Rightarrow> string"
  env_now :: "nat \<Rightarrow> int"
  env_fault :: "nat \<Rightarrow> bool"

type_synonym 'a storage = "(store, storage_error, 'a) effect"

definition advance :: "store \<Rightarrow> store" where
  "advance s = s\<lparr>st_step := Suc (st_step s)\<rparr>"

definition new_id :: "environment \<Rightarrow> string storage" where
  "new_id env = (\<lambda>s. (Inr (env_uuid env (st_step s)), advance s))"

definition now_ms :: "environment \<Rightarrow> int storage" where
  "now_ms env = (\<lambda>s. (Inr (env_now env (st_step s)), advance s))"

text \<open>A file operation that the system may refuse.\<close>

definition io :: "environment \<Rightarrow> 'a storage \<Rightarrow> 'a storage" where
  "io env m = (\<lambda>s. if env_fault env (st_step s) then (Inl IoError, advance s) else m (advance s))"

section \<open>Statements\<close>

definition statement :: "environment \<Rightarrow> (store \<Rightarrow> (sql_fault, 'a \<times> store) result) \<Rightarrow> 'a storage" where
  "statement env q = (\<lambda>s. if env_fault env (st_step s) then (Inl (DatabaseError StatementFailed), advance s)
     else (case q (advance s) of Inl f \<Rightarrow> (Inl (DatabaseError f), advance s) | Inr (x, t) \<Rightarrow> (Inr x, t)))"

text \<open>\<open>SELECT\<close>; \<open>UPDATE\<close> with the number of changed rows; \<open>INSERT\<close>; \<open>INSERT OR IGNORE\<close>.\<close>

definition query :: "environment \<Rightarrow> (store \<Rightarrow> 'a) \<Rightarrow> 'a storage" where
  "query env f = statement env (\<lambda>s. Inr (f s, s))"

definition update_stmt :: "environment \<Rightarrow> (store \<Rightarrow> nat \<times> store) \<Rightarrow> nat storage" where
  "update_stmt env g = statement env (\<lambda>s. Inr (g s))"

definition insert_stmt :: "environment \<Rightarrow> (store \<Rightarrow> bool) \<Rightarrow> (store \<Rightarrow> store) \<Rightarrow> unit storage" where
  "insert_stmt env valid ins = statement env (\<lambda>s. if valid s then Inr ((), ins s) else Inl ConstraintFailed)"

definition insert_or_ignore :: "environment \<Rightarrow> (store \<Rightarrow> bool) \<Rightarrow> (store \<Rightarrow> bool) \<Rightarrow> (store \<Rightarrow> store) \<Rightarrow> nat storage" where
  "insert_or_ignore env taken valid ins = statement env (\<lambda>s. if taken s then Inr (0, s)
     else if valid s then Inr (1, ins s) else Inl ConstraintFailed)"

definition update_rows :: "('r \<Rightarrow> bool) \<Rightarrow> ('r \<Rightarrow> 'r) \<Rightarrow> 'r list \<Rightarrow> 'r list" where
  "update_rows p f rows = map (\<lambda>r. if p r then f r else r) rows"

definition count_rows :: "('r \<Rightarrow> bool) \<Rightarrow> 'r list \<Rightarrow> nat" where
  "count_rows p rows = length (filter p rows)"

text \<open>A transaction: an error rolls the tables back, but neither the files nor the steps taken.\<close>

definition rolled_back :: "store \<Rightarrow> store \<Rightarrow> store" where
  "rolled_back s t = s\<lparr>st_step := st_step t, st_files := st_files t\<rparr>"

definition transaction :: "environment \<Rightarrow> 'a storage \<Rightarrow> 'a storage" where
  "transaction env m = bind (query env (\<lambda>_. ())) (\<lambda>_. \<lambda>s.
     (case m s of
        (Inl e, t) \<Rightarrow> (Inl e, rolled_back s t)
      | (Inr x, t) \<Rightarrow> (case query env (\<lambda>_. ()) t of
          (Inl e, u) \<Rightarrow> (Inl e, rolled_back s u)
        | (Inr _, u) \<Rightarrow> (Inr x, u))))"

section \<open>Reasoning about statements\<close>

lemma advance_simps [simp]: "st_step (advance s) = Suc (st_step s)" "st_files (advance s) = st_files s"
  "st_artifacts (advance s) = st_artifacts s" "st_jobs (advance s) = st_jobs s"
  "st_attempts (advance s) = st_attempts s" "st_matches (advance s) = st_matches s"
  "st_runs (advance s) = st_runs s" "st_rounds (advance s) = st_rounds s"
  "st_players (advance s) = st_players s" "st_match_players (advance s) = st_match_players s"
  "st_receipts (advance s) = st_receipts s" "st_round_metrics (advance s) = st_round_metrics s"
  "st_vectors (advance s) = st_vectors s" "st_components (advance s) = st_components s"
  "st_unavailable (advance s) = st_unavailable s" "st_sessions (advance s) = st_sessions s"
  "st_snapshots (advance s) = st_snapshots s" "st_saves (advance s) = st_saves s"
  "st_clips (advance s) = st_clips s" "st_save_clips (advance s) = st_save_clips s"
  "st_tags (advance s) = st_tags s" "st_origins (advance s) = st_origins s"
  "st_derivations (advance s) = st_derivations s" "st_exports (advance s) = st_exports s"
  by (simp_all add: advance_def)

lemma statement_Inr:
  "statement env q s = (Inr x, t) \<longleftrightarrow> \<not> env_fault env (st_step s) \<and> q (advance s) = Inr (x, t)"
  by (auto simp: statement_def split: sum.splits)

lemma statement_Inl:
  "statement env q s = (Inl e, t) \<longleftrightarrow> t = advance s \<and>
     (env_fault env (st_step s) \<and> e = DatabaseError StatementFailed
      \<or> \<not> env_fault env (st_step s) \<and> (\<exists>f. q (advance s) = Inl f \<and> e = DatabaseError f))"
  by (auto simp: statement_def split: sum.splits)

lemma query_eq:
  "query env f s = (if env_fault env (st_step s) then (Inl (DatabaseError StatementFailed), advance s)
     else (Inr (f (advance s)), advance s))"
  by (simp add: query_def statement_def)

lemma update_stmt_eq:
  "update_stmt env g s = (if env_fault env (st_step s) then (Inl (DatabaseError StatementFailed), advance s)
     else (Inr (fst (g (advance s))), snd (g (advance s))))"
  by (cases "g (advance s)") (simp add: update_stmt_def statement_def)

lemma insert_stmt_eq:
  "insert_stmt env v ins s = (if env_fault env (st_step s) then (Inl (DatabaseError StatementFailed), advance s)
     else if v (advance s) then (Inr (), ins (advance s)) else (Inl (DatabaseError ConstraintFailed), advance s))"
  by (simp add: insert_stmt_def statement_def)

lemma insert_or_ignore_eq:
  "insert_or_ignore env k v ins s = (if env_fault env (st_step s) then (Inl (DatabaseError StatementFailed), advance s)
     else if k (advance s) then (Inr 0, advance s)
     else if v (advance s) then (Inr 1, ins (advance s)) else (Inl (DatabaseError ConstraintFailed), advance s))"
  by (simp add: insert_or_ignore_def statement_def)

lemma new_id_eq: "new_id env s = (Inr (env_uuid env (st_step s)), advance s)"
  and now_ms_eq: "now_ms env s = (Inr (env_now env (st_step s)), advance s)"
  by (simp_all add: new_id_def now_ms_def)

lemma io_eq:
  "io env m s = (if env_fault env (st_step s) then (Inl IoError, advance s) else m (advance s))"
  by (simp add: io_def)

lemmas statement_eqs = query_eq update_stmt_eq insert_stmt_eq insert_or_ignore_eq new_id_eq now_ms_eq io_eq

lemma count_update_rows: "count_rows p rows = 0 \<Longrightarrow> update_rows p f rows = rows"
  by (induction rows) (auto simp: count_rows_def update_rows_def split: if_splits)

lemma set_update_rows:
  "r \<in> set (update_rows p f rows) \<longleftrightarrow> r \<in> set rows \<and> \<not> p r \<or> (\<exists>q \<in> set rows. p q \<and> r = f q)"
  by (auto simp: update_rows_def)

lemma map_update_rows: "(\<And>r. p r \<Longrightarrow> g (f r) = g r) \<Longrightarrow> map g (update_rows p f rows) = map g rows"
  by (auto simp: update_rows_def)

section \<open>Evolving rows\<close>

text \<open>The rows of a table after some statements: the old ones, each perhaps changed, then new ones.\<close>

definition extends :: "('r \<Rightarrow> 'r \<Rightarrow> bool) \<Rightarrow> 'r list \<Rightarrow> 'r list \<Rightarrow> bool" where
  "extends R xs ys \<longleftrightarrow> (\<exists>us vs. ys = us @ vs \<and> list_all2 R xs us)"

lemma find_list_all2:
  assumes "list_all2 R xs ys" "\<And>a b. R a b \<Longrightarrow> key b = key a" "List.find (\<lambda>r. key r = k) xs = Some a"
  shows "\<exists>b. List.find (\<lambda>r. key r = k) ys = Some b \<and> R a b"
  using assms(1,3) by (induction rule: list_all2_induct) (auto dest: assms(2) split: if_splits)

locale row_order =
  fixes R :: "'r \<Rightarrow> 'r \<Rightarrow> bool"
  assumes row_refl: "R a a"
    and row_trans: "R a b \<Longrightarrow> R b c \<Longrightarrow> R a c"
begin

lemma extends_append: "extends R xs (xs @ ys)"
  unfolding extends_def by (rule exI [of _ xs]) (simp add: list_all2_refl row_refl)

lemma extends_refl: "extends R xs xs"
  using extends_append [of xs "[]"] by simp

lemma extends_trans:
  assumes "extends R xs ys" "extends R ys zs"
  shows "extends R xs zs"
proof -
  from assms(1) obtain us vs where ys: "ys = us @ vs" and u: "list_all2 R xs us" by (auto simp: extends_def)
  from assms(2) obtain ts ws where zs: "zs = ts @ ws" and t: "list_all2 R ys ts" by (auto simp: extends_def)
  from t obtain a b where split: "ts = a @ b" "list_all2 R us a" unfolding ys by (auto simp: list_all2_append1)
  have "list_all2 R xs a" by (rule list_all2_trans [OF row_trans u split(2)])
  then show ?thesis unfolding extends_def zs split(1) by auto
qed

lemma extends_update:
  assumes "\<And>a. p a \<Longrightarrow> R a (f a)"
  shows "extends R xs (update_rows p f xs @ ys)"
  unfolding extends_def update_rows_def
  by (rule exI [of _ "map (\<lambda>r. if p r then f r else r) xs"])
    (auto simp: list_all2_map2 assms row_refl intro: list_all2_refl)

lemma extends_update_rows: "(\<And>a. p a \<Longrightarrow> R a (f a)) \<Longrightarrow> extends R xs (update_rows p f xs)"
  using extends_update [of p f xs "[]"] by simp

end

lemma extends_find:
  assumes "extends R xs ys" "\<And>a b. R a b \<Longrightarrow> key b = key a" "List.find (\<lambda>r. key r = k) xs = Some a"
  shows "\<exists>b. List.find (\<lambda>r. key r = k) ys = Some b \<and> R a b"
proof -
  from assms(1) obtain us vs where "ys = us @ vs" "list_all2 R xs us" by (auto simp: extends_def)
  with find_list_all2 [OF this(2) assms(2,3)] find_append_Some show ?thesis by metis
qed

lemma extends_member: "extends R xs ys \<Longrightarrow> x \<in> set xs \<Longrightarrow> \<exists>y\<in>set ys. R x y"
proof -
  assume "extends R xs ys" "x \<in> set xs"
  then obtain us vs where ys: "ys = us @ vs" "list_all2 R xs us" by (auto simp: extends_def)
  from this(2) \<open>x \<in> set xs\<close> have "\<exists>y\<in>set us. R x y" by (induction rule: list_all2_induct) auto
  with ys(1) show ?thesis by auto
qed

section \<open>Transactions\<close>

lemma transaction_Inl:
  assumes "transaction env m s = (Inl e, t)"
  shows "\<exists>u. t = rolled_back s u"
proof -
  have begun: "advance s = rolled_back s (advance s)" by (simp add: rolled_back_def advance_def)
  have rolled: "rolled_back (advance s) u = rolled_back s u" for u by (simp add: rolled_back_def advance_def)
  show ?thesis using assms begun
    by (auto simp: transaction_def bind_def query_eq rolled split: if_splits sum.splits prod.splits)
qed

text \<open>
  A relation that the operations of the ledger respect: reflexive, transitive, blind to the step of the
  environment, and kept by a roll-back.
\<close>

locale ledger_order = effect_order R for R :: "store \<Rightarrow> store \<Rightarrow> bool" +
  assumes order_advance: "R s (advance s)"
    and order_rollback: "R s t \<Longrightarrow> R s (rolled_back s t)"
begin

lemma obeys_statement:
  assumes "\<And>s x t. q s = Inr (x, t) \<Longrightarrow> R s t"
  shows "obeys R (statement env q)"
  by (auto simp: obeys_def statement_def order_advance split: sum.split)
    (metis assms order_advance order_trans)

lemma obeys_query: "obeys R (query env f)"
  by (auto simp: query_def order_refl intro: obeys_statement)

lemma obeys_environment: "obeys R (new_id env)" "obeys R (now_ms env)"
  by (simp_all add: obeys_def new_id_def now_ms_def order_advance)

lemma obeys_bind_now: "(\<And>n. obeys R (f (env_now env n))) \<Longrightarrow> obeys R (bind (now_ms env) f)"
  by (auto simp: obeys_def bind_def now_ms_def) (metis order_advance order_trans)

lemma obeys_update_stmt: "(\<And>s. R s (snd (g s))) \<Longrightarrow> obeys R (update_stmt env g)"
  by (auto simp: update_stmt_def intro!: obeys_statement) (metis snd_conv)

lemma obeys_insert_stmt: "(\<And>s. v s \<Longrightarrow> R s (ins s)) \<Longrightarrow> obeys R (insert_stmt env v ins)"
  by (auto simp: insert_stmt_def intro!: obeys_statement split: if_splits)

lemma obeys_insert_or_ignore:
  "(\<And>s. \<not> k s \<Longrightarrow> v s \<Longrightarrow> R s (ins s)) \<Longrightarrow> obeys R (insert_or_ignore env k v ins)"
  by (auto simp: insert_or_ignore_def order_refl intro!: obeys_statement split: if_splits)

lemma obeys_io: "obeys R m \<Longrightarrow> obeys R (io env m)"
  by (auto simp: obeys_def io_def order_advance) (metis order_advance order_trans)

lemma obeys_transaction:
  assumes "obeys R m"
  shows "obeys R (transaction env m)"
proof -
  have "R s (snd (case m s of (Inl e, t) \<Rightarrow> (Inl e :: (storage_error, 'a) result, rolled_back s t)
      | (Inr x, t) \<Rightarrow> (case query env (\<lambda>_. ()) t of (Inl e, u) \<Rightarrow> (Inl e, rolled_back s u) | (Inr y, u) \<Rightarrow> (Inr x, u))))" for s
  proof -
    obtain r t where m: "m s = (r, t)" by fastforce
    obtain q u where u: "query env (\<lambda>_. ()) t = (q, u)" by fastforce
    have "R s t" using assms m by (metis obeysD snd_conv)
    moreover have "R t u" using obeys_query u by (metis obeysD snd_conv)
    ultimately show ?thesis
      using order_rollback order_trans by (auto simp: m u split: sum.split)
  qed
  then show ?thesis
    unfolding transaction_def by (intro obeys_bind obeys_query) (simp add: obeys_def)
qed

lemmas ledger_intros = obeys_query obeys_environment obeys_update_stmt obeys_insert_stmt obeys_insert_or_ignore
  obeys_io obeys_transaction obeys_pure obeys_bind obeys_wrappers obeys_for_each

end

text \<open>An invariant of the tables is such a relation.\<close>

lemma keeps_ledger:
  assumes "\<And>s. P s \<Longrightarrow> P (advance s)" and "\<And>s t. P s \<Longrightarrow> P t \<Longrightarrow> P (rolled_back s t)"
  shows "ledger_order (keeps P)"
  by (intro ledger_order.intro keeps_order ledger_order_axioms.intro) (use assms in \<open>auto simp: keeps_def\<close>)

end
