(* ===== verification/Import_Queue.thy ===== *)
theory Import_Queue
  imports Database
begin

text \<open>
  The durable queue of demo imports, \<open>enqueue_import\<close> to \<open>recover_expired_imports\<close> of
  \<open>crates/openfrag-storage/src/lib.rs\<close>, with the triggers of the migrations that keep the attempts of
  each job: an attempt is started by a lease and ended by a finish, a new lease or a recovery.
\<close>

section \<open>Phases\<close>

datatype import_phase = Queued | Leased | Succeeded | FailedPhase | CancelledPhase

fun phase_as_str :: "import_phase \<Rightarrow> string" where
  "phase_as_str Queued = ''queued''"
| "phase_as_str Leased = ''leased''"
| "phase_as_str Succeeded = ''succeeded''"
| "phase_as_str FailedPhase = ''failed''"
| "phase_as_str CancelledPhase = ''cancelled''"

definition phase_parse :: "string \<Rightarrow> (storage_error, import_phase) result" where
  "phase_parse v = (if v = ''queued'' then Inr Queued else if v = ''leased'' then Inr Leased
     else if v = ''succeeded'' then Inr Succeeded else if v = ''failed'' then Inr FailedPhase
     else if v = ''cancelled'' then Inr CancelledPhase else Inl (InvalidValue ''import phase''))"

section \<open>Attempts\<close>

text \<open>\<open>printf('%04d', n)\<close> of SQLite.\<close>

definition printf_04d :: "nat \<Rightarrow> string" where
  "printf_04d n = replicate (4 - length (show_nat n)) CHR ''0'' @ show_nat n"

definition attempt_id :: "string \<Rightarrow> nat \<Rightarrow> string" where
  "attempt_id job n = job @ '':'' @ printf_04d n"

definition running_of :: "string \<Rightarrow> attempt_row \<Rightarrow> bool" where
  "running_of job a \<longleftrightarrow> at_job a = job \<and> at_status a = ''running''"

definition next_attempt :: "string \<Rightarrow> attempt_row list \<Rightarrow> nat" where
  "next_attempt job attempts = fold max (map at_number (filter (\<lambda>a. at_job a = job) attempts)) 0 + 1"

definition expire_attempt :: "int \<Rightarrow> attempt_row \<Rightarrow> attempt_row" where
  "expire_attempt now a = a\<lparr>at_finished_at_ms := Some now, at_status := ''failed'',
     at_error_code := Some ''lease_expired'', at_remediation_code := Some ''automatic_retry''\<rparr>"

text \<open>\<open>import_attempt_started\<close>; \<open>None\<close> when a key or the index of running attempts refuses the new row.\<close>

definition attempt_started :: "job_row \<Rightarrow> attempt_row list \<Rightarrow> attempt_row list option" where
  "attempt_started new attempts =
     (let job = jr_id new; now = jr_updated_at_ms new;
          closed = update_rows (running_of job) (expire_attempt now) attempts;
          n = next_attempt job closed in
      if attempt_id job n \<in> set (map at_id closed) \<or> (job, n) \<in> set (map (\<lambda>a. (at_job a, at_number a)) closed)
         \<or> list_ex (running_of job) closed
      then None
      else Some (closed @ [\<lparr>at_id = attempt_id job n, at_job = job, at_number = n, at_started_at_ms = now,
        at_finished_at_ms = None, at_status = ''running'', at_error_code = None, at_remediation_code = None,
        at_diagnostic_json = None\<rparr>]))"

definition end_attempt :: "job_row \<Rightarrow> attempt_row \<Rightarrow> attempt_row" where
  "end_attempt new a = a\<lparr>at_finished_at_ms := Some (jr_updated_at_ms new),
     at_status := (if jr_status new = ''succeeded'' then ''succeeded'' else ''failed''),
     at_error_code := jr_error_code new, at_remediation_code := jr_remediation_code new,
     at_diagnostic_json := jr_diagnostic_json new\<rparr>"

text \<open>The three triggers after an update of the status of a row.\<close>

definition status_triggers :: "job_row \<Rightarrow> job_row \<Rightarrow> attempt_row list \<Rightarrow> attempt_row list option" where
  "status_triggers old new attempts =
     (let job = jr_id new in
      if jr_status new = ''leased'' \<and> jr_lease_owner new \<noteq> None then attempt_started new attempts
      else if jr_status new \<in> {''succeeded'', ''failed'', ''cancelled''} then
        Some (update_rows (running_of job) (end_attempt new) attempts)
      else if jr_status old = ''leased'' \<and> jr_status new = ''queued'' then
        Some (update_rows (running_of job) (expire_attempt (jr_updated_at_ms new)) attempts)
      else Some attempts)"

text \<open>An update of the status of the chosen rows, row by row; \<open>None\<close> when a trigger fails.\<close>

fun update_status :: "(job_row \<Rightarrow> bool) \<Rightarrow> (job_row \<Rightarrow> job_row) \<Rightarrow> job_row list \<Rightarrow> attempt_row list
    \<Rightarrow> (job_row list \<times> attempt_row list) option" where
  "update_status p f [] attempts = Some ([], attempts)"
| "update_status p f (j # js) attempts =
     (if p j then
        Option.bind (status_triggers j (f j) attempts) (\<lambda>attempts.
        map_option (\<lambda>(js, attempts). (f j # js, attempts)) (update_status p f js attempts))
      else map_option (\<lambda>(js, attempts). (j # js, attempts)) (update_status p f js attempts))"

definition status_stmt :: "environment \<Rightarrow> (job_row \<Rightarrow> bool) \<Rightarrow> (job_row \<Rightarrow> job_row) \<Rightarrow> nat storage" where
  "status_stmt env p f = statement env (\<lambda>s. case update_status p f (st_jobs s) (st_attempts s) of
     None \<Rightarrow> Inl ConstraintFailed
   | Some (jobs, attempts) \<Rightarrow> Inr (count_rows p (st_jobs s), s\<lparr>st_jobs := jobs, st_attempts := attempts\<rparr>))"

definition job_stmt :: "environment \<Rightarrow> (job_row \<Rightarrow> bool) \<Rightarrow> (job_row \<Rightarrow> job_row) \<Rightarrow> nat storage" where
  "job_stmt env p f = update_stmt env (\<lambda>s. (count_rows p (st_jobs s), s\<lparr>st_jobs := update_rows p f (st_jobs s)\<rparr>))"

definition require_changed :: "storage_error \<Rightarrow> nat \<Rightarrow> unit storage" where
  "require_changed e n = (if n = 0 then throw e else ret ())"

section \<open>Operations\<close>

definition queued_job :: "string \<Rightarrow> string \<Rightarrow> int \<Rightarrow> job_row" where
  "queued_job job demo now = \<lparr>jr_id = job, jr_demo_sha256 = demo, jr_status = ''queued'', jr_progress_bp = 0,
     jr_lease_owner = None, jr_lease_expires_at_ms = None, jr_error_code = None, jr_remediation_code = None,
     jr_diagnostic_json = None, jr_bytes_done = None, jr_bytes_total = None, jr_heartbeat_at_ms = None,
     jr_next_retry_at_ms = None, jr_retry_budget = 3, jr_work_phase = None, jr_frames_done = None,
     jr_events_emitted = None, jr_updated_at_ms = now\<rparr>"

text \<open>\<open>INSERT OR IGNORE\<close>: only the identifier is unique, so a second job for the same demo is accepted.\<close>

definition enqueue_import :: "environment \<Rightarrow> string \<Rightarrow> string storage" where
  "enqueue_import env demo =
     bind (new_id env) (\<lambda>job. bind (now_ms env) (\<lambda>_. bind (now_ms env) (\<lambda>now.
     bind (insert_or_ignore env (\<lambda>s. job \<in> set (map jr_id (st_jobs s)))
         (\<lambda>s. demo \<in> set (map ar_sha256 (st_artifacts s)))
         (\<lambda>s. s\<lparr>st_jobs := st_jobs s @ [queued_job job demo now]\<rparr>)) (\<lambda>changed.
     bind (require_changed (ConflictError ''import job'') changed) (\<lambda>_. ret job)))))"

text \<open>A comparison with a missing value is not true in SQL.\<close>

definition expired_before :: "int \<Rightarrow> job_row \<Rightarrow> bool" where
  "expired_before now j = (case jr_lease_expires_at_ms j of Some t \<Rightarrow> t < now | None \<Rightarrow> False)"

definition leasable :: "string \<Rightarrow> int \<Rightarrow> job_row \<Rightarrow> bool" where
  "leasable job now j \<longleftrightarrow> jr_id j = job \<and>
     (jr_status j = ''queued'' \<or> jr_status j = ''leased'' \<and> expired_before now j)"

definition lease_import :: "environment \<Rightarrow> string \<Rightarrow> string \<Rightarrow> int \<Rightarrow> unit storage" where
  "lease_import env job owner expires_at_ms =
     bind (now_ms env) (\<lambda>updated. bind (now_ms env) (\<lambda>now.
     bind (status_stmt env (leasable job now)
       (\<lambda>j. j\<lparr>jr_status := ''leased'', jr_lease_owner := Some owner,
              jr_lease_expires_at_ms := Some expires_at_ms, jr_updated_at_ms := updated\<rparr>))
     (require_changed (IllegalTransition ''import lease''))))"

definition held_by :: "string \<Rightarrow> string \<Rightarrow> job_row \<Rightarrow> bool" where
  "held_by job owner j \<longleftrightarrow> jr_id j = job \<and> jr_status j = ''leased'' \<and> jr_lease_owner j = Some owner"

definition update_import_progress :: "environment \<Rightarrow> string \<Rightarrow> string \<Rightarrow> int option \<Rightarrow> int option \<Rightarrow> int \<Rightarrow> int
    \<Rightarrow> unit storage" where
  "update_import_progress env job owner bytes_done bytes_total progress heartbeat =
     (if \<not> (0 \<le> progress \<and> progress \<le> 10000) then throw (InvalidValue ''progress'') else
      bind (now_ms env) (\<lambda>updated.
      bind (job_stmt env (held_by job owner)
        (\<lambda>j. j\<lparr>jr_bytes_done := or_else bytes_done (jr_bytes_done j),
               jr_bytes_total := or_else bytes_total (jr_bytes_total j), jr_progress_bp := progress,
               jr_heartbeat_at_ms := Some heartbeat, jr_updated_at_ms := updated\<rparr>))
      (require_changed (IllegalTransition ''import progress lease''))))"

record parser_progress_update =
  pu_phase :: string
  pu_bytes_done :: int
  pu_bytes_total :: int
  pu_frames_done :: int
  pu_events_emitted :: int
  pu_progress_bp :: int
  pu_heartbeat_at_ms :: int

definition update_parser_progress :: "environment \<Rightarrow> string \<Rightarrow> string \<Rightarrow> parser_progress_update \<Rightarrow> unit storage" where
  "update_parser_progress env job owner u =
     (if pu_phase u \<notin> {''first_pass'', ''second_pass'', ''finalize''} then
        throw (InvalidValue ''parser progress phase'')
      else if pu_bytes_done u < 0 \<or> pu_bytes_total u < 0 \<or> pu_frames_done u < 0 \<or> pu_events_emitted u < 0
          \<or> \<not> (0 \<le> pu_progress_bp u \<and> pu_progress_bp u \<le> 10000) then
        throw (InvalidValue ''parser progress'')
      else bind (now_ms env) (\<lambda>updated.
        bind (job_stmt env (held_by job owner)
          (\<lambda>j. j\<lparr>jr_work_phase := Some (pu_phase u), jr_bytes_done := Some (pu_bytes_done u),
                 jr_bytes_total := Some (pu_bytes_total u), jr_frames_done := Some (pu_frames_done u),
                 jr_events_emitted := Some (pu_events_emitted u), jr_progress_bp := pu_progress_bp u,
                 jr_heartbeat_at_ms := Some (pu_heartbeat_at_ms u), jr_updated_at_ms := updated\<rparr>))
        (require_changed (IllegalTransition ''parser progress lease''))))"

definition finish_import_with_diagnostic :: "environment \<Rightarrow> string \<Rightarrow> string \<Rightarrow> import_phase \<Rightarrow> string option
    \<Rightarrow> string option \<Rightarrow> int option \<Rightarrow> string option \<Rightarrow> unit storage" where
  "finish_import_with_diagnostic env job owner phase error remediation retry_at diagnostic_json =
     (if phase \<notin> {Succeeded, FailedPhase, CancelledPhase} then throw (InvalidValue ''terminal phase'') else
      bind (now_ms env) (\<lambda>updated.
      bind (status_stmt env (held_by job owner)
        (\<lambda>j. j\<lparr>jr_status := phase_as_str phase, jr_error_code := error, jr_remediation_code := remediation,
               jr_next_retry_at_ms := retry_at, jr_diagnostic_json := diagnostic_json,
               jr_lease_owner := None, jr_lease_expires_at_ms := None, jr_updated_at_ms := updated\<rparr>))
      (require_changed (IllegalTransition ''finish import''))))"

definition finish_import :: "environment \<Rightarrow> string \<Rightarrow> string \<Rightarrow> import_phase \<Rightarrow> string option
    \<Rightarrow> string option \<Rightarrow> int option \<Rightarrow> unit storage" where
  "finish_import env job owner phase error remediation retry_at =
     finish_import_with_diagnostic env job owner phase error remediation retry_at None"

definition reset_import_retry :: "environment \<Rightarrow> string \<Rightarrow> unit storage" where
  "reset_import_retry env job =
     bind (now_ms env) (\<lambda>updated.
     bind (status_stmt env (\<lambda>j. jr_id j = job \<and> jr_status j \<in> {''failed'', ''cancelled''})
       (\<lambda>j. j\<lparr>jr_status := ''queued'', jr_retry_budget := 3, jr_error_code := None,
              jr_remediation_code := None, jr_next_retry_at_ms := None, jr_diagnostic_json := None,
              jr_lease_owner := None, jr_lease_expires_at_ms := None, jr_updated_at_ms := updated\<rparr>))
     (require_changed (IllegalTransition ''manual retry'')))"

definition recover_expired_imports :: "environment \<Rightarrow> int \<Rightarrow> nat storage" where
  "recover_expired_imports env now =
     status_stmt env (\<lambda>j. jr_status j = ''leased'' \<and> expired_before now j)
       (\<lambda>j. j\<lparr>jr_status := ''queued'', jr_lease_owner := None, jr_lease_expires_at_ms := None,
              jr_updated_at_ms := now\<rparr>)"

text \<open>The read side: a job with its parsed phase, and its attempts in order.\<close>

record import_job_record =
  ij_id :: string
  ij_phase :: import_phase
  ij_progress_bp :: int
  ij_lease_owner :: "string option"
  ij_lease_expires_at_ms :: "int option"
  ij_error_code :: "string option"
  ij_remediation_code :: "string option"
  ij_diagnostic_json :: "string option"
  ij_bytes_done :: "int option"
  ij_bytes_total :: "int option"
  ij_work_phase :: "string option"
  ij_frames_done :: "int option"
  ij_events_emitted :: "int option"

definition import_job :: "environment \<Rightarrow> string \<Rightarrow> import_job_record storage" where
  "import_job env job =
     bind (query env (\<lambda>s. List.find (\<lambda>j. jr_id j = job) (st_jobs s))) (\<lambda>row.
     bind (lift_option (NotFound ''import job'') row) (\<lambda>j.
     (case phase_parse (jr_status j) of
        Inl e \<Rightarrow> throw e
      | Inr phase \<Rightarrow> ret \<lparr>ij_id = job, ij_phase = phase, ij_progress_bp = jr_progress_bp j,
          ij_lease_owner = jr_lease_owner j, ij_lease_expires_at_ms = jr_lease_expires_at_ms j,
          ij_error_code = jr_error_code j, ij_remediation_code = jr_remediation_code j,
          ij_diagnostic_json = jr_diagnostic_json j, ij_bytes_done = jr_bytes_done j,
          ij_bytes_total = jr_bytes_total j, ij_work_phase = jr_work_phase j,
          ij_frames_done = jr_frames_done j, ij_events_emitted = jr_events_emitted j\<rparr>)))"

definition attempt_before :: "attempt_row \<Rightarrow> attempt_row \<Rightarrow> bool" where
  "attempt_before a b \<longleftrightarrow> at_number a \<le> at_number b"

definition import_attempts :: "environment \<Rightarrow> string \<Rightarrow> attempt_row list storage" where
  "import_attempts env job =
     query env (\<lambda>s. sort_by attempt_before (filter (\<lambda>a. at_job a = job) (st_attempts s)))"

end
