(* ===== verification/Import_Queue_Correct.thy ===== *)
theory Import_Queue_Correct
  imports Import_Queue
begin

text \<open>
  The queue of imports: its jobs and their attempts stay consistent under any sequence of operations of any
  workers, the history of attempts is only extended, and a lease has one owner.
\<close>

section \<open>Well-formed queues\<close>

definition job_ok :: "job_row \<Rightarrow> bool" where
  "job_ok j \<longleftrightarrow> jr_status j \<in> {''queued'', ''leased'', ''succeeded'', ''failed'', ''cancelled''}
     \<and> (jr_lease_owner j \<noteq> None \<longleftrightarrow> jr_status j = ''leased'')
     \<and> (jr_lease_expires_at_ms j \<noteq> None \<longleftrightarrow> jr_status j = ''leased'')
     \<and> 0 \<le> jr_progress_bp j \<and> jr_progress_bp j \<le> 10000 \<and> jr_retry_budget j = 3"

definition runs_of :: "string \<Rightarrow> attempt_row list \<Rightarrow> attempt_row list" where
  "runs_of job attempts = filter (\<lambda>a. at_job a = job) attempts"

definition attempt_ok :: "attempt_row \<Rightarrow> bool" where
  "attempt_ok a \<longleftrightarrow> at_id a = attempt_id (at_job a) (at_number a)
     \<and> at_status a \<in> {''running'', ''succeeded'', ''failed''} \<and> (at_finished_at_ms a = None \<longleftrightarrow> at_status a = ''running'')"

text \<open>The attempts of a job are numbered from one; the last one is running exactly while the job is leased.\<close>

definition attempts_ok :: "job_row \<Rightarrow> attempt_row list \<Rightarrow> bool" where
  "attempts_ok j rs \<longleftrightarrow> map at_number rs = [1..<Suc (length rs)]
     \<and> (\<forall>a\<in>set (butlast rs). at_status a \<noteq> ''running'')
     \<and> (jr_status j = ''leased'' \<longleftrightarrow> rs \<noteq> [] \<and> at_status (last rs) = ''running'')"

definition queue_rows_ok :: "job_row list \<Rightarrow> attempt_row list \<Rightarrow> bool" where
  "queue_rows_ok jobs attempts \<longleftrightarrow> distinct (map jr_id jobs)
     \<and> (\<forall>j\<in>set jobs. job_ok j \<and> attempts_ok j (runs_of (jr_id j) attempts))
     \<and> (\<forall>a\<in>set attempts. at_job a \<in> jr_id ` set jobs \<and> attempt_ok a)"

definition queue_ok :: "store \<Rightarrow> bool" where
  "queue_ok s \<longleftrightarrow> queue_rows_ok (st_jobs s) (st_attempts s)"

text \<open>History: an ended attempt never changes, a running one keeps its identity until it ends.\<close>

definition attempt_evolves :: "attempt_row \<Rightarrow> attempt_row \<Rightarrow> bool" where
  "attempt_evolves a b \<longleftrightarrow> a = b \<or> at_status a = ''running'' \<and> at_status b \<noteq> ''running''
     \<and> at_id b = at_id a \<and> at_job b = at_job a \<and> at_number b = at_number a \<and> at_started_at_ms b = at_started_at_ms a"

definition history_extends :: "attempt_row list \<Rightarrow> attempt_row list \<Rightarrow> bool" where
  "history_extends xs ys \<longleftrightarrow> extends attempt_evolves xs ys"

lemma attempt_evolves_refl [simp]: "attempt_evolves a a"
  by (simp add: attempt_evolves_def)

interpretation attempts: row_order attempt_evolves
  by unfold_locales (auto simp: attempt_evolves_def)

lemma history_extends_refl [simp]: "history_extends xs xs"
  unfolding history_extends_def by (rule attempts.extends_refl)

lemma history_extends_trans: "history_extends xs ys \<Longrightarrow> history_extends ys zs \<Longrightarrow> history_extends xs zs"
  unfolding history_extends_def by (rule attempts.extends_trans)

lemma history_extends_update:
  "(\<And>a. p a \<Longrightarrow> attempt_evolves a (f a)) \<Longrightarrow> history_extends xs (update_rows p f xs @ ys)"
  unfolding history_extends_def by (rule attempts.extends_update)

section \<open>Attempt numbers\<close>

lemma fold_max_upto: "fold max [1..<Suc k] (0::nat) = k"
  by (induction k) simp_all

lemma next_attempt_runs:
  assumes "map at_number (runs_of job attempts) = [1..<Suc k]"
  shows "next_attempt job attempts = Suc k"
  using assms fold_max_upto [of k] by (simp only: next_attempt_def runs_of_def add_Suc_right Nat.add_0_right One_nat_def)

lemma decimal_value_zeros: "decimal_value (replicate n CHR ''0'' @ cs) = decimal_value cs"
  by (induction n) (simp_all add: decimal_value_def digit_value_def)

lemma split_at_last:
  assumes "xs @ c # ys = us @ c # vs" "c \<notin> set ys" "c \<notin> set vs"
  shows "xs = us \<and> ys = vs"
proof -
  have tail: "takeWhile (\<lambda>d. d \<noteq> c) (rev (zs @ c # ws)) = rev ws" if "c \<notin> set ws" for zs ws
    using that by (simp, subst takeWhile_append2) auto
  have "rev ys = rev vs" using tail [OF assms(2), of xs] tail [OF assms(3), of us] assms(1) by simp
  with assms(1) show ?thesis by simp
qed

lemma attempt_id_inject: "attempt_id j m = attempt_id k n \<longleftrightarrow> j = k \<and> m = n"
proof
  have plain: "CHR '':'' \<notin> set (printf_04d i)" for i
    using show_nat_digits [of "CHR '':''" i] by (auto simp: printf_04d_def is_ascii_digit_def)
  assume "attempt_id j m = attempt_id k n"
  then have "j = k" and "printf_04d m = printf_04d n"
    using split_at_last [of j "CHR '':''" "printf_04d m" k "printf_04d n"] plain by (auto simp: attempt_id_def)
  moreover have "decimal_value (printf_04d i) = i" for i by (simp add: printf_04d_def decimal_value_zeros)
  ultimately show "j = k \<and> m = n" by metis
qed simp

section \<open>One row\<close>

text \<open>The changes of a job that the statements make.\<close>

definition job_step :: "job_row \<Rightarrow> job_row \<Rightarrow> bool" where
  "job_step j k \<longleftrightarrow> jr_id k = jr_id j \<and> job_ok k \<and>
     (jr_status k = ''leased'' \<and> jr_status j \<in> {''queued'', ''leased''}
      \<or> jr_status j = ''leased'' \<and> jr_status k \<in> {''succeeded'', ''failed'', ''cancelled'', ''queued''}
      \<or> jr_status j \<in> {''failed'', ''cancelled''} \<and> jr_status k = ''queued'')"

lemma runs_of_append [simp]: "runs_of job (xs @ ys) = runs_of job xs @ runs_of job ys"
  by (simp add: runs_of_def)

lemma runs_of_update:
  assumes "\<And>a. at_job (f a) = at_job a"
  shows "runs_of job (update_rows (running_of job') f xs) =
    (if job = job' then update_rows (\<lambda>a. at_status a = ''running'') f (runs_of job xs) else runs_of job xs)"
  by (induction xs) (auto simp: runs_of_def update_rows_def running_of_def assms)

lemma length_update_rows [simp]: "length (update_rows p f rows) = length rows"
  by (simp add: update_rows_def)

lemma update_running:
  assumes "attempts_ok j rs" "\<And>a. at_status (f a) \<noteq> ''running''" "\<And>a. at_number (f a) = at_number a"
  shows "map at_number (update_rows (\<lambda>a. at_status a = ''running'') f rs) = [1..<Suc (length rs)]"
    and "\<forall>a\<in>set (update_rows (\<lambda>a. at_status a = ''running'') f rs). at_status a \<noteq> ''running''"
  using assms(1) map_update_rows [of _ at_number f rs, OF assms(3)] assms(2)
  by (auto simp: attempts_ok_def set_update_rows simp del: upt_Suc)

lemma attempts_ok_ended:
  assumes "map at_number rs = [1..<Suc (length rs)]" "\<forall>a\<in>set rs. at_status a \<noteq> ''running''" "jr_status j \<noteq> ''leased''"
  shows "attempts_ok j rs"
  using assms by (auto simp: attempts_ok_def dest: in_set_butlastD simp del: upt_Suc)

lemma attempts_ok_started:
  assumes "map at_number rs = [1..<Suc (length rs)]" "\<forall>a\<in>set rs. at_status a \<noteq> ''running''"
    "jr_status j = ''leased''" "at_number a = Suc (length rs)" "at_status a = ''running''"
  shows "attempts_ok j (rs @ [a])"
  using assms by (simp add: attempts_ok_def)

lemma attempts_ok_idle:
  "attempts_ok j rs \<Longrightarrow> jr_status j \<noteq> ''leased'' \<Longrightarrow> jr_status k \<noteq> ''leased'' \<Longrightarrow> attempts_ok k rs"
  by (simp add: attempts_ok_def)

lemma replace_row:
  assumes ok: "queue_rows_ok (pre @ j # js) attempts" and k: "jr_id k = jr_id j" "job_ok k"
    and runs: "attempts_ok k (runs_of (jr_id j) attempts')" "\<And>i. i \<noteq> jr_id j \<Longrightarrow> runs_of i attempts' = runs_of i attempts"
    and rows: "\<And>a. a \<in> set attempts' \<Longrightarrow> at_job a \<in> jr_id ` set (pre @ j # js) \<and> attempt_ok a"
  shows "queue_rows_ok (pre @ k # js) attempts'"
proof -
  have others: "jr_id i \<noteq> jr_id j" if "i \<in> set pre \<union> set js" for i
    using ok that by (auto simp: queue_rows_ok_def) (metis imageI)+
  have "\<forall>i\<in>set (pre @ k # js). job_ok i \<and> attempts_ok i (runs_of (jr_id i) attempts')"
    using ok k runs others by (auto simp: queue_rows_ok_def)
  with ok k(1) rows show ?thesis by (auto simp: queue_rows_ok_def)
qed

text \<open>Ending the running attempt of a job that is no longer leased, or starting the next one.\<close>

locale ending =
  fixes f :: "attempt_row \<Rightarrow> attempt_row"
  assumes keeps_identity: "at_id (f a) = at_id a" "at_job (f a) = at_job a" "at_number (f a) = at_number a"
      "at_started_at_ms (f a) = at_started_at_ms a"
    and ends: "at_status (f a) \<in> {''succeeded'', ''failed''}" "at_finished_at_ms (f a) \<noteq> None"
begin

lemma not_running: "at_status (f a) \<noteq> ''running''"
  using ends(1) [of a] by auto

lemma ended_rows:
  assumes "queue_rows_ok (pre @ j # js) attempts" "a \<in> set (update_rows (running_of (jr_id j)) f attempts)"
  shows "at_job a \<in> jr_id ` set (pre @ j # js) \<and> attempt_ok a"
proof -
  from assms(2) obtain b where b: "b \<in> set attempts" "a = b \<or> a = f b" by (auto simp: set_update_rows)
  with assms(1) have "at_job b \<in> jr_id ` set (pre @ j # js)" "attempt_ok b" by (auto simp: queue_rows_ok_def)
  moreover from this(2) have "attempt_ok (f b)"
    using ends [of b] not_running [of b] by (simp add: attempt_ok_def keeps_identity)
  ultimately show ?thesis using b(2) keeps_identity(2) by metis
qed

lemma ended_history: "history_extends attempts (update_rows (running_of job) f attempts @ ys)"
  by (rule history_extends_update) (simp add: attempt_evolves_def running_of_def keeps_identity not_running)

lemma ended_runs:
  assumes "queue_rows_ok (pre @ j # js) attempts"
  defines "rs \<equiv> runs_of (jr_id j) (update_rows (running_of (jr_id j)) f attempts)"
  shows "map at_number rs = [1..<Suc (length rs)]" "\<forall>a\<in>set rs. at_status a \<noteq> ''running''"
    and "\<And>i. i \<noteq> jr_id j \<Longrightarrow> runs_of i (update_rows (running_of (jr_id j)) f attempts) = runs_of i attempts"
proof -
  have "attempts_ok j (runs_of (jr_id j) attempts)" using assms(1) by (simp add: queue_rows_ok_def)
  note u = update_running [OF this, of f, OF not_running keeps_identity(3)]
  show "map at_number rs = [1..<Suc (length rs)]" "\<forall>a\<in>set rs. at_status a \<noteq> ''running''"
    using u unfolding rs_def runs_of_update [of f, OF keeps_identity(2)] by simp_all
qed (simp add: runs_of_update [of f, OF keeps_identity(2)])

lemma end_row:
  assumes "queue_rows_ok (pre @ j # js) attempts" "jr_id k = jr_id j" "job_ok k" "jr_status k \<noteq> ''leased''"
  shows "queue_rows_ok (pre @ k # js) (update_rows (running_of (jr_id j)) f attempts)"
  using replace_row [OF assms(1-3) attempts_ok_ended [OF ended_runs(1,2) [OF assms(1)] assms(4)]
      ended_runs(3) [OF assms(1)] ended_rows [OF assms(1)]] .

end

interpretation expiry: ending "expire_attempt now" for now
  by unfold_locales (simp_all add: expire_attempt_def)

interpretation finishing: ending "end_attempt k" for k
  by unfold_locales (simp_all add: end_attempt_def)

lemma start_row:
  assumes ok: "queue_rows_ok (pre @ j # js) attempts" and k: "jr_id k = jr_id j" "job_ok k" "jr_status k = ''leased''"
  shows "\<exists>attempts'. attempt_started k attempts = Some attempts' \<and> queue_rows_ok (pre @ k # js) attempts'
    \<and> history_extends attempts attempts'"
proof -
  define closed where "closed = update_rows (running_of (jr_id j)) (expire_attempt (jr_updated_at_ms k)) attempts"
  define n where "n = next_attempt (jr_id j) closed"
  define a where "a = \<lparr>at_id = attempt_id (jr_id j) n, at_job = jr_id j, at_number = n,
      at_started_at_ms = jr_updated_at_ms k, at_finished_at_ms = None, at_status = ''running'',
      at_error_code = None, at_remediation_code = None, at_diagnostic_json = None\<rparr>"
  note runs = expiry.ended_runs [where now = "jr_updated_at_ms k", OF ok, folded closed_def]
  note rows = expiry.ended_rows [where now = "jr_updated_at_ms k", OF ok, folded closed_def]
  have n: "n = Suc (length (runs_of (jr_id j) closed))"
    unfolding n_def by (rule next_attempt_runs [OF runs(1)])
  have fresh: "at_number b \<noteq> n" if "b \<in> set closed" "at_job b = jr_id j" for b
  proof -
    from that have "at_number b \<in> set (map at_number (runs_of (jr_id j) closed))" by (simp add: runs_of_def)
    then show ?thesis unfolding runs(1) n by auto
  qed
  have "attempt_id (jr_id j) n \<notin> set (map at_id closed)"
  proof
    assume "attempt_id (jr_id j) n \<in> set (map at_id closed)"
    then obtain b where b: "b \<in> set closed" "at_id b = attempt_id (jr_id j) n" by auto
    with rows [OF b(1)] have "attempt_id (at_job b) (at_number b) = attempt_id (jr_id j) n" by (simp add: attempt_ok_def)
    with fresh [OF b(1)] show False by (simp add: attempt_id_inject)
  qed
  moreover have "(jr_id j, n) \<notin> set (map (\<lambda>a. (at_job a, at_number a)) closed)" using fresh by fastforce
  moreover have "\<not> list_ex (running_of (jr_id j)) closed"
    using runs(2) by (auto simp: list_ex_iff running_of_def runs_of_def)
  ultimately have started: "attempt_started k attempts = Some (closed @ [a])"
    by (simp add: attempt_started_def k(1) Let_def closed_def [symmetric] n_def [symmetric] a_def)
  have "attempts_ok k (runs_of (jr_id j) (closed @ [a]))"
    using attempts_ok_started [OF runs(1,2) k(3), of a] n by (simp add: a_def runs_of_def)
  moreover have "runs_of i (closed @ [a]) = runs_of i attempts" if "i \<noteq> jr_id j" for i
    using runs(3) [OF that] that by (simp add: a_def runs_of_def)
  moreover have "at_job b \<in> jr_id ` set (pre @ j # js) \<and> attempt_ok b" if "b \<in> set (closed @ [a])" for b
    using that rows by (auto simp: a_def attempt_ok_def)
  ultimately have "queue_rows_ok (pre @ k # js) (closed @ [a])" by (rule replace_row [OF ok k(1,2)])
  with started show ?thesis unfolding closed_def using expiry.ended_history by blast
qed

lemma row_step:
  assumes ok: "queue_rows_ok (pre @ j # js) attempts" and step: "job_step j k"
  shows "\<exists>attempts'. status_triggers j k attempts = Some attempts' \<and> queue_rows_ok (pre @ k # js) attempts'
    \<and> history_extends attempts attempts'"
proof -
  have k: "jr_id k = jr_id j" "job_ok k" using step by (simp_all add: job_step_def)
  have j: "job_ok j" "attempts_ok j (runs_of (jr_id j) attempts)" using ok by (simp_all add: queue_rows_ok_def)
  note history = expiry.ended_history [where ys = "[]", simplified] finishing.ended_history [where ys = "[]", simplified]
  consider (leased) "jr_status k = ''leased''" "jr_lease_owner k \<noteq> None"
    | (terminal) "jr_status k \<in> {''succeeded'', ''failed'', ''cancelled''}"
    | (recovered) "jr_status j = ''leased''" "jr_status k = ''queued''"
    | (idle) "jr_status j \<in> {''failed'', ''cancelled''}" "jr_status k = ''queued''"
    using step by (auto simp: job_step_def job_ok_def)
  then show ?thesis
  proof cases
    case leased
    with start_row [OF ok k leased(1)] show ?thesis by (simp add: status_triggers_def)
  next
    case terminal
    then show ?thesis
      using finishing.end_row [OF ok k, of k] history by (auto simp: status_triggers_def Let_def k(1))
  next
    case recovered
    then show ?thesis
      using expiry.end_row [OF ok k] history by (auto simp: status_triggers_def Let_def k(1))
  next
    case idle
    then have "attempts_ok k (runs_of (jr_id j) attempts)" using j(2) by (auto simp: attempts_ok_def)
    from replace_row [OF ok k this] ok idle show ?thesis
      by (auto simp: status_triggers_def Let_def queue_rows_ok_def)
  qed
qed

lemma update_status_ok:
  assumes "queue_rows_ok (pre @ js) attempts" "\<And>j. j \<in> set js \<Longrightarrow> p j \<Longrightarrow> job_step j (f j)"
  shows "\<exists>attempts'. update_status p f js attempts = Some (update_rows p f js, attempts')
    \<and> queue_rows_ok (pre @ update_rows p f js) attempts' \<and> history_extends attempts attempts'"
  using assms
proof (induction js arbitrary: pre attempts)
  case Nil
  then show ?case by (simp add: update_rows_def)
next
  case (Cons j js)
  show ?case
  proof (cases "p j")
    case True
    with Cons.prems obtain a1 where a1: "status_triggers j (f j) attempts = Some a1"
      "queue_rows_ok (pre @ f j # js) a1" "history_extends attempts a1"
      using row_step [of pre j js attempts "f j"] by auto
    from a1(2) have "queue_rows_ok ((pre @ [f j]) @ js) a1" by simp
    from Cons.IH [OF this] Cons.prems(2) obtain a2 where "update_status p f js a1 = Some (update_rows p f js, a2)"
      "queue_rows_ok ((pre @ [f j]) @ update_rows p f js) a2" "history_extends a1 a2" by auto
    with True a1 show ?thesis by (auto simp: update_rows_def intro: history_extends_trans)
  next
    case False
    have "queue_rows_ok ((pre @ [j]) @ js) attempts" using Cons.prems(1) by simp
    from Cons.IH [OF this] Cons.prems(2) obtain a2 where "update_status p f js attempts = Some (update_rows p f js, a2)"
      "queue_rows_ok ((pre @ [j]) @ update_rows p f js) a2" "history_extends attempts a2" by auto
    with False show ?thesis by (auto simp: update_rows_def)
  qed
qed

section \<open>The operations\<close>

text \<open>The queue stays well-formed and its history is extended; nothing else of the store changes.\<close>

definition queue_evolves :: "store \<Rightarrow> store \<Rightarrow> bool" where
  "queue_evolves s t \<longleftrightarrow> (queue_ok s \<longrightarrow> queue_ok t \<and> history_extends (st_attempts s) (st_attempts t))"

interpretation queue: ledger_order queue_evolves
  by unfold_locales (auto simp: queue_evolves_def queue_ok_def rolled_back_def intro: history_extends_trans)

lemma status_stmt_result:
  assumes "queue_ok s" "\<And>j. j \<in> set (st_jobs s) \<Longrightarrow> p j \<Longrightarrow> job_step j (f j)"
  shows "\<exists>attempts. status_stmt env p f s =
      (if env_fault env (st_step s) then (Inl (DatabaseError StatementFailed), advance s)
       else (Inr (count_rows p (st_jobs s)),
         (advance s)\<lparr>st_jobs := update_rows p f (st_jobs s), st_attempts := attempts\<rparr>))
    \<and> queue_rows_ok (update_rows p f (st_jobs s)) attempts \<and> history_extends (st_attempts s) attempts"
  using update_status_ok [of "[]" "st_jobs s" "st_attempts s" p f] assms
  by (auto simp: status_stmt_def statement_def queue_ok_def)

lemma obeys_status_stmt:
  assumes "\<And>j. job_ok j \<Longrightarrow> p j \<Longrightarrow> job_step j (f j)"
  shows "obeys queue_evolves (status_stmt env p f)"
proof -
  have "queue_evolves s (snd (status_stmt env p f s))" for s
  proof (cases "queue_ok s")
    case True
    then have "\<And>j. j \<in> set (st_jobs s) \<Longrightarrow> p j \<Longrightarrow> job_step j (f j)"
      using assms by (auto simp: queue_ok_def queue_rows_ok_def)
    from status_stmt_result [of s p f env, OF True this] obtain attempts where
      "status_stmt env p f s = (if env_fault env (st_step s) then (Inl (DatabaseError StatementFailed), advance s)
       else (Inr (count_rows p (st_jobs s)),
         (advance s)\<lparr>st_jobs := update_rows p f (st_jobs s), st_attempts := attempts\<rparr>))"
      "queue_rows_ok (update_rows p f (st_jobs s)) attempts" "history_extends (st_attempts s) attempts" by blast
    with True show ?thesis by (simp add: queue_evolves_def queue_ok_def)
  qed (simp add: queue_evolves_def)
  then show ?thesis by (simp add: obeys_def)
qed

lemma obeys_job_stmt:
  assumes "\<And>j. jr_id (f j) = jr_id j" "\<And>j. jr_status (f j) = jr_status j" "\<And>j. job_ok j \<Longrightarrow> p j \<Longrightarrow> job_ok (f j)"
  shows "obeys queue_evolves (job_stmt env p f)"
proof -
  have "queue_rows_ok (update_rows p f jobs) attempts" if "queue_rows_ok jobs attempts" for jobs attempts
  proof -
    have ids: "map jr_id (update_rows p f jobs) = map jr_id jobs" by (rule map_update_rows) (rule assms(1))
    then have "jr_id ` set (update_rows p f jobs) = jr_id ` set jobs" by (metis set_map)
    moreover have "job_ok k \<and> attempts_ok k (runs_of (jr_id k) attempts)"
      if "k \<in> set (update_rows p f jobs)" for k
    proof -
      from that obtain j where "j \<in> set jobs" "k = j \<or> p j \<and> k = f j" by (auto simp: set_update_rows)
      with \<open>queue_rows_ok jobs attempts\<close> assms show ?thesis by (auto simp: queue_rows_ok_def attempts_ok_def)
    qed
    ultimately show ?thesis using ids that by (auto simp: queue_rows_ok_def)
  qed
  then show ?thesis unfolding job_stmt_def
    by (intro queue.obeys_update_stmt) (simp add: queue_evolves_def queue_ok_def)
qed

lemma obeys_require_changed: "obeys queue_evolves (require_changed e n)"
  by (simp add: require_changed_def queue.obeys_pure)

lemmas queue_intros = queue.ledger_intros obeys_require_changed

lemma obeys_enqueue_import: "obeys queue_evolves (enqueue_import env demo)"
proof -
  have "queue_rows_ok (jobs @ [queued_job job demo now]) attempts"
    if "queue_rows_ok jobs attempts" "job \<notin> jr_id ` set jobs" for jobs attempts job now
  proof -
    have "runs_of job attempts = []" using that by (auto simp: queue_rows_ok_def runs_of_def filter_empty_conv)
    with that show ?thesis
      by (auto simp: queue_rows_ok_def queued_job_def job_ok_def attempts_ok_def)
  qed
  then show ?thesis unfolding enqueue_import_def
    by (intro queue_intros) (auto simp: queue_evolves_def queue_ok_def)
qed

lemma obeys_queue:
  "obeys queue_evolves (lease_import env job owner expires)"
  "obeys queue_evolves (update_import_progress env job owner bytes_done bytes_total progress heartbeat)"
  "obeys queue_evolves (update_parser_progress env job owner u)"
  "obeys queue_evolves (finish_import_with_diagnostic env job owner phase error remediation retry_at diagnostic)"
  "obeys queue_evolves (finish_import env job owner phase error remediation retry_at)"
  "obeys queue_evolves (reset_import_retry env job)"
  "obeys queue_evolves (recover_expired_imports env now)"
proof -
  show "obeys queue_evolves (lease_import env job owner expires)" unfolding lease_import_def
    by (intro queue_intros obeys_status_stmt) (auto simp: leasable_def job_step_def job_ok_def)
  show "obeys queue_evolves (update_import_progress env job owner bytes_done bytes_total progress heartbeat)"
    unfolding update_import_progress_def
    by (auto intro!: queue_intros obeys_job_stmt simp: job_ok_def)
  show "obeys queue_evolves (update_parser_progress env job owner u)"
    unfolding update_parser_progress_def
    by (auto intro!: queue_intros obeys_job_stmt simp: job_ok_def)
  show fin: "obeys queue_evolves (finish_import_with_diagnostic env job owner phase error remediation retry_at diagnostic)"
    for diagnostic unfolding finish_import_with_diagnostic_def
    by (auto intro!: queue_intros obeys_status_stmt simp: held_by_def job_step_def job_ok_def)
  show "obeys queue_evolves (finish_import env job owner phase error remediation retry_at)"
    unfolding finish_import_def by (rule fin)
  show "obeys queue_evolves (reset_import_retry env job)" unfolding reset_import_retry_def
    by (intro queue_intros obeys_status_stmt) (auto simp: job_step_def job_ok_def)
  show "obeys queue_evolves (recover_expired_imports env now)" unfolding recover_expired_imports_def
    by (intro obeys_status_stmt) (auto simp: job_step_def job_ok_def)
qed

section \<open>Sequences of operations\<close>

text \<open>A call of the queue, by whichever worker; what it answers does not matter here.\<close>

datatype queue_call = EnqueueCall string | LeaseCall string string int
  | ProgressCall string string "int option" "int option" int int
  | ParserCall string string parser_progress_update
  | FinishCall string string import_phase "string option" "string option" "int option" "string option"
  | RetryCall string | RecoverCall int

fun perform_call :: "environment \<Rightarrow> queue_call \<Rightarrow> store \<Rightarrow> store" where
  "perform_call env (EnqueueCall demo) s = snd (enqueue_import env demo s)"
| "perform_call env (LeaseCall job owner expires) s = snd (lease_import env job owner expires s)"
| "perform_call env (ProgressCall job owner d t bp h) s = snd (update_import_progress env job owner d t bp h s)"
| "perform_call env (ParserCall job owner u) s = snd (update_parser_progress env job owner u s)"
| "perform_call env (FinishCall job owner phase e r retry_at d) s =
     snd (finish_import_with_diagnostic env job owner phase e r retry_at d s)"
| "perform_call env (RetryCall job) s = snd (reset_import_retry env job s)"
| "perform_call env (RecoverCall now) s = snd (recover_expired_imports env now s)"

definition queue_calls :: "environment \<Rightarrow> queue_call list \<Rightarrow> store \<Rightarrow> store" where
  "queue_calls env calls s = fold (perform_call env) calls s"

lemma queue_call_evolves: "queue_evolves s (perform_call env c s)"
  by (cases c) (simp_all add: obeysD [OF obeys_queue(1)] obeysD [OF obeys_queue(2)] obeysD [OF obeys_queue(3)]
    obeysD [OF obeys_queue(4)] obeysD [OF obeys_queue(6)] obeysD [OF obeys_queue(7)] obeysD [OF obeys_enqueue_import])

lemma queue_calls_evolve: "queue_evolves s (queue_calls env calls s)"
  unfolding queue_calls_def
  by (induction calls arbitrary: s) (auto intro: queue.order_refl queue.order_trans queue_call_evolves)

text \<open>
  C20: Whatever the workers do and whichever statements fail, the queue stays well formed: job identifiers are
  unique, a job has an owner and an expiry exactly while it is leased, its progress stays within its range,
  its attempts are numbered from one and the last is running exactly while the job is leased; and the
  history is append-only: an ended attempt never changes, a running one only ends.
\<close>
theorem queue_wellformed:
  assumes "queue_ok s"
  shows "queue_ok (queue_calls env calls s)
    \<and> history_extends (st_attempts s) (st_attempts (queue_calls env calls s))"
  using queue_calls_evolve assms by (auto simp: queue_evolves_def)

text \<open>The row of a job.\<close>

definition job_at :: "string \<Rightarrow> store \<Rightarrow> job_row option" where
  "job_at job s = List.find (\<lambda>j. jr_id j = job) (st_jobs s)"

text \<open>A call that neither speaks for the owner of the lease nor declares the lease expired.\<close>

fun foreign_call :: "string \<Rightarrow> string \<Rightarrow> int \<Rightarrow> queue_call \<Rightarrow> bool" where
  "foreign_call job owner expiry (ProgressCall i w d t bp h) \<longleftrightarrow> (i, w) \<noteq> (job, owner)"
| "foreign_call job owner expiry (ParserCall i w u) \<longleftrightarrow> (i, w) \<noteq> (job, owner)"
| "foreign_call job owner expiry (FinishCall i w phase e r retry_at d) \<longleftrightarrow> (i, w) \<noteq> (job, owner)"
| "foreign_call job owner expiry (RecoverCall now) \<longleftrightarrow> now \<le> expiry"
| "foreign_call job owner expiry c \<longleftrightarrow> True"

lemma find_update_rows:
  assumes "List.find (\<lambda>r. key r = k) rows = Some r" "\<not> p r" "\<And>q. p q \<Longrightarrow> key (f q) = key q"
  shows "List.find (\<lambda>r. key r = k) (update_rows p f rows) = Some r"
  using assms by (induction rows) (auto simp: update_rows_def split: if_splits)

lemma update_status_rows: "update_status p f js a = Some (js', a') \<Longrightarrow> js' = update_rows p f js"
  by (induction js arbitrary: a js' a') (auto simp: update_rows_def bind_eq_Some_conv split: if_splits)

definition job_kept :: "string \<Rightarrow> job_row \<Rightarrow> store \<Rightarrow> store \<Rightarrow> bool" where
  "job_kept job j s t \<longleftrightarrow> (job_at job s = Some j \<longrightarrow> job_at job t = Some j)"

interpretation kept_job: ledger_order "job_kept job j" for job j
  by unfold_locales (auto simp: job_kept_def job_at_def rolled_back_def)

lemma kept_status_stmt:
  assumes "\<not> p j" "\<And>k. p k \<Longrightarrow> jr_id (f k) = jr_id k"
  shows "obeys (job_kept job j) (status_stmt env p f)"
  unfolding status_stmt_def
  by (rule kept_job.obeys_statement)
    (auto simp: job_kept_def job_at_def dest!: update_status_rows intro!: find_update_rows assms split: option.splits)

lemma kept_job_stmt:
  assumes "\<not> p j" "\<And>k. p k \<Longrightarrow> jr_id (f k) = jr_id k"
  shows "obeys (job_kept job j) (job_stmt env p f)"
  unfolding job_stmt_def
  by (rule kept_job.obeys_update_stmt) (auto simp: job_kept_def job_at_def intro!: find_update_rows assms)

lemma kept_require_changed: "obeys (job_kept job j) (require_changed e n)"
  by (simp add: require_changed_def kept_job.obeys_pure)

lemma kept_queue_call:
  assumes held: "held_by job owner j" "jr_lease_expires_at_ms j = Some expiry" and clock: "\<And>n. env_now env n \<le> expiry"
    and foreign: "foreign_call job owner expiry c"
  shows "job_kept job j s (perform_call env c s)"
proof -
  have kept: "\<not> leasable i (env_now env n) j" for i n
    using held clock [of n] by (auto simp: leasable_def held_by_def expired_before_def)
  note intros = kept_job.obeys_bind_now kept_job.ledger_intros kept_require_changed kept_status_stmt kept_job_stmt
  have enqueue: "obeys (job_kept job j) (enqueue_import env demo)" for demo
    unfolding enqueue_import_def by (intro intros) (auto simp: job_kept_def job_at_def intro: find_append_Some)
  have lease: "obeys (job_kept job j) (lease_import env i w e)" for i w e
    unfolding lease_import_def by (intro intros kept) (simp add: leasable_def)
  have progress: "obeys (job_kept job j) (update_import_progress env i w d t bp h)" if "(i, w) \<noteq> (job, owner)" for i w d t bp h
    unfolding update_import_progress_def using that held
    by (auto simp: held_by_def intro!: intros)
  have parser: "obeys (job_kept job j) (update_parser_progress env i w u)" if "(i, w) \<noteq> (job, owner)" for i w u
    unfolding update_parser_progress_def using that held
    by (auto simp: held_by_def intro!: intros)
  have finish: "obeys (job_kept job j) (finish_import_with_diagnostic env i w phase e r retry_at d)"
    if "(i, w) \<noteq> (job, owner)" for i w phase e r retry_at d
    unfolding finish_import_with_diagnostic_def using that held
    by (auto simp: held_by_def intro!: intros)
  have retry: "obeys (job_kept job j) (reset_import_retry env i)" for i
    unfolding reset_import_retry_def using held by (intro intros) (auto simp: held_by_def)
  have recover: "obeys (job_kept job j) (recover_expired_imports env now)" if "now \<le> expiry" for now
    unfolding recover_expired_imports_def using that held by (intro intros) (auto simp: expired_before_def)
  show ?thesis
    using foreign by (cases c) (auto intro: obeysD enqueue lease progress parser finish retry recover)
qed

text \<open>
  C21: A lease is exclusive: as long as the clock has not passed its expiry, no sequence of calls of other
  workers (enqueueing, leasing, progress, finishing, retries, recovery) changes the job in any way. With the
  expiry \<open>i64::MAX\<close> that the daemon asks for, no reading of the clock is ever past it: the job
  of a daemon that died stays leased for ever, since neither a recovery nor another lease can take it.
\<close>
theorem lease_is_exclusive:
  assumes "job_at job s = Some j" "held_by job owner j" "jr_lease_expires_at_ms j = Some expiry"
    "\<And>n. env_now env n \<le> expiry" "\<forall>c\<in>set calls. foreign_call job owner expiry c"
  shows "job_at job (queue_calls env calls s) = Some j"
  using assms(1,5) unfolding queue_calls_def
proof (induction calls arbitrary: s)
  case (Cons c calls)
  then have "job_at job (perform_call env c s) = Some j"
    using kept_queue_call [OF assms(2-4), of c s] by (simp add: job_kept_def)
  with Cons show ?case by simp
qed simp

section \<open>A queue at work\<close>

definition empty_store :: store where
  "empty_store = \<lparr>st_step = 0, st_files = [], st_artifacts = [], st_jobs = [], st_attempts = [], st_matches = [],
     st_runs = [], st_rounds = [], st_players = [], st_match_players = [], st_receipts = [], st_round_metrics = [],
     st_vectors = [], st_components = [], st_unavailable = [], st_sessions = [], st_snapshots = [], st_saves = [],
     st_clips = [], st_save_clips = [], st_tags = [], st_origins = [], st_derivations = [], st_exports = []\<rparr>"

definition demo_artifact :: artifact_row where
  "demo_artifact = \<lparr>ar_sha256 = ''d'', ar_relative_path = Some ''d.dem'', ar_byte_length = 8, ar_media_type = None,
     ar_availability = ''present'', ar_missing_reason = None, ar_duration_ms = None\<rparr>"

definition calm :: environment where
  "calm = \<lparr>env_uuid = show_nat, env_now = (\<lambda>n. min (1000 + int n) i64_max), env_fault = (\<lambda>_. False)\<rparr>"

definition leased_store :: store where
  "leased_store = queue_calls calm [EnqueueCall ''d'', LeaseCall (show_nat 0) ''w'' i64_max]
     (empty_store\<lparr>st_artifacts := [demo_artifact]\<rparr>)"

lemma empty_queue_ok: "queue_ok (empty_store\<lparr>st_artifacts := as\<rparr>)"
  by (simp add: empty_store_def queue_ok_def queue_rows_ok_def)

theorem queue_wellformed_witness:
  "queue_ok leased_store \<and> history_extends [] (st_attempts leased_store)"
  using queue_wellformed [OF empty_queue_ok] unfolding leased_store_def by (simp add: empty_store_def)

theorem lease_is_exclusive_witness:
  "job_at (show_nat 0) (queue_calls calm
      [LeaseCall (show_nat 0) ''other'' 0, RetryCall (show_nat 0), RecoverCall i64_max] leased_store)
    = job_at (show_nat 0) leased_store"
proof -
  define j where "j = the (job_at (show_nat 0) leased_store)"
  have "job_at (show_nat 0) leased_store = Some j" "held_by (show_nat 0) ''w'' j"
    "jr_lease_expires_at_ms j = Some i64_max"
    unfolding j_def by code_simp+
  moreover have "env_now calm n \<le> i64_max" for n by (simp add: calm_def)
  ultimately show ?thesis
    using lease_is_exclusive [of "show_nat 0" leased_store j "''w''" i64_max calm
      "[LeaseCall (show_nat 0) ''other'' 0, RetryCall (show_nat 0), RecoverCall i64_max]"] by simp
qed

end
