(* ===== verification/Match_Store.thy ===== *)
theory Match_Store
  imports Database
begin

text \<open>
  The tables of matches and their analyses, \<open>import_match\<close> to \<open>persist_unavailable_rating\<close> of
  \<open>crates/openfrag-storage/src/lib.rs\<close>, each statement with the keys, the references, the checks
  and the triggers that the migrations declare for its table.
\<close>

section \<open>Look-ups\<close>

definition run_named :: "string \<Rightarrow> store \<Rightarrow> run_row option" where
  "run_named run s = List.find (\<lambda>r. rn_id r = run) (st_runs s)"

definition match_exists :: "string \<Rightarrow> store \<Rightarrow> bool" where
  "match_exists m s \<longleftrightarrow> m \<in> set (map mt_id (st_matches s))"

definition run_exists :: "string \<Rightarrow> store \<Rightarrow> bool" where
  "run_exists run s \<longleftrightarrow> run \<in> set (map rn_id (st_runs s))"

definition player_exists :: "string \<Rightarrow> store \<Rightarrow> bool" where
  "player_exists p s \<longleftrightarrow> p \<in> set (map pl_steam_id (st_players s))"

definition round_run :: "string \<Rightarrow> store \<Rightarrow> string option" where
  "round_run rnd s = map_option rd_run (List.find (\<lambda>r. rd_id r = rnd) (st_rounds s))"

definition receipt_run :: "string \<Rightarrow> store \<Rightarrow> string option" where
  "receipt_run receipt s = map_option re_run (List.find (\<lambda>r. re_id r = receipt) (st_receipts s))"

text \<open>\<open>a <> b\<close> in SQL is true only when both sides are there.\<close>

definition sql_differs :: "'a option \<Rightarrow> 'a \<Rightarrow> bool" where
  "sql_differs a b \<longleftrightarrow> (case a of Some x \<Rightarrow> x \<noteq> b | None \<Rightarrow> False)"

section \<open>Matches and runs\<close>

definition import_match :: "environment \<Rightarrow> string \<Rightarrow> string \<Rightarrow> string option \<Rightarrow> string storage" where
  "import_match env demo local map_name =
     bind (new_id env) (\<lambda>m. bind (now_ms env) (\<lambda>_.
     bind (insert_stmt env
       (\<lambda>s. \<not> match_exists m s \<and> demo \<notin> set (map mt_demo_sha256 (st_matches s))
          \<and> demo \<in> set (map ar_sha256 (st_artifacts s)))
       (\<lambda>s. s\<lparr>st_matches := st_matches s @ [\<lparr>mt_id = m, mt_demo_sha256 = demo, mt_local_steam_id = local,
          mt_map_name = map_name, mt_canonical_run = None, mt_status = ''imported''\<rparr>]\<rparr>)) (\<lambda>_. ret m)))"

definition match_for_demo :: "environment \<Rightarrow> string \<Rightarrow> string option storage" where
  "match_for_demo env demo =
     query env (\<lambda>s. map_option mt_id (List.find (\<lambda>m. mt_demo_sha256 m = demo) (st_matches s)))"

definition completed_analysis_for_identity :: "environment \<Rightarrow> string \<Rightarrow> analysis_identity \<Rightarrow> bool storage" where
  "completed_analysis_for_identity env m identity =
     query env (\<lambda>s. list_ex (\<lambda>r. rn_match r = m \<and> rn_identity r = identity \<and> rn_status r = ''succeeded'') (st_runs s))"

definition begin_analysis :: "environment \<Rightarrow> string \<Rightarrow> analysis_identity \<Rightarrow> string storage" where
  "begin_analysis env m identity =
     bind (new_id env) (\<lambda>run. bind (now_ms env) (\<lambda>_.
     bind (insert_stmt env
       (\<lambda>s. \<not> run_exists run s \<and> match_exists m s
          \<and> \<not> list_ex (\<lambda>r. rn_match r = m \<and> rn_identity r = identity) (st_runs s))
       (\<lambda>s. s\<lparr>st_runs := st_runs s @ [\<lparr>rn_id = run, rn_match = m, rn_identity = identity, rn_status = ''running''\<rparr>]\<rparr>))
     (\<lambda>_. ret run)))"

text \<open>
  The trigger \<open>canonical_run_valid\<close>: the run is a succeeded run of the match and holds a rating of its local
  player, or the reason why there is none, with a receipt of the same run.
\<close>

definition has_rating :: "string \<Rightarrow> string \<Rightarrow> store \<Rightarrow> bool" where
  "has_rating run local s \<longleftrightarrow>
     list_ex (\<lambda>v. vr_run v = run \<and> vr_steam_id v = local \<and> receipt_run (vr_receipt v) s = Some run) (st_vectors s)
     \<or> list_ex (\<lambda>u. ur_run u = run \<and> ur_steam_id u = local \<and> receipt_run (ur_receipt u) s = Some run) (st_unavailable s)"

definition canonical_run_valid :: "string \<Rightarrow> match_row \<Rightarrow> store \<Rightarrow> bool" where
  "canonical_run_valid run m s \<longleftrightarrow>
     list_ex (\<lambda>r. rn_id r = run \<and> rn_match r = mt_id m \<and> rn_status r = ''succeeded'') (st_runs s)
     \<and> has_rating run (mt_local_steam_id m) s"

definition complete_analysis :: "environment \<Rightarrow> string \<Rightarrow> unit storage" where
  "complete_analysis env run = transaction env
     (bind (statement env (\<lambda>s. case run_named run s of None \<Rightarrow> Inl NoRows | Some r \<Rightarrow> Inr (rn_match r, s))) (\<lambda>m.
      bind (update_stmt env (\<lambda>s. (count_rows (\<lambda>r. rn_id r = run) (st_runs s),
        s\<lparr>st_runs := update_rows (\<lambda>r. rn_id r = run) (\<lambda>r. r\<lparr>rn_status := ''succeeded''\<rparr>) (st_runs s)\<rparr>))) (\<lambda>_.
      insert_stmt env
        (\<lambda>s. \<forall>row\<in>set (st_matches s). mt_id row = m \<longrightarrow> canonical_run_valid run row s)
        (\<lambda>s. s\<lparr>st_matches := update_rows (\<lambda>row. mt_id row = m)
           (\<lambda>row. row\<lparr>mt_canonical_run := Some run, mt_status := ''parsed''\<rparr>) (st_matches s)\<rparr>))))"

section \<open>Rounds, players and receipts\<close>

definition add_round :: "environment \<Rightarrow> string \<Rightarrow> int \<Rightarrow> int \<Rightarrow> string option \<Rightarrow> string storage" where
  "add_round env run number end_tick winner =
     bind (new_id env) (\<lambda>rnd.
     bind (insert_stmt env
       (\<lambda>s. rnd \<notin> set (map rd_id (st_rounds s)) \<and> run_exists run s
          \<and> \<not> list_ex (\<lambda>r. rd_run r = run \<and> rd_number r = number) (st_rounds s)
          \<and> winner \<in> {None, Some ''T'', Some ''CT''})
       (\<lambda>s. s\<lparr>st_rounds := st_rounds s @ [\<lparr>rd_id = rnd, rd_run = run, rd_number = number, rd_end_tick = end_tick,
          rd_winner = winner\<rparr>]\<rparr>)) (\<lambda>_. ret rnd))"

text \<open>The table checks that a player is not last seen before it was first seen: a clock set back is refused.\<close>

definition upsert_player :: "environment \<Rightarrow> string \<Rightarrow> string option \<Rightarrow> unit storage" where
  "upsert_player env steam_id name =
     bind (now_ms env) (\<lambda>first. bind (now_ms env) (\<lambda>last_seen.
     insert_stmt env
       (\<lambda>s. case List.find (\<lambda>p. pl_steam_id p = steam_id) (st_players s) of
          None \<Rightarrow> first \<le> last_seen | Some p \<Rightarrow> pl_first_seen_at_ms p \<le> last_seen)
       (\<lambda>s. if player_exists steam_id s
          then s\<lparr>st_players := update_rows (\<lambda>p. pl_steam_id p = steam_id)
             (\<lambda>p. p\<lparr>pl_display_name := name, pl_last_seen_at_ms := last_seen\<rparr>) (st_players s)\<rparr>
          else s\<lparr>st_players := st_players s @ [\<lparr>pl_steam_id = steam_id, pl_display_name = name,
             pl_first_seen_at_ms = first, pl_last_seen_at_ms = last_seen\<rparr>]\<rparr>)))"

definition add_match_participant :: "environment \<Rightarrow> string \<Rightarrow> string \<Rightarrow> string \<Rightarrow> unit storage" where
  "add_match_participant env m steam_id participation =
     bind (insert_or_ignore env
       (\<lambda>s. (m, steam_id) \<in> set (map (\<lambda>(m, p, _). (m, p)) (st_match_players s))
          \<or> participation \<notin> {''full'', ''partial'', ''unknown''})
       (\<lambda>s. match_exists m s \<and> player_exists steam_id s)
       (\<lambda>s. s\<lparr>st_match_players := st_match_players s @ [(m, steam_id, participation)]\<rparr>)) (\<lambda>changed.
     if changed = 0 then throw (ConflictError ''match participant'') else ret ())"

definition add_receipt :: "environment \<Rightarrow> string \<Rightarrow> string option \<Rightarrow> string \<Rightarrow> int option \<Rightarrow> int option
    \<Rightarrow> string \<Rightarrow> string \<Rightarrow> string \<Rightarrow> string \<Rightarrow> string storage" where
  "add_receipt env run rnd metric_key tick ordinal participants payload snapshots parameters =
     (if (tick = None) \<noteq> (ordinal = None) then throw (InvalidValue ''tick and ordinal'') else
      bind (new_id env) (\<lambda>receipt.
      bind (insert_stmt env
        (\<lambda>s. receipt \<notin> set (map re_id (st_receipts s)) \<and> run_exists run s
           \<and> (case rnd of None \<Rightarrow> True | Some r \<Rightarrow> r \<in> set (map rd_id (st_rounds s))))
        (\<lambda>s. s\<lparr>st_receipts := st_receipts s @ [\<lparr>re_id = receipt, re_run = run, re_round = rnd,
           re_metric_key = metric_key, re_event_tick = tick, re_ordinal = ordinal, re_participants_json = participants,
           re_payload_json = payload, re_snapshots_json = snapshots, re_parameters_json = parameters\<rparr>]\<rparr>))
      (\<lambda>_. ret receipt)))"

text \<open>The trigger \<open>metric_round_same_run\<close> runs before the row is checked against the keys.\<close>

definition write_round_metric :: "environment \<Rightarrow> string \<Rightarrow> string \<Rightarrow> string \<Rightarrow> string \<Rightarrow> int \<Rightarrow> int
    \<Rightarrow> string option \<Rightarrow> unit storage" where
  "write_round_metric env run rnd steam_id key numerator denominator receipt =
     bind (statement env (\<lambda>s.
       if sql_differs (round_run rnd s) run
          \<or> (case receipt of None \<Rightarrow> False | Some e \<Rightarrow> sql_differs (receipt_run e s) run) then Inl ConstraintFailed
       else if list_ex (\<lambda>r. (rm_run r, rm_round r, rm_steam_id r, rm_metric_key r) = (run, rnd, steam_id, key))
            (st_round_metrics s) \<or> denominator < 0 then Inr (0, s)
       else if run_exists run s \<and> rnd \<in> set (map rd_id (st_rounds s)) \<and> player_exists steam_id s
          \<and> (case receipt of None \<Rightarrow> True | Some e \<Rightarrow> e \<in> set (map re_id (st_receipts s)))
       then Inr (1, s\<lparr>st_round_metrics := st_round_metrics s @ [\<lparr>rm_run = run, rm_round = rnd, rm_steam_id = steam_id,
          rm_metric_key = key, rm_numerator = numerator, rm_denominator = denominator, rm_receipt = receipt\<rparr>]\<rparr>)
       else Inl ConstraintFailed)) (\<lambda>changed.
     if changed = (0::nat) then throw (ConflictError ''round metric'') else ret ())"

section \<open>Ratings\<close>

definition persist_available_rating :: "environment \<Rightarrow> string \<Rightarrow> string \<Rightarrow> string \<Rightarrow> int \<Rightarrow> string \<Rightarrow> string storage" where
  "persist_available_rating env run steam_id formula_id rating_bp receipt =
     bind (new_id env) (\<lambda>vector.
     bind (insert_stmt env
       (\<lambda>s. \<not> sql_differs (receipt_run receipt s) run \<and> vector \<notin> set (map vr_id (st_vectors s)) \<and> run_exists run s
          \<and> player_exists steam_id s \<and> receipt \<in> set (map re_id (st_receipts s))
          \<and> \<not> list_ex (\<lambda>v. (vr_run v, vr_steam_id v, vr_formula_id v) = (run, steam_id, formula_id)) (st_vectors s))
       (\<lambda>s. s\<lparr>st_vectors := st_vectors s @ [\<lparr>vr_id = vector, vr_run = run, vr_steam_id = steam_id,
          vr_formula_id = formula_id, vr_rating_bp = rating_bp, vr_receipt = receipt\<rparr>]\<rparr>)) (\<lambda>_. ret vector))"

definition persist_rating_component :: "environment \<Rightarrow> string \<Rightarrow> string \<Rightarrow> int \<Rightarrow> int \<Rightarrow> int \<Rightarrow> int \<Rightarrow> string
    \<Rightarrow> unit storage" where
  "persist_rating_component env vector key numerator denominator value_bp weight_bp receipt =
     insert_stmt env
       (\<lambda>s. (case (receipt_run receipt s, List.find (\<lambda>v. vr_id v = vector) (st_vectors s)) of
             (Some run, Some v) \<Rightarrow> run = vr_run v | _ \<Rightarrow> True)
          \<and> vector \<in> set (map vr_id (st_vectors s)) \<and> receipt \<in> set (map re_id (st_receipts s))
          \<and> \<not> list_ex (\<lambda>c. (cr_vector c, cr_component_key c) = (vector, key)) (st_components s)
          \<and> 0 \<le> denominator \<and> 0 \<le> weight_bp)
       (\<lambda>s. s\<lparr>st_components := st_components s @ [\<lparr>cr_vector = vector, cr_component_key = key,
          cr_component_numerator = numerator, cr_component_denominator = denominator, cr_value_bp = value_bp,
          cr_weight_bp = weight_bp, cr_component_receipt = receipt\<rparr>]\<rparr>)"

definition persist_unavailable_rating :: "environment \<Rightarrow> string \<Rightarrow> string \<Rightarrow> string \<Rightarrow> string \<Rightarrow> string
    \<Rightarrow> unit storage" where
  "persist_unavailable_rating env run steam_id formula_id reason_code receipt =
     insert_stmt env
       (\<lambda>s. \<not> sql_differs (receipt_run receipt s) run \<and> run_exists run s \<and> player_exists steam_id s
          \<and> receipt \<in> set (map re_id (st_receipts s))
          \<and> \<not> list_ex (\<lambda>u. (ur_run u, ur_steam_id u, ur_formula_id u) = (run, steam_id, formula_id)) (st_unavailable s))
       (\<lambda>s. s\<lparr>st_unavailable := st_unavailable s @ [\<lparr>ur_run = run, ur_steam_id = steam_id, ur_formula_id = formula_id,
          ur_reason_code = reason_code, ur_receipt = receipt\<rparr>]\<rparr>)"

section \<open>Reading a rating\<close>

datatype stored_rating = PendingRating | AvailableRating string int string | UnavailableRating string string string

definition rating_availability :: "environment \<Rightarrow> string option \<Rightarrow> string \<Rightarrow> stored_rating storage" where
  "rating_availability env run local =
     (case run of None \<Rightarrow> ret PendingRating
      | Some run \<Rightarrow>
        bind (query env (\<lambda>s. List.find (\<lambda>v. vr_run v = run \<and> vr_steam_id v = local) (st_vectors s))) (\<lambda>v.
        (case v of
           Some v \<Rightarrow> ret (AvailableRating (vr_formula_id v) (vr_rating_bp v) (vr_receipt v))
         | None \<Rightarrow>
           bind (query env (\<lambda>s. List.find (\<lambda>u. ur_run u = run \<and> ur_steam_id u = local) (st_unavailable s))) (\<lambda>u.
           (case u of None \<Rightarrow> ret PendingRating
            | Some u \<Rightarrow> ret (UnavailableRating (ur_formula_id u) (ur_reason_code u) (ur_receipt u)))))))"

end
