(* ===== verification/Artifact_Store.thy ===== *)
theory Artifact_Store
  imports Database "HOL-Library.Sublist"
begin

text \<open>
  The content-addressed artifacts: staging, commit, look-up, quarantine and the recovery at start-up of
  \<open>crates/openfrag-storage/src/lib.rs\<close>, over the catalogue and the files.

  SHA-256 is a parameter. What a failed write leaves in a staging file is not kept: nothing reads it.
\<close>

section \<open>Files\<close>

definition node_at :: "string \<Rightarrow> store \<Rightarrow> node option" where
  "node_at path s = map_of (st_files s) path"

definition put_node :: "string \<Rightarrow> node \<Rightarrow> store \<Rightarrow> store" where
  "put_node path n s = s\<lparr>st_files := filter (\<lambda>(p, _). p \<noteq> path) (st_files s) @ [(path, n)]\<rparr>"

definition drop_node :: "string \<Rightarrow> store \<Rightarrow> store" where
  "drop_node path s = s\<lparr>st_files := filter (\<lambda>(p, _). p \<noteq> path) (st_files s)\<rparr>"

text \<open>\<open>Path::exists\<close> follows links and takes a failure for absence.\<close>

fun node_exists :: "node option \<Rightarrow> bool" where
  "node_exists None = False"
| "node_exists (Some (SymbolicLink leads)) = leads"
| "node_exists (Some _) = True"

definition path_exists :: "string \<Rightarrow> bool storage" where
  "path_exists path = asks (\<lambda>s. node_exists (node_at path s))"

definition symlink_metadata :: "environment \<Rightarrow> string \<Rightarrow> node storage" where
  "symlink_metadata env path = io env (bind (asks (node_at path)) (lift_option IoError))"

definition create_new_file :: "environment \<Rightarrow> string \<Rightarrow> unit storage" where
  "create_new_file env path = io env (bind (asks (node_at path)) (\<lambda>n.
     if n = None then modify (put_node path (Regular [])) else throw IoError))"

definition append_file :: "environment \<Rightarrow> string \<Rightarrow> bytes \<Rightarrow> unit storage" where
  "append_file env path chunk = io env (bind (asks (node_at path)) (\<lambda>n.
     case n of Some (Regular b) \<Rightarrow> modify (put_node path (Regular (b @ chunk))) | _ \<Rightarrow> throw IoError))"

definition remove_file :: "environment \<Rightarrow> string \<Rightarrow> unit storage" where
  "remove_file env path = io env (bind (asks (node_at path)) (\<lambda>n.
     case n of None \<Rightarrow> throw IoError | Some DirectoryNode \<Rightarrow> throw IoError | Some _ \<Rightarrow> modify (drop_node path)))"

text \<open>A file renamed over another replaces it; it does not replace a directory.\<close>

definition rename_node :: "environment \<Rightarrow> string \<Rightarrow> string \<Rightarrow> unit storage" where
  "rename_node env source target = io env (bind (asks (\<lambda>s. (node_at source s, node_at target s))) (\<lambda>(n, old).
     case n of
       None \<Rightarrow> throw IoError
     | Some node \<Rightarrow> if old = Some DirectoryNode then throw IoError
         else modify (\<lambda>s. put_node target node (drop_node source s))))"

definition create_dir :: "environment \<Rightarrow> string \<Rightarrow> unit storage" where
  "create_dir env path = io env (bind (asks (node_at path)) (\<lambda>n.
     case n of None \<Rightarrow> modify (put_node path DirectoryNode) | Some DirectoryNode \<Rightarrow> ret ()
     | Some (SymbolicLink True) \<Rightarrow> ret () | _ \<Rightarrow> throw IoError))"

text \<open>Calls that change nothing kept here but may fail: permissions and synchronisation.\<close>

definition touch :: "environment \<Rightarrow> unit storage" where
  "touch env = io env (ret ())"

section \<open>Staging\<close>

record staged_artifact =
  sg_sha256 :: string
  sg_byte_length :: nat
  sg_path :: string

definition staging_path :: "string \<Rightarrow> string" where
  "staging_path name = ''staging/'' @ name @ ''.part''"

text \<open>The reads of the source: a chunk, an empty one at the end, or a failure.\<close>

fun stage_chunks :: "environment \<Rightarrow> string \<Rightarrow> bytes option list \<Rightarrow> bytes \<Rightarrow> bytes storage" where
  "stage_chunks env path [] acc = ret acc"
| "stage_chunks env path (None # reads) acc = throw IoError"
| "stage_chunks env path (Some chunk # reads) acc =
     (if chunk = [] then ret acc else
      bind (append_file env path chunk) (\<lambda>_.
      if length acc + length chunk > u64_max then throw (InvalidValue ''artifact too large'')
      else stage_chunks env path reads (acc @ chunk)))"

definition stage_from_reader :: "environment \<Rightarrow> (bytes \<Rightarrow> string) \<Rightarrow> bytes option list \<Rightarrow> staged_artifact storage" where
  "stage_from_reader env sha reads =
     bind (new_id env) (\<lambda>name. let path = staging_path name in
     bind (create_new_file env path) (\<lambda>_. bind (touch env) (\<lambda>_.
     bind (stage_chunks env path reads []) (\<lambda>data.
     bind (touch env) (\<lambda>_. bind (touch env) (\<lambda>_.
     ret \<lparr>sg_sha256 = sha data, sg_byte_length = length data, sg_path = path\<rparr>))))))"

definition stage_artifact :: "environment \<Rightarrow> (bytes \<Rightarrow> string) \<Rightarrow> bytes \<Rightarrow> staged_artifact storage" where
  "stage_artifact env sha data = stage_from_reader env sha [Some data, Some []]"

section \<open>Commit\<close>

definition artifact_dir :: "string \<Rightarrow> string" where
  "artifact_dir sha256 = ''artifacts/sha256/'' @ take 2 sha256"

definition artifact_relative :: "string \<Rightarrow> string \<Rightarrow> string" where
  "artifact_relative sha256 extension =
     artifact_dir sha256 @ ''/'' @ sha256 @ ''.'' @ dropWhile (\<lambda>c. c = CHR ''.'') extension"

definition record_artifact :: "environment \<Rightarrow> string \<Rightarrow> string \<Rightarrow> int \<Rightarrow> string option \<Rightarrow> unit storage" where
  "record_artifact env sha256 relative byte_length media_type =
     bind (now_ms env) (\<lambda>_.
     insert_stmt env
       (\<lambda>s. length sha256 = 64
          \<and> \<not> list_ex (\<lambda>a. ar_sha256 a \<noteq> sha256 \<and> ar_relative_path a = Some relative) (st_artifacts s))
       (\<lambda>s. if sha256 \<in> set (map ar_sha256 (st_artifacts s))
          then s\<lparr>st_artifacts := update_rows (\<lambda>a. ar_sha256 a = sha256)
             (\<lambda>a. a\<lparr>ar_relative_path := Some relative, ar_availability := ''present''\<rparr>) (st_artifacts s)\<rparr>
          else s\<lparr>st_artifacts := st_artifacts s @ [\<lparr>ar_sha256 = sha256, ar_relative_path = Some relative,
             ar_byte_length = byte_length, ar_media_type = media_type, ar_availability = ''present'',
             ar_missing_reason = None, ar_duration_ms = None\<rparr>]\<rparr>))"

definition commit_artifact :: "environment \<Rightarrow> staged_artifact \<Rightarrow> string \<Rightarrow> string option \<Rightarrow> string storage" where
  "commit_artifact env staged extension media_type =
     (if CHR ''/'' \<in> set extension \<or> char_of (92::nat) \<in> set extension then throw (InvalidValue ''unsafe extension'') else
      let relative = artifact_relative (sg_sha256 staged) extension in
      bind (create_dir env (artifact_dir (sg_sha256 staged))) (\<lambda>_.
      bind (path_exists relative) (\<lambda>exists.
      bind (if exists then
          bind (symlink_metadata env relative) (\<lambda>n.
            if (\<exists>leads\<in>{True, False}. n = SymbolicLink leads) then throw (InvalidValue ''artifact target symlink'')
            else remove_file env (sg_path staged))
        else
          bind (rename_node env (sg_path staged) relative) (\<lambda>_. bind (touch env) (\<lambda>_. touch env))) (\<lambda>_.
      if int (sg_byte_length staged) > i64_max then throw (InvalidValue ''artifact too large'') else
      bind (record_artifact env (sg_sha256 staged) relative (int (sg_byte_length staged)) media_type) (\<lambda>_.
      ret (sg_sha256 staged))))))"

section \<open>Look-up\<close>

datatype artifact_availability = ExpectedArtifact | PresentArtifact | MissingArtifact | DeletedArtifact | QuarantinedArtifact

definition availability_parse :: "string \<Rightarrow> (storage_error, artifact_availability) result" where
  "availability_parse v = (if v = ''expected'' then Inr ExpectedArtifact else if v = ''present'' then Inr PresentArtifact
     else if v = ''missing'' then Inr MissingArtifact else if v = ''deleted'' then Inr DeletedArtifact
     else Inl (InvalidValue ''artifact availability''))"

record artifact_info =
  af_sha256 :: string
  af_availability :: artifact_availability
  af_relative_path :: "string option"
  af_byte_length :: int

definition is_quarantined :: "artifact_row \<Rightarrow> bool" where
  "is_quarantined a \<longleftrightarrow> ar_availability a = ''missing''
     \<and> (case ar_missing_reason a of None \<Rightarrow> False | Some r \<Rightarrow> prefix ''quarantined:'' r)"

definition artifact :: "environment \<Rightarrow> string \<Rightarrow> artifact_info storage" where
  "artifact env sha256 =
     bind (query env (\<lambda>s. List.find (\<lambda>a. ar_sha256 a = sha256) (st_artifacts s))) (\<lambda>row.
     bind (lift_option (NotFound ''artifact'') row) (\<lambda>a.
     (case (if is_quarantined a then Inr QuarantinedArtifact else availability_parse (ar_availability a)) of
        Inl e \<Rightarrow> throw e
      | Inr av \<Rightarrow> ret \<lparr>af_sha256 = ar_sha256 a, af_availability = av, af_relative_path = ar_relative_path a,
          af_byte_length = ar_byte_length a\<rparr>)))"

definition expect_artifact :: "environment \<Rightarrow> string \<Rightarrow> int \<Rightarrow> string option \<Rightarrow> unit storage" where
  "expect_artifact env sha256 byte_length media_type =
     (if length sha256 \<noteq> 64 \<or> byte_length < 0 then throw (InvalidValue ''expected artifact'') else
      bind (now_ms env) (\<lambda>_.
      bind (insert_or_ignore env (\<lambda>s. sha256 \<in> set (map ar_sha256 (st_artifacts s))) (\<lambda>_. True)
        (\<lambda>s. s\<lparr>st_artifacts := st_artifacts s @ [\<lparr>ar_sha256 = sha256, ar_relative_path = None,
           ar_byte_length = byte_length, ar_media_type = media_type, ar_availability = ''expected'',
           ar_missing_reason = None, ar_duration_ms = None\<rparr>]\<rparr>)) (\<lambda>changed.
      if changed = 0 then throw (ConflictError ''expected artifact'') else ret ())))"

section \<open>Quarantine\<close>

definition artifact_referenced :: "string \<Rightarrow> store \<Rightarrow> bool" where
  "artifact_referenced sha256 s \<longleftrightarrow>
     list_ex (\<lambda>c. cp_artifact c = sha256) (st_clips s) \<or> list_ex (\<lambda>m. mt_demo_sha256 m = sha256) (st_matches s)
     \<or> list_ex (\<lambda>a. sr_artifact a = Some sha256) (st_saves s) \<or> list_ex (\<lambda>g. gs_sha256 g = sha256) (st_snapshots s)"

definition present_row :: "string \<Rightarrow> artifact_row \<Rightarrow> bool" where
  "present_row sha256 a \<longleftrightarrow> ar_sha256 a = sha256 \<and> ar_availability a = ''present''"

definition quarantine_path :: "string \<Rightarrow> string \<Rightarrow> string" where
  "quarantine_path sha256 name = ''quarantine/'' @ sha256 @ ''-'' @ name @ ''.dem''"

definition quarantine_artifact :: "environment \<Rightarrow> string \<Rightarrow> string \<Rightarrow> string storage" where
  "quarantine_artifact env sha256 reason =
     (if reason = [] then throw (InvalidValue ''quarantine reason'') else
      bind (artifact env sha256) (\<lambda>a.
      if af_availability a \<noteq> PresentArtifact then throw (InvalidValue ''artifact is not present'') else
      bind (query env (artifact_referenced sha256)) (\<lambda>referenced.
      if referenced then throw (ConflictError ''referenced artifact quarantine'') else
      bind (lift_option (InvalidValue ''artifact path'') (af_relative_path a)) (\<lambda>source.
      bind (symlink_metadata env source) (\<lambda>n.
      if (case n of Regular _ \<Rightarrow> False | _ \<Rightarrow> True) then throw (InvalidValue ''artifact symlink'') else
      bind (new_id env) (\<lambda>name. let destination = quarantine_path sha256 name in
      bind (rename_node env source destination) (\<lambda>_.
      bind (attempt (statement env (\<lambda>s.
        if list_ex (\<lambda>b. \<not> present_row sha256 b \<and> ar_relative_path b = Some destination) (st_artifacts s) then Inl ConstraintFailed
        else Inr (count_rows (present_row sha256) (st_artifacts s),
          s\<lparr>st_artifacts := update_rows (present_row sha256)
            (\<lambda>b. b\<lparr>ar_availability := ''missing'', ar_relative_path := Some destination,
                   ar_missing_reason := Some (''quarantined:'' @ reason)\<rparr>) (st_artifacts s)\<rparr>)))) (\<lambda>result.
      (case result of
         Inr changed \<Rightarrow>
           if changed = 1 then bind (touch env) (\<lambda>_. ret destination)
           else bind (attempt (rename_node env destination source) :: (store, storage_error, (storage_error, unit) result) effect)
             (\<lambda>_. throw (ConflictError ''artifact quarantine''))
       | Inl e \<Rightarrow> bind (attempt (rename_node env destination source) :: (store, storage_error, (storage_error, unit) result) effect)
           (\<lambda>_. throw e))))))))))"

section \<open>Recovery at start-up\<close>

text \<open>The entries directly below a directory, in the order the system lists them.\<close>

definition entries_of :: "string \<Rightarrow> store \<Rightarrow> (string \<times> node) list" where
  "entries_of dir s = filter (\<lambda>(p, _). prefix (dir @ ''/'') p \<and> CHR ''/'' \<notin> set (drop (length dir + 1) p)) (st_files s)"

definition read_dir :: "environment \<Rightarrow> string \<Rightarrow> (string \<times> node) list storage" where
  "read_dir env dir = io env (asks (entries_of dir))"

definition file_name :: "string \<Rightarrow> string" where
  "file_name path = rev (takeWhile (\<lambda>c. c \<noteq> CHR ''/'') (rev path))"

definition recover_staging :: "environment \<Rightarrow> unit storage" where
  "recover_staging env =
     bind (read_dir env ''staging'') (for_each (\<lambda>(p, n). case n of
       SymbolicLink _ \<Rightarrow> throw (InvalidValue ''staging symlink'')
     | Regular _ \<Rightarrow> remove_file env p
     | DirectoryNode \<Rightarrow> ret ()))"

fun mark_missing :: "environment \<Rightarrow> (string \<times> string option) list \<Rightarrow> nat \<Rightarrow> nat storage" where
  "mark_missing env [] missing = ret missing"
| "mark_missing env ((sha256, None) # rows) missing = mark_missing env rows missing"
| "mark_missing env ((sha256, Some path) # rows) missing =
     bind (path_exists path) (\<lambda>exists.
     if exists then mark_missing env rows missing else
     bind (update_stmt env (\<lambda>s. (count_rows (present_row sha256) (st_artifacts s),
       s\<lparr>st_artifacts := update_rows (present_row sha256)
         (\<lambda>a. a\<lparr>ar_availability := ''missing'', ar_missing_reason := Some ''file_missing''\<rparr>) (st_artifacts s)\<rparr>)))
     (\<lambda>_. mark_missing env rows (missing + 1)))"

fun remove_staged :: "environment \<Rightarrow> (string \<times> node) list \<Rightarrow> nat \<Rightarrow> nat storage" where
  "remove_staged env [] removed = ret removed"
| "remove_staged env ((p, Regular _) # entries) removed =
     bind (remove_file env p) (\<lambda>_. remove_staged env entries (removed + 1))"
| "remove_staged env (_ # entries) removed = remove_staged env entries removed"

definition quarantine_orphan :: "environment \<Rightarrow> string \<Rightarrow> unit storage" where
  "quarantine_orphan env path =
     bind (new_id env) (\<lambda>name. rename_node env path (''quarantine/'' @ name @ ''-'' @ file_name path))"

definition recover_file :: "environment \<Rightarrow> (bytes \<Rightarrow> string) \<Rightarrow> string \<Rightarrow> bytes \<Rightarrow> unit storage" where
  "recover_file env sha path data =
     (let name = file_name path; sha256 = takeWhile (\<lambda>c. c \<noteq> CHR ''.'') name in
      if CHR ''.'' \<notin> set name then quarantine_orphan env path
      else if length sha256 \<noteq> 64 then quarantine_orphan env path
      else bind (touch env) (\<lambda>_.
      if sha256 \<noteq> sha data then quarantine_orphan env path else
      bind (query env (\<lambda>s. sha256 \<in> set (map ar_sha256 (st_artifacts s)))) (\<lambda>known.
      if \<not> known then
        bind (touch env) (\<lambda>_.
        if int (length data) > i64_max then throw (InvalidValue ''orphan too large'') else
        bind (now_ms env) (\<lambda>_.
        insert_stmt env
          (\<lambda>s. \<not> list_ex (\<lambda>a. ar_relative_path a = Some path) (st_artifacts s))
          (\<lambda>s. s\<lparr>st_artifacts := st_artifacts s @ [\<lparr>ar_sha256 = sha256, ar_relative_path = Some path,
             ar_byte_length = int (length data), ar_media_type = None, ar_availability = ''present'',
             ar_missing_reason = None, ar_duration_ms = None\<rparr>]\<rparr>)))
      else
        let found = (\<lambda>a. ar_sha256 a = sha256 \<and> ar_availability a \<in> {''expected'', ''missing''}) in
        insert_stmt env
          (\<lambda>s. list_ex found (st_artifacts s) \<longrightarrow>
             \<not> list_ex (\<lambda>a. ar_sha256 a \<noteq> sha256 \<and> ar_relative_path a = Some path) (st_artifacts s))
          (\<lambda>s. s\<lparr>st_artifacts := update_rows found
             (\<lambda>a. a\<lparr>ar_availability := ''present'', ar_relative_path := Some path, ar_missing_reason := None\<rparr>)
             (st_artifacts s)\<rparr>))))"

definition recover_prefix :: "environment \<Rightarrow> (bytes \<Rightarrow> string) \<Rightarrow> string \<times> node \<Rightarrow> unit storage" where
  "recover_prefix env sha = (\<lambda>(dir, n). case n of
     SymbolicLink _ \<Rightarrow> throw (InvalidValue ''artifact tree symlink'')
   | Regular _ \<Rightarrow> ret ()
   | DirectoryNode \<Rightarrow> bind (read_dir env dir) (for_each (\<lambda>(p, m). case m of
       Regular data \<Rightarrow> recover_file env sha p data | _ \<Rightarrow> ret ())))"

record recovery_result =
  rv_removed_staging_files :: nat
  rv_marked_missing :: nat

definition recover_artifacts :: "environment \<Rightarrow> (bytes \<Rightarrow> string) \<Rightarrow> recovery_result storage" where
  "recover_artifacts env sha =
     bind (query env (\<lambda>s. map (\<lambda>a. (ar_sha256 a, ar_relative_path a))
       (filter (\<lambda>a. ar_availability a = ''present'') (st_artifacts s)))) (\<lambda>rows.
     bind (mark_missing env rows 0) (\<lambda>missing.
     bind (read_dir env ''staging'') (\<lambda>entries.
     bind (remove_staged env entries 0) (\<lambda>removed.
     bind (read_dir env ''artifacts/sha256'') (\<lambda>prefixes.
     bind (for_each (recover_prefix env sha) prefixes) (\<lambda>_.
     ret \<lparr>rv_removed_staging_files = removed, rv_marked_missing = missing\<rparr>))))))"

section \<open>Safe paths\<close>

fun split_path :: "string \<Rightarrow> string list" where
  "split_path [] = [[]]"
| "split_path (c # cs) = (if c = CHR ''/'' then [] # split_path cs
     else (case split_path cs of [] \<Rightarrow> [[c]] | (w # ws) \<Rightarrow> (c # w) # ws))"

text \<open>
  \<open>Path::components\<close> of a relative path: empty parts and inner dots vanish, so a plain component is one that is
  neither a leading dot nor \<open>..\<close>.
\<close>

definition path_components :: "string \<Rightarrow> string list" where
  "path_components path = (case filter (\<lambda>w. w \<noteq> []) (split_path path) of
     [] \<Rightarrow> [] | (w # ws) \<Rightarrow> w # filter (\<lambda>v. v \<noteq> ''.'') ws)"

definition plain_component :: "string \<Rightarrow> bool" where
  "plain_component w \<longleftrightarrow> w \<noteq> ''.'' \<and> w \<noteq> ''..''"

definition join_path :: "string list \<Rightarrow> string" where
  "join_path ws = concat (map (\<lambda>w. ''/'' @ w) ws)"

text \<open>No part of the way may be a symbolic link.\<close>

fun check_links :: "environment \<Rightarrow> string list \<Rightarrow> string list \<Rightarrow> unit storage" where
  "check_links env done_ws [] = ret ()"
| "check_links env done_ws (w # ws) =
     bind (symlink_metadata env (drop 1 (join_path (done_ws @ [w])))) (\<lambda>n.
     case n of SymbolicLink _ \<Rightarrow> throw (InvalidValue ''artifact path symlink'')
     | _ \<Rightarrow> check_links env (done_ws @ [w]) ws)"

definition safe_artifact_path :: "environment \<Rightarrow> string \<Rightarrow> string \<Rightarrow> int \<Rightarrow> string storage" where
  "safe_artifact_path env sha256 relative byte_length =
     (let ws = path_components relative in
      if length sha256 \<noteq> 64 then throw (InvalidValue ''artifact sha256'')
      else if prefix ''/'' relative \<or> \<not> list_all plain_component ws then throw (InvalidValue ''unsafe artifact path'')
      else if \<not> prefix [''artifacts'', ''sha256'', take 2 sha256] ws \<or> ws = [] \<or> \<not> prefix (sha256 @ ''.'') (last ws)
        then throw (InvalidValue ''artifact catalog path mismatch'')
      else bind (check_links env [] ws) (\<lambda>_.
        bind (symlink_metadata env (drop 1 (join_path ws))) (\<lambda>n.
        case n of
          Regular data \<Rightarrow> if int (length data) > i64_max then throw (InvalidValue ''artifact too large'')
            else if int (length data) \<noteq> byte_length then throw (InvalidValue ''artifact file metadata mismatch'')
            else ret (drop 1 (join_path ws))
        | _ \<Rightarrow> throw (InvalidValue ''artifact file metadata mismatch''))))"

end
