(* ===== verification/Clip_Store.thy ===== *)
theory Clip_Store
  imports Artifact_Store
begin

text \<open>
  Recorder saves, clips, their reviews and their exports: \<open>delete_clip\<close> to \<open>record_gsi_snapshot\<close> and
  \<open>complete_clip_model_metadata\<close> to \<open>finalize_captured_clip\<close> of \<open>crates/openfrag-storage/src/lib.rs\<close>,
  each statement with the keys, the references and the checks that the migrations declare for its table.

  A string is its bytes in UTF-8, so its length is the one that Rust and the limits mean. A revision is an
  integer that the database keeps below \<open>2 ^ 63\<close>; one increment per review does not reach it.
\<close>

section \<open>Columns\<close>

datatype save_attempt_status = Requested | Acknowledged | Saved | FailedSave

fun save_status_str :: "save_attempt_status \<Rightarrow> string" where
  "save_status_str Requested = ''requested''"
| "save_status_str Acknowledged = ''acknowledged''"
| "save_status_str Saved = ''saved''"
| "save_status_str FailedSave = ''failed''"

datatype clip_disposition = SavedClip | InReview | KeptClip | DeletedClip

fun disposition_str :: "clip_disposition \<Rightarrow> string" where
  "disposition_str SavedClip = ''saved''"
| "disposition_str InReview = ''in_review''"
| "disposition_str KeptClip = ''kept''"
| "disposition_str DeletedClip = ''deleted''"

datatype clip_review_decision = PendingReview | KeepClip | RejectClip

fun decision_str :: "clip_review_decision \<Rightarrow> string" where
  "decision_str PendingReview = ''pending''"
| "decision_str KeepClip = ''keep''"
| "decision_str RejectClip = ''reject''"

datatype clip_export_status = QueuedExport | RunningExport | SucceededExport | FailedExport

definition export_status_parse :: "string \<Rightarrow> (storage_error, clip_export_status) result" where
  "export_status_parse v = (if v = ''queued'' then Inr QueuedExport else if v = ''running'' then Inr RunningExport
     else if v = ''succeeded'' then Inr SucceededExport else if v = ''failed'' then Inr FailedExport
     else Inl (InvalidValue ''clip export status''))"

text \<open>\<open>trim().is_empty()\<close> over the bytes of a string: only the characters with the property \<open>White_Space\<close>.\<close>

definition three_byte_space :: "nat \<Rightarrow> nat \<Rightarrow> nat \<Rightarrow> bool" where
  "three_byte_space b c d \<longleftrightarrow> (b, c, d) \<in> {(225, 154, 128), (226, 128, 168), (226, 128, 169), (226, 128, 175),
     (226, 129, 159), (227, 128, 128)} \<or> b = 226 \<and> c = 128 \<and> 128 \<le> d \<and> d \<le> 138"

fun blank_bytes :: "nat list \<Rightarrow> bool" where
  "blank_bytes [] = True"
| "blank_bytes (b # bs) =
     (if 9 \<le> b \<and> b \<le> 13 \<or> b = 32 then blank_bytes bs else
      case bs of [] \<Rightarrow> False | c # cs \<Rightarrow>
        if b = 194 \<and> (c = 133 \<or> c = 160) then blank_bytes cs else
        case cs of [] \<Rightarrow> False | d # ds \<Rightarrow> three_byte_space b c d \<and> blank_bytes ds)"

definition is_blank :: "string \<Rightarrow> bool" where
  "is_blank v = blank_bytes (map of_char v)"

text \<open>\<open>length(trim(v)) > 0\<close> of SQLite, whose \<open>trim\<close> removes spaces only.\<close>

definition sql_filled :: "string \<Rightarrow> bool" where
  "sql_filled v \<longleftrightarrow> list_ex (\<lambda>c. c \<noteq> CHR '' '') v"

definition longer_than :: "nat \<Rightarrow> string option \<Rightarrow> bool" where
  "longer_than n v = (case v of None \<Rightarrow> False | Some t \<Rightarrow> length t > n)"

definition positive_i64 :: "nat \<Rightarrow> string \<Rightarrow> (storage_error, int) result" where
  "positive_i64 v field = (if v = 0 then Inl (InvalidValue field)
     else if int v > i64_max then Inl (InvalidValue field) else Inr (int v))"

definition validate_capture_provenance :: "string \<Rightarrow> unit storage" where
  "validate_capture_provenance provenance = (if provenance = ''raw_auto'' \<or> provenance = ''raw_manual'' then ret ()
     else throw (InvalidValue ''captured clip provenance''))"

definition validate_review_metadata :: "string option \<Rightarrow> string option \<Rightarrow> string list \<Rightarrow> unit storage" where
  "validate_review_metadata title note tags =
     (if longer_than 200 title \<or> longer_than 4000 note \<or> length tags > 32
      then throw (InvalidValue ''clip review metadata limits'')
      else if list_ex (\<lambda>t. is_blank t \<or> length t > 64) tags \<or> \<not> distinct tags
      then throw (InvalidValue ''clip tags'') else ret ())"

section \<open>Statements on clips\<close>

definition clip_exists :: "string \<Rightarrow> store \<Rightarrow> bool" where
  "clip_exists clip s \<longleftrightarrow> clip \<in> set (map cp_id (st_clips s))"

definition clip_named :: "string \<Rightarrow> store \<Rightarrow> clip_row option" where
  "clip_named clip s = List.find (\<lambda>c. cp_id c = clip) (st_clips s)"

definition save_named :: "string \<Rightarrow> store \<Rightarrow> save_row option" where
  "save_named save s = List.find (\<lambda>a. sr_id a = save) (st_saves s)"

definition live_clip :: "string \<Rightarrow> clip_row \<Rightarrow> bool" where
  "live_clip clip c \<longleftrightarrow> cp_id c = clip \<and> cp_disposition c \<noteq> ''deleted''"

text \<open>An update of clips whose new rows must pass a check of the table.\<close>

definition clip_stmt :: "environment \<Rightarrow> (clip_row \<Rightarrow> bool) \<Rightarrow> (clip_row \<Rightarrow> clip_row) \<Rightarrow> (clip_row \<Rightarrow> bool) \<Rightarrow> nat storage" where
  "clip_stmt env p f check = statement env (\<lambda>s.
     if list_all (\<lambda>c. p c \<longrightarrow> check (f c)) (st_clips s)
     then Inr (count_rows p (st_clips s), s\<lparr>st_clips := update_rows p f (st_clips s)\<rparr>) else Inl ConstraintFailed)"

definition save_stmt :: "environment \<Rightarrow> (save_row \<Rightarrow> bool) \<Rightarrow> (save_row \<Rightarrow> save_row) \<Rightarrow> nat storage" where
  "save_stmt env p f = update_stmt env (\<lambda>s. (count_rows p (st_saves s), s\<lparr>st_saves := update_rows p f (st_saves s)\<rparr>))"

definition export_stmt :: "environment \<Rightarrow> (export_row \<Rightarrow> bool) \<Rightarrow> (export_row \<Rightarrow> export_row) \<Rightarrow> nat storage" where
  "export_stmt env p f = update_stmt env (\<lambda>s. (count_rows p (st_exports s), s\<lparr>st_exports := update_rows p f (st_exports s)\<rparr>))"

definition changed_or :: "storage_error \<Rightarrow> nat \<Rightarrow> unit storage" where
  "changed_or e n = (if n = 0 then throw e else ret ())"

text \<open>A block that opens a transaction: it commits at its end, or leaves before and the transaction is dropped.\<close>

datatype 'a leaving = Leave 'a | Commit 'a

definition transaction_block :: "environment \<Rightarrow> 'a leaving storage \<Rightarrow> 'a storage" where
  "transaction_block env m = bind (query env (\<lambda>_. ())) (\<lambda>_. \<lambda>s.
     (case m s of
        (Inl e, t) \<Rightarrow> (Inl e, rolled_back s t)
      | (Inr (Leave x), t) \<Rightarrow> (Inr x, rolled_back s t)
      | (Inr (Commit x), t) \<Rightarrow> (case query env (\<lambda>_. ()) t of
          (Inl e, u) \<Rightarrow> (Inl e, rolled_back s u)
        | (Inr _, u) \<Rightarrow> (Inr x, u))))"

section \<open>Saves of the recorder\<close>

definition create_capture_session :: "environment \<Rightarrow> string \<Rightarrow> string storage" where
  "create_capture_session env local_steam_id =
     bind (new_id env) (\<lambda>session. bind (now_ms env) (\<lambda>_.
     bind (insert_stmt env (\<lambda>s. session \<notin> set (map fst (st_sessions s)))
       (\<lambda>s. s\<lparr>st_sessions := st_sessions s @ [(session, local_steam_id)]\<rparr>)) (\<lambda>_. ret session)))"

text \<open>The primary key, the ordinal of the session and the presence of the artifact decide silently.\<close>

definition record_gsi_snapshot :: "environment \<Rightarrow> string \<Rightarrow> string \<Rightarrow> int \<Rightarrow> int \<Rightarrow> unit storage" where
  "record_gsi_snapshot env session sha256 ordinal received_at_ms =
     bind (insert_or_ignore env
       (\<lambda>s. \<not> list_ex (present_row sha256) (st_artifacts s)
          \<or> list_ex (\<lambda>g. gs_sha256 g = sha256 \<or> gs_session g = session \<and> gs_arrival_ordinal g = ordinal) (st_snapshots s))
       (\<lambda>s. session \<in> set (map fst (st_sessions s)))
       (\<lambda>s. s\<lparr>st_snapshots := st_snapshots s @ [\<lparr>gs_sha256 = sha256, gs_session = session,
          gs_arrival_ordinal = ordinal, gs_received_at_ms = received_at_ms\<rparr>]\<rparr>))
     (changed_or (ConflictError ''snapshot hash, ordinal, or artifact''))"

definition requested_save :: "string \<Rightarrow> string \<Rightarrow> string \<Rightarrow> int \<Rightarrow> save_row" where
  "requested_save save request session ns = \<lparr>sr_id = save, sr_request_id = request, sr_session = session,
     sr_requested_ns = ns, sr_status = save_status_str Requested, sr_acknowledgements = 0, sr_artifact = None,
     sr_start_ns = None, sr_end_ns = None, sr_error_code = None\<rparr>"

definition request_save :: "environment \<Rightarrow> string \<Rightarrow> string \<Rightarrow> int \<Rightarrow> string storage" where
  "request_save env session request monotonic_ns =
     bind (query env (\<lambda>s. map_option sr_id (List.find (\<lambda>a. sr_request_id a = request) (st_saves s)))) (\<lambda>existing.
     case existing of
       Some save \<Rightarrow> ret save
     | None \<Rightarrow> bind (new_id env) (\<lambda>save.
         bind (insert_stmt env
           (\<lambda>s. save \<notin> set (map sr_id (st_saves s)) \<and> request \<notin> set (map sr_request_id (st_saves s))
              \<and> session \<in> set (map fst (st_sessions s)))
           (\<lambda>s. s\<lparr>st_saves := st_saves s @ [requested_save save request session monotonic_ns]\<rparr>)) (\<lambda>_. ret save)))"

definition save_attempt_for_request :: "environment \<Rightarrow> string \<Rightarrow> string storage" where
  "save_attempt_for_request env request =
     bind (query env (\<lambda>s. map_option sr_id (List.find (\<lambda>a. sr_request_id a = request) (st_saves s))))
       (lift_option (NotFound ''recorder save request''))"

definition acknowledge_save :: "environment \<Rightarrow> string \<Rightarrow> unit storage" where
  "acknowledge_save env save =
     bind (save_stmt env (\<lambda>a. sr_id a = save)
       (\<lambda>a. a\<lparr>sr_acknowledgements := sr_acknowledgements a + 1,
              sr_status := (if sr_status a = ''requested'' then ''acknowledged'' else sr_status a)\<rparr>)) (\<lambda>_. ret ())"

definition fail_save :: "environment \<Rightarrow> string \<Rightarrow> string \<Rightarrow> unit storage" where
  "fail_save env save error_code =
     bind (save_stmt env (\<lambda>a. sr_id a = save \<and> sr_status a \<noteq> ''saved'')
       (\<lambda>a. a\<lparr>sr_status := ''failed'', sr_error_code := Some error_code\<rparr>)) (\<lambda>_. ret ())"

definition open_save :: "string \<Rightarrow> save_row \<Rightarrow> bool" where
  "open_save save a \<longleftrightarrow> sr_id a = save \<and> sr_status a \<in> {''requested'', ''acknowledged''}"

definition complete_save :: "environment \<Rightarrow> string \<Rightarrow> string \<Rightarrow> int \<Rightarrow> int \<Rightarrow> unit storage" where
  "complete_save env save sha256 start_ns end_ns =
     (if end_ns < start_ns then throw (InvalidValue ''negative media range'') else
      bind (query env (\<lambda>s. list_ex (present_row sha256) (st_artifacts s))) (\<lambda>present.
      if \<not> present then throw (NotFound ''verified artifact'') else
      bind (save_stmt env (open_save save)
        (\<lambda>a. a\<lparr>sr_status := ''saved'', sr_artifact := Some sha256, sr_start_ns := Some start_ns,
               sr_end_ns := Some end_ns\<rparr>)) (\<lambda>_. ret ())))"

section \<open>Clips of saves\<close>

definition captured_clip :: "string \<Rightarrow> string \<Rightarrow> string \<Rightarrow> string \<Rightarrow> clip_row" where
  "captured_clip clip sha256 session provenance = \<lparr>cp_id = clip, cp_artifact = sha256, cp_session = session,
     cp_disposition = ''saved'', cp_title = None, cp_note = None, cp_favorite = False, cp_provenance = provenance,
     cp_recorded_at_ms = 0, cp_pre_roll_truncated = False, cp_retention_class = ''provisional'',
     cp_review_decision = ''pending'', cp_review_revision = None, cp_reviewed_at_ms = None, cp_origin_kind = None,
     cp_flag_time_ms = None, cp_deleted_at_ms = None\<rparr>"

text \<open>The join of \<open>save_attempt_clips\<close> and \<open>clips\<close>; the save is the primary key of the link.\<close>

definition clip_of_save :: "string \<Rightarrow> store \<Rightarrow> clip_row option" where
  "clip_of_save save s = Option.bind (map_of (st_save_clips s) save) (\<lambda>clip. clip_named clip s)"

definition insert_clip :: "environment \<Rightarrow> string \<Rightarrow> string \<Rightarrow> string \<Rightarrow> string \<Rightarrow> unit storage" where
  "insert_clip env clip sha256 session provenance =
     bind (now_ms env) (\<lambda>_.
     insert_stmt env
       (\<lambda>s. \<not> clip_exists clip s \<and> sha256 \<in> set (map ar_sha256 (st_artifacts s))
          \<and> session \<in> set (map fst (st_sessions s)))
       (\<lambda>s. s\<lparr>st_clips := st_clips s @ [captured_clip clip sha256 session provenance]\<rparr>))"

definition link_clip :: "environment \<Rightarrow> string \<Rightarrow> string \<Rightarrow> unit storage" where
  "link_clip env save clip = insert_stmt env
     (\<lambda>s. save \<notin> set (map fst (st_save_clips s)) \<and> clip \<notin> set (map snd (st_save_clips s))
        \<and> save \<in> set (map sr_id (st_saves s)) \<and> clip_exists clip s)
     (\<lambda>s. s\<lparr>st_save_clips := st_save_clips s @ [(save, clip)]\<rparr>)"

definition clip_of_saved :: "environment \<Rightarrow> string \<Rightarrow> string \<Rightarrow> string leaving storage" where
  "clip_of_saved env save provenance =
     bind (statement env (\<lambda>s. case List.find (\<lambda>a. sr_id a = save \<and> sr_status a = ''saved'') (st_saves s) of
         None \<Rightarrow> Inr (None, s)
       | Some a \<Rightarrow> (case sr_artifact a of None \<Rightarrow> Inl StatementFailed
           | Some sha256 \<Rightarrow> Inr (Some (sr_session a, sha256), s)))) (\<lambda>row.
     bind (lift_option (InvalidValue ''save attempt is not verified'') row) (\<lambda>(session, sha256).
     bind (new_id env) (\<lambda>clip.
     bind (insert_clip env clip sha256 session provenance) (\<lambda>_.
     bind (link_clip env save clip) (\<lambda>_. ret (Commit clip))))))"

definition create_clip :: "environment \<Rightarrow> string \<Rightarrow> string \<Rightarrow> string storage" where
  "create_clip env save provenance =
     bind (validate_capture_provenance provenance) (\<lambda>_.
     transaction_block env
       (bind (query env (\<lambda>s. map_option (\<lambda>c. (cp_id c, cp_provenance c)) (clip_of_save save s))) (\<lambda>existing.
        case existing of
          Some (clip, known) \<Rightarrow> if known = provenance then ret (Leave clip) else throw (ConflictError ''save attempt clip'')
        | None \<Rightarrow> clip_of_saved env save provenance)))"

text \<open>What a retry must agree with: the clip, its save and the range.\<close>

definition same_capture :: "save_row \<Rightarrow> clip_row \<Rightarrow> string \<Rightarrow> int \<Rightarrow> int \<Rightarrow> string \<Rightarrow> bool" where
  "same_capture a c sha256 start_ns end_ns provenance \<longleftrightarrow> sr_status a = ''saved'' \<and> cp_artifact c = sha256
     \<and> cp_provenance c = provenance \<and> sr_artifact a = Some sha256 \<and> sr_start_ns a = Some start_ns
     \<and> sr_end_ns a = Some end_ns"

definition captured_row :: "string \<Rightarrow> store \<Rightarrow> (save_row \<times> clip_row) option" where
  "captured_row save s = Option.bind (clip_of_save save s) (\<lambda>c. map_option (\<lambda>a. (a, c)) (save_named save s))"

definition finished_save :: "string \<Rightarrow> int \<Rightarrow> int \<Rightarrow> save_row \<Rightarrow> save_row" where
  "finished_save sha256 start_ns end_ns a = a\<lparr>sr_status := ''saved'', sr_acknowledgements := sr_acknowledgements a + 1,
     sr_artifact := Some sha256, sr_start_ns := Some start_ns, sr_end_ns := Some end_ns, sr_error_code := None\<rparr>"

text \<open>The first finalization of a save: it is marked saved and gets its clip.\<close>

definition first_finalization :: "environment \<Rightarrow> string \<Rightarrow> string \<Rightarrow> int \<Rightarrow> int \<Rightarrow> string \<Rightarrow> string leaving storage" where
  "first_finalization env save sha256 start_ns end_ns provenance =
     bind (query env (\<lambda>s. list_ex (present_row sha256) (st_artifacts s))) (\<lambda>present.
     if \<not> present then throw (NotFound ''verified artifact'') else
     bind (query env (\<lambda>s. map_option sr_session (List.find (open_save save) (st_saves s)))) (\<lambda>found.
     bind (lift_option (IllegalTransition ''captured clip finalization'') found) (\<lambda>session.
     bind (save_stmt env (open_save save) (finished_save sha256 start_ns end_ns)) (\<lambda>changed.
     if changed \<noteq> 1 then throw (IllegalTransition ''captured clip finalization'') else
     bind (new_id env) (\<lambda>clip.
     bind (insert_clip env clip sha256 session provenance) (\<lambda>_.
     bind (link_clip env save clip) (\<lambda>_. ret (Commit clip))))))))"

definition finalize_captured_clip :: "environment \<Rightarrow> string \<Rightarrow> string \<Rightarrow> int \<Rightarrow> int \<Rightarrow> string \<Rightarrow> string storage" where
  "finalize_captured_clip env save sha256 start_ns end_ns provenance =
     bind (validate_capture_provenance provenance) (\<lambda>_.
     if start_ns < 0 \<or> end_ns < start_ns then throw (InvalidValue ''captured clip range'') else
     transaction_block env
       (bind (query env (captured_row save)) (\<lambda>existing.
        case existing of
          Some (a, c) \<Rightarrow> if same_capture a c sha256 start_ns end_ns provenance then ret (Leave (cp_id c))
            else throw (ConflictError ''captured clip retry'')
        | None \<Rightarrow> first_finalization env save sha256 start_ns end_ns provenance)))"

section \<open>Reviews\<close>

definition checked_time :: "clip_row \<Rightarrow> bool" where
  "checked_time c \<longleftrightarrow> (case cp_reviewed_at_ms c of None \<Rightarrow> True | Some t \<Rightarrow> 0 \<le> t)"

definition set_clip_review :: "environment \<Rightarrow> string \<Rightarrow> clip_disposition \<Rightarrow> string option \<Rightarrow> bool \<Rightarrow> unit storage" where
  "set_clip_review env clip disposition title favorite =
     (let decision = (if disposition = KeptClip then KeepClip else PendingReview) in
      bind (now_ms env) (\<lambda>now.
      bind (clip_stmt env (live_clip clip)
        (\<lambda>c. c\<lparr>cp_disposition := disposition_str disposition, cp_title := title, cp_favorite := favorite,
               cp_review_decision := decision_str decision,
               cp_review_revision := map_option (\<lambda>r. r + 1) (cp_review_revision c), cp_reviewed_at_ms := Some now\<rparr>)
        checked_time)
      (changed_or (IllegalTransition ''clip missing or deleted''))))"

fun decided_disposition :: "clip_review_decision \<Rightarrow> clip_disposition" where
  "decided_disposition KeepClip = KeptClip"
| "decided_disposition PendingReview = InReview"
| "decided_disposition RejectClip = InReview"

fun insert_tags :: "environment \<Rightarrow> string \<Rightarrow> nat \<Rightarrow> string list \<Rightarrow> unit storage" where
  "insert_tags env clip position [] = ret ()"
| "insert_tags env clip position (tag # tags) =
     bind (insert_stmt env
       (\<lambda>s. clip_exists clip s \<and> sql_filled tag
          \<and> \<not> list_ex (\<lambda>t. tg_clip t = clip \<and> (tg_position t = position \<or> tg_tag t = tag)) (st_tags s))
       (\<lambda>s. s\<lparr>st_tags := st_tags s @ [\<lparr>tg_clip = clip, tg_position = position, tg_tag = tag\<rparr>]\<rparr>)) (\<lambda>_.
     insert_tags env clip (position + 1) tags)"

definition replace_clip_tags :: "environment \<Rightarrow> string \<Rightarrow> string list \<Rightarrow> unit storage" where
  "replace_clip_tags env clip tags =
     bind (update_stmt env (\<lambda>s. (count_rows (\<lambda>t. tg_clip t = clip) (st_tags s),
       s\<lparr>st_tags := filter (\<lambda>t. tg_clip t \<noteq> clip) (st_tags s)\<rparr>))) (\<lambda>_. insert_tags env clip 0 tags)"

definition reviewed_row :: "string option \<Rightarrow> string option \<Rightarrow> clip_review_decision \<Rightarrow> bool \<Rightarrow> int \<Rightarrow> int option
    \<Rightarrow> clip_row \<Rightarrow> clip_row" where
  "reviewed_row title note decision favorite now revision c = c\<lparr>cp_disposition := disposition_str (decided_disposition decision),
     cp_title := title, cp_note := note, cp_favorite := favorite, cp_review_decision := decision_str decision,
     cp_review_revision := revision, cp_reviewed_at_ms := Some now\<rparr>"

definition update_clip_review :: "environment \<Rightarrow> string \<Rightarrow> string option \<Rightarrow> string option \<Rightarrow> string list
    \<Rightarrow> clip_review_decision \<Rightarrow> bool \<Rightarrow> unit storage" where
  "update_clip_review env clip title note tags decision favorite =
     bind (validate_review_metadata title note tags) (\<lambda>_.
     transaction env
       (bind (now_ms env) (\<lambda>now.
        bind (clip_stmt env (live_clip clip)
          (\<lambda>c. reviewed_row title note decision favorite now (map_option (\<lambda>r. r + 1) (cp_review_revision c)) c)
          checked_time) (\<lambda>changed.
        bind (changed_or (NotFound ''live clip'') changed) (\<lambda>_. replace_clip_tags env clip tags)))))"

definition at_revision :: "string \<Rightarrow> int \<Rightarrow> clip_row \<Rightarrow> bool" where
  "at_revision clip revision c \<longleftrightarrow> live_clip clip c \<and> cp_review_revision c = Some revision"

definition compare_and_swap_clip_review :: "environment \<Rightarrow> string \<Rightarrow> nat \<Rightarrow> string option \<Rightarrow> string option
    \<Rightarrow> string list \<Rightarrow> clip_review_decision \<Rightarrow> bool \<Rightarrow> nat storage" where
  "compare_and_swap_clip_review env clip expected_revision title note tags decision favorite =
     bind (validate_review_metadata title note tags) (\<lambda>_.
     if int expected_revision > i64_max then throw (InvalidValue ''clip review revision'') else
     if int expected_revision + 1 > i64_max then throw (InvalidValue ''clip review revision'') else
     transaction env
       (bind (now_ms env) (\<lambda>now.
        bind (clip_stmt env (at_revision clip (int expected_revision))
          (reviewed_row title note decision favorite now (Some (int expected_revision + 1))) checked_time) (\<lambda>changed.
        if changed = 0 then
          bind (query env (\<lambda>s. map_option cp_review_revision (List.find (live_clip clip) (st_clips s)))) (\<lambda>revision.
          throw (case revision of
              None \<Rightarrow> NotFound ''live clip''
            | Some None \<Rightarrow> UnavailableValue ''clip review revision''
            | Some (Some _) \<Rightarrow> ConflictError ''clip review revision''))
        else bind (replace_clip_tags env clip tags) (\<lambda>_. ret (expected_revision + 1))))))"

section \<open>Origins and derivations\<close>

datatype clip_origin_input = AutoOrigin "string list" "string list" | ManualOrigin string nat "string list"

definition validate_group :: "string list \<Rightarrow> bool \<Rightarrow> unit storage" where
  "validate_group receipts required =
     (if required \<and> receipts = [] \<or> list_ex is_blank receipts \<or> \<not> distinct receipts
      then throw (InvalidValue ''clip origin evidence'') else ret ())"

fun validate_origin :: "clip_origin_input \<Rightarrow> unit storage" where
  "validate_origin (AutoOrigin triggers evidence) =
     bind (validate_group triggers True) (\<lambda>_. validate_group evidence True)"
| "validate_origin (ManualOrigin flag_receipt flag_time overlapping) =
     (if is_blank flag_receipt then throw (InvalidValue ''clip origin evidence'') else validate_group overlapping False)"

definition insert_origin :: "environment \<Rightarrow> string \<Rightarrow> string \<Rightarrow> nat \<Rightarrow> string \<Rightarrow> unit storage" where
  "insert_origin env clip kind position receipt = insert_stmt env
     (\<lambda>s. clip_exists clip s \<and> sql_filled receipt
        \<and> \<not> list_ex (\<lambda>g. og_clip g = clip \<and> og_kind g = kind \<and> (og_position g = position \<or> og_receipt g = receipt))
             (st_origins s))
     (\<lambda>s. s\<lparr>st_origins := st_origins s @ [\<lparr>og_clip = clip, og_kind = kind, og_position = position, og_receipt = receipt\<rparr>]\<rparr>)"

fun insert_receipt_group :: "environment \<Rightarrow> string \<Rightarrow> string \<Rightarrow> nat \<Rightarrow> string list \<Rightarrow> unit storage" where
  "insert_receipt_group env clip kind position [] = ret ()"
| "insert_receipt_group env clip kind position (receipt # receipts) =
     bind (insert_origin env clip kind position receipt) (\<lambda>_.
     insert_receipt_group env clip kind (position + 1) receipts)"

fun insert_origin_receipts :: "environment \<Rightarrow> string \<Rightarrow> clip_origin_input \<Rightarrow> unit storage" where
  "insert_origin_receipts env clip (AutoOrigin triggers evidence) =
     bind (insert_receipt_group env clip ''trigger'' 0 triggers) (\<lambda>_. insert_receipt_group env clip ''evidence'' 0 evidence)"
| "insert_origin_receipts env clip (ManualOrigin flag_receipt flag_time overlapping) =
     bind (insert_origin env clip ''manual_flag'' 0 flag_receipt) (\<lambda>_.
     insert_receipt_group env clip ''overlapping_auto'' 0 overlapping)"

definition origin_columns :: "clip_origin_input \<Rightarrow> (string \<times> int option) storage" where
  "origin_columns origin = (case origin of
     AutoOrigin _ _ \<Rightarrow> ret (''auto'', None)
   | ManualOrigin _ flag_time _ \<Rightarrow> (if int flag_time > i64_max then throw (InvalidValue ''flag time'')
       else ret (''manual'', Some (int flag_time))))"

definition complete_clip_model_metadata :: "environment \<Rightarrow> string \<Rightarrow> nat \<Rightarrow> clip_origin_input \<Rightarrow> unit storage" where
  "complete_clip_model_metadata env clip duration_ms origin =
     bind (\<lambda>s. (positive_i64 duration_ms ''clip duration'', s)) (\<lambda>duration.
     bind (validate_origin origin) (\<lambda>_.
     transaction env
       (bind (query env (\<lambda>s. map_option cp_artifact (List.find (live_clip clip) (st_clips s)))) (\<lambda>found.
        bind (lift_option (NotFound ''live clip'') found) (\<lambda>sha256.
        let free = (\<lambda>a. ar_sha256 a = sha256 \<and> ar_duration_ms a \<in> {None, Some duration}) in
        bind (update_stmt env (\<lambda>s. (count_rows free (st_artifacts s),
          s\<lparr>st_artifacts := update_rows free (\<lambda>a. a\<lparr>ar_duration_ms := Some duration\<rparr>) (st_artifacts s)\<rparr>))) (\<lambda>changed.
        bind (changed_or (ConflictError ''verified media duration'') changed) (\<lambda>_.
        bind (origin_columns origin) (\<lambda>(kind, flag_time).
        bind (clip_stmt env (live_clip clip)
          (\<lambda>c. c\<lparr>cp_origin_kind := Some kind, cp_flag_time_ms := flag_time,
                 cp_review_revision := Some (case cp_review_revision c of None \<Rightarrow> 0 | Some r \<Rightarrow> r)\<rparr>)
          (\<lambda>_. True)) (\<lambda>_.
        bind (update_stmt env (\<lambda>s. (count_rows (\<lambda>g. og_clip g = clip) (st_origins s),
          s\<lparr>st_origins := filter (\<lambda>g. og_clip g \<noteq> clip) (st_origins s)\<rparr>))) (\<lambda>_.
        insert_origin_receipts env clip origin))))))))))"

text \<open>\<open>INSERT OR IGNORE\<close>: a violated check is ignored like a violated key, a missing clip is not.\<close>

definition derive_clip :: "environment \<Rightarrow> string \<Rightarrow> string \<Rightarrow> string \<Rightarrow> (int \<times> int) option \<Rightarrow> unit storage" where
  "derive_clip env derived source operation trim =
     bind (now_ms env) (\<lambda>_.
     bind (insert_or_ignore env
       (\<lambda>s. list_ex (\<lambda>d. dv_derived d = derived \<and> dv_source d = source) (st_derivations s)
          \<or> operation \<notin> {''consolidate'', ''trim''} \<or> derived = source
          \<or> (case trim of None \<Rightarrow> False | Some (a, b) \<Rightarrow> b < a))
       (\<lambda>s. clip_exists derived s \<and> clip_exists source s)
       (\<lambda>s. s\<lparr>st_derivations := st_derivations s @ [\<lparr>dv_derived = derived, dv_source = source, dv_operation = operation,
          dv_start_ms = map_option fst trim, dv_end_ms = map_option snd trim\<rparr>]\<rparr>))
     (changed_or (ConflictError ''clip derivation'')))"

section \<open>Exports\<close>

definition enqueue_export :: "environment \<Rightarrow> string \<Rightarrow> string \<Rightarrow> string storage" where
  "enqueue_export env clip target =
     (if target = [] then throw (InvalidValue ''clip export target'') else
      bind (new_id env) (\<lambda>export. bind (now_ms env) (\<lambda>_.
      bind (insert_stmt env
        (\<lambda>s. export \<notin> set (map er_id (st_exports s)) \<and> clip_exists clip s)
        (\<lambda>s. s\<lparr>st_exports := st_exports s @ [\<lparr>er_id = export, er_clip = clip, er_target_path = target,
           er_status = ''queued'', er_completed_at_ms = None, er_error_code = None, er_output_sha256 = None,
           er_output_byte_length = None, er_output_media_profile = None\<rparr>]\<rparr>)) (\<lambda>_. ret export))))"

definition begin_clip_export :: "environment \<Rightarrow> string \<Rightarrow> unit storage" where
  "begin_clip_export env export =
     bind (export_stmt env (\<lambda>e. er_id e = export \<and> er_status e = ''queued'') (\<lambda>e. e\<lparr>er_status := ''running''\<rparr>))
       (changed_or (IllegalTransition ''clip export begin''))"

definition succeed_clip_export :: "environment \<Rightarrow> string \<Rightarrow> string \<Rightarrow> nat \<Rightarrow> string \<Rightarrow> unit storage" where
  "succeed_clip_export env export sha256 byte_length media_profile =
     (if length sha256 \<noteq> 64 \<or> media_profile = [] then throw (InvalidValue ''clip export output'')
      else if int byte_length > i64_max then throw (InvalidValue ''clip export output'') else
      bind (now_ms env) (\<lambda>now.
      bind (export_stmt env (\<lambda>e. er_id e = export \<and> er_status e = ''running'')
        (\<lambda>e. e\<lparr>er_status := ''succeeded'', er_completed_at_ms := Some now, er_error_code := None,
               er_output_sha256 := Some sha256, er_output_byte_length := Some (int byte_length),
               er_output_media_profile := Some media_profile\<rparr>))
      (changed_or (IllegalTransition ''clip export succeed''))))"

definition fail_clip_export :: "environment \<Rightarrow> string \<Rightarrow> string \<Rightarrow> unit storage" where
  "fail_clip_export env export error_code =
     (if error_code = [] then throw (InvalidValue ''clip export error'') else
      bind (now_ms env) (\<lambda>now.
      bind (export_stmt env (\<lambda>e. er_id e = export \<and> er_status e \<in> {''queued'', ''running''})
        (\<lambda>e. e\<lparr>er_status := ''failed'', er_completed_at_ms := Some now, er_error_code := Some error_code\<rparr>))
      (changed_or (IllegalTransition ''clip export fail''))))"

record clip_export_record =
  ce_id :: string
  ce_clip_id :: string
  ce_target_path :: string
  ce_status :: clip_export_status
  ce_error_code :: "string option"
  ce_output_sha256 :: "string option"
  ce_output_byte_length :: "nat option"
  ce_output_media_profile :: "string option"

definition clip_export :: "environment \<Rightarrow> string \<Rightarrow> clip_export_record storage" where
  "clip_export env export =
     bind (query env (\<lambda>s. List.find (\<lambda>e. er_id e = export) (st_exports s))) (\<lambda>row.
     bind (lift_option (NotFound ''clip export'') row) (\<lambda>e.
     bind (\<lambda>s. (export_status_parse (er_status e), s)) (\<lambda>status.
     if (case er_output_byte_length e of None \<Rightarrow> False | Some n \<Rightarrow> n < 0) then throw (InvalidValue ''clip export output'')
     else ret \<lparr>ce_id = er_id e, ce_clip_id = er_clip e, ce_target_path = er_target_path e, ce_status = status,
       ce_error_code = er_error_code e, ce_output_sha256 = er_output_sha256 e,
       ce_output_byte_length = map_option nat (er_output_byte_length e), ce_output_media_profile = er_output_media_profile e\<rparr>)))"

section \<open>Deletion\<close>

record delete_result =
  dr_clip_deleted :: bool
  dr_artifact_deleted :: bool

definition undeleted :: "string \<Rightarrow> clip_row \<Rightarrow> bool" where
  "undeleted sha256 c \<longleftrightarrow> cp_artifact c = sha256 \<and> cp_deleted_at_ms c = None"

text \<open>The file to remove: that of the artifact, when it is present and no other clip keeps it.\<close>

definition doomed_path :: "environment \<Rightarrow> string \<Rightarrow> nat \<Rightarrow> string option storage" where
  "doomed_path env sha256 others =
     (if others \<noteq> 0 then ret None else
      bind (artifact env sha256) (\<lambda>info.
      if af_availability info = PresentArtifact then
        bind (lift_option (InvalidValue ''artifact path'') (af_relative_path info)) (\<lambda>relative.
        bind (safe_artifact_path env sha256 relative (af_byte_length info)) (\<lambda>path. ret (Some path)))
      else ret None))"

definition remove_doomed :: "environment \<Rightarrow> string option \<Rightarrow> unit storage" where
  "remove_doomed env path = (case path of
     None \<Rightarrow> ret ()
   | Some p \<Rightarrow> bind (path_exists p) (\<lambda>exists.
       if exists then bind (remove_file env p) (\<lambda>_. touch env) else ret ()))"

definition delete_clip :: "environment \<Rightarrow> string \<Rightarrow> delete_result storage" where
  "delete_clip env clip =
     bind (query env (\<lambda>s. map_option cp_artifact
       (List.find (\<lambda>c. cp_id c = clip \<and> cp_deleted_at_ms c = None) (st_clips s)))) (\<lambda>found.
     bind (lift_option (NotFound ''live clip'') found) (\<lambda>sha256.
     bind (query env (\<lambda>s. count_rows (\<lambda>c. undeleted sha256 c \<and> cp_id c \<noteq> clip) (st_clips s))) (\<lambda>others.
     bind (doomed_path env sha256 others) (\<lambda>path.
     bind (now_ms env) (\<lambda>now.
     bind (clip_stmt env (\<lambda>c. cp_id c = clip \<and> cp_deleted_at_ms c = None)
       (\<lambda>c. c\<lparr>cp_disposition := ''deleted'', cp_deleted_at_ms := Some now\<rparr>) (\<lambda>_. True)) (\<lambda>n.
     bind (changed_or (IllegalTransition ''clip delete'') n) (\<lambda>_.
     bind (query env (\<lambda>s. count_rows (undeleted sha256) (st_clips s))) (\<lambda>remaining.
     if remaining > 0 then ret \<lparr>dr_clip_deleted = True, dr_artifact_deleted = False\<rparr> else
     bind (remove_doomed env path) (\<lambda>_.
     bind (now_ms env) (\<lambda>_.
     bind (update_stmt env (\<lambda>s. (count_rows (\<lambda>a. ar_sha256 a = sha256) (st_artifacts s),
       s\<lparr>st_artifacts := update_rows (\<lambda>a. ar_sha256 a = sha256) (\<lambda>a. a\<lparr>ar_availability := ''deleted''\<rparr>) (st_artifacts s)\<rparr>)))
     (\<lambda>_. ret \<lparr>dr_clip_deleted = True, dr_artifact_deleted = True\<rparr>)))))))))))"

end
