(* ===== verification/Store_Frames.thy ===== *)
theory Store_Frames
  imports Import_Queue Match_Store Artifact_Store
begin

text \<open>
  What each group of operations leaves alone: a relation on stores that ignores the files and the catalogue is
  respected by every operation on artifacts, one that ignores the queue by every operation on the queue, and
  one that ignores the tables of the analyses by every operation on those.
\<close>

section \<open>Frames\<close>

locale artifact_frame = ledger_order +
  assumes ignores_files: "R s (s\<lparr>st_files := f\<rparr>)"
    and ignores_artifacts: "R s (s\<lparr>st_artifacts := a\<rparr>)"
begin

lemma obeys_nodes: "obeys R (modify (put_node path n))" "obeys R (modify (drop_node path))"
  "obeys R (modify (\<lambda>s. put_node path n (drop_node source s)))"
proof -
  have "R s (put_node path n (drop_node source s))" for s
    unfolding put_node_def drop_node_def by (rule order_trans; rule ignores_files)
  then show "obeys R (modify (\<lambda>s. put_node path n (drop_node source s)))" by (rule obeys_modify)
qed (auto intro!: obeys_modify simp: put_node_def drop_node_def ignores_files)

lemma obeys_files: "obeys R (symlink_metadata env path)" "obeys R (create_new_file env path)"
  "obeys R (append_file env path chunk)" "obeys R (remove_file env path)" "obeys R (create_dir env path)"
  "obeys R (touch env)" "obeys R (path_exists path)" "obeys R (read_dir env path)"
  unfolding symlink_metadata_def create_new_file_def append_file_def remove_file_def create_dir_def touch_def
    path_exists_def read_dir_def
  by (auto intro!: ledger_intros obeys_nodes split: option.split node.split bool.split)

lemma obeys_rename: "obeys R (rename_node env source target)"
  unfolding rename_node_def
  by (auto intro!: obeys_io obeys_bind obeys_pure obeys_nodes split: option.split)

lemma obeys_staging: "obeys R (stage_chunks env path reads acc)" "obeys R (stage_from_reader env sha reads)"
  "obeys R (stage_artifact env sha data)"
proof -
  show chunks: "obeys R (stage_chunks env path reads acc)" for path reads acc
    by (induction env path reads acc rule: stage_chunks.induct) (auto intro!: obeys_bind obeys_pure obeys_files)
  show reader: "obeys R (stage_from_reader env sha reads)" for reads
    unfolding stage_from_reader_def Let_def
    by (intro obeys_bind obeys_environment obeys_files obeys_pure chunks)
  show "obeys R (stage_artifact env sha data)" unfolding stage_artifact_def by (rule reader)
qed

lemma obeys_record_artifact: "obeys R (record_artifact env sha256 relative len media)"
  unfolding record_artifact_def by (intro ledger_intros) (simp add: ignores_artifacts)

lemma obeys_commit_artifact: "obeys R (commit_artifact env staged extension media)"
  unfolding commit_artifact_def Let_def
  by (auto intro!: obeys_bind obeys_files obeys_rename obeys_record_artifact obeys_pure)

lemma obeys_artifact: "obeys R (artifact env sha256)"
  unfolding artifact_def by (auto intro!: obeys_bind obeys_query obeys_pure split: sum.split)

lemma obeys_expect_artifact: "obeys R (expect_artifact env sha256 len media)"
  unfolding expect_artifact_def
  by (auto intro!: obeys_bind obeys_environment obeys_insert_or_ignore obeys_pure ignores_artifacts)

lemma obeys_quarantine_artifact: "obeys R (quarantine_artifact env sha256 reason)"
  unfolding quarantine_artifact_def Let_def
  by (auto intro!: obeys_bind obeys_artifact obeys_query obeys_pure obeys_environment obeys_files obeys_rename
      obeys_wrappers obeys_statement ignores_artifacts split: sum.split if_splits)

lemma obeys_recovery: "obeys R (recover_staging env)" "obeys R (mark_missing env rows n)"
  "obeys R (remove_staged env entries n)" "obeys R (quarantine_orphan env path)" "obeys R (recover_file env sha path data)"
  "obeys R (recover_prefix env sha e)" "obeys R (recover_artifacts env sha)"
proof -
  show "obeys R (recover_staging env)" unfolding recover_staging_def
    by (auto intro!: obeys_bind obeys_files obeys_for_each obeys_pure split: node.split)
  show mark: "obeys R (mark_missing env rows n)" for rows n
    by (induction env rows n rule: mark_missing.induct)
      (auto intro!: obeys_bind obeys_files obeys_update_stmt obeys_pure ignores_artifacts)
  show staged: "obeys R (remove_staged env entries n)" for entries n
    by (induction env entries n rule: remove_staged.induct) (auto intro!: obeys_bind obeys_files obeys_pure)
  show orphan: "obeys R (quarantine_orphan env path)" for path
    unfolding quarantine_orphan_def by (intro obeys_bind obeys_environment obeys_rename)
  show on_file: "obeys R (recover_file env sha path data)" for path data
    unfolding recover_file_def Let_def
    by (auto intro!: obeys_bind orphan obeys_files obeys_query obeys_environment obeys_pure obeys_insert_stmt ignores_artifacts)
  show dir: "obeys R (recover_prefix env sha e)" for e
    unfolding recover_prefix_def
    by (cases e) (auto intro!: obeys_bind obeys_files obeys_for_each obeys_pure on_file split: node.split)
  show "obeys R (recover_artifacts env sha)"
    unfolding recover_artifacts_def by (intro obeys_bind obeys_query mark obeys_files staged obeys_for_each dir obeys_pure)
qed

lemmas artifact_frame = obeys_staging obeys_commit_artifact obeys_artifact obeys_expect_artifact
  obeys_quarantine_artifact obeys_recovery

end

locale queue_frame = ledger_order +
  assumes ignores_queue: "R s (s\<lparr>st_jobs := j, st_attempts := a\<rparr>)"
begin

lemma ignores_jobs: "R s (s\<lparr>st_jobs := j\<rparr>)"
  using ignores_queue [where s = s and j = j and a = "st_attempts s"] by simp

lemma frames_status_stmt: "obeys R (status_stmt env p f)"
  unfolding status_stmt_def by (auto intro!: obeys_statement ignores_queue split: option.splits)

lemma frames_job_stmt: "obeys R (job_stmt env p f)"
  unfolding job_stmt_def by (intro obeys_update_stmt) (simp add: ignores_jobs)

lemma frames_require_changed: "obeys R (require_changed e n)"
  by (simp add: require_changed_def obeys_pure)

lemma queue_frame: "obeys R (enqueue_import env demo)" "obeys R (lease_import env job owner expires)"
  "obeys R (update_import_progress env job owner d t bp h)" "obeys R (update_parser_progress env job owner u)"
  "obeys R (finish_import_with_diagnostic env job owner phase e r n dg)" "obeys R (finish_import env job owner phase e r n)"
  "obeys R (reset_import_retry env job)" "obeys R (recover_expired_imports env now)"
  unfolding enqueue_import_def lease_import_def update_import_progress_def update_parser_progress_def
    finish_import_def finish_import_with_diagnostic_def reset_import_retry_def recover_expired_imports_def
  by (auto intro!: obeys_bind obeys_environment obeys_insert_or_ignore obeys_pure frames_status_stmt frames_job_stmt
      frames_require_changed ignores_jobs)

end

locale analysis_frame = ledger_order +
  assumes ignores_matches: "R s (s\<lparr>st_matches := m\<rparr>)" and ignores_runs: "R s (s\<lparr>st_runs := r\<rparr>)"
    and ignores_rounds: "R s (s\<lparr>st_rounds := d\<rparr>)" and ignores_players: "R s (s\<lparr>st_players := p\<rparr>)"
    and ignores_match_players: "R s (s\<lparr>st_match_players := q\<rparr>)" and ignores_receipts: "R s (s\<lparr>st_receipts := e\<rparr>)"
    and ignores_round_metrics: "R s (s\<lparr>st_round_metrics := x\<rparr>)" and ignores_vectors: "R s (s\<lparr>st_vectors := v\<rparr>)"
    and ignores_components: "R s (s\<lparr>st_components := c\<rparr>)" and ignores_unavailable: "R s (s\<lparr>st_unavailable := u\<rparr>)"
begin

lemmas ignores = ignores_matches ignores_runs ignores_rounds ignores_players ignores_match_players ignores_receipts
  ignores_round_metrics ignores_vectors ignores_components ignores_unavailable

lemma analysis_frame: "obeys R (import_match env demo local map_name)" "obeys R (match_for_demo env demo)"
  "obeys R (completed_analysis_for_identity env m identity)" "obeys R (begin_analysis env m identity)"
  "obeys R (add_round env run number end_tick winner)" "obeys R (upsert_player env steam_id name)"
  "obeys R (add_match_participant env m steam_id participation)"
  "obeys R (add_receipt env run rnd key tick ordinal ps pl sn pr)"
  "obeys R (write_round_metric env run i steam_id key n k receipt)"
  "obeys R (persist_available_rating env run steam_id formula bp receipt')"
  "obeys R (persist_rating_component env vector key n k value_bp weight_bp receipt')"
  "obeys R (persist_unavailable_rating env run steam_id formula reason receipt')"
  unfolding import_match_def match_for_demo_def completed_analysis_for_identity_def begin_analysis_def add_round_def
    upsert_player_def add_match_participant_def add_receipt_def write_round_metric_def persist_available_rating_def
    persist_rating_component_def persist_unavailable_rating_def
  by (auto intro!: obeys_bind obeys_environment obeys_query obeys_insert_stmt obeys_insert_or_ignore obeys_statement
      obeys_pure ignores simp: order_refl split: if_splits)

lemma obeys_complete_analysis: "obeys R (complete_analysis env run)"
  unfolding complete_analysis_def
  by (auto intro!: obeys_transaction obeys_bind obeys_statement obeys_update_stmt obeys_insert_stmt ignores
      simp: order_refl split: option.splits)

end

section \<open>What is left alone\<close>

definition same_queue :: "store \<Rightarrow> store \<Rightarrow> bool" where
  "same_queue s t \<longleftrightarrow> st_jobs t = st_jobs s \<and> st_attempts t = st_attempts s"

interpretation same_queue: artifact_frame same_queue
  by unfold_locales (auto simp: same_queue_def rolled_back_def)

interpretation same_queue: analysis_frame same_queue
  by unfold_locales (auto simp: same_queue_def)

definition same_analyses :: "store \<Rightarrow> store \<Rightarrow> bool" where
  "same_analyses s t \<longleftrightarrow> st_matches t = st_matches s \<and> st_runs t = st_runs s \<and> st_rounds t = st_rounds s
     \<and> st_players t = st_players s \<and> st_match_players t = st_match_players s \<and> st_receipts t = st_receipts s
     \<and> st_round_metrics t = st_round_metrics s \<and> st_vectors t = st_vectors s \<and> st_components t = st_components s
     \<and> st_unavailable t = st_unavailable s"

interpretation same_analyses: artifact_frame same_analyses
  by unfold_locales (auto simp: same_analyses_def rolled_back_def)

interpretation same_analyses: queue_frame same_analyses
  by unfold_locales (auto simp: same_analyses_def)

end
