(* ===== verification/Clip_Store_Correct.thy ===== *)
theory Clip_Store_Correct
  imports Clip_Store Store_Frames Import_Queue_Correct
begin

text \<open>
  Saves, clips and exports under any sequence of operations: what a saved attempt, a clip and a finished export
  keep for ever, the consistency of their tables, the retry of a finalization, the comparison of revisions and
  the deletion of media that clips share.
\<close>

section \<open>What rows keep\<close>

text \<open>A saved attempt keeps its artifact and its range.\<close>

definition save_evolves :: "save_row \<Rightarrow> save_row \<Rightarrow> bool" where
  "save_evolves a b \<longleftrightarrow> sr_id b = sr_id a \<and> sr_request_id b = sr_request_id a \<and> sr_session b = sr_session a
     \<and> sr_requested_ns b = sr_requested_ns a
     \<and> (sr_status a = ''saved'' \<longrightarrow> sr_status b = ''saved'' \<and> sr_artifact b = sr_artifact a
          \<and> sr_start_ns b = sr_start_ns a \<and> sr_end_ns b = sr_end_ns a)"

text \<open>A clip keeps its media, a deletion is final, and a review that changes anything raises the revision.\<close>

definition review_of :: "clip_row \<Rightarrow> string option \<times> string option \<times> bool \<times> string \<times> int option" where
  "review_of c = (cp_title c, cp_note c, cp_favorite c, cp_review_decision c, cp_reviewed_at_ms c)"

definition clip_evolves :: "clip_row \<Rightarrow> clip_row \<Rightarrow> bool" where
  "clip_evolves c d \<longleftrightarrow> cp_id d = cp_id c \<and> cp_artifact d = cp_artifact c \<and> cp_session d = cp_session c
     \<and> cp_provenance d = cp_provenance c
     \<and> (cp_disposition c = ''deleted'' \<longrightarrow> cp_disposition d = ''deleted'')
     \<and> (cp_deleted_at_ms c \<noteq> None \<longrightarrow> cp_deleted_at_ms d = cp_deleted_at_ms c)
     \<and> (\<forall>m. cp_review_revision c = Some m \<longrightarrow>
          (\<exists>n. cp_review_revision d = Some n \<and> m \<le> n \<and> (review_of d \<noteq> review_of c \<longrightarrow> m < n)))"

text \<open>A finished export never changes, a running one is not queued again.\<close>

definition export_evolves :: "export_row \<Rightarrow> export_row \<Rightarrow> bool" where
  "export_evolves e f \<longleftrightarrow> er_id f = er_id e \<and> er_clip f = er_clip e \<and> er_target_path f = er_target_path e
     \<and> (er_status e \<in> {''succeeded'', ''failed''} \<longrightarrow> f = e)
     \<and> (er_status e = ''running'' \<longrightarrow> er_status f \<in> {''running'', ''succeeded'', ''failed''})"

interpretation saves: row_order save_evolves
  by unfold_locales (auto simp: save_evolves_def)

interpretation clips: row_order clip_evolves
proof
  show "clip_evolves c c" for c by (simp add: clip_evolves_def)
next
  fix c d e assume cd: "clip_evolves c d" and de: "clip_evolves d e"
  have "\<exists>k. cp_review_revision e = Some k \<and> m \<le> k \<and> (review_of e \<noteq> review_of c \<longrightarrow> m < k)"
    if "cp_review_revision c = Some m" for m
  proof -
    from cd that obtain n where n: "cp_review_revision d = Some n" "m \<le> n" "review_of d \<noteq> review_of c \<longrightarrow> m < n"
      by (auto simp: clip_evolves_def)
    from de n(1) obtain k where "cp_review_revision e = Some k" "n \<le> k" "review_of e \<noteq> review_of d \<longrightarrow> n < k"
      by (auto simp: clip_evolves_def)
    with n show ?thesis by (cases "review_of d = review_of c") auto
  qed
  with cd de show "clip_evolves c e" by (auto simp: clip_evolves_def)
qed

interpretation exports: row_order export_evolves
  by unfold_locales (auto simp: export_evolves_def)

interpretation links: row_order "(=) :: string \<times> string \<Rightarrow> string \<times> string \<Rightarrow> bool"
  by unfold_locales auto

section \<open>Consistent tables\<close>

definition save_ok :: "save_row \<Rightarrow> bool" where
  "save_ok a \<longleftrightarrow> sr_status a \<in> {''requested'', ''acknowledged'', ''saved'', ''failed''}
     \<and> (sr_artifact a \<noteq> None \<longleftrightarrow> sr_status a = ''saved'')"

definition clip_ok :: "clip_row \<Rightarrow> bool" where
  "clip_ok c \<longleftrightarrow> cp_disposition c \<in> {''saved'', ''in_review'', ''kept'', ''deleted''}
     \<and> cp_review_decision c \<in> {''pending'', ''keep'', ''reject''}
     \<and> (cp_deleted_at_ms c \<noteq> None \<longrightarrow> cp_disposition c = ''deleted'')
     \<and> (cp_disposition c = ''kept'' \<longrightarrow> cp_review_decision c = ''keep'')
     \<and> (cp_review_decision c = ''keep'' \<longrightarrow> cp_disposition c \<in> {''kept'', ''deleted''})"

definition export_ok :: "export_row \<Rightarrow> bool" where
  "export_ok e \<longleftrightarrow> er_status e \<in> {''queued'', ''running'', ''succeeded'', ''failed''}
     \<and> (er_error_code e \<noteq> None \<longleftrightarrow> er_status e = ''failed'')
     \<and> (er_output_sha256 e \<noteq> None \<longleftrightarrow> er_status e = ''succeeded'')
     \<and> (er_completed_at_ms e \<noteq> None \<longleftrightarrow> er_status e \<in> {''succeeded'', ''failed''})"

text \<open>A clip of a save shows the media that the save verified, in the session of the save.\<close>

definition link_ok :: "store \<Rightarrow> string \<times> string \<Rightarrow> bool" where
  "link_ok s l \<longleftrightarrow> (\<exists>a\<in>set (st_saves s). \<exists>c\<in>set (st_clips s). l = (sr_id a, cp_id c) \<and> sr_status a = ''saved''
     \<and> sr_artifact a = Some (cp_artifact c) \<and> sr_session a = cp_session c)"

definition clips_ok :: "store \<Rightarrow> bool" where
  "clips_ok s \<longleftrightarrow> distinct (map sr_id (st_saves s)) \<and> distinct (map sr_request_id (st_saves s))
     \<and> distinct (map cp_id (st_clips s)) \<and> distinct (map fst (st_save_clips s)) \<and> distinct (map snd (st_save_clips s))
     \<and> distinct (map er_id (st_exports s))
     \<and> (\<forall>a\<in>set (st_saves s). save_ok a) \<and> (\<forall>c\<in>set (st_clips s). clip_ok c)
     \<and> (\<forall>e\<in>set (st_exports s). export_ok e) \<and> (\<forall>l\<in>set (st_save_clips s). link_ok s l)"

definition clips_extend :: "store \<Rightarrow> store \<Rightarrow> bool" where
  "clips_extend s t \<longleftrightarrow> extends save_evolves (st_saves s) (st_saves t) \<and> extends clip_evolves (st_clips s) (st_clips t)
     \<and> extends (=) (st_save_clips s) (st_save_clips t) \<and> extends export_evolves (st_exports s) (st_exports t)"

definition clips_evolve :: "store \<Rightarrow> store \<Rightarrow> bool" where
  "clips_evolve s t \<longleftrightarrow> clips_extend s t \<and> (clips_ok s \<longrightarrow> clips_ok t)"

lemma clips_extend_refl: "clips_extend s s"
  by (simp add: clips_extend_def saves.extends_refl clips.extends_refl links.extends_refl exports.extends_refl)

lemma clips_extend_trans: "clips_extend s t \<Longrightarrow> clips_extend t u \<Longrightarrow> clips_extend s u"
  unfolding clips_extend_def
  by (meson saves.extends_trans clips.extends_trans links.extends_trans exports.extends_trans)

lemma same_tables:
  assumes "st_saves t = st_saves s" "st_clips t = st_clips s" "st_save_clips t = st_save_clips s"
    "st_exports t = st_exports s"
  shows "clips_evolve s t"
  using clips_extend_refl [of s] assms by (simp add: clips_evolve_def clips_extend_def clips_ok_def link_ok_def)

interpretation clip_ledger: ledger_order clips_evolve
proof unfold_locales
  show "clips_evolve s s" "clips_evolve s (advance s)" "clips_evolve s (rolled_back s t)" for s t
    by (simp_all add: same_tables rolled_back_def)
  show "clips_evolve s t \<Longrightarrow> clips_evolve t u \<Longrightarrow> clips_evolve s u" for s t u
    by (auto simp: clips_evolve_def intro: clips_extend_trans)
qed

interpretation clip_frame: artifact_frame clips_evolve
  by unfold_locales (simp_all add: same_tables)

lemma link_kept:
  assumes "link_ok s l" "clips_extend s t"
  shows "link_ok t l"
proof -
  from assms(1) obtain a c where ac: "a \<in> set (st_saves s)" "c \<in> set (st_clips s)" "l = (sr_id a, cp_id c)"
    "sr_status a = ''saved''" "sr_artifact a = Some (cp_artifact c)" "sr_session a = cp_session c"
    by (auto simp: link_ok_def)
  from assms(2) have "extends save_evolves (st_saves s) (st_saves t)" "extends clip_evolves (st_clips s) (st_clips t)"
    by (simp_all add: clips_extend_def)
  from extends_member [OF this(1) ac(1)] extends_member [OF this(2) ac(2)] obtain a' c' where
    "a' \<in> set (st_saves t)" "save_evolves a a'" "c' \<in> set (st_clips t)" "clip_evolves c c'" by auto
  moreover have "l = (sr_id a', cp_id c') \<and> sr_status a' = ''saved'' \<and> sr_artifact a' = Some (cp_artifact c')
      \<and> sr_session a' = cp_session c'" if "save_evolves a a'" "clip_evolves c c'" for a' c'
  proof -
    from that(1) ac(4) have "sr_id a' = sr_id a" "sr_session a' = sr_session a" "sr_status a' = ''saved''"
      "sr_artifact a' = sr_artifact a" by (simp_all add: save_evolves_def)
    moreover from that(2) have "cp_id c' = cp_id c" "cp_session c' = cp_session c" "cp_artifact c' = cp_artifact c"
      by (simp_all add: clip_evolves_def)
    ultimately show ?thesis using ac(3,5,6) by simp
  qed
  ultimately show ?thesis unfolding link_ok_def by blast
qed

section \<open>Statements\<close>

lemma obeys_save_stmt:
  assumes "\<And>a. p a \<Longrightarrow> save_evolves a (f a)" "\<And>a. p a \<Longrightarrow> save_ok a \<Longrightarrow> save_ok (f a)"
  shows "obeys clips_evolve (save_stmt env p f)"
proof -
  have "clips_evolve s (s\<lparr>st_saves := update_rows p f (st_saves s)\<rparr>)" (is "clips_evolve s ?t") for s
  proof -
    have ext: "clips_extend s ?t"
      using clips_extend_refl [of s] assms(1) by (simp add: clips_extend_def saves.extends_update_rows)
    have "map sr_id (st_saves ?t) = map sr_id (st_saves s)" "map sr_request_id (st_saves ?t) = map sr_request_id (st_saves s)"
      using assms(1) by (auto simp: save_evolves_def intro!: map_update_rows)
    with ext link_kept [OF _ ext] assms(2) show ?thesis
      by (auto simp: clips_evolve_def clips_ok_def set_update_rows)
  qed
  then show ?thesis unfolding save_stmt_def by (intro clip_ledger.obeys_update_stmt) simp
qed

lemma obeys_clip_stmt:
  assumes "\<And>c. p c \<Longrightarrow> clip_evolves c (f c)" "\<And>c. p c \<Longrightarrow> clip_ok c \<Longrightarrow> clip_ok (f c)"
  shows "obeys clips_evolve (clip_stmt env p f check)"
proof -
  have "clips_evolve s (s\<lparr>st_clips := update_rows p f (st_clips s)\<rparr>)" (is "clips_evolve s ?t") for s
  proof -
    have ext: "clips_extend s ?t"
      using clips_extend_refl [of s] assms(1) by (simp add: clips_extend_def clips.extends_update_rows)
    have "map cp_id (st_clips ?t) = map cp_id (st_clips s)"
      using assms(1) by (auto simp: clip_evolves_def intro!: map_update_rows)
    with ext link_kept [OF _ ext] assms(2) show ?thesis
      by (auto simp: clips_evolve_def clips_ok_def set_update_rows)
  qed
  then show ?thesis unfolding clip_stmt_def
    by (intro clip_ledger.obeys_statement) (auto split: if_splits)
qed

lemma obeys_export_stmt:
  assumes "\<And>e. p e \<Longrightarrow> export_evolves e (f e)" "\<And>e. p e \<Longrightarrow> export_ok e \<Longrightarrow> export_ok (f e)"
  shows "obeys clips_evolve (export_stmt env p f)"
proof -
  have "clips_evolve s (s\<lparr>st_exports := update_rows p f (st_exports s)\<rparr>)" (is "clips_evolve s ?t") for s
  proof -
    have ext: "clips_extend s ?t"
      using clips_extend_refl [of s] assms(1) by (simp add: clips_extend_def exports.extends_update_rows)
    have "map er_id (st_exports ?t) = map er_id (st_exports s)"
      using assms(1) by (auto simp: export_evolves_def intro!: map_update_rows)
    with ext link_kept [OF _ ext] assms(2) show ?thesis
      by (auto simp: clips_evolve_def clips_ok_def set_update_rows)
  qed
  then show ?thesis unfolding export_stmt_def by (intro clip_ledger.obeys_update_stmt) simp
qed

lemma obeys_changed_or: "obeys clips_evolve (changed_or e n)"
  by (simp add: changed_or_def clip_ledger.obeys_pure)

lemmas clip_intros = clip_ledger.ledger_intros obeys_changed_or

section \<open>Operations\<close>

lemma rolled_back_tables [simp]: "st_saves (rolled_back s u) = st_saves s" "st_clips (rolled_back s u) = st_clips s"
  "st_save_clips (rolled_back s u) = st_save_clips s" "st_exports (rolled_back s u) = st_exports s"
  by (simp_all add: rolled_back_def)

lemma obeys_guard: "obeys clips_evolve (\<lambda>s. (r, s))"
  by (simp add: obeys_def clip_ledger.order_refl)

lemma obeys_validation: "obeys clips_evolve (validate_capture_provenance v)"
  "obeys clips_evolve (validate_review_metadata title note tags)" "obeys clips_evolve (validate_group rs b)"
  "obeys clips_evolve (validate_origin origin)" "obeys clips_evolve (origin_columns origin)"
proof -
  show group: "obeys clips_evolve (validate_group rs b)" for rs b
    by (simp add: validate_group_def clip_ledger.obeys_pure)
  show "obeys clips_evolve (validate_origin origin)"
    by (cases origin) (auto intro!: clip_ledger.obeys_bind clip_ledger.obeys_pure group)
qed (auto simp: validate_capture_provenance_def validate_review_metadata_def origin_columns_def clip_ledger.obeys_pure
    split: clip_origin_input.split)

lemma obeys_saves:
  "obeys clips_evolve (create_capture_session env steam_id)"
  "obeys clips_evolve (record_gsi_snapshot env session sha256 ordinal received)"
  "obeys clips_evolve (request_save env session request ns)" "obeys clips_evolve (save_attempt_for_request env request)"
  "obeys clips_evolve (acknowledge_save env save)" "obeys clips_evolve (fail_save env save code)"
  "obeys clips_evolve (complete_save env save sha256 a b)"
proof -
  have requested: "clips_evolve s (s\<lparr>st_saves := st_saves s @ [requested_save save request session ns]\<rparr>)" (is "clips_evolve s ?t")
    if "save \<notin> sr_id ` set (st_saves s)" "request \<notin> sr_request_id ` set (st_saves s)" for s save
  proof -
    have ext: "clips_extend s ?t"
      using clips_extend_refl [of s] by (simp add: clips_extend_def saves.extends_append)
    with that link_kept [OF _ ext] show ?thesis
      by (auto simp: clips_evolve_def clips_ok_def requested_save_def save_ok_def)
  qed
  show "obeys clips_evolve (create_capture_session env steam_id)"
    "obeys clips_evolve (record_gsi_snapshot env session sha256 ordinal received)"
    "obeys clips_evolve (save_attempt_for_request env request)"
    unfolding create_capture_session_def record_gsi_snapshot_def save_attempt_for_request_def
    by (intro clip_intros same_tables; simp)+
  show "obeys clips_evolve (request_save env session request ns)"
    unfolding request_save_def by (auto intro!: clip_intros requested split: option.split)
  show "obeys clips_evolve (acknowledge_save env save)" unfolding acknowledge_save_def
    by (intro clip_intros obeys_save_stmt) (auto simp: save_evolves_def save_ok_def)
  show "obeys clips_evolve (fail_save env save code)" unfolding fail_save_def
    by (intro clip_intros obeys_save_stmt) (auto simp: save_evolves_def save_ok_def)
  show "obeys clips_evolve (complete_save env save sha256 a b)" unfolding complete_save_def
    by (auto intro!: clip_intros obeys_save_stmt simp: save_evolves_def save_ok_def open_save_def)
qed

lemma obeys_tags: "obeys clips_evolve (insert_tags env clip n tags)" "obeys clips_evolve (replace_clip_tags env clip tags)"
proof -
  show tags: "obeys clips_evolve (insert_tags env clip n tags)" for n
    by (induction tags arbitrary: n) (auto intro!: clip_intros same_tables)
  show "obeys clips_evolve (replace_clip_tags env clip tags)"
    unfolding replace_clip_tags_def by (auto intro!: clip_intros tags same_tables)
qed

lemma reviewed_evolves:
  assumes "cp_disposition c \<noteq> ''deleted''" "\<forall>m. cp_review_revision c = Some m \<longrightarrow> (\<exists>n. revision = Some n \<and> m < n)"
  shows "clip_evolves c (reviewed_row title note decision favorite now revision c)"
  using assms by (auto simp: clip_evolves_def reviewed_row_def dest: order.strict_implies_order)

lemma reviewed_ok: "clip_ok c \<Longrightarrow> cp_disposition c \<noteq> ''deleted'' \<Longrightarrow>
    clip_ok (reviewed_row title note decision favorite now revision c)"
  by (cases decision) (auto simp: clip_ok_def reviewed_row_def)

lemma obeys_reviews:
  "obeys clips_evolve (set_clip_review env clip disposition title favorite)"
  "obeys clips_evolve (update_clip_review env clip title note tags decision favorite)"
  "obeys clips_evolve (compare_and_swap_clip_review env clip expected title note tags decision favorite)"
proof -
  show "obeys clips_evolve (set_clip_review env clip disposition title favorite)"
    unfolding set_clip_review_def Let_def
    by (intro clip_intros obeys_clip_stmt; cases disposition) (auto simp: clip_evolves_def clip_ok_def live_clip_def)
  show "obeys clips_evolve (update_clip_review env clip title note tags decision favorite)"
    unfolding update_clip_review_def
    by (intro clip_intros obeys_validation obeys_tags obeys_clip_stmt reviewed_evolves reviewed_ok)
      (auto simp: live_clip_def)
  show "obeys clips_evolve (compare_and_swap_clip_review env clip expected title note tags decision favorite)"
    unfolding compare_and_swap_clip_review_def
    by (auto intro!: clip_intros obeys_validation obeys_tags obeys_clip_stmt reviewed_evolves reviewed_ok
        simp: live_clip_def at_revision_def)
qed

lemma obeys_origins: "obeys clips_evolve (insert_origin env clip kind n receipt)"
  "obeys clips_evolve (insert_receipt_group env clip kind n receipts)" "obeys clips_evolve (insert_origin_receipts env clip origin)"
proof -
  show one: "obeys clips_evolve (insert_origin env clip kind n receipt)" for kind n receipt
    unfolding insert_origin_def by (intro clip_intros same_tables) simp_all
  show many: "obeys clips_evolve (insert_receipt_group env clip kind n receipts)" for kind n receipts
    by (induction receipts arbitrary: n) (auto intro!: clip_intros one)
  show "obeys clips_evolve (insert_origin_receipts env clip origin)"
    by (cases origin) (auto intro!: clip_intros one many)
qed

lemma obeys_metadata: "obeys clips_evolve (complete_clip_model_metadata env clip duration origin)"
  "obeys clips_evolve (derive_clip env derived source operation trim)"
proof -
  show "obeys clips_evolve (complete_clip_model_metadata env clip duration origin)"
    unfolding complete_clip_model_metadata_def Let_def
    by (intro clip_intros obeys_guard obeys_validation)
      (auto intro!: clip_intros obeys_validation obeys_origins obeys_clip_stmt same_tables
        simp: clip_evolves_def clip_ok_def review_of_def live_clip_def split: option.split)
  show "obeys clips_evolve (derive_clip env derived source operation trim)"
    unfolding derive_clip_def by (intro clip_intros same_tables) simp_all
qed

lemma obeys_exports:
  "obeys clips_evolve (enqueue_export env clip target)" "obeys clips_evolve (begin_clip_export env export)"
  "obeys clips_evolve (succeed_clip_export env export sha256 len profile)"
  "obeys clips_evolve (fail_clip_export env export code)" "obeys clips_evolve (clip_export env export)"
proof -
  have queued: "clips_evolve s (s\<lparr>st_exports := st_exports s @ [e]\<rparr>)" (is "clips_evolve s ?t")
    if "er_id e \<notin> er_id ` set (st_exports s)" "export_ok e" for s e
  proof -
    have ext: "clips_extend s ?t"
      using clips_extend_refl [of s] by (simp add: clips_extend_def exports.extends_append)
    with that link_kept [OF _ ext] show ?thesis by (auto simp: clips_evolve_def clips_ok_def)
  qed
  show "obeys clips_evolve (enqueue_export env clip target)"
    unfolding enqueue_export_def by (auto intro!: clip_intros queued simp: export_ok_def)
  show "obeys clips_evolve (begin_clip_export env export)" unfolding begin_clip_export_def
    by (intro clip_intros obeys_export_stmt) (auto simp: export_evolves_def export_ok_def)
  show "obeys clips_evolve (succeed_clip_export env export sha256 len profile)" unfolding succeed_clip_export_def
    by (auto intro!: clip_intros obeys_export_stmt simp: export_evolves_def export_ok_def)
  show "obeys clips_evolve (fail_clip_export env export code)" unfolding fail_clip_export_def
    by (auto intro!: clip_intros obeys_export_stmt simp: export_evolves_def export_ok_def)
  show "obeys clips_evolve (clip_export env export)" unfolding clip_export_def
    by (auto intro!: clip_intros obeys_guard)
qed

context artifact_frame begin

lemma obeys_check_links: "obeys R (check_links env done_ws ws)"
  by (induction env done_ws ws rule: check_links.induct)
    (auto intro!: obeys_bind obeys_pure obeys_files split: node.split)

lemma obeys_safe_path: "obeys R (safe_artifact_path env sha256 relative len)"
  unfolding safe_artifact_path_def Let_def
  by (auto intro!: obeys_bind obeys_pure obeys_files obeys_check_links split: node.split)

lemma obeys_doomed: "obeys R (doomed_path env sha256 n)" "obeys R (remove_doomed env path)"
  unfolding doomed_path_def remove_doomed_def
  by (auto intro!: obeys_bind obeys_pure obeys_files obeys_artifact obeys_safe_path split: option.split)

end

lemma obeys_delete_clip: "obeys clips_evolve (delete_clip env clip)"
  unfolding delete_clip_def
  by (auto intro!: clip_intros clip_frame.obeys_doomed obeys_clip_stmt same_tables
      simp: clip_evolves_def clip_ok_def review_of_def)

section \<open>A clip for a save\<close>

lemma transaction_block_Inr:
  assumes "transaction_block env m s = (Inr x, t)"
  shows "(\<exists>u. m (advance s) = (Inr (Leave x), u) \<and> t = rolled_back (advance s) u)
    \<or> (\<exists>u. m (advance s) = (Inr (Commit x), u) \<and> t = advance u)"
  using assms by (auto simp: transaction_block_def bind_def query_eq split: if_splits sum.splits prod.splits leaving.splits)

lemma transaction_block_Inl: "transaction_block env m s = (Inl e, t) \<Longrightarrow> \<exists>u. t = rolled_back s u"
proof -
  have begun: "advance s = rolled_back s (advance s)" by (simp add: rolled_back_def advance_def)
  have rolled: "rolled_back (advance s) u = rolled_back s u" for u by (simp add: rolled_back_def advance_def)
  assume "transaction_block env m s = (Inl e, t)"
  with begun show ?thesis
    by (auto simp: transaction_block_def bind_def query_eq rolled split: if_splits sum.splits prod.splits leaving.splits)
qed

text \<open>What a new clip of a save does to the tables.\<close>

definition clip_added :: "string \<Rightarrow> string \<Rightarrow> string \<Rightarrow> string \<Rightarrow> string \<Rightarrow> store \<Rightarrow> store \<Rightarrow> bool" where
  "clip_added save clip sha256 session provenance s t \<longleftrightarrow>
     clip \<notin> cp_id ` set (st_clips s) \<and> save \<notin> fst ` set (st_save_clips s) \<and> clip \<notin> snd ` set (st_save_clips s)
     \<and> st_clips t = st_clips s @ [captured_clip clip sha256 session provenance]
     \<and> st_save_clips t = st_save_clips s @ [(save, clip)]
     \<and> st_saves t = st_saves s \<and> st_exports t = st_exports s"

lemma insert_and_link:
  assumes "insert_clip env clip sha256 session provenance s = (Inr x, u)" "link_clip env save clip u = (Inr y, t)"
  shows "clip_added save clip sha256 session provenance s t"
  using assms by (auto simp: insert_clip_def link_clip_def clip_exists_def clip_added_def statement_eqs effect_elims
      split: if_splits)

lemma clip_added_evolves:
  assumes added: "clip_added save clip sha256 session provenance s t"
    and row: "a \<in> set (st_saves s)" "sr_id a = save" "sr_status a = ''saved''" "sr_artifact a = Some sha256" "sr_session a = session"
  shows "clips_evolve s t"
proof -
  have ext: "clips_extend s t"
    using added clips_extend_refl [of s]
    by (simp add: clips_extend_def clip_added_def clips.extends_append links.extends_append)
  have "link_ok t (save, clip)"
    using added row by (auto simp: clip_added_def link_ok_def captured_clip_def intro!: bexI [of _ a])
  with added link_kept [OF _ ext] ext show ?thesis
    by (auto simp: clips_evolve_def clips_ok_def clip_added_def captured_clip_def clip_ok_def)
qed

lemma clip_of_saved_evolves:
  assumes "clip_of_saved env save provenance s = (Inr (Commit clip), t)"
  shows "clips_evolve s t"
proof -
  let ?v = "advance (advance s)"
  from assms obtain a sha256 w where row: "List.find (\<lambda>a. sr_id a = save \<and> sr_status a = ''saved'') (st_saves s) = Some a"
      "sr_artifact a = Some sha256"
    and ins: "insert_clip env clip sha256 (sr_session a) provenance ?v = (Inr (), w)" "link_clip env save clip w = (Inr (), t)"
    by (auto simp: clip_of_saved_def effect_elims statement_Inr new_id_eq split: option.splits)
  have "clips_evolve ?v t"
    using clip_added_evolves [OF insert_and_link [OF ins], of a] find_SomeD [OF row(1)] row(2) by auto
  then show ?thesis by (meson clip_ledger.order_trans clip_ledger.order_advance)
qed

lemma clip_of_saved_commits: "clip_of_saved env save provenance s \<noteq> (Inr (Leave clip), t)"
  by (auto simp: clip_of_saved_def effect_elims)

lemma finished_evolves: "open_save save a \<Longrightarrow> save_evolves a (finished_save sha256 start_ns end_ns a)"
  "save_ok (finished_save sha256 start_ns end_ns a)"
  by (auto simp: open_save_def save_evolves_def finished_save_def save_ok_def)

lemma first_finalization_result:
  assumes "first_finalization env save sha256 start_ns end_ns provenance s = (Inr (Commit clip), t)"
  obtains a u where "a \<in> set (st_saves s)" "open_save save a" "count_rows (open_save save) (st_saves s) = 1"
    "st_saves u = update_rows (open_save save) (finished_save sha256 start_ns end_ns) (st_saves s)"
    "st_clips u = st_clips s" "st_save_clips u = st_save_clips s" "clips_evolve s u"
    "clip_added save clip sha256 (sr_session a) provenance u t"
proof -
  let ?v = "advance (advance s)"
  from assms obtain a u w where row: "List.find (open_save save) (st_saves s) = Some a"
    and fin: "save_stmt env (open_save save) (finished_save sha256 start_ns end_ns) ?v = (Inr 1, u)"
    and ins: "insert_clip env clip sha256 (sr_session a) provenance (advance u) = (Inr (), w)"
      "link_clip env save clip w = (Inr (), t)"
    by (auto simp: first_finalization_def effect_elims query_eq new_id_eq split: if_splits option.splits)
  have u: "st_saves u = update_rows (open_save save) (finished_save sha256 start_ns end_ns) (st_saves s)"
    "st_clips u = st_clips s" "st_save_clips u = st_save_clips s" "count_rows (open_save save) (st_saves s) = 1"
    using fin by (auto simp: save_stmt_def update_stmt_eq split: if_splits)
  have "clips_evolve ?v u"
    using obeysD [OF obeys_save_stmt, of "open_save save" "finished_save sha256 start_ns end_ns" ?v env] fin finished_evolves
    by simp
  then have "clips_evolve s (advance u)" by (meson clip_ledger.order_trans clip_ledger.order_advance)
  with that [of a "advance u"] u insert_and_link [OF ins] find_SomeD [OF row] show ?thesis by simp
qed

lemma first_finalization_evolves:
  assumes "first_finalization env save sha256 start_ns end_ns provenance s = (Inr (Commit clip), t)"
  shows "clips_evolve s t"
proof -
  obtain a u where a: "a \<in> set (st_saves s)" "open_save save a"
    and u: "count_rows (open_save save) (st_saves s) = 1"
      "st_saves u = update_rows (open_save save) (finished_save sha256 start_ns end_ns) (st_saves s)"
      "st_clips u = st_clips s" "st_save_clips u = st_save_clips s" "clips_evolve s u"
    and added: "clip_added save clip sha256 (sr_session a) provenance u t"
    by (rule first_finalization_result [OF assms])
  have "finished_save sha256 start_ns end_ns a \<in> set (st_saves u)" using a u(2) by (auto simp: set_update_rows)
  with added a(2) have "clips_evolve u t"
    by (intro clip_added_evolves) (auto simp: finished_save_def open_save_def)
  with u(5) show ?thesis by (rule clip_ledger.order_trans)
qed

lemma first_finalization_commits: "first_finalization env save sha256 start_ns end_ns provenance s \<noteq> (Inr (Leave clip), t)"
  by (auto simp: first_finalization_def effect_elims split: if_splits)

lemma obeys_transaction_block:
  assumes "\<And>s x t. m s = (Inr (Commit x), t) \<Longrightarrow> clips_evolve s t"
  shows "obeys clips_evolve (transaction_block env m)"
proof -
  have "clips_evolve s t" if run: "transaction_block env m s = (r, t)" for s r t
  proof (cases r)
    case (Inl e)
    with run obtain u where "t = rolled_back s u" using transaction_block_Inl by blast
    then show ?thesis by (simp add: same_tables)
  next
    case (Inr x)
    with run transaction_block_Inr consider u where "t = rolled_back (advance s) u"
      | u where "m (advance s) = (Inr (Commit x), u)" "t = advance u" by metis
    then show ?thesis
    proof cases
      case 1
      then show ?thesis by (simp add: same_tables)
    next
      case 2
      with assms show ?thesis by (meson clip_ledger.order_trans clip_ledger.order_advance)
    qed
  qed
  then show ?thesis unfolding obeys_def by (metis surjective_pairing)
qed

lemma obeys_clips: "obeys clips_evolve (create_clip env save provenance)"
  "obeys clips_evolve (finalize_captured_clip env save sha256 start_ns end_ns provenance)"
proof -
  have begun: "clips_evolve (advance s) t \<Longrightarrow> clips_evolve s t" for s t
    by (meson clip_ledger.order_trans clip_ledger.order_advance)
  show "obeys clips_evolve (create_clip env save provenance)" unfolding create_clip_def
    by (intro clip_ledger.obeys_bind obeys_validation obeys_transaction_block)
      (auto simp: effect_elims query_eq intro!: begun [OF clip_of_saved_evolves] split: if_splits option.splits)
  show "obeys clips_evolve (finalize_captured_clip env save sha256 start_ns end_ns provenance)"
    unfolding finalize_captured_clip_def
    by (auto intro!: clip_ledger.obeys_bind clip_ledger.obeys_pure obeys_validation obeys_transaction_block
        begun [OF first_finalization_evolves] simp: effect_elims query_eq split: if_splits option.splits)
qed

section \<open>Sequences of operations\<close>

text \<open>A call of the store that concerns saves, clips, exports or the files; what it answers does not matter here.\<close>

datatype clip_call = SessionCall string | SnapshotCall string string int int | RequestCall string string int
  | AcknowledgeCall string | FailSaveCall string string | CompleteCall string string int int
  | CreateClipCall string string | FinalizeCall string string int int string
  | SetReviewCall string clip_disposition "string option" bool
  | UpdateReviewCall string "string option" "string option" "string list" clip_review_decision bool
  | SwapReviewCall string nat "string option" "string option" "string list" clip_review_decision bool
  | MetadataCall string nat clip_origin_input | DeriveCall string string string "(int \<times> int) option"
  | EnqueueExportCall string string | BeginExportCall string | SucceedExportCall string string nat string
  | FailExportCall string string | DeleteClipCall string
  | CommitFileCall staged_artifact string "string option" | QuarantineCall string string | RecoverFilesCall

fun perform_clip_call :: "environment \<Rightarrow> (bytes \<Rightarrow> string) \<Rightarrow> clip_call \<Rightarrow> store \<Rightarrow> store" where
  "perform_clip_call env sha (SessionCall steam_id) s = snd (create_capture_session env steam_id s)"
| "perform_clip_call env sha (SnapshotCall session h n t) s = snd (record_gsi_snapshot env session h n t s)"
| "perform_clip_call env sha (RequestCall session request ns) s = snd (request_save env session request ns s)"
| "perform_clip_call env sha (AcknowledgeCall save) s = snd (acknowledge_save env save s)"
| "perform_clip_call env sha (FailSaveCall save code) s = snd (fail_save env save code s)"
| "perform_clip_call env sha (CompleteCall save h a b) s = snd (complete_save env save h a b s)"
| "perform_clip_call env sha (CreateClipCall save provenance) s = snd (create_clip env save provenance s)"
| "perform_clip_call env sha (FinalizeCall save h a b provenance) s = snd (finalize_captured_clip env save h a b provenance s)"
| "perform_clip_call env sha (SetReviewCall clip d title f) s = snd (set_clip_review env clip d title f s)"
| "perform_clip_call env sha (UpdateReviewCall clip title note tags d f) s = snd (update_clip_review env clip title note tags d f s)"
| "perform_clip_call env sha (SwapReviewCall clip n title note tags d f) s =
     snd (compare_and_swap_clip_review env clip n title note tags d f s)"
| "perform_clip_call env sha (MetadataCall clip duration origin) s = snd (complete_clip_model_metadata env clip duration origin s)"
| "perform_clip_call env sha (DeriveCall derived source operation trim) s = snd (derive_clip env derived source operation trim s)"
| "perform_clip_call env sha (EnqueueExportCall clip target) s = snd (enqueue_export env clip target s)"
| "perform_clip_call env sha (BeginExportCall export) s = snd (begin_clip_export env export s)"
| "perform_clip_call env sha (SucceedExportCall export h n profile) s = snd (succeed_clip_export env export h n profile s)"
| "perform_clip_call env sha (FailExportCall export code) s = snd (fail_clip_export env export code s)"
| "perform_clip_call env sha (DeleteClipCall clip) s = snd (delete_clip env clip s)"
| "perform_clip_call env sha (CommitFileCall staged extension media) s = snd (commit_artifact env staged extension media s)"
| "perform_clip_call env sha (QuarantineCall h reason) s = snd (quarantine_artifact env h reason s)"
| "perform_clip_call env sha RecoverFilesCall s = snd (recover_artifacts env sha s)"

definition clip_calls :: "environment \<Rightarrow> (bytes \<Rightarrow> string) \<Rightarrow> clip_call list \<Rightarrow> store \<Rightarrow> store" where
  "clip_calls env sha calls s = fold (perform_clip_call env sha) calls s"

lemmas obeys_clip_calls = obeys_saves obeys_clips obeys_reviews obeys_metadata obeys_exports obeys_delete_clip
  clip_frame.artifact_frame

lemma clip_call_evolves: "clips_evolve s (perform_clip_call env sha c s)"
  by (cases c) (simp_all add: obeys_clip_calls [THEN obeysD])

lemma clip_calls_evolve: "clips_evolve s (clip_calls env sha calls s)"
  unfolding clip_calls_def
  by (induction calls arbitrary: s) (auto intro: clip_ledger.order_refl clip_ledger.order_trans clip_call_evolves)


section \<open>Retried finalizations\<close>

lemma captured_row_kept:
  assumes "captured_row save s = Some (a, c)" "clips_extend s t"
  shows "\<exists>a' c'. captured_row save t = Some (a', c') \<and> save_evolves a a' \<and> clip_evolves c c'"
proof -
  from assms(1) obtain clip where link: "map_of (st_save_clips s) save = Some clip"
    and row: "clip_named clip s = Some c" "save_named save s = Some a"
    by (auto simp: captured_row_def clip_of_save_def bind_eq_Some_conv)
  from assms(2) obtain vs where "st_save_clips t = st_save_clips s @ vs"
    by (auto simp: clips_extend_def extends_def list.rel_eq)
  with link have "map_of (st_save_clips t) save = Some clip" by simp
  moreover obtain c' where "clip_named clip t = Some c'" "clip_evolves c c'"
    using extends_find [of clip_evolves "st_clips s" "st_clips t" cp_id clip c] assms(2) row(1)
    by (auto simp: clips_extend_def clip_evolves_def clip_named_def)
  moreover obtain a' where "save_named save t = Some a'" "save_evolves a a'"
    using extends_find [of save_evolves "st_saves s" "st_saves t" sr_id save a] assms(2) row(2)
    by (auto simp: clips_extend_def save_evolves_def save_named_def)
  ultimately show ?thesis by (auto simp: captured_row_def clip_of_save_def)
qed

lemma same_capture_kept:
  "same_capture a c sha256 start_ns end_ns provenance \<Longrightarrow> save_evolves a a' \<Longrightarrow> clip_evolves c c'
    \<Longrightarrow> same_capture a' c' sha256 start_ns end_ns provenance"
  by (simp add: same_capture_def save_evolves_def clip_evolves_def)

lemma captured_row_tables [simp]: "captured_row save (advance s) = captured_row save s"
  "captured_row save (rolled_back s u) = captured_row save s"
  by (simp_all add: captured_row_def clip_of_save_def clip_named_def save_named_def)

lemma first_finalization_row:
  assumes "clips_ok s" "first_finalization env save sha256 start_ns end_ns provenance s = (Inr (Commit clip), t)"
  shows "\<exists>a c. captured_row save t = Some (a, c) \<and> cp_id c = clip \<and> same_capture a c sha256 start_ns end_ns provenance"
proof -
  obtain a u where a: "a \<in> set (st_saves s)" "open_save save a"
    and u: "count_rows (open_save save) (st_saves s) = 1"
      "st_saves u = update_rows (open_save save) (finished_save sha256 start_ns end_ns) (st_saves s)"
      "st_clips u = st_clips s" "st_save_clips u = st_save_clips s" "clips_evolve s u"
    and added: "clip_added save clip sha256 (sr_session a) provenance u t"
    by (rule first_finalization_result [OF assms(2)])
  let ?b = "finished_save sha256 start_ns end_ns a" and ?c = "captured_clip clip sha256 (sr_session a) provenance"
  have "clips_ok u" using u(5) assms(1) unfolding clips_evolve_def by blast
  then have "distinct (map sr_id (st_saves u))" unfolding clips_ok_def by blast
  moreover have "?b \<in> set (st_saves u)" unfolding u(2) set_update_rows using a by blast
  moreover have "sr_id ?b = save" using a(2) by (simp add: finished_save_def open_save_def)
  ultimately have "save_named save u = Some ?b" unfolding save_named_def by (rule find_unique)
  with added have b: "save_named save t = Some ?b" by (simp add: save_named_def clip_added_def)
  have "List.find (\<lambda>c. cp_id c = clip) (st_clips u) = None"
    using added by (auto simp: clip_added_def find_None_iff)
  then have c: "clip_named clip t = Some ?c"
    using added by (simp add: clip_named_def clip_added_def find_append_None captured_clip_def)
  have "map_of (st_save_clips u) save = None" using added by (simp add: clip_added_def map_of_eq_None_iff)
  then have "map_of (st_save_clips t) save = Some clip" using added by (simp add: clip_added_def map_add_def)
  with b c show ?thesis
    by (auto simp: captured_row_def clip_of_save_def same_capture_def finished_save_def captured_clip_def)
qed

lemma finalized_row:
  assumes "clips_ok s" "finalize_captured_clip env save sha256 start_ns end_ns provenance s = (Inr clip, t)"
  shows "\<exists>a c. captured_row save t = Some (a, c) \<and> cp_id c = clip \<and> same_capture a c sha256 start_ns end_ns provenance"
proof -
  define m where "m = bind (query env (captured_row save)) (\<lambda>existing.
        case existing of
          Some (a, c) \<Rightarrow> if same_capture a c sha256 start_ns end_ns provenance then ret (Leave (cp_id c))
            else throw (ConflictError ''captured clip retry'')
        | None \<Rightarrow> first_finalization env save sha256 start_ns end_ns provenance)"
  have block: "transaction_block env m s = (Inr clip, t)"
    using assms(2) unfolding finalize_captured_clip_def m_def
    by (auto simp: validate_capture_provenance_def effect_elims split: if_splits)
  from transaction_block_Inr [OF block] show ?thesis
  proof (elim disjE exE conjE)
    fix u assume "m (advance s) = (Inr (Leave clip), u)" "t = rolled_back (advance s) u"
    then show ?thesis
      by (auto simp: m_def effect_elims query_eq first_finalization_commits split: if_splits option.splits)
  next
    fix u assume m: "m (advance s) = (Inr (Commit clip), u)" and t: "t = advance u"
    then have "first_finalization env save sha256 start_ns end_ns provenance (advance (advance s)) = (Inr (Commit clip), u)"
      by (auto simp: m_def effect_elims query_eq split: if_splits option.splits)
    moreover have "clips_ok (advance (advance s))"
      using assms(1) clip_ledger.order_advance by (metis clips_evolve_def)
    ultimately show ?thesis using first_finalization_row t by simp
  qed
qed

text \<open>What a finalization does when the save already has a clip.\<close>

lemma finalize_existing:
  assumes row: "captured_row save s = Some (a, c)"
  shows "\<And>clip t. finalize_captured_clip env save sha256 start_ns end_ns provenance s = (Inr clip, t)
      \<Longrightarrow> clip = cp_id c \<and> same_capture a c sha256 start_ns end_ns provenance \<and> (\<exists>u. t = rolled_back s u)"
    and "(\<And>n. \<not> env_fault env n) \<Longrightarrow> provenance \<in> {''raw_auto'', ''raw_manual''} \<Longrightarrow> 0 \<le> start_ns \<Longrightarrow> start_ns \<le> end_ns
      \<Longrightarrow> same_capture a c sha256 start_ns end_ns provenance
      \<Longrightarrow> fst (finalize_captured_clip env save sha256 start_ns end_ns provenance s) = Inr (cp_id c)"
proof -
  have rolled: "rolled_back (advance s) u = rolled_back s u" for u by (simp add: rolled_back_def advance_def)
  fix clip t assume "finalize_captured_clip env save sha256 start_ns end_ns provenance s = (Inr clip, t)"
  then show "clip = cp_id c \<and> same_capture a c sha256 start_ns end_ns provenance \<and> (\<exists>u. t = rolled_back s u)"
    using row unfolding finalize_captured_clip_def
    by (auto simp: validate_capture_provenance_def effect_elims query_eq rolled dest!: transaction_block_Inr split: if_splits)
next
  assume "\<And>n. \<not> env_fault env n" "provenance \<in> {''raw_auto'', ''raw_manual''}" "0 \<le> start_ns" "start_ns \<le> end_ns"
    "same_capture a c sha256 start_ns end_ns provenance"
  with row show "fst (finalize_captured_clip env save sha256 start_ns end_ns provenance s) = Inr (cp_id c)"
    by (auto simp: finalize_captured_clip_def validate_capture_provenance_def bind_apply transaction_block_def query_eq
        ret_def)
qed


section \<open>Compared revisions\<close>

lemma validate_review_result: "validate_review_metadata title note tags s = (fst (validate_review_metadata title note tags s), s)"
  by (simp add: validate_review_metadata_def throw_def ret_def)

lemma swap_result:
  assumes "compare_and_swap_clip_review env clip n title note tags decision favorite s = (Inr m, t)"
  shows "m = n + 1 \<and> int n + 1 \<le> i64_max \<and> (\<exists>c\<in>set (st_clips s). at_revision clip (int n) c)
    \<and> (\<exists>now. st_clips t = update_rows (at_revision clip (int n))
         (reviewed_row title note decision favorite now (Some (int n + 1))) (st_clips s))"
proof -
  have tags: "st_clips u = st_clips v" if "replace_clip_tags env clip tags v = (r, u)" for v r u
  proof -
    have rows: "st_clips u = st_clips v" if "insert_tags env clip k ts v = (r, u)" for k ts v r u
      using that
    proof (induction ts arbitrary: k v)
      case (Cons tag ts)
      then show ?case
        by (cases r) (auto simp: bind_Inr bind_Inl insert_stmt_eq split: if_splits)
    qed (simp add: pure_eq)
    with that show ?thesis
      by (cases r) (auto simp: replace_clip_tags_def bind_Inr bind_Inl update_stmt_eq split: if_splits)
  qed
  have count: "\<exists>c\<in>set rows. p c" if "count_rows p rows \<noteq> 0" for p and rows :: "clip_row list"
    using that by (auto simp: count_rows_def filter_empty_conv)
  show ?thesis
    using assms unfolding compare_and_swap_clip_review_def transaction_def
    by (auto simp: effect_elims statement_eqs clip_stmt_def statement_Inr validate_review_metadata_def dest!: tags
        intro!: count split: if_splits sum.splits prod.splits)
qed

lemma swap_error:
  assumes "compare_and_swap_clip_review env clip n title note tags decision favorite s = (Inl e, t)"
  shows "st_clips t = st_clips s"
  using assms unfolding compare_and_swap_clip_review_def
  by (auto simp: validate_review_metadata_def bind_Inl pure_eq dest!: transaction_Inl split: if_splits)

text \<open>No row has the expected revision, but the clip lives and has another one.\<close>

lemma swap_conflict:
  assumes rows: "\<forall>c\<in>set (st_clips s). \<not> at_revision clip (int n) c" and bound: "int n + 1 \<le> i64_max"
    and live: "List.find (live_clip clip) (st_clips s) = Some d" "cp_review_revision d = Some r"
    and calm: "\<forall>k. \<not> env_fault env k" and valid: "fst (validate_review_metadata title note tags s) = Inr ()"
  shows "fst (compare_and_swap_clip_review env clip n title note tags decision favorite s)
    = Inl (ConflictError ''clip review revision'')"
proof -
  have zero: "count_rows (at_revision clip (int n)) (st_clips s) = 0"
    using rows by (simp add: count_rows_def filter_empty_conv)
  have pass: "list_all (\<lambda>c. at_revision clip (int n) c \<longrightarrow> check c) (st_clips s)" for check
    using rows by (simp add: list_all_iff)
  have swap: "clip_stmt env (at_revision clip (int n)) f check u = (Inr 0, advance u)"
    if "st_clips u = st_clips s" for f check u
    using rows pass zero that calm
    by (auto simp: clip_stmt_def statement_def list_all_iff count_update_rows [OF zero])
  have "validate_review_metadata title note tags s = (Inr (), s)"
    using validate_review_result valid by metis
  with bound live calm show ?thesis
    by (simp add: compare_and_swap_clip_review_def bind_apply transaction_def query_eq now_ms_eq swap throw_def)
qed

lemma unique_clip:
  assumes "clips_ok s" "clip_named clip s = Some d" "c \<in> set (st_clips s)" "cp_id c = clip"
  shows "c = d"
proof -
  have "distinct (map cp_id (st_clips s))" using assms(1) unfolding clips_ok_def by blast
  with find_unique [OF this assms(3,4)] assms(2) show ?thesis by (simp add: clip_named_def)
qed

lemma clip_named_member: "clip_named clip s = Some c \<Longrightarrow> c \<in> set (st_clips s) \<and> cp_id c = clip"
  unfolding clip_named_def by (rule find_SomeD)

lemma clip_named_kept:
  assumes "clip_named clip s = Some c" "clips_extend s t"
  shows "\<exists>d. clip_named clip t = Some d \<and> clip_evolves c d"
  using extends_find [of clip_evolves "st_clips s" "st_clips t" cp_id clip c] assms
  by (auto simp: clips_extend_def clip_evolves_def clip_named_def)

lemma swapped_row:
  assumes "clips_ok s" "compare_and_swap_clip_review env clip n title note tags decision favorite s = (Inr m, t)"
  shows "clips_ok t" "\<exists>c now. clip_named clip t = Some (reviewed_row title note decision favorite now (Some (int n + 1)) c)"
proof -
  show ok: "clips_ok t"
    using obeysD [OF obeys_reviews(3), of s env clip n title "note" tags decision favorite] assms
    by (simp add: clips_evolve_def)
  from swap_result [OF assms(2)] obtain c now where c: "c \<in> set (st_clips s)" "at_revision clip (int n) c"
    and t: "st_clips t = update_rows (at_revision clip (int n))
      (reviewed_row title note decision favorite now (Some (int n + 1))) (st_clips s)" by blast
  let ?d = "reviewed_row title note decision favorite now (Some (int n + 1)) c"
  have mem: "?d \<in> set (st_clips t)" unfolding t set_update_rows using c by blast
  have id: "cp_id ?d = clip" using c(2) by (simp add: reviewed_row_def at_revision_def live_clip_def)
  have "distinct (map cp_id (st_clips t))" using ok unfolding clips_ok_def by blast
  from find_unique [OF this mem id]
  show "\<exists>c now. clip_named clip t = Some (reviewed_row title note decision favorite now (Some (int n + 1)) c)"
    unfolding clip_named_def by (intro exI)
qed


section \<open>Deletion\<close>

lemma others_remain:
  assumes "c \<in> set rows" "undeleted sha256 c" "cp_id c \<noteq> clip"
  shows "count_rows (\<lambda>c. undeleted sha256 c \<and> cp_id c \<noteq> clip) rows \<noteq> 0"
    and "0 < count_rows (undeleted sha256) (update_rows (\<lambda>c. cp_id c = clip \<and> cp_deleted_at_ms c = None) f rows)"
proof -
  from assms show "count_rows (\<lambda>c. undeleted sha256 c \<and> cp_id c \<noteq> clip) rows \<noteq> 0"
    by (auto simp: count_rows_def filter_empty_conv)
  have "c \<in> set (update_rows (\<lambda>c. cp_id c = clip \<and> cp_deleted_at_ms c = None) f rows)"
    using assms by (simp add: set_update_rows)
  with assms(2) show "0 < count_rows (undeleted sha256) (update_rows (\<lambda>c. cp_id c = clip \<and> cp_deleted_at_ms c = None) f rows)"
    by (auto simp: count_rows_def filter_empty_conv)
qed

text \<open>However the deletion ends, a file that another clip shows stays.\<close>

lemma shared_media_survive:
  assumes "clips_ok s" "clip_named clip s = Some d"
    "c \<in> set (st_clips s)" "cp_id c \<noteq> clip" "undeleted (cp_artifact d) c"
  shows "st_files (snd (delete_clip env clip s)) = st_files s
    \<and> st_artifacts (snd (delete_clip env clip s)) = st_artifacts s
    \<and> (\<forall>r. fst (delete_clip env clip s) = Inr r \<longrightarrow> \<not> dr_artifact_deleted r)"
proof (cases "List.find (\<lambda>c. cp_id c = clip \<and> cp_deleted_at_ms c = None) (st_clips s)")
  case None
  then show ?thesis
    by (simp add: delete_clip_def bind_apply query_eq lift_option_def)
next
  case (Some x)
  with find_SomeD [OF this] unique_clip [OF assms(1,2)] have "x = d" by blast
  with Some others_remain [OF assms(3,5,4)] show ?thesis
    by (simp add: delete_clip_def bind_apply query_eq lift_option_def doomed_path_def ret_def now_ms_eq clip_stmt_def
        statement_def changed_or_def throw_def)
qed

text \<open>What a deletion leaves alone besides the clip, the file and its row of the catalogue.\<close>

definition same_owners :: "store \<Rightarrow> store \<Rightarrow> bool" where
  "same_owners s t \<longleftrightarrow> st_matches t = st_matches s \<and> st_snapshots t = st_snapshots s \<and> st_saves t = st_saves s
     \<and> st_derivations t = st_derivations s"

definition same_clips :: "store \<Rightarrow> store \<Rightarrow> bool" where
  "same_clips s t \<longleftrightarrow> st_clips t = st_clips s"

interpretation owners: artifact_frame same_owners
  by unfold_locales (auto simp: same_owners_def rolled_back_def)

interpretation clip_rows: artifact_frame same_clips
  by unfold_locales (auto simp: same_clips_def rolled_back_def)

lemma obeys_delete_owners: "obeys same_owners (delete_clip env clip)"
  unfolding delete_clip_def clip_stmt_def changed_or_def
  by (auto intro!: owners.ledger_intros owners.obeys_doomed owners.obeys_statement simp: same_owners_def split: if_splits)

lemma count_remaining:
  "count_rows (undeleted sha256) (update_rows (\<lambda>c. cp_id c = clip \<and> cp_deleted_at_ms c = None)
      (\<lambda>c. c\<lparr>cp_disposition := x, cp_deleted_at_ms := Some now\<rparr>) rows)
    = count_rows (\<lambda>c. undeleted sha256 c \<and> cp_id c \<noteq> clip) rows"
  by (induction rows) (auto simp: count_rows_def update_rows_def undeleted_def)

lemma deletion_result:
  assumes "clips_ok s" "clip_named clip s = Some d" "delete_clip env clip s = (Inr r, t)"
  shows "dr_artifact_deleted r \<longleftrightarrow> \<not> list_ex (\<lambda>c. undeleted (cp_artifact d) c \<and> cp_id c \<noteq> clip) (st_clips s)"
    and "dr_artifact_deleted r \<Longrightarrow>
      \<forall>a\<in>set (st_artifacts t). ar_sha256 a = cp_artifact d \<longrightarrow> ar_availability a = ''deleted''"
proof -
  let ?open = "\<lambda>c. cp_id c = clip \<and> cp_deleted_at_ms c = None" and ?others = "\<lambda>c. undeleted (cp_artifact d) c \<and> cp_id c \<noteq> clip"
  from assms(3) obtain x where x: "List.find ?open (st_clips s) = Some x"
    by (auto simp: delete_clip_def effect_elims query_eq ok_or_def split: if_splits option.splits)
  with find_SomeD [OF x] unique_clip [OF assms(1,2)] have "x = d" by blast
  with x assms(3) obtain path n u v now where
      doomed: "doomed_path env (cp_artifact d) (count_rows ?others (st_clips s)) (advance (advance s)) = (Inr path, u)"
    and upd: "clip_stmt env ?open (\<lambda>c. c\<lparr>cp_disposition := ''deleted'', cp_deleted_at_ms := Some now\<rparr>) (\<lambda>_. True)
        (advance u) = (Inr n, v)"
    and rest: "(if count_rows (undeleted (cp_artifact d)) (st_clips v) > 0
        then ret \<lparr>dr_clip_deleted = True, dr_artifact_deleted = False\<rparr> else
        bind (remove_doomed env path) (\<lambda>_. bind (now_ms env) (\<lambda>_.
        bind (update_stmt env (\<lambda>s. (count_rows (\<lambda>a. ar_sha256 a = cp_artifact d) (st_artifacts s),
          s\<lparr>st_artifacts := update_rows (\<lambda>a. ar_sha256 a = cp_artifact d) (\<lambda>a. a\<lparr>ar_availability := ''deleted''\<rparr>) (st_artifacts s)\<rparr>)))
        (\<lambda>_. ret \<lparr>dr_clip_deleted = True, dr_artifact_deleted = True\<rparr>)))) (advance v) = (Inr r, t)"
    by (auto simp: delete_clip_def bind_Inr query_eq now_ms_eq pure_eq changed_or_def ok_or_def split: if_splits)
  have "st_clips u = st_clips s"
    using obeysD [OF clip_rows.obeys_doomed(1), of "advance (advance s)" env "cp_artifact d" "count_rows ?others (st_clips s)"]
      doomed by (simp add: same_clips_def)
  with upd have "st_clips v = update_rows ?open (\<lambda>c. c\<lparr>cp_disposition := ''deleted'', cp_deleted_at_ms := Some now\<rparr>) (st_clips s)"
    by (auto simp: clip_stmt_def statement_Inr split: if_splits)
  then have count: "count_rows (undeleted (cp_artifact d)) (st_clips v) = count_rows ?others (st_clips s)"
    by (simp only: count_remaining)
  have iff: "dr_artifact_deleted r \<longleftrightarrow> count_rows ?others (st_clips s) = 0"
    using rest unfolding count by (auto simp: bind_Inr pure_eq split: if_splits)
  moreover have "count_rows ?others (st_clips s) = 0 \<longleftrightarrow> \<not> list_ex ?others (st_clips s)"
    by (auto simp: count_rows_def filter_empty_conv list_ex_iff)
  ultimately show "dr_artifact_deleted r \<longleftrightarrow> \<not> list_ex ?others (st_clips s)" by simp
  show "\<forall>a\<in>set (st_artifacts t). ar_sha256 a = cp_artifact d \<longrightarrow> ar_availability a = ''deleted''"
    if "dr_artifact_deleted r"
    using rest iff that unfolding count
    by (auto simp: bind_Inr pure_eq update_stmt_eq set_update_rows split: if_splits)
qed

text \<open>
  C26: Whether a deletion takes the media depends on the clips alone. As long as another clip that is not deleted
  shows the artifact, the deletion touches neither a file nor the catalogue, however it ends. A deletion that
  succeeds reports the artifact as deleted exactly when there is no such clip, and then the catalogue lists it as
  deleted. The matches, snapshots and saves that refer to the same artifact, and the derivations from this clip,
  are not asked and keep their reference.
\<close>
theorem deletion_asks_clips_only:
  assumes "clips_ok s" "clip_named clip s = Some d" "delete_clip env clip s = (r, t)"
  shows "(if list_ex (\<lambda>c. undeleted (cp_artifact d) c \<and> cp_id c \<noteq> clip) (st_clips s)
      then st_files t = st_files s \<and> st_artifacts t = st_artifacts s \<and> (\<forall>x. r = Inr x \<longrightarrow> \<not> dr_artifact_deleted x)
      else \<forall>x. r = Inr x \<longrightarrow> dr_artifact_deleted x
        \<and> (\<forall>a\<in>set (st_artifacts t). ar_sha256 a = cp_artifact d \<longrightarrow> ar_availability a = ''deleted''))
    \<and> st_matches t = st_matches s \<and> st_snapshots t = st_snapshots s \<and> st_saves t = st_saves s
    \<and> st_derivations t = st_derivations s"
proof -
  let ?others = "\<lambda>c. undeleted (cp_artifact d) c \<and> cp_id c \<noteq> clip"
  have owners: "same_owners s t" using obeysD [OF obeys_delete_owners, of s env clip] assms(3) by simp
  show ?thesis
  proof (cases "list_ex ?others (st_clips s)")
    case True
    then obtain c where "c \<in> set (st_clips s)" "cp_id c \<noteq> clip" "undeleted (cp_artifact d) c"
      by (auto simp: list_ex_iff)
    from shared_media_survive [OF assms(1,2) this, of env] True owners assms(3) show ?thesis
      by (simp add: same_owners_def)
  next
    case False
    have "dr_artifact_deleted x \<and>
        (\<forall>a\<in>set (st_artifacts t). ar_sha256 a = cp_artifact d \<longrightarrow> ar_availability a = ''deleted'')" if "r = Inr x" for x
      using deletion_result [OF assms(1,2)] assms(3) that False by blast
    with False owners show ?thesis by (simp add: same_owners_def)
  qed
qed

section \<open>A store at work\<close>

definition media_sha :: string where
  "media_sha = replicate 64 CHR ''a''"

definition media_path :: string where
  "media_path = artifact_relative media_sha ''mp4''"

definition media_store :: store where
  "media_store = empty_store\<lparr>
     st_files := [(''artifacts'', DirectoryNode), (''artifacts/sha256'', DirectoryNode), (''artifacts/sha256/aa'', DirectoryNode),
       (media_path, Regular [1, 2, 3])],
     st_artifacts := [\<lparr>ar_sha256 = media_sha, ar_relative_path = Some media_path, ar_byte_length = 3, ar_media_type = None,
       ar_availability = ''present'', ar_missing_reason = None, ar_duration_ms = None\<rparr>],
     st_sessions := [(''session'', ''7'')],
     st_matches := [\<lparr>mt_id = ''m'', mt_demo_sha256 = media_sha, mt_local_steam_id = ''7'', mt_map_name = None,
       mt_canonical_run = None, mt_status = ''imported''\<rparr>]\<rparr>"

text \<open>A store with a requested save, one with its clip, and one with two clips of the same media.\<close>

definition requested_store :: store where
  "requested_store = clip_calls calm (\<lambda>_. []) [RequestCall ''session'' ''r1'' 5, RequestCall ''session'' ''r2'' 6] media_store"

definition finalized_store :: store where
  "finalized_store = snd (finalize_captured_clip calm (show_nat 1) media_sha 0 10 ''raw_auto'' requested_store)"

definition shared_store :: store where
  "shared_store = clip_calls calm (\<lambda>_. []) [FinalizeCall (show_nat 4) media_sha 0 10 ''raw_manual''] finalized_store"

definition reviewed_store :: store where
  "reviewed_store = clip_calls calm (\<lambda>_. []) [MetadataCall (show_nat 11) 500 (AutoOrigin [''t''] [''e''])] finalized_store"

lemma media_ok: "clips_ok media_store"
  by (simp add: clips_ok_def media_store_def empty_store_def)

lemma requested_ok: "clips_ok requested_store"
  using clip_calls_evolve [of media_store] media_ok unfolding requested_store_def clips_evolve_def by blast

lemma finalized_ok: "clips_ok finalized_store"
  using obeysD [OF obeys_clips(2), of requested_store] requested_ok unfolding finalized_store_def clips_evolve_def by blast

lemma shared_ok: "clips_ok shared_store" "clips_ok reviewed_store"
  using clip_calls_evolve [of finalized_store] finalized_ok
  unfolding shared_store_def reviewed_store_def clips_evolve_def by blast+

lemma finalized_clip:
  "finalize_captured_clip calm (show_nat 1) media_sha 0 10 ''raw_auto'' requested_store = (Inr (show_nat 11), finalized_store)"
proof -
  have "fst (finalize_captured_clip calm (show_nat 1) media_sha 0 10 ''raw_auto'' requested_store) = Inr (show_nat 11)"
    by code_simp
  then show ?thesis unfolding finalized_store_def by (metis surjective_pairing)
qed



definition kept_store :: store where
  "kept_store = snd (compare_and_swap_clip_review calm (show_nat 11) 0 (Some ''Ace'') None [''clutch''] KeepClip True reviewed_store)"


theorem deletion_asks_clips_only_witness:
  "st_files (snd (delete_clip calm (show_nat 11) shared_store)) = st_files shared_store
    \<and> List.find (\<lambda>a. ar_sha256 a = media_sha \<and> ar_availability a \<noteq> ''deleted'')
        (st_artifacts (snd (delete_clip calm (show_nat 11) finalized_store))) = None
    \<and> node_at media_path (snd (delete_clip calm (show_nat 11) finalized_store)) = None
    \<and> list_ex (\<lambda>m. mt_demo_sha256 m = media_sha) (st_matches (snd (delete_clip calm (show_nat 11) finalized_store)))"
proof -
  let ?others = "\<lambda>c. undeleted media_sha c \<and> cp_id c \<noteq> show_nat 11"
  let ?t = "snd (delete_clip calm (show_nat 11) finalized_store)"
  have facts: "list_ex ?others (st_clips shared_store)" "\<not> list_ex ?others (st_clips finalized_store)"
    "node_at media_path ?t = None" "list_ex (\<lambda>m. mt_demo_sha256 m = media_sha) (st_matches finalized_store)"
    "fst (delete_clip calm (show_nat 11) finalized_store) = Inr \<lparr>dr_clip_deleted = True, dr_artifact_deleted = True\<rparr>"
    "map_option cp_artifact (clip_named (show_nat 11) finalized_store) = Some media_sha"
    "map_option cp_artifact (clip_named (show_nat 11) shared_store) = Some media_sha"
    by code_simp+
  from facts(6) obtain d where d: "clip_named (show_nat 11) finalized_store = Some d" "cp_artifact d = media_sha" by auto
  from facts(7) obtain e where e: "clip_named (show_nat 11) shared_store = Some e" "cp_artifact e = media_sha" by auto
  note all = deletion_asks_clips_only [OF _ _ surjective_pairing]
  show ?thesis
    using all [OF finalized_ok d(1), of calm] all [OF shared_ok(1) e(1), of calm] d(2) e(2) facts(1-5)
    by (simp add: find_None_iff)
qed

end
