(* ===== verification/Pipeline.thy ===== *)
theory Pipeline
  imports Import_Queue Match_Store Artifact_Store Reconcile
begin

text \<open>
  The import service, \<open>crates/openfrag-pipeline/src/lib.rs\<close>: a demo is validated, staged, committed and
  queued; a leased job is parsed with its progress persisted, its match and analysis are written and
  completed, and a failure after the lease marks the job failed.

  The vendored parser, SHA-256, the JSON and debug texts and the persistence of reconciliations are
  parameters; a parse is the list of progress reports it makes and its result.
\<close>

section \<open>Errors\<close>

datatype pipeline_error = InvalidSource | UnsupportedDemo | SizeError | InsufficientHeadroom | SourceChanged
  | ParserFailure parse_diagnostic | StorageFailure string | ReconciliationFailure string

fun category_code :: "diagnostic_category \<Rightarrow> string" where
  "category_code SourceIo = ''source_io''"
| "category_code Truncated = ''truncated''"
| "category_code UnsupportedCommand = ''unsupported_command''"
| "category_code SchemaDrift = ''schema_drift''"
| "category_code Corrupt = ''corrupt''"
| "category_code MissingEvidence = ''missing_evidence''"
| "category_code InternalInvariant = ''internal_invariant''"

fun pipeline_code :: "pipeline_error \<Rightarrow> string" where
  "pipeline_code InvalidSource = ''invalid_source''"
| "pipeline_code UnsupportedDemo = ''unsupported_demo''"
| "pipeline_code SizeError = ''size''"
| "pipeline_code InsufficientHeadroom = ''headroom''"
| "pipeline_code SourceChanged = ''source_changed''"
| "pipeline_code (ParserFailure diagnostic) = category_code (pg_category diagnostic)"
| "pipeline_code (StorageFailure _) = ''storage''"
| "pipeline_code (ReconciliationFailure _) = ''reconciliation''"

fun category_remediation :: "diagnostic_category \<Rightarrow> string" where
  "category_remediation SourceIo = ''retry_source_read''"
| "category_remediation Truncated = ''replace_truncated_demo''"
| "category_remediation UnsupportedCommand = ''unsupported_demo_version''"
| "category_remediation SchemaDrift = ''update_parser_or_quarantine''"
| "category_remediation Corrupt = ''replace_corrupt_demo''"
| "category_remediation MissingEvidence = ''inspect_missing_demo_evidence''"
| "category_remediation InternalInvariant = ''report_parser_invariant''"

fun remediation_code :: "pipeline_error \<Rightarrow> string" where
  "remediation_code (ParserFailure diagnostic) = category_remediation (pg_category diagnostic)"
| "remediation_code InsufficientHeadroom = ''free_storage_space''"
| "remediation_code SourceChanged = ''retry_stable_source''"
| "remediation_code (StorageFailure _) = ''repair_local_storage''"
| "remediation_code (ReconciliationFailure _) = ''retry_reconciliation''"
| "remediation_code _ = ''choose_valid_demo''"

definition internal_parse_diagnostic :: "diagnostic_category \<Rightarrow> parse_stage \<Rightarrow> string \<Rightarrow> parse_diagnostic" where
  "internal_parse_diagnostic category stage source = \<lparr>pg_category = category, pg_stage = stage, pg_game_build = None,
     pg_byte_offset = None, pg_frame_index = None, pg_tick = None, pg_command = None, pg_required_item = None,
     pg_observed_counts = Map.empty, pg_upstream_source = source\<rparr>"

section \<open>Requests, outcomes and ports\<close>

text \<open>The source file: what the system answers about it, in the order it is asked.\<close>

record source_metadata =
  sm_symlink :: bool
  sm_file :: bool
  sm_len :: nat
  sm_modified :: "int option"

record import_source =
  so_extension :: "string option"
  so_metadata :: "source_metadata option"
  so_stamp :: "bytes option"
  so_available :: "nat option"
  so_reads :: "bytes option list option"
  so_after :: "(nat \<times> int option) option"

record import_request =
  rq_source :: import_source
  rq_local :: steam_id
  rq_worker :: string
  rq_lease_expires_at_ms :: int

datatype import_outcome = Deduplicated string string | ReadyOutcome string string nat
  | RatingUnavailable string string analysis_unavailable

record reconciled_outcome =
  ro_import :: import_outcome
  ro_reconciliation :: "reconciliation_decision list"

datatype progress_phase = FirstPassPhase | SecondPassPhase | FinalizePhase

record parser_progress =
  pp_phase :: progress_phase
  pp_bytes_consumed :: nat
  pp_total_bytes :: nat
  pp_frames :: nat
  pp_events_emitted :: nat

datatype payload = UnavailablePayload analysis_unavailable string
  | RoundPayload bool "round_exclusion option" "string list" | RatingPayload nat rating_metrics string
  | FractionPayload int int | WeightPayload int int

record 'j pipeline_ports =
  pi_env :: environment
  pi_sha :: "bytes \<Rightarrow> string"
  pi_parse :: "string \<Rightarrow> node option \<Rightarrow> parser_progress list \<times> (parse_diagnostic, 'j parsed_output) result"
  pi_json :: "payload \<Rightarrow> string"
  pi_reason :: "analysis_unavailable \<Rightarrow> string"
  pi_diagnostic_json :: "parse_diagnostic \<Rightarrow> string"
  pi_debug :: "storage_error \<Rightarrow> string"

text \<open>The service acts on the store and on the persistence of reconciliations.\<close>

type_synonym ('p, 'a) pipeline = "(store \<times> 'p, pipeline_error, 'a) effect"

definition on_store :: "'j pipeline_ports \<Rightarrow> 'a storage \<Rightarrow> ('p, 'a) pipeline" where
  "on_store ports m = (\<lambda>(s, p). case m s of (r, t) \<Rightarrow> (map_err (\<lambda>e. StorageFailure (pi_debug ports e)) r, (t, p)))"

definition on_persistence :: "('p, pipeline_error, 'a) effect \<Rightarrow> ('p, 'a) pipeline" where
  "on_persistence m = (\<lambda>(s, p). case m p of (r, q) \<Rightarrow> (r, (s, q)))"

text \<open>\<open>PersistenceHook\<close>; an import without reconciliation has no hook.\<close>

type_synonym ('j, 'p) hook = "'j parsed_output \<Rightarrow> steam_id \<Rightarrow> ('p, pipeline_error, reconciliation_decision list) effect"

definition persistence_hook :: "reconciliation_candidate list \<Rightarrow> (reconciliation_decision \<Rightarrow> ('p, 'e, unit) effect)
    \<Rightarrow> ('e \<Rightarrow> string) \<Rightarrow> ('j, 'p) hook" where
  "persistence_hook candidates persist debug parsed local =
     map_error (\<lambda>e. ReconciliationFailure (debug e)) (reconcile_demo_candidates parsed local candidates persist)"

definition run_hook :: "('j, 'p) hook option \<Rightarrow> 'j parsed_output \<Rightarrow> steam_id \<Rightarrow> ('p, reconciliation_decision list) pipeline" where
  "run_hook hook parsed local = (case hook of None \<Rightarrow> ret [] | Some h \<Rightarrow> on_persistence (h parsed local))"

section \<open>Validation\<close>

definition DEMO_STAMP :: bytes where
  "DEMO_STAMP = [80, 66, 68, 69, 77, 83, 50, 0]"

definition demo_size_limit :: nat where
  "demo_size_limit = 2147483648"

definition validate_source :: "import_source \<Rightarrow> (pipeline_error, source_metadata) result" where
  "validate_source src =
     and_then (ok_or InvalidSource (so_metadata src)) (\<lambda>metadata.
     if sm_symlink metadata \<or> \<not> sm_file metadata \<or> so_extension src \<noteq> Some ''dem'' then Inl InvalidSource
     else if sm_len metadata < length DEMO_STAMP \<or> sm_len metadata > demo_size_limit then Inl SizeError else
     and_then (ok_or InvalidSource (so_stamp src)) (\<lambda>stamp.
     if stamp \<noteq> DEMO_STAMP then Inl UnsupportedDemo else
     and_then (ok_or InsufficientHeadroom (so_available src)) (\<lambda>available.
     if available < saturating_add_u64 (sm_len metadata) (sm_len metadata div 10) then Inl InsufficientHeadroom
     else Inr metadata)))"

section \<open>Progress of the parser\<close>

fun phase_code :: "progress_phase \<Rightarrow> string" where
  "phase_code FirstPassPhase = ''first_pass''"
| "phase_code SecondPassPhase = ''second_pass''"
| "phase_code FinalizePhase = ''finalize''"

fun phase_span :: "progress_phase \<Rightarrow> int \<times> int" where
  "phase_span FirstPassPhase = (3000, 1000)"
| "phase_span SecondPassPhase = (4000, 2500)"
| "phase_span FinalizePhase = (6500, 500)"

text \<open>The product is a \<open>u64\<close> and wraps; a total of zero gives no fraction.\<close>

definition parser_progress_basis_points :: "parser_progress \<Rightarrow> int" where
  "parser_progress_basis_points p =
     (let consumed = min (pp_bytes_consumed p) (pp_total_bytes p) * 1000 mod 2 ^ 64;
          quotient = (if pp_total_bytes p = 0 then 0 else consumed div pp_total_bytes p);
          fraction = (if int quotient \<le> i64_max then int quotient else 1000);
          (base, span) = phase_span (pp_phase p) in
      base + trunc_div (fraction * span) 1000)"

definition to_i64 :: "nat \<Rightarrow> int" where
  "to_i64 n = min (int n) i64_max"

text \<open>The state of the callback: the first error and what was persisted last.\<close>

record progress_state =
  ps_error :: "storage_error option"
  ps_last :: "(progress_phase \<times> int) option"

definition report_progress :: "environment \<Rightarrow> string \<Rightarrow> string \<Rightarrow> parser_progress \<Rightarrow> progress_state
    \<Rightarrow> progress_state storage" where
  "report_progress env job worker p st =
     (let bp = parser_progress_basis_points p;
          phase_changed = (case ps_last st of None \<Rightarrow> True | Some (phase, _) \<Rightarrow> phase \<noteq> pp_phase p);
          advanced = (case ps_last st of None \<Rightarrow> True | Some (_, previous) \<Rightarrow> previous + 10 \<le> bp) in
      if ps_error st = None \<and> (phase_changed \<or> advanced \<or> pp_phase p = FinalizePhase) then
        bind (now_ms env) (\<lambda>heartbeat.
        bind (attempt (update_parser_progress env job worker \<lparr>pu_phase = phase_code (pp_phase p),
            pu_bytes_done = to_i64 (pp_bytes_consumed p), pu_bytes_total = to_i64 (pp_total_bytes p),
            pu_frames_done = to_i64 (pp_frames p), pu_events_emitted = to_i64 (pp_events_emitted p),
            pu_progress_bp = bp, pu_heartbeat_at_ms = heartbeat\<rparr>)) (\<lambda>result.
        ret \<lparr>ps_error = (case result of Inl e \<Rightarrow> Some e | Inr _ \<Rightarrow> None), ps_last = Some (pp_phase p, bp)\<rparr>))
      else ret st)"

fun report_all :: "environment \<Rightarrow> string \<Rightarrow> string \<Rightarrow> parser_progress list \<Rightarrow> progress_state \<Rightarrow> progress_state storage" where
  "report_all env job worker [] st = ret st"
| "report_all env job worker (p # ps) st =
     bind (report_progress env job worker p st) (\<lambda>st. report_all env job worker ps st)"

section \<open>Persisting an analysis\<close>

fun winner_label :: "int \<Rightarrow> string option" where
  "winner_label winner = (if winner = 2 then Some ''T'' else if winner = 3 then Some ''CT'' else None)"

definition normalize_winner :: "int option \<Rightarrow> string option" where
  "normalize_winner winner = (if winner = Some 2 then Some ''T'' else if winner = Some 3 then Some ''CT'' else None)"

fun debug_component :: "component_kind \<Rightarrow> string" where
  "debug_component DirectDamage = ''DirectDamage''"
| "debug_component FragBalance = ''FragBalance''"
| "debug_component OpeningDuels = ''OpeningDuels''"
| "debug_component TradeKills = ''TradeKills''"
| "debug_component Utility = ''Utility''"
| "debug_component ClutchConversion = ''ClutchConversion''"

definition quote :: string where "quote = [char_of (34::nat)]"

definition formula_parameters :: string where
  "formula_parameters = ''{'' @ quote @ ''formula'' @ quote @ '':'' @ quote @ ''ofr-1.0.0'' @ quote @ ''}''"

definition scale_parameters :: string where
  "scale_parameters = ''{'' @ quote @ ''scale'' @ quote @ '':'' @ quote @ ''basis_points'' @ quote @ ''}''"

definition participants_json :: "steam_id \<Rightarrow> string" where
  "participants_json local = ''['' @ quote @ show_nat local @ quote @ '']''"

definition round_number :: "nat \<Rightarrow> (store \<times> 'p, pipeline_error, int) effect" where
  "round_number n = (if int n \<le> i64_max then ret (int n) else throw SizeError)"

definition persist_unavailable :: "'j pipeline_ports \<Rightarrow> string \<Rightarrow> 'j parsed_output \<Rightarrow> steam_id \<Rightarrow> analysis_unavailable
    \<Rightarrow> ('p, unit) pipeline" where
  "persist_unavailable ports run parsed local reason =
     bind (for_each (\<lambda>rnd.
         bind (round_number (pr_number rnd)) (\<lambda>number.
         bind (on_store ports (add_round (pi_env ports) run number (pr_end_tick rnd) (normalize_winner (pr_winner rnd))))
           (\<lambda>_. ret ()))) (po_rounds parsed)) (\<lambda>_.
     bind (on_store ports (add_receipt (pi_env ports) run None ''rating_unavailable'' None None ''[]''
         (pi_json ports (UnavailablePayload reason (ii_source_sha256 (po_identity parsed)))) ''[]'' formula_parameters)) (\<lambda>receipt.
     on_store ports (persist_unavailable_rating (pi_env ports) run (show_nat local) ''ofr-1.0.0''
         (pi_reason ports reason) receipt)))"

definition persist_round :: "'j pipeline_ports \<Rightarrow> string \<Rightarrow> steam_id \<Rightarrow> round_ledger \<Rightarrow> ('p, unit) pipeline" where
  "persist_round ports run local rnd =
     bind (round_number (rl_number rnd)) (\<lambda>number.
     bind (on_store ports (add_round (pi_env ports) run number (rl_end_tick rnd) (winner_label (rl_winner rnd)))) (\<lambda>i.
     bind (on_store ports (add_receipt (pi_env ports) run (Some i) ''round_ledger'' (Some (rl_end_tick rnd))
         (Some (to_i64 (rl_number rnd))) ''[]''
         (pi_json ports (RoundPayload (rl_eligible rnd) (rl_exclusion rnd) (rl_hashes rnd))) ''[]'' formula_parameters)) (\<lambda>receipt.
     on_store ports (write_round_metric (pi_env ports) run i (show_nat local) ''eligible''
         (if rl_eligible rnd then 1 else 0) 1 (Some receipt)))))"

definition saturating_mul_i64 :: "int \<Rightarrow> int \<Rightarrow> int" where
  "saturating_mul_i64 a b = max i64_min (min (a * b) i64_max)"

definition persist_component :: "'j pipeline_ports \<Rightarrow> string \<Rightarrow> steam_id \<Rightarrow> string \<Rightarrow> component_receipt
    \<Rightarrow> ('p, unit) pipeline" where
  "persist_component ports run local vector component =
     (let value_bp = trunc_div (saturating_mul_i64 (cr_exact_numerator component) 10000) (cr_exact_denominator component);
          weight_bp = trunc_div (saturating_mul_i64 (numerator (cr_weight component)) 10000)
            (denominator (cr_weight component)) in
      bind (on_store ports (add_receipt (pi_env ports) run None (''component:'' @ debug_component (cr_kind component))
          None None (participants_json local)
          (pi_json ports (FractionPayload (cr_exact_numerator component) (cr_exact_denominator component))) ''[]''
          (pi_json ports (WeightPayload (numerator (cr_weight component)) (denominator (cr_weight component)))))) (\<lambda>receipt.
      on_store ports (persist_rating_component (pi_env ports) vector (debug_component (cr_kind component))
          (cr_exact_numerator component) (cr_exact_denominator component) value_bp weight_bp receipt)))"

definition no_rating_error :: pipeline_error where
  "no_rating_error = ParserFailure (internal_parse_diagnostic InternalInvariant Finalize ''domain returned no rating'')"

definition persist_available :: "'j pipeline_ports \<Rightarrow> string \<Rightarrow> string \<Rightarrow> string \<Rightarrow> steam_id \<Rightarrow> analysis_receipt
    \<Rightarrow> ('p, import_outcome) pipeline" where
  "persist_available ports job run demo local analysis =
     bind (for_each (persist_round ports run local) (an_rounds analysis)) (\<lambda>_.
     bind (lift_option no_rating_error (rr_rating_bp (an_rating_receipt analysis))) (\<lambda>bp.
     let rating_bp = unat (bp_get bp) in
     bind (on_store ports (add_receipt (pi_env ports) run None ''ofr-1.0.0'' None None (participants_json local)
         (pi_json ports (RatingPayload rating_bp (in_metrics (an_rating_input analysis)) demo)) ''[]'' scale_parameters)) (\<lambda>receipt.
     bind (on_store ports (persist_available_rating (pi_env ports) run (show_nat local) ''ofr-1.0.0''
         (int rating_bp) receipt)) (\<lambda>vector.
     bind (case rr_component_receipts (an_rating_receipt analysis) of
         None \<Rightarrow> ret ()
       | Some components \<Rightarrow> for_each (persist_component ports run local vector) components) (\<lambda>_.
     ret (ReadyOutcome job demo rating_bp))))))"

section \<open>The leased run\<close>

definition identity_columns :: "import_identity \<Rightarrow> analysis_identity" where
  "identity_columns i = \<lparr>ai_parser_commit = ii_parser_commit i, ai_parser_build = ii_parser_build i,
     ai_generated_proto_build = ii_generated_proto_build i, ai_requested_schema_hash = ii_requested_schema_hash i,
     ai_metric_definition_version = ii_metric_definition_version i, ai_formula_id = ii_formula_version i,
     ai_evidence_semantics_epoch = ii_evidence_semantics_epoch i\<rparr>"

definition empty_roster_error :: pipeline_error where
  "empty_roster_error =
     ParserFailure (internal_parse_diagnostic MissingEvidence Finalize ''empty participant roster quarantined'')"

text \<open>The parse with its progress persisted; a demo that does not parse, or has no roster, is quarantined.\<close>

definition parse_demo :: "'j pipeline_ports \<Rightarrow> string \<Rightarrow> string \<Rightarrow> string \<Rightarrow> ('p, 'j parsed_output) pipeline" where
  "parse_demo ports job demo worker =
     bind (on_store ports (artifact (pi_env ports) demo)) (\<lambda>a.
     bind (lift_option (StorageFailure ''artifact path absent'') (af_relative_path a)) (\<lambda>relative.
     bind (on_store ports (asks (node_at relative))) (\<lambda>content.
     let (reports, result) = pi_parse ports relative content in
     bind (on_store ports (report_all (pi_env ports) job worker reports \<lparr>ps_error = None, ps_last = None\<rparr>)) (\<lambda>progress.
     (case ps_error progress of Some e \<Rightarrow> throw (StorageFailure (pi_debug ports e)) | None \<Rightarrow>
     (case result of
        Inl diagnostic \<Rightarrow>
          bind (on_store ports (quarantine_artifact (pi_env ports) demo (category_code (pg_category diagnostic))))
            (\<lambda>_. throw (ParserFailure diagnostic))
      | Inr parsed \<Rightarrow>
          if po_participants parsed = [] then
            bind (on_store ports (quarantine_artifact (pi_env ports) demo ''suspicious_empty_roster''))
              (\<lambda>_. throw empty_roster_error)
          else ret parsed))))))"

definition import_progress_now :: "'j pipeline_ports \<Rightarrow> string \<Rightarrow> string \<Rightarrow> int option \<Rightarrow> int \<Rightarrow> ('p, unit) pipeline" where
  "import_progress_now ports job worker len bp =
     bind (on_store ports (now_ms (pi_env ports))) (\<lambda>heartbeat.
     on_store ports (update_import_progress (pi_env ports) job worker len len bp heartbeat))"

definition finish_succeeded :: "'j pipeline_ports \<Rightarrow> string \<Rightarrow> string \<Rightarrow> ('p, unit) pipeline" where
  "finish_succeeded ports job worker =
     on_store ports (finish_import (pi_env ports) job worker Succeeded None None None)"

text \<open>The match of the demo: the existing one, or a new one with its players.\<close>

definition match_of_demo :: "'j pipeline_ports \<Rightarrow> string \<Rightarrow> string option \<Rightarrow> 'j parsed_output \<Rightarrow> steam_id
    \<Rightarrow> ('p, string) pipeline" where
  "match_of_demo ports demo existing parsed local =
     (case existing of
        Some m \<Rightarrow> ret m
      | None \<Rightarrow>
          bind (on_store ports (import_match (pi_env ports) demo (show_nat local) (dm_map (po_metadata parsed)))) (\<lambda>m.
          bind (for_each (\<lambda>p. let steam_id = show_nat (pt_steam_id p) in
              bind (on_store ports (upsert_player (pi_env ports) steam_id (pt_name p))) (\<lambda>_.
              on_store ports (add_match_participant (pi_env ports) m steam_id ''unknown''))) (po_participants parsed)) (\<lambda>_.
          ret m)))"

definition persist_analysis :: "'j pipeline_ports \<Rightarrow> string \<Rightarrow> string \<Rightarrow> string \<Rightarrow> 'j parsed_output \<Rightarrow> steam_id
    \<Rightarrow> ('p, import_outcome) pipeline" where
  "persist_analysis ports job run demo parsed local =
     (case analyze parsed local of
        Inr analysis \<Rightarrow> persist_available ports job run demo local analysis
      | Inl reason \<Rightarrow> bind (persist_unavailable ports run parsed local reason)
          (\<lambda>_. ret (RatingUnavailable job demo reason)))"

text \<open>The rest of the leased run, from a parsed demo.\<close>

definition import_parsed :: "'j pipeline_ports \<Rightarrow> ('j, 'p) hook option \<Rightarrow> string \<Rightarrow> string \<Rightarrow> import_request
    \<Rightarrow> 'j parsed_output \<Rightarrow> ('p, reconciled_outcome) pipeline" where
  "import_parsed ports hook job demo request parsed =
     (let env = pi_env ports; worker = rq_worker request; local = rq_local request;
          identity = identity_columns (po_identity parsed) in
      bind (import_progress_now ports job worker None 7000) (\<lambda>_.
      bind (on_store ports (match_for_demo env demo)) (\<lambda>existing.
      bind (case existing of None \<Rightarrow> ret False
          | Some m \<Rightarrow> on_store ports (completed_analysis_for_identity env m identity)) (\<lambda>completed.
      if completed then
        bind (run_hook hook parsed local) (\<lambda>decisions.
        bind (finish_succeeded ports job worker) (\<lambda>_.
        ret \<lparr>ro_import = Deduplicated job demo, ro_reconciliation = decisions\<rparr>))
      else
        bind (match_of_demo ports demo existing parsed local) (\<lambda>m.
        bind (on_store ports (begin_analysis env m identity)) (\<lambda>run.
        bind (persist_analysis ports job run demo parsed local) (\<lambda>outcome.
        bind (on_store ports (complete_analysis env run)) (\<lambda>_.
        bind (run_hook hook parsed local) (\<lambda>decisions.
        bind (import_progress_now ports job worker None 10000) (\<lambda>_.
        bind (finish_succeeded ports job worker) (\<lambda>_.
        ret \<lparr>ro_import = outcome, ro_reconciliation = decisions\<rparr>)))))))))))"

definition run_leased :: "'j pipeline_ports \<Rightarrow> ('j, 'p) hook option \<Rightarrow> string \<Rightarrow> string \<Rightarrow> import_request
    \<Rightarrow> ('p, reconciled_outcome) pipeline" where
  "run_leased ports hook job demo request =
     bind (parse_demo ports job demo (rq_worker request)) (import_parsed ports hook job demo request)"

section \<open>The service\<close>

text \<open>What comes before the lease: the demo is staged, committed and queued.\<close>

definition accept_source :: "'j pipeline_ports \<Rightarrow> import_request \<Rightarrow> ('p, string \<times> string \<times> nat) pipeline" where
  "accept_source ports request =
     (let env = pi_env ports; src = rq_source request in
      (case validate_source src of
         Inl e \<Rightarrow> throw e
       | Inr metadata \<Rightarrow>
           bind (lift_option InvalidSource (so_reads src)) (\<lambda>reads.
           bind (on_store ports (stage_from_reader env (pi_sha ports) reads)) (\<lambda>staged.
           bind (lift_option SourceChanged (so_after src)) (\<lambda>(len, modified).
           if len \<noteq> sm_len metadata \<or> modified \<noteq> sm_modified metadata then throw SourceChanged else
           bind (on_store ports (commit_artifact env staged ''dem'' (Some ''application/x-counter-strike-2-demo''))) (\<lambda>demo.
           bind (on_store ports (enqueue_import env demo)) (\<lambda>job.
           ret (job, demo, sm_len metadata))))))))"

definition diagnostic_json :: "'j pipeline_ports \<Rightarrow> pipeline_error \<Rightarrow> string option" where
  "diagnostic_json ports e = (case e of ParserFailure diagnostic \<Rightarrow> Some (pi_diagnostic_json ports diagnostic) | _ \<Rightarrow> None)"

definition mark_failed :: "'j pipeline_ports \<Rightarrow> string \<Rightarrow> string \<Rightarrow> pipeline_error \<Rightarrow> unit storage" where
  "mark_failed ports job worker e =
     finish_import_with_diagnostic (pi_env ports) job worker FailedPhase (Some (pipeline_code e))
       (Some (remediation_code e)) None (diagnostic_json ports e)"

text \<open>The error of marking the job is dropped.\<close>

definition or_mark_failed :: "'j pipeline_ports \<Rightarrow> string \<Rightarrow> string \<Rightarrow> ('p, 'a) pipeline \<Rightarrow> ('p, 'a) pipeline" where
  "or_mark_failed ports job worker m = (\<lambda>w. case m w of
     (Inr x, v) \<Rightarrow> (Inr x, v)
   | (Inl e, (s, p)) \<Rightarrow> (Inl e, (snd (mark_failed ports job worker e s), p)))"

definition import_inner :: "'j pipeline_ports \<Rightarrow> ('j, 'p) hook option \<Rightarrow> import_request
    \<Rightarrow> ('p, reconciled_outcome) pipeline" where
  "import_inner ports hook request =
     (let env = pi_env ports; worker = rq_worker request in
      bind (accept_source ports request) (\<lambda>(job, demo, len).
      bind (on_store ports (lease_import env job worker (rq_lease_expires_at_ms request))) (\<lambda>_.
      bind (import_progress_now ports job worker (Some (to_i64 len)) 3000) (\<lambda>_.
      or_mark_failed ports job worker (run_leased ports hook job demo request)))))"

definition import_demo :: "'j pipeline_ports \<Rightarrow> import_request \<Rightarrow> ('p, import_outcome) pipeline" where
  "import_demo ports request = bind (import_inner ports None request) (\<lambda>outcome. ret (ro_import outcome))"

definition import_and_reconcile :: "'j pipeline_ports \<Rightarrow> import_request \<Rightarrow> reconciliation_candidate list
    \<Rightarrow> (reconciliation_decision \<Rightarrow> ('p, 'e, unit) effect) \<Rightarrow> ('e \<Rightarrow> string) \<Rightarrow> ('p, reconciled_outcome) pipeline" where
  "import_and_reconcile ports request candidates persist debug =
     import_inner ports (Some (persistence_hook candidates persist debug)) request"

definition cancel_import :: "'j pipeline_ports \<Rightarrow> string \<Rightarrow> string \<Rightarrow> ('p, unit) pipeline" where
  "cancel_import ports job worker =
     on_store ports (finish_import (pi_env ports) job worker CancelledPhase (Some ''cancelled'') None None)"

definition retry_import :: "'j pipeline_ports \<Rightarrow> string \<Rightarrow> ('p, unit) pipeline" where
  "retry_import ports job = on_store ports (reset_import_retry (pi_env ports) job)"

definition recover_expired :: "'j pipeline_ports \<Rightarrow> int \<Rightarrow> ('p, nat) pipeline" where
  "recover_expired ports now = on_store ports (recover_expired_imports (pi_env ports) now)"

end
