(* ===== verification/Match_Store_Correct.thy ===== *)
theory Match_Store_Correct
  imports Store_Frames
begin

text \<open>
  The invariant of the analyses: a match is canonical only with a succeeded run of its own that holds a rating of
  its local player, or the reason why there is none, with a receipt; and the rows of an analysis are only added.
\<close>

section \<open>Well-formed analyses\<close>

definition matches_ok :: "store \<Rightarrow> bool" where
  "matches_ok s \<longleftrightarrow> distinct (map mt_id (st_matches s)) \<and> distinct (map mt_demo_sha256 (st_matches s))
     \<and> (\<forall>m\<in>set (st_matches s). (case mt_canonical_run m of
          None \<Rightarrow> mt_status m = ''imported''
        | Some run \<Rightarrow> mt_status m = ''parsed'' \<and> canonical_run_valid run m s))"

definition runs_ok :: "store \<Rightarrow> bool" where
  "runs_ok s \<longleftrightarrow> distinct (map rn_id (st_runs s)) \<and> distinct (map (\<lambda>r. (rn_match r, rn_identity r)) (st_runs s))
     \<and> (\<forall>r\<in>set (st_runs s). rn_status r \<in> {''running'', ''succeeded''}
        \<and> (\<exists>m\<in>set (st_matches s). mt_id m = rn_match r
             \<and> (rn_status r = ''succeeded'' \<longrightarrow> has_rating (rn_id r) (mt_local_steam_id m) s)))"

definition analyses_ok :: "store \<Rightarrow> bool" where
  "analyses_ok s \<longleftrightarrow> matches_ok s \<and> runs_ok s"

lemma receipt_run_append:
  "receipt_run e s = Some run \<Longrightarrow> receipt_run e (s\<lparr>st_receipts := st_receipts s @ es\<rparr>) = Some run"
  by (auto simp: receipt_run_def intro: find_append_Some)

lemma has_rating_cong:
  assumes "st_receipts t = st_receipts s" "st_vectors t = st_vectors s" "st_unavailable t = st_unavailable s"
  shows "has_rating run local t = has_rating run local s"
  using assms by (simp add: has_rating_def receipt_run_def)

lemma has_rating_grows:
  assumes "has_rating run local s"
    and "\<And>e run. receipt_run e s = Some run \<Longrightarrow> receipt_run e t = Some run"
    and "set (st_vectors s) \<subseteq> set (st_vectors t)" "set (st_unavailable s) \<subseteq> set (st_unavailable t)"
  shows "has_rating run local t"
  using assms by (auto simp: has_rating_def list_ex_iff)

lemma canonical_run_valid_mono:
  assumes "canonical_run_valid run m s" "set (st_runs s) \<subseteq> set (st_runs t)"
    "\<And>r l. has_rating r l s \<Longrightarrow> has_rating r l t"
  shows "canonical_run_valid run m t"
  using assms by (auto simp: canonical_run_valid_def list_ex_iff)

text \<open>Adding rows anywhere else keeps the invariant.\<close>

lemma analyses_ok_grows:
  assumes "analyses_ok s" "st_matches t = st_matches s" "st_runs t = st_runs s"
    "\<And>r l. has_rating r l s \<Longrightarrow> has_rating r l t"
  shows "analyses_ok t"
proof -
  have valid: "canonical_run_valid run m t" if "canonical_run_valid run m s" for run m
    using that assms(3,4) by (auto intro: canonical_run_valid_mono)
  have "matches_ok t"
    unfolding matches_ok_def assms(2) using assms(1) valid
    by (auto simp: analyses_ok_def matches_ok_def split: option.split_asm option.split)
  moreover have "runs_ok t"
    unfolding runs_ok_def assms(2,3) using assms(1,4) by (simp add: analyses_ok_def runs_ok_def) blast
  ultimately show ?thesis by (simp add: analyses_ok_def)
qed

lemma analyses_ok_cong: "analyses_ok s \<Longrightarrow> same_analyses s t \<Longrightarrow> analyses_ok t"
  by (erule analyses_ok_grows) (simp_all add: same_analyses_def has_rating_def receipt_run_def)

interpretation analyses: ledger_order "keeps analyses_ok"
proof (rule keeps_ledger)
  show "analyses_ok (advance s)" if "analyses_ok s" for s
    using that by (rule analyses_ok_cong) (rule same_analyses.order_advance)
  show "analyses_ok (rolled_back s t)" if "analyses_ok s" for s t
    using that by (rule analyses_ok_cong) (simp add: same_analyses_def rolled_back_def)
qed

lemma keeps_same: "obeys same_analyses m \<Longrightarrow> obeys (keeps analyses_ok) m"
  unfolding obeys_def keeps_def using analyses_ok_cong by blast

section \<open>Completing an analysis\<close>

definition completed :: "string \<Rightarrow> string \<Rightarrow> store \<Rightarrow> store" where
  "completed run m s = s\<lparr>st_runs := update_rows (\<lambda>r. rn_id r = run) (\<lambda>r. r\<lparr>rn_status := ''succeeded''\<rparr>) (st_runs s),
     st_matches := update_rows (\<lambda>row. mt_id row = m)
       (\<lambda>row. row\<lparr>mt_canonical_run := Some run, mt_status := ''parsed''\<rparr>) (st_matches s)\<rparr>"

lemma canonical_run_valid_cong:
  "st_runs t = st_runs s \<Longrightarrow> st_receipts t = st_receipts s \<Longrightarrow> st_vectors t = st_vectors s
    \<Longrightarrow> st_unavailable t = st_unavailable s \<Longrightarrow> canonical_run_valid run m t = canonical_run_valid run m s"
  by (simp add: canonical_run_valid_def has_rating_def receipt_run_def)

lemma complete_analysis_Inr:
  assumes "complete_analysis env run s = (Inr (), t)"
  shows "\<exists>r. run_named run s = Some r \<and> same_analyses (completed run (rn_match r) s) t
    \<and> (\<forall>row\<in>set (st_matches s). mt_id row = rn_match r \<longrightarrow> canonical_run_valid run row (completed run (rn_match r) s))"
  using assms unfolding complete_analysis_def transaction_def
  by (auto simp: bind_Inr bind_def query_eq statement_eqs statement_def run_named_def completed_def same_analyses_def
      canonical_run_valid_def has_rating_def receipt_run_def split: if_splits option.splits sum.splits prod.splits)

lemma analyses_ok_completed:
  assumes ok: "analyses_ok s" and r: "run_named run s = Some r"
    and valid: "\<And>m. m \<in> set (st_matches s) \<Longrightarrow> mt_id m = rn_match r
      \<Longrightarrow> canonical_run_valid run m (completed run (rn_match r) s)"
  shows "analyses_ok (completed run (rn_match r) s)" (is "analyses_ok ?t")
proof -
  have same: "has_rating q l ?t = has_rating q l s" for q l
    by (simp add: has_rating_def receipt_run_def completed_def)
  have cong: "canonical_run_valid q k ?t = canonical_run_valid q m ?t"
    if "mt_id k = mt_id m" "mt_local_steam_id k = mt_local_steam_id m" for q k m
    using that by (simp add: canonical_run_valid_def)
  have runs: "map rn_id (st_runs ?t) = map rn_id (st_runs s)"
    "map (\<lambda>r. (rn_match r, rn_identity r)) (st_runs ?t) = map (\<lambda>r. (rn_match r, rn_identity r)) (st_runs s)"
    by (auto simp: completed_def intro!: map_update_rows)
  have ids: "map mt_id (st_matches ?t) = map mt_id (st_matches s)"
    "map mt_demo_sha256 (st_matches ?t) = map mt_demo_sha256 (st_matches s)"
    by (auto simp: completed_def intro!: map_update_rows)
  have kept: "canonical_run_valid q m ?t" if "canonical_run_valid q m s" for q m
  proof -
    from that obtain q0 where q0: "q0 \<in> set (st_runs s)" "rn_id q0 = q" "rn_match q0 = mt_id m" "rn_status q0 = ''succeeded''"
      and rated: "has_rating q (mt_local_steam_id m) s" by (auto simp: canonical_run_valid_def list_ex_iff)
    from q0(4) have "q0\<lparr>rn_status := ''succeeded''\<rparr> = q0" by (cases q0) simp
    with q0(1) have "q0 \<in> set (st_runs ?t)" by (cases "rn_id q0 = run") (auto simp: completed_def set_update_rows)
    with q0 rated show ?thesis by (auto simp: canonical_run_valid_def list_ex_iff same)
  qed
  have row: "\<exists>m\<in>set (st_matches s). mt_id k = mt_id m \<and> mt_local_steam_id k = mt_local_steam_id m
      \<and> (k = m \<or> mt_id m = rn_match r \<and> mt_canonical_run k = Some run \<and> mt_status k = ''parsed'')"
    if "k \<in> set (st_matches ?t)" for k
    using that by (auto simp: completed_def set_update_rows intro: bexI [rotated])
  have "matches_ok ?t"
  proof -
    have "case mt_canonical_run k of None \<Rightarrow> mt_status k = ''imported''
        | Some q \<Rightarrow> mt_status k = ''parsed'' \<and> canonical_run_valid q k ?t" if k: "k \<in> set (st_matches ?t)" for k
    proof -
      from row [OF k] obtain m where m: "m \<in> set (st_matches s)" "mt_id k = mt_id m"
        "mt_local_steam_id k = mt_local_steam_id m"
        "k = m \<or> mt_id m = rn_match r \<and> mt_canonical_run k = Some run \<and> mt_status k = ''parsed''" by blast
      from m(4) show ?thesis
      proof
        assume "k = m"
        with ok m(1) kept show ?thesis by (auto simp: analyses_ok_def matches_ok_def split: option.split_asm option.split)
      next
        assume "mt_id m = rn_match r \<and> mt_canonical_run k = Some run \<and> mt_status k = ''parsed''"
        with valid [OF m(1)] cong [OF m(2,3)] show ?thesis by simp
      qed
    qed
    with ok show ?thesis by (simp add: analyses_ok_def matches_ok_def ids)
  qed
  moreover have "runs_ok ?t"
  proof -
    have "rn_status q \<in> {''running'', ''succeeded''} \<and> (\<exists>k\<in>set (st_matches ?t). mt_id k = rn_match q
        \<and> (rn_status q = ''succeeded'' \<longrightarrow> has_rating (rn_id q) (mt_local_steam_id k) s))" if q: "q \<in> set (st_runs ?t)" for q
    proof -
      from q obtain q0 where q0: "q0 \<in> set (st_runs s)" "rn_id q = rn_id q0" "rn_match q = rn_match q0"
        "q = q0 \<or> rn_id q0 = run \<and> rn_status q = ''succeeded''" by (auto simp: completed_def set_update_rows)
      from ok q0(1) obtain m where m: "m \<in> set (st_matches s)" "mt_id m = rn_match q0"
        "rn_status q0 = ''succeeded'' \<longrightarrow> has_rating (rn_id q0) (mt_local_steam_id m) s"
        "rn_status q0 \<in> {''running'', ''succeeded''}"
        by (auto simp: analyses_ok_def runs_ok_def)
      define k where "k = (if mt_id m = rn_match r then m\<lparr>mt_canonical_run := Some run, mt_status := ''parsed''\<rparr> else m)"
      have k: "k \<in> set (st_matches ?t)" "mt_id k = mt_id m" "mt_local_steam_id k = mt_local_steam_id m"
        using m(1) by (auto simp: k_def completed_def set_update_rows)
      have "has_rating run (mt_local_steam_id m) s" if "rn_id q0 = run"
      proof -
        from r have "r \<in> set (st_runs s)" "rn_id r = run" by (auto simp: run_named_def find_Some_iff)
        with ok q0(1) that have "q0 = r" by (auto simp: analyses_ok_def runs_ok_def distinct_map inj_on_def)
        with valid [OF m(1)] m(2) show ?thesis by (simp add: canonical_run_valid_def same)
      qed
      with q0 m k show ?thesis by auto
    qed
    with ok show ?thesis by (simp add: analyses_ok_def runs_ok_def runs same)
  qed
  ultimately show ?thesis by (simp add: analyses_ok_def)
qed

lemma keeps_complete_analysis: "obeys (keeps analyses_ok) (complete_analysis env run)"
proof -
  have "analyses_ok (snd (complete_analysis env run s))" if ok: "analyses_ok s" for s
  proof (cases "complete_analysis env run s")
    case (Pair r t)
    show ?thesis
    proof (cases r)
      case (Inl e)
      with Pair have "complete_analysis env run s = (Inl e, t)" by simp
      from transaction_Inl [OF this [unfolded complete_analysis_def]] have "same_analyses s t"
        by (auto simp: same_analyses_def rolled_back_def)
      with ok Pair show ?thesis by (simp add: analyses_ok_cong)
    next
      case (Inr u)
      with Pair have "complete_analysis env run s = (Inr (), t)" by simp
      from complete_analysis_Inr [OF this] obtain r where r: "run_named run s = Some r"
        and same: "same_analyses (completed run (rn_match r) s) t"
        and valid: "\<And>m. m \<in> set (st_matches s) \<Longrightarrow> mt_id m = rn_match r
          \<Longrightarrow> canonical_run_valid run m (completed run (rn_match r) s)" by blast
      have "analyses_ok (completed run (rn_match r) s)" by (rule analyses_ok_completed [OF ok r valid])
      with same Pair show ?thesis by (simp add: analyses_ok_cong)
    qed
  qed
  then show ?thesis by (simp add: obeys_def keeps_def)
qed

section \<open>Adding rows\<close>

lemma keeps_new_rows:
  "obeys (keeps analyses_ok) (import_match env demo local map_name)"
  "obeys (keeps analyses_ok) (begin_analysis env m identity)"
proof -
  have new_match: "analyses_ok (s\<lparr>st_matches := st_matches s @ [\<lparr>mt_id = m, mt_demo_sha256 = demo,
      mt_local_steam_id = local, mt_map_name = map_name, mt_canonical_run = None, mt_status = ''imported''\<rparr>]\<rparr>)"
    (is "analyses_ok ?t") if ok: "analyses_ok s" and new: "\<not> match_exists m s" "demo \<notin> set (map mt_demo_sha256 (st_matches s))"
    for s m
  proof -
    have same: "has_rating r l ?t = has_rating r l s" "canonical_run_valid r k ?t = canonical_run_valid r k s" for r l k
      by (simp_all add: has_rating_def canonical_run_valid_def receipt_run_def)
    have "matches_ok ?t" using ok new
      by (auto simp: analyses_ok_def matches_ok_def same match_exists_def split: option.split_asm option.split)
    moreover have "runs_ok ?t" using ok by (fastforce simp: analyses_ok_def runs_ok_def same)
    ultimately show ?thesis by (simp add: analyses_ok_def)
  qed
  show "obeys (keeps analyses_ok) (import_match env demo local map_name)" unfolding import_match_def
    by (intro analyses.obeys_bind analyses.obeys_environment analyses.obeys_pure analyses.obeys_insert_stmt)
      (use new_match in \<open>simp add: keeps_def\<close>)
  have new_run: "analyses_ok (s\<lparr>st_runs := st_runs s @ [\<lparr>rn_id = run, rn_match = m, rn_identity = identity,
      rn_status = ''running''\<rparr>]\<rparr>)"
    (is "analyses_ok ?t") if ok: "analyses_ok s" and new: "\<not> run_exists run s" "match_exists m s"
      "\<not> list_ex (\<lambda>r. rn_match r = m \<and> rn_identity r = identity) (st_runs s)" for s run
  proof -
    have same: "has_rating r l ?t = has_rating r l s" for r l by (simp add: has_rating_def receipt_run_def)
    have valid: "canonical_run_valid r k s \<Longrightarrow> canonical_run_valid r k ?t" for r k
      by (rule canonical_run_valid_mono) (auto simp: same)
    have "matches_ok ?t" using ok valid by (auto simp: analyses_ok_def matches_ok_def split: option.split_asm option.split)
    moreover have "runs_ok ?t" using ok new
      by (auto simp: analyses_ok_def runs_ok_def same run_exists_def match_exists_def list_ex_iff)
    ultimately show ?thesis by (simp add: analyses_ok_def)
  qed
  show "obeys (keeps analyses_ok) (begin_analysis env m identity)" unfolding begin_analysis_def
    by (intro analyses.obeys_bind analyses.obeys_environment analyses.obeys_pure analyses.obeys_insert_stmt)
      (use new_run in \<open>simp add: keeps_def\<close>)
qed

lemma analyses_ok_added:
  assumes "analyses_ok s" "st_matches t = st_matches s" "st_runs t = st_runs s"
    "\<And>e run. receipt_run e s = Some run \<Longrightarrow> receipt_run e t = Some run"
    "set (st_vectors s) \<subseteq> set (st_vectors t)" "set (st_unavailable s) \<subseteq> set (st_unavailable t)"
  shows "analyses_ok t"
  using assms(1-3) by (rule analyses_ok_grows) (rule has_rating_grows [OF _ assms(4-6)])

lemma analyses_ok_rows:
  assumes "analyses_ok s"
  shows "analyses_ok (s\<lparr>st_rounds := a\<rparr>)" "analyses_ok (s\<lparr>st_players := b\<rparr>)" "analyses_ok (s\<lparr>st_match_players := c\<rparr>)"
    "analyses_ok (s\<lparr>st_round_metrics := d\<rparr>)" "analyses_ok (s\<lparr>st_components := e\<rparr>)"
    "analyses_ok (s\<lparr>st_vectors := st_vectors s @ f\<rparr>)" "analyses_ok (s\<lparr>st_unavailable := st_unavailable s @ g\<rparr>)"
    "analyses_ok (s\<lparr>st_receipts := st_receipts s @ h\<rparr>)"
  by (rule analyses_ok_added [OF assms]; auto simp: receipt_run_def intro: find_append_Some; fail)+

lemma keeps_analysis_rows:
  "obeys (keeps analyses_ok) (add_round env run number end_tick winner)"
  "obeys (keeps analyses_ok) (upsert_player env steam_id name)"
  "obeys (keeps analyses_ok) (add_match_participant env m steam_id participation)"
  "obeys (keeps analyses_ok) (add_receipt env run rnd key tick ordinal ps pl sn pr)"
  "obeys (keeps analyses_ok) (write_round_metric env run i steam_id key n k receipt)"
  "obeys (keeps analyses_ok) (persist_available_rating env run steam_id formula bp receipt')"
  "obeys (keeps analyses_ok) (persist_rating_component env vector key n k value_bp weight_bp receipt')"
  "obeys (keeps analyses_ok) (persist_unavailable_rating env run steam_id formula reason receipt')"
  unfolding add_round_def upsert_player_def add_match_participant_def add_receipt_def write_round_metric_def
    persist_available_rating_def persist_rating_component_def persist_unavailable_rating_def
  by (auto intro!: analyses.obeys_bind analyses.obeys_environment analyses.obeys_insert_stmt analyses.obeys_insert_or_ignore
      analyses.obeys_statement analyses.obeys_pure simp: keeps_def analyses_ok_rows split: if_splits)

lemmas keeps_analyses = keeps_complete_analysis keeps_new_rows keeps_analysis_rows analyses.obeys_query

end
