(* ===== verification/Pipeline_Correct.thy ===== *)
theory Pipeline_Correct
  imports Pipeline Import_Queue_Correct Match_Store_Correct
begin

text \<open>
  What the import service guarantees: what its outcomes mean, what it leaves in the ledger when it fails, and
  which demos it can never import.
\<close>

section \<open>Relations through the service\<close>

definition store_rel :: "(store \<Rightarrow> store \<Rightarrow> bool) \<Rightarrow> store \<times> 'p \<Rightarrow> store \<times> 'p \<Rightarrow> bool" where
  "store_rel R w v \<longleftrightarrow> R (fst w) (fst v)"

locale parse_frame = ledger_order +
  assumes serves_artifacts: "obeys R (artifact env d)" "obeys R (quarantine_artifact env d r)"
    and serves_progress: "obeys R (update_import_progress env j w a b c h)" "obeys R (update_parser_progress env j w u)"
begin

lemma pair_order: "effect_order (store_rel R)"
  by unfold_locales (auto simp: store_rel_def order_refl intro: order_trans)

lemmas pair_pure = effect_order.obeys_pure [OF pair_order]
lemmas pair_bind = effect_order.obeys_bind [OF pair_order]
lemmas pair_for_each = effect_order.obeys_for_each [OF pair_order]

lemma on_store_obeys: "obeys R m \<Longrightarrow> obeys (store_rel R) (on_store ports m)"
  by (auto simp: obeys_def store_rel_def on_store_def split: prod.splits) (metis snd_conv)

lemma on_persistence_obeys: "obeys (store_rel R) (on_persistence m)"
  by (auto simp: obeys_def store_rel_def on_persistence_def order_refl split: prod.splits)

lemma run_hook_obeys: "obeys (store_rel R) (run_hook hook parsed local)"
  by (auto simp: run_hook_def intro: pair_pure on_persistence_obeys split: option.split)

lemma queries_obey: "obeys R (match_for_demo env d)" "obeys R (completed_analysis_for_identity env m i)"
  by (auto simp: match_for_demo_def completed_analysis_for_identity_def intro: obeys_query)

lemma report_all_obeys: "obeys R (report_all env job worker ps st)"
proof (induction env job worker ps st rule: report_all.induct)
  case (2 env job worker p ps st)
  have "obeys R (report_progress env job worker p st)" unfolding report_progress_def Let_def
    by (auto intro!: obeys_bind obeys_environment obeys_pure obeys_wrappers serves_progress)
  with 2 show ?case by (auto intro: obeys_bind)
qed (simp add: obeys_pure)

lemma parse_demo_obeys: "obeys (store_rel R) (parse_demo ports job demo worker)"
  unfolding parse_demo_def Let_def
  by (auto intro!: pair_bind pair_pure on_store_obeys serves_artifacts obeys_pure report_all_obeys
      split: prod.split option.split sum.split)

lemma progress_obeys: "obeys (store_rel R) (import_progress_now ports job worker len bp)"
  unfolding import_progress_now_def by (intro pair_bind on_store_obeys obeys_environment serves_progress)

end

text \<open>
  A relation respected by what the service does under a lease, except by the end of the job: then the whole
  leased run respects it as far as the end does. The players it names are \<open>admitted\<close>.
\<close>

locale service_frame = parse_frame +
  fixes admitted :: "string \<Rightarrow> bool"
  assumes serves_matches: "obeys R (import_match env d l m)" "obeys R (begin_analysis env i idn)"
      "admitted p \<Longrightarrow> obeys R (upsert_player env p n)" "obeys R (add_match_participant env i p q)"
      "obeys R (complete_analysis env i)"
    and serves_rows: "obeys R (add_round env i k t wn)" "obeys R (add_receipt env i rnd key tk od ps pl sn pr)"
      "obeys R (write_round_metric env i rd st key num den rc)" "obeys R (persist_available_rating env i st fm bp re)"
      "obeys R (persist_rating_component env vc key num den vb wb re)"
      "obeys R (persist_unavailable_rating env i st fm rs re)"
begin

lemma match_of_demo_obeys:
  assumes "\<And>p. p \<in> set (po_participants parsed) \<Longrightarrow> admitted (show_nat (pt_steam_id p))"
  shows "obeys (store_rel R) (match_of_demo ports demo existing parsed local)"
proof -
  have "obeys (store_rel R) (for_each (\<lambda>p. let steam_id = show_nat (pt_steam_id p) in
      bind (on_store ports (upsert_player (pi_env ports) steam_id (pt_name p))) (\<lambda>_.
      on_store ports (add_match_participant (pi_env ports) m steam_id ''unknown''))) ps)"
    if "\<And>p. p \<in> set ps \<Longrightarrow> admitted (show_nat (pt_steam_id p))" for m ps
    using that by (induction ps) (auto simp: Let_def intro!: pair_bind pair_pure on_store_obeys serves_matches)
  with assms show ?thesis unfolding match_of_demo_def
    by (auto intro!: pair_bind pair_pure on_store_obeys serves_matches split: option.split)
qed

lemma round_number_obeys: "obeys (store_rel R) (round_number n)"
  by (simp add: round_number_def pair_pure)

lemma persist_component_obeys: "obeys (store_rel R) (persist_component ports run local vector component)"
  unfolding persist_component_def Let_def by (intro pair_bind on_store_obeys serves_rows)

lemma persist_analysis_obeys: "obeys (store_rel R) (persist_analysis ports job run demo parsed local)"
  unfolding persist_analysis_def persist_available_def persist_unavailable_def persist_round_def Let_def
  by (auto intro!: pair_bind pair_for_each pair_pure on_store_obeys serves_rows round_number_obeys persist_component_obeys
      split: sum.split option.split)

text \<open>From a parsed demo to the analysis in the tables.\<close>

lemma analysed_steps:
  fixes w0 w1 w3 w4 w5 w6 :: "store \<times> 'p"
  assumes "import_progress_now ports job worker None bp w0 = (Inr (), w1)" "match_for_demo env demo (fst w1) = (q1, s2)"
    "fst w3 = advance s2 \<or> fst w3 = s2" "match_of_demo ports demo existing parsed local w3 = (q2, w4)"
    "begin_analysis env m identity (fst w4) = (q3, fst w5)"
    "persist_analysis ports job run demo parsed local w5 = (q4, w6)"
    and players: "\<And>p. p \<in> set (po_participants parsed) \<Longrightarrow> admitted (show_nat (pt_steam_id p))"
  shows "R (fst w0) (fst w4)" "R (fst w4) (fst w5)" "R (fst w5) (fst w6)"
proof -
  have "R (fst w0) (fst w1)" using obeysD [OF progress_obeys [of ports job worker None bp], of w0] assms(1) by (simp add: store_rel_def)
  moreover have "R (fst w1) s2" using obeysD [OF queries_obey(1) [of env demo], of "fst w1"] assms(2) by simp
  moreover have "R s2 (fst w3)" using assms(3) order_refl order_advance by metis
  moreover have "R (fst w3) (fst w4)"
    using obeysD [OF match_of_demo_obeys [OF players, of parsed ports demo existing local], of w3] assms(4)
    by (simp add: store_rel_def)
  ultimately show "R (fst w0) (fst w4)" by (meson order_trans)
  show "R (fst w4) (fst w5)" using obeysD [OF serves_matches(2) [of env m identity], of "fst w4"] assms(5) by simp
  show "R (fst w5) (fst w6)"
    using obeysD [OF persist_analysis_obeys [of ports job run demo parsed local], of w5] assms(6) by (simp add: store_rel_def)
qed

text \<open>The leased run up to the end of the job.\<close>

lemma finish_last:
  assumes "obeys_error R (finish_import (pi_env ports) job worker Succeeded None None None)"
  shows "obeys_error (store_rel R) (bind (finish_succeeded ports job worker) (\<lambda>_. ret x))"
proof (rule effect_order.obeys_error_last [OF pair_order])
  show "obeys_error (store_rel R) (finish_succeeded ports job worker)"
    using assms by (auto simp: obeys_error_def finish_succeeded_def on_store_def store_rel_def map_err_eq_Inl
        split: prod.splits)
qed

lemma import_parsed_error_obeys:
  assumes "obeys_error R (finish_import (pi_env ports) job (rq_worker request) Succeeded None None None)"
    and "\<And>p. p \<in> set (po_participants parsed) \<Longrightarrow> admitted (show_nat (pt_steam_id p))"
  shows "obeys_error (store_rel R) (import_parsed ports hook job demo request parsed)"
  unfolding import_parsed_def Let_def
  by (auto intro!: effect_order.obeys_error_bind [OF pair_order] finish_last [OF assms(1)] progress_obeys
      on_store_obeys queries_obey pair_pure match_of_demo_obeys assms(2) serves_matches persist_analysis_obeys run_hook_obeys
      split: option.split)

lemma import_parsed_obeys:
  assumes "obeys R (finish_import (pi_env ports) job (rq_worker request) Succeeded None None None)"
    and "\<And>p. p \<in> set (po_participants parsed) \<Longrightarrow> admitted (show_nat (pt_steam_id p))"
  shows "obeys (store_rel R) (import_parsed ports hook job demo request parsed)"
  unfolding import_parsed_def Let_def finish_succeeded_def
  by (auto intro!: pair_bind on_store_obeys assms progress_obeys queries_obey pair_pure
      match_of_demo_obeys serves_matches persist_analysis_obeys run_hook_obeys split: option.split)

lemma run_leased_error_obeys:
  assumes "obeys_error R (finish_import (pi_env ports) job (rq_worker request) Succeeded None None None)"
    and "\<And>i. admitted (show_nat i)"
  shows "obeys_error (store_rel R) (run_leased ports hook job demo request)"
  unfolding run_leased_def
  by (intro effect_order.obeys_error_bind [OF pair_order] parse_demo_obeys import_parsed_error_obeys assms)

lemma run_leased_obeys:
  assumes "obeys R (finish_import (pi_env ports) job (rq_worker request) Succeeded None None None)"
    and "\<And>i. admitted (show_nat i)"
  shows "obeys (store_rel R) (run_leased ports hook job demo request)"
  unfolding run_leased_def by (intro pair_bind parse_demo_obeys import_parsed_obeys assms)

end

text \<open>The whole import, from the validation of the source to the mark of a failure.\<close>

locale import_frame = service_frame R "\<lambda>_. True" for R +
  assumes accepts: "obeys R (stage_from_reader env sha reads)" "obeys R (commit_artifact env staged ext media)"
      "obeys R (enqueue_import env d)" "obeys R (lease_import env j w e)"
      "obeys R (finish_import_with_diagnostic env j w ph err rem nx dg)"
begin

lemma accept_source_obeys: "obeys (store_rel R) (accept_source ports request)"
  unfolding accept_source_def Let_def
  by (auto intro!: pair_bind pair_pure on_store_obeys accepts split: sum.split)

lemma or_mark_failed_obeys:
  assumes "obeys (store_rel R) m"
  shows "obeys (store_rel R) (or_mark_failed ports job worker m)"
proof -
  have "store_rel R w (snd (or_mark_failed ports job worker m w))" for w
  proof -
    obtain r u q where mw: "m w = (r, (u, q))" by (metis surj_pair)
    then have v: "R (fst w) u" using assms by (metis obeysD snd_conv fst_conv store_rel_def)
    moreover have "R u (snd (mark_failed ports job worker e u))" for e
      unfolding mark_failed_def using accepts(5) by (rule obeysD)
    ultimately show ?thesis
      using mw order_trans by (cases r) (auto simp: or_mark_failed_def store_rel_def)
  qed
  then show ?thesis by (simp add: obeys_def)
qed

lemma import_inner_obeys: "obeys (store_rel R) (import_inner ports hook request)"
  unfolding import_inner_def Let_def
  by (auto intro!: pair_bind accept_source_obeys on_store_obeys accepts progress_obeys or_mark_failed_obeys run_leased_obeys
      simp: finish_import_def)

end

section \<open>The ledger of an import\<close>

text \<open>The rows that an import only adds: a succeeded run, its rounds, receipts, metrics and ratings are never changed.\<close>

definition ledger_grows :: "store \<Rightarrow> store \<Rightarrow> bool" where
  "ledger_grows s t \<longleftrightarrow>
     (\<lambda>m. (mt_id m, mt_demo_sha256 m)) ` set (st_matches s) \<subseteq> (\<lambda>m. (mt_id m, mt_demo_sha256 m)) ` set (st_matches t)
     \<and> (\<lambda>r. (rn_id r, rn_match r, rn_identity r)) ` set (st_runs s)
         \<subseteq> (\<lambda>r. (rn_id r, rn_match r, rn_identity r)) ` set (st_runs t)
     \<and> {r \<in> set (st_runs s). rn_status r = ''succeeded''} \<subseteq> set (st_runs t)
     \<and> set (st_rounds s) \<subseteq> set (st_rounds t) \<and> set (st_receipts s) \<subseteq> set (st_receipts t)
     \<and> set (st_round_metrics s) \<subseteq> set (st_round_metrics t) \<and> set (st_vectors s) \<subseteq> set (st_vectors t)
     \<and> set (st_components s) \<subseteq> set (st_components t) \<and> set (st_unavailable s) \<subseteq> set (st_unavailable t)"

lemma ledger_grows_same: "same_analyses s t \<Longrightarrow> ledger_grows s t"
  by (simp add: ledger_grows_def same_analyses_def)

interpretation ledger: ledger_order ledger_grows
  by unfold_locales (auto simp: ledger_grows_def rolled_back_def subset_iff image_iff)

lemma grows_same: "obeys same_analyses m \<Longrightarrow> obeys ledger_grows m"
  unfolding obeys_def using ledger_grows_same by blast

lemma grows_rows:
  "obeys ledger_grows (import_match env demo local map_name)" "obeys ledger_grows (begin_analysis env m identity)"
  "obeys ledger_grows (add_round env run number end_tick winner)" "obeys ledger_grows (upsert_player env steam_id name)"
  "obeys ledger_grows (add_match_participant env m steam_id participation)"
  "obeys ledger_grows (add_receipt env run rnd key tick ordinal ps pl sn pr)"
  "obeys ledger_grows (write_round_metric env run i steam_id key n k receipt)"
  "obeys ledger_grows (persist_available_rating env run steam_id formula bp receipt')"
  "obeys ledger_grows (persist_rating_component env vector key n k value_bp weight_bp receipt')"
  "obeys ledger_grows (persist_unavailable_rating env run steam_id formula reason receipt')"
  unfolding import_match_def begin_analysis_def add_round_def upsert_player_def add_match_participant_def add_receipt_def
    write_round_metric_def persist_available_rating_def persist_rating_component_def persist_unavailable_rating_def
  by (auto intro!: ledger.obeys_bind ledger.obeys_environment ledger.obeys_insert_stmt ledger.obeys_insert_or_ignore
      ledger.obeys_statement ledger.obeys_pure simp: ledger_grows_def split: if_splits)

lemma grows_completed: "ledger_grows s (completed run m s)"
proof -
  have "r \<in> set (st_runs (completed run m s))" if "r \<in> set (st_runs s)" "rn_status r = ''succeeded''" for r
  proof -
    from that(2) have "r\<lparr>rn_status := ''succeeded''\<rparr> = r" by (cases r) simp
    with that(1) show ?thesis by (cases "rn_id r = run") (auto simp: completed_def set_update_rows)
  qed
  moreover have "(\<lambda>r. (rn_id r, rn_match r, rn_identity r)) ` set (st_runs (completed run m s))
      = (\<lambda>r. (rn_id r, rn_match r, rn_identity r)) ` set (st_runs s)"
    unfolding completed_def set_map [symmetric] by (simp add: map_update_rows)
  moreover have "(\<lambda>r. (mt_id r, mt_demo_sha256 r)) ` set (st_matches (completed run m s))
      = (\<lambda>r. (mt_id r, mt_demo_sha256 r)) ` set (st_matches s)"
    unfolding completed_def set_map [symmetric] by (simp add: map_update_rows)
  ultimately show ?thesis by (auto simp: ledger_grows_def) (simp_all add: completed_def)
qed

lemma grows_complete_analysis: "obeys ledger_grows (complete_analysis env run)"
proof -
  have "ledger_grows s (snd (complete_analysis env run s))" for s
  proof (cases "complete_analysis env run s")
    case (Pair r t)
    show ?thesis
    proof (cases r)
      case (Inl e)
      with Pair have "complete_analysis env run s = (Inl e, t)" by simp
      from transaction_Inl [OF this [unfolded complete_analysis_def]] Pair show ?thesis
        by (auto intro!: ledger_grows_same simp: same_analyses_def rolled_back_def)
    next
      case (Inr u)
      with Pair have "complete_analysis env run s = (Inr (), t)" by simp
      from complete_analysis_Inr [OF this] Pair show ?thesis
        using grows_completed ledger_grows_same ledger.order_trans by (metis snd_conv)
    qed
  qed
  then show ?thesis by (simp add: obeys_def)
qed

interpretation growing: import_frame ledger_grows
  by unfold_locales
    (intro grows_rows grows_complete_analysis grows_same same_analyses.artifact_frame same_analyses.queue_frame)+

interpretation unchanged: parse_frame same_analyses
  by unfold_locales (intro same_analyses.artifact_frame same_analyses.queue_frame)+

interpretation canonical: import_frame "keeps analyses_ok"
  by unfold_locales
    (intro keeps_analyses keeps_same same_analyses.artifact_frame same_analyses.queue_frame)+

lemma evolves_same: "obeys same_queue m \<Longrightarrow> obeys queue_evolves m"
  by (auto simp: obeys_def queue_evolves_def same_queue_def queue_ok_def)

interpretation queueing: import_frame queue_evolves
  by unfold_locales
    (intro obeys_queue obeys_enqueue_import evolves_same same_queue.artifact_frame same_queue.analysis_frame
      same_queue.obeys_complete_analysis)+

text \<open>Imports one after the other, whatever each of them answers.\<close>

definition import_all :: "'j pipeline_ports \<Rightarrow> ('j, 'p) hook option \<Rightarrow> import_request list \<Rightarrow> store \<times> 'p \<Rightarrow> store \<times> 'p" where
  "import_all ports hook requests w = fold (\<lambda>request w. snd (import_inner ports hook request w)) requests w"

lemma import_all_obeys:
  fixes w :: "store \<times> 'p"
  assumes "effect_order (store_rel R :: store \<times> 'p \<Rightarrow> store \<times> 'p \<Rightarrow> bool)" "\<And>request. obeys (store_rel R) (import_inner ports hook request)"
  shows "store_rel R w (import_all ports hook requests w)"
  unfolding import_all_def
proof (induction requests arbitrary: w)
  case Nil
  show ?case by (simp add: effect_order.order_refl [OF assms(1)])
next
  case (Cons request requests)
  have "store_rel R w (snd (import_inner ports hook request w))" by (rule obeysD [OF assms(2)])
  from effect_order.order_trans [OF assms(1) this Cons.IH] show ?case by simp
qed

text \<open>
  C19: Whatever the imports are, whichever of them fail and wherever they fail, the ledger stays consistent: a match is
  canonical exactly when it is parsed, and then with a succeeded run of its own that holds a rating of its local
  player or the reason for none with a receipt of that run; and everything an earlier import wrote stays:
  no succeeded run, round, receipt, metric, rating or component is ever changed or removed.
\<close>
theorem imports_keep_ledger:
  assumes "analyses_ok s" "queue_ok s"
    "t = fst (import_all ports hook requests (s, p))"
  shows "analyses_ok t \<and> queue_ok t \<and> ledger_grows s t \<and> history_extends (st_attempts s) (st_attempts t)"
  using import_all_obeys [OF growing.pair_order growing.import_inner_obeys, of "(s, p)" ports hook requests]
    import_all_obeys [OF canonical.pair_order canonical.import_inner_obeys, of "(s, p)" ports hook requests]
    import_all_obeys [OF queueing.pair_order queueing.import_inner_obeys, of "(s, p)" ports hook requests] assms
  by (simp add: store_rel_def keeps_def queue_evolves_def)

section \<open>What an outcome means\<close>

lemma on_store_Inr: "on_store ports m w = (Inr x, v) \<longleftrightarrow> m (fst w) = (Inr x, fst v) \<and> snd v = snd w"
  by (cases w; cases v; cases "m (fst w)") (auto simp: on_store_def map_err_eq_Inr)

lemma on_persistence_Inr: "on_persistence m w = (Inr x, v) \<Longrightarrow> fst v = fst w"
  by (cases w; cases v; cases "m (snd w)") (auto simp: on_persistence_def)

lemma run_hook_Inr: "run_hook hook parsed local w = (Inr x, v) \<Longrightarrow> fst v = fst w"
  by (auto simp: run_hook_def pure_eq dest: on_persistence_Inr split: option.splits)

lemma obeys_Inr: "obeys R m \<Longrightarrow> m w = (r, v) \<Longrightarrow> R w v"
  by (metis obeysD snd_conv)

text \<open>The rows that a reported outcome stands for.\<close>

definition canonical_run :: "string \<Rightarrow> string \<Rightarrow> store \<Rightarrow> bool" where
  "canonical_run demo run t \<longleftrightarrow>
     (\<exists>m\<in>set (st_matches t). mt_demo_sha256 m = demo \<and> mt_canonical_run m = Some run \<and> mt_status m = ''parsed'')"

fun recorded :: "'j parsed_output \<Rightarrow> steam_id \<Rightarrow> import_outcome \<Rightarrow> store \<Rightarrow> bool" where
  "recorded parsed local (Deduplicated job demo) t \<longleftrightarrow>
     (\<exists>m\<in>set (st_matches t). \<exists>r\<in>set (st_runs t). mt_demo_sha256 m = demo \<and> rn_match r = mt_id m
        \<and> rn_identity r = identity_columns (po_identity parsed) \<and> rn_status r = ''succeeded'')"
| "recorded parsed local (ReadyOutcome job demo bp) t \<longleftrightarrow>
     (\<exists>analysis b. analyze parsed local = Inr analysis \<and> rr_rating_bp (an_rating_receipt analysis) = Some b
        \<and> bp = unat (bp_get b))
     \<and> (\<exists>v\<in>set (st_vectors t). canonical_run demo (vr_run v) t \<and> vr_steam_id v = show_nat local \<and> vr_rating_bp v = int bp)"
| "recorded parsed local (RatingUnavailable job demo reason) t \<longleftrightarrow> analyze parsed local = Inl reason
     \<and> (\<exists>u\<in>set (st_unavailable t). canonical_run demo (ur_run u) t \<and> ur_steam_id u = show_nat local)"

lemma recorded_cong: "same_analyses s t \<Longrightarrow> recorded parsed local outcome t = recorded parsed local outcome s"
  by (cases outcome) (simp_all add: same_analyses_def canonical_run_def)

lemma persist_rating_Inr:
  "persist_available_rating env run steam_id formula bp receipt s = (Inr vector, t)
    \<Longrightarrow> \<exists>row\<in>set (st_vectors t). vr_run row = run \<and> vr_steam_id row = steam_id \<and> vr_rating_bp row = bp"
  "persist_unavailable_rating env run steam_id formula reason receipt s = (Inr (), t)
    \<Longrightarrow> \<exists>row\<in>set (st_unavailable t). ur_run row = run \<and> ur_steam_id row = steam_id"
  by (auto simp: persist_available_rating_def persist_unavailable_rating_def bind_Inr pure_eq insert_stmt_eq split: if_splits)

lemma persist_available_Inr:
  assumes "persist_available ports job run demo local analysis w = (Inr x, v)"
  shows "\<exists>b. rr_rating_bp (an_rating_receipt analysis) = Some b \<and> x = ReadyOutcome job demo (unat (bp_get b))
    \<and> (\<exists>row\<in>set (st_vectors (fst v)). vr_run row = run \<and> vr_steam_id row = show_nat local
        \<and> vr_rating_bp row = int (unat (bp_get b)))"
proof (cases "rr_rating_bp (an_rating_receipt analysis)")
  case None
  with assms show ?thesis by (auto simp: persist_available_def bind_Inr pure_eq)
next
  case (Some b)
  have "\<exists>receipt vector s1 w2 y. persist_available_rating (pi_env ports) run (show_nat local) ''ofr-1.0.0''
        (int (unat (bp_get b))) receipt s1 = (Inr vector, fst w2)
      \<and> (case rr_component_receipts (an_rating_receipt analysis) of None \<Rightarrow> ret ()
          | Some components \<Rightarrow> for_each (persist_component ports run local vector) components) w2 = (Inr y, v)
      \<and> x = ReadyOutcome job demo (unat (bp_get b))"
    using assms unfolding persist_available_def bind_Inr on_store_Inr pure_eq Let_def Some
    by (elim exE conjE) (simp only: ok_or_simps sum.inject, blast)
  then obtain receipt vector s1 w2 y where
    rated: "persist_available_rating (pi_env ports) run (show_nat local) ''ofr-1.0.0'' (int (unat (bp_get b))) receipt
      s1 = (Inr vector, fst w2)"
    and parts: "(case rr_component_receipts (an_rating_receipt analysis) of None \<Rightarrow> ret ()
      | Some components \<Rightarrow> for_each (persist_component ports run local vector) components) w2 = (Inr y, v)"
    and x: "x = ReadyOutcome job demo (unat (bp_get b))" by blast
  have "obeys (store_rel ledger_grows) (case rr_component_receipts (an_rating_receipt analysis) of None \<Rightarrow> ret ()
      | Some components \<Rightarrow> for_each (persist_component ports run local vector) components)"
    by (auto intro!: growing.pair_for_each growing.persist_component_obeys growing.pair_pure split: option.split)
  from obeys_Inr [OF this parts] have "store_rel ledger_grows w2 v" .
  with persist_rating_Inr(1) [OF rated] x Some show ?thesis by (auto simp: store_rel_def ledger_grows_def)
qed

lemma persist_unavailable_Inr:
  assumes "persist_unavailable ports run parsed local reason w = (Inr (), v)"
  shows "\<exists>row\<in>set (st_unavailable (fst v)). ur_run row = run \<and> ur_steam_id row = show_nat local"
  using assms persist_rating_Inr(2) unfolding persist_unavailable_def bind_Inr on_store_Inr by blast

text \<open>A successful run, step by step: the demo was known, or it was analysed.\<close>

lemma import_parsed_Inr:
  fixes w :: "store \<times> 'p"
  assumes "import_parsed ports hook job demo request parsed w = (Inr out, v)"
  defines "env \<equiv> pi_env ports" and "identity \<equiv> identity_columns (po_identity parsed)"
  obtains (known) w1 s2 w3 w4 m decisions where "import_progress_now ports job (rq_worker request) None 7000 w = (Inr (), w1)"
      "match_for_demo env demo (fst w1) = (Inr (Some m), s2)"
      "completed_analysis_for_identity env m identity s2 = (Inr True, fst w3)"
      "run_hook hook parsed (rq_local request) w3 = (Inr decisions, w4)"
      "finish_succeeded ports job (rq_worker request) w4 = (Inr (), v)" "ro_import out = Deduplicated job demo"
  | (analysed) existing s2 m run outcome decisions and w1 w3 w4 w5 w6 w7 w8 w9 :: "store \<times> 'p" where
      "import_progress_now ports job (rq_worker request) None 7000 w = (Inr (), w1)"
      "match_for_demo env demo (fst w1) = (Inr existing, s2)" "fst w3 = advance s2 \<or> fst w3 = s2"
      "match_of_demo ports demo existing parsed (rq_local request) w3 = (Inr m, w4)"
      "begin_analysis env m identity (fst w4) = (Inr run, fst w5)"
      "persist_analysis ports job run demo parsed (rq_local request) w5 = (Inr outcome, w6)"
      "complete_analysis env run (fst w6) = (Inr (), fst w7)"
      "run_hook hook parsed (rq_local request) w7 = (Inr decisions, w8)"
      "import_progress_now ports job (rq_worker request) None 10000 w8 = (Inr (), w9)"
      "finish_succeeded ports job (rq_worker request) w9 = (Inr (), v)" "ro_import out = outcome"
proof -
  from assms(1) obtain y w1 w2 w3 existing found where
    start: "import_progress_now ports job (rq_worker request) None 7000 w = (Inr y, w1)"
      "match_for_demo env demo (fst w1) = (Inr existing, fst w2)"
      "(case existing of None \<Rightarrow> ret False
        | Some m \<Rightarrow> on_store ports (completed_analysis_for_identity env m identity)) w2 = (Inr found, w3)"
    and rest: "(if found then
        bind (run_hook hook parsed (rq_local request)) (\<lambda>decisions.
        bind (finish_succeeded ports job (rq_worker request)) (\<lambda>_.
        ret \<lparr>ro_import = Deduplicated job demo, ro_reconciliation = decisions\<rparr>))
      else
        bind (match_of_demo ports demo existing parsed (rq_local request)) (\<lambda>m.
        bind (on_store ports (begin_analysis env m identity)) (\<lambda>run.
        bind (persist_analysis ports job run demo parsed (rq_local request)) (\<lambda>outcome.
        bind (on_store ports (complete_analysis env run)) (\<lambda>_.
        bind (run_hook hook parsed (rq_local request)) (\<lambda>decisions.
        bind (import_progress_now ports job (rq_worker request) None 10000) (\<lambda>_.
        bind (finish_succeeded ports job (rq_worker request)) (\<lambda>_.
        ret \<lparr>ro_import = outcome, ro_reconciliation = decisions\<rparr>)))))))) w3 = (Inr out, v)"
    unfolding import_parsed_def Let_def env_def identity_def bind_Inr on_store_Inr by blast
  have unit: "y = ()" by simp
  note start = start [unfolded unit]
  show ?thesis
  proof (cases found)
    case True
    with start(3) obtain m where m: "existing = Some m"
      "completed_analysis_for_identity env m identity (fst w2) = (Inr True, fst w3)"
      by (auto simp: on_store_Inr pure_eq split: option.splits)
    from rest True obtain w4 decisions where "run_hook hook parsed (rq_local request) w3 = (Inr decisions, w4)"
      "finish_succeeded ports job (rq_worker request) w4 = (Inr (), v)" "ro_import out = Deduplicated job demo"
      by (auto simp: bind_Inr pure_eq)
    with known start(1,2) m show ?thesis by blast
  next
    case False
    from start(3) have "fst w3 = advance (fst w2) \<or> fst w3 = fst w2"
      by (auto simp: on_store_Inr pure_eq completed_analysis_for_identity_def query_eq split: option.splits if_splits)
    note begun = analysed [OF start(1,2) this]
    from rest False obtain m run outcome decisions and w4 w5 w6 w7 w8 w9 :: "store \<times> 'p" where
      "match_of_demo ports demo existing parsed (rq_local request) w3 = (Inr m, w4)"
      "begin_analysis env m identity (fst w4) = (Inr run, fst w5)"
      "persist_analysis ports job run demo parsed (rq_local request) w5 = (Inr outcome, w6)"
      "complete_analysis env run (fst w6) = (Inr (), fst w7)"
      "run_hook hook parsed (rq_local request) w7 = (Inr decisions, w8)"
      "import_progress_now ports job (rq_worker request) None 10000 w8 = (Inr (), w9)"
      "finish_succeeded ports job (rq_worker request) w9 = (Inr (), v)" "ro_import out = outcome"
      by (auto simp: bind_Inr pure_eq on_store_Inr)
    then show ?thesis by (rule begun)
  qed
qed

lemma match_for_demo_Inr:
  "match_for_demo env demo s = (Inr (Some m), t) \<Longrightarrow> t = advance s \<and> (m, demo) \<in> (\<lambda>m. (mt_id m, mt_demo_sha256 m)) ` set (st_matches s)"
  by (force simp: match_for_demo_def query_eq find_Some_iff split: if_splits)

lemma completed_analysis_Inr:
  "completed_analysis_for_identity env m identity s = (Inr True, t)
    \<Longrightarrow> t = advance s \<and> (\<exists>r\<in>set (st_runs s). rn_match r = m \<and> rn_identity r = identity \<and> rn_status r = ''succeeded'')"
  by (auto simp: completed_analysis_for_identity_def query_eq list_ex_iff split: if_splits)

lemma begin_analysis_Inr:
  "begin_analysis env m identity s = (Inr run, t)
    \<Longrightarrow> (run, m, identity) \<in> (\<lambda>r. (rn_id r, rn_match r, rn_identity r)) ` set (st_runs t)"
  by (auto simp: begin_analysis_def bind_Inr pure_eq new_id_eq now_ms_eq insert_stmt_eq split: if_splits)

lemma match_of_demo_Inr:
  fixes w :: "store \<times> 'p"
  assumes "match_of_demo ports demo existing parsed local w = (Inr m, v)"
    and "\<And>m. existing = Some m \<Longrightarrow> (m, demo) \<in> (\<lambda>m. (mt_id m, mt_demo_sha256 m)) ` set (st_matches (fst w))"
  shows "(m, demo) \<in> (\<lambda>m. (mt_id m, mt_demo_sha256 m)) ` set (st_matches (fst v))"
proof (cases existing)
  case (Some m')
  with assms show ?thesis by (simp add: match_of_demo_def pure_eq)
next
  case None
  define players :: "('p, unit) pipeline" where "players = for_each (\<lambda>p. let steam_id = show_nat (pt_steam_id p) in
      bind (on_store ports (upsert_player (pi_env ports) steam_id (pt_name p))) (\<lambda>_.
      on_store ports (add_match_participant (pi_env ports) m steam_id ''unknown''))) (po_participants parsed)"
  from assms(1) None obtain w1 where m: "import_match (pi_env ports) demo (show_nat local) (dm_map (po_metadata parsed)) (fst w)
      = (Inr m, fst w1)" and ps: "players w1 = (Inr (), v)"
    by (auto simp: match_of_demo_def bind_Inr on_store_Inr pure_eq players_def)
  have "obeys (store_rel ledger_grows) players" unfolding players_def
    by (auto simp: Let_def intro!: growing.pair_for_each growing.pair_bind growing.on_store_obeys grows_rows)
  from obeys_Inr [OF this ps] have "ledger_grows (fst w1) (fst v)" by (simp add: store_rel_def)
  moreover from m have "(m, demo) \<in> (\<lambda>m. (mt_id m, mt_demo_sha256 m)) ` set (st_matches (fst w1))"
    by (auto simp: import_match_def bind_Inr pure_eq new_id_eq now_ms_eq insert_stmt_eq split: if_splits
        dest!: sym [of _ "fst w1"])
  ultimately show ?thesis unfolding ledger_grows_def by blast
qed

lemma canonical_run_completed:
  assumes done_run: "complete_analysis env run s = (Inr (), t)" and ok: "analyses_ok s"
    and m: "(m, demo) \<in> (\<lambda>m. (mt_id m, mt_demo_sha256 m)) ` set (st_matches s)"
    and run: "(run, m, identity) \<in> (\<lambda>r. (rn_id r, rn_match r, rn_identity r)) ` set (st_runs s)"
  shows "canonical_run demo run t"
proof -
  from complete_analysis_Inr [OF done_run] obtain r where r: "run_named run s = Some r"
    and same: "same_analyses (completed run (rn_match r) s) t" by blast
  from run obtain q where "q \<in> set (st_runs s)" "rn_id q = run" "rn_match q = m" by auto
  moreover from r have "r \<in> set (st_runs s)" "rn_id r = run" by (auto simp: run_named_def find_Some_iff)
  ultimately have "rn_match r = m" using ok by (auto simp: analyses_ok_def runs_ok_def distinct_map inj_on_def)
  moreover from m obtain row where "row \<in> set (st_matches s)" "mt_id row = m" "mt_demo_sha256 row = demo" by auto
  ultimately have "canonical_run demo run (completed run (rn_match r) s)"
    by (auto simp: canonical_run_def completed_def update_rows_def intro!: bexI
        [of _ "row\<lparr>mt_canonical_run := Some run, mt_status := ''parsed''\<rparr>"])
  with same show ?thesis by (simp add: canonical_run_def same_analyses_def)
qed

lemma persist_analysis_Inr:
  assumes "persist_analysis ports job run demo parsed local w = (Inr outcome, v)"
    and "canonical_run demo run t" "ledger_grows (fst v) t"
  shows "recorded parsed local outcome t"
proof (cases "analyze parsed local")
  case (Inl reason)
  with assms(1) have "persist_unavailable ports run parsed local reason w = (Inr (), v)"
    "outcome = RatingUnavailable job demo reason" by (auto simp: persist_analysis_def bind_Inr pure_eq)
  with persist_unavailable_Inr [OF this(1)] assms(2,3) Inl show ?thesis by (auto simp: ledger_grows_def)
next
  case (Inr analysis)
  with assms(1) have "persist_available ports job run demo local analysis w = (Inr outcome, v)"
    by (simp add: persist_analysis_def)
  from persist_available_Inr [OF this] obtain b row where
    b: "rr_rating_bp (an_rating_receipt analysis) = Some b" "outcome = ReadyOutcome job demo (unat (bp_get b))"
    and row: "row \<in> set (st_vectors (fst v))" "vr_run row = run" "vr_steam_id row = show_nat local"
      "vr_rating_bp row = int (unat (bp_get b))" by blast
  from row(1) assms(3) have "row \<in> set (st_vectors t)" by (auto simp: ledger_grows_def)
  with assms(2) b row(2-4) Inr show ?thesis unfolding b(2) recorded.simps by blast
qed

lemma status_stmt_Inr:
  "status_stmt env p f s = (Inr n, t) \<Longrightarrow> n = count_rows p (st_jobs s) \<and> st_jobs t = update_rows p f (st_jobs s)"
  by (auto simp: status_stmt_def statement_Inr dest: update_status_rows split: option.splits)

lemma parse_demo_Inr:
  assumes "parse_demo ports job demo worker w = (Inr parsed, v)"
  shows "\<exists>relative content reports. pi_parse ports relative content = (reports, Inr parsed)"
proof -
  from assms obtain relative content w3 where step: "(let (reports, result) = pi_parse ports relative content in
     bind (on_store ports (report_all (pi_env ports) job worker reports \<lparr>ps_error = None, ps_last = None\<rparr>)) (\<lambda>progress.
     (case ps_error progress of Some e \<Rightarrow> throw (StorageFailure (pi_debug ports e)) | None \<Rightarrow>
     (case result of
        Inl diagnostic \<Rightarrow>
          bind (on_store ports (quarantine_artifact (pi_env ports) demo (category_code (pg_category diagnostic))))
            (\<lambda>_. throw (ParserFailure diagnostic))
      | Inr parsed \<Rightarrow>
          if po_participants parsed = [] then
            bind (on_store ports (quarantine_artifact (pi_env ports) demo ''suspicious_empty_roster''))
              (\<lambda>_. throw empty_roster_error)
          else ret parsed)))) w3 = (Inr parsed, v)"
    unfolding parse_demo_def bind_Inr by blast
  obtain reports result where p: "pi_parse ports relative content = (reports, result)" by fastforce
  from step have "result = Inr parsed" unfolding p Let_def prod.case
    by (auto simp: bind_Inr pure_eq split: option.splits sum.splits if_splits)
  with p show ?thesis by blast
qed

lemma status_stmt_changed:
  assumes "status_stmt env p f s = (Inr n, t)" "n \<noteq> 0"
  shows "\<exists>j. p j \<and> f j \<in> set (st_jobs t)"
proof -
  from status_stmt_Inr [OF assms(1)] assms(2) obtain j where "j \<in> set (st_jobs s)" "p j"
    by (auto simp: count_rows_def filter_empty_conv)
  moreover from this have "f j \<in> set (st_jobs t)" using status_stmt_Inr [OF assms(1)] by (auto simp: set_update_rows)
  ultimately show ?thesis by blast
qed

lemma finish_changes:
  assumes "finish_import_with_diagnostic env job owner phase e r n d s = (Inr (), t)"
  shows "\<exists>j\<in>set (st_jobs t). jr_id j = job \<and> jr_status j = phase_as_str phase \<and> jr_error_code j = e
    \<and> jr_remediation_code j = r \<and> jr_diagnostic_json j = d"
proof -
  from assms obtain now changed where "status_stmt env (held_by job owner)
      (\<lambda>j. j\<lparr>jr_status := phase_as_str phase, jr_error_code := e, jr_remediation_code := r,
        jr_next_retry_at_ms := n, jr_diagnostic_json := d, jr_lease_owner := None, jr_lease_expires_at_ms := None,
        jr_updated_at_ms := now\<rparr>) (advance s) = (Inr changed, t)" "changed \<noteq> 0"
    by (auto simp: finish_import_with_diagnostic_def bind_Inr now_ms_eq require_changed_def pure_eq split: if_splits)
  from status_stmt_changed [OF this] obtain j where j: "held_by job owner j" and k: "j\<lparr>jr_status := phase_as_str phase,
      jr_error_code := e, jr_remediation_code := r, jr_next_retry_at_ms := n, jr_diagnostic_json := d,
      jr_lease_owner := None, jr_lease_expires_at_ms := None, jr_updated_at_ms := now\<rparr> \<in> set (st_jobs t)" by blast
  from j show ?thesis by (intro bexI [OF _ k]) (simp add: held_by_def)
qed

lemma finish_succeeded_Inr:
  assumes "finish_succeeded ports job worker w = (Inr (), v)"
  shows "same_analyses (fst w) (fst v)" "\<exists>j\<in>set (st_jobs (fst v)). jr_id j = job \<and> jr_status j = ''succeeded''"
proof -
  have fin: "finish_import (pi_env ports) job worker Succeeded None None None (fst w) = (Inr (), fst v)"
    using assms by (simp add: finish_succeeded_def on_store_Inr)
  from finish_changes [OF this [unfolded finish_import_def]]
  show "\<exists>j\<in>set (st_jobs (fst v)). jr_id j = job \<and> jr_status j = ''succeeded''" by auto
  from obeys_Inr [OF same_analyses.queue_frame(6) fin] show "same_analyses (fst w) (fst v)" .
qed

lemma reported_recorded:
  assumes "analyses_ok (fst w)" "run_leased ports hook job demo request w = (Inr out, v)"
  shows "\<exists>relative content reports parsed. pi_parse ports relative content = (reports, Inr parsed)
    \<and> recorded parsed (rq_local request) (ro_import out) (fst v)
    \<and> (\<exists>j\<in>set (st_jobs (fst v)). jr_id j = job \<and> jr_status j = ''succeeded'')"
proof -
  from assms(2) obtain parsed w0 where parse: "parse_demo ports job demo (rq_worker request) w = (Inr parsed, w0)"
    and import_run: "import_parsed ports hook job demo request parsed w0 = (Inr out, v)"
    by (auto simp: run_leased_def bind_Inr)
  note parsed = parse_demo_Inr [OF parse]
  note parse_keeps = obeys_Inr [OF canonical.parse_demo_obeys parse]
  from import_run have "recorded parsed (rq_local request) (ro_import out) (fst v)
    \<and> (\<exists>j\<in>set (st_jobs (fst v)). jr_id j = job \<and> jr_status j = ''succeeded'')"
  proof (cases rule: import_parsed_Inr)
    case (known w1 s2 w3 w4 m decisions)
    from match_for_demo_Inr [OF known(2)] completed_analysis_Inr [OF known(3)] run_hook_Inr [OF known(4)]
    have "recorded parsed (rq_local request) (Deduplicated job demo) (fst w4)" by force
    then have "recorded parsed (rq_local request) (Deduplicated job demo) (fst v)"
      using finish_succeeded_Inr(1) [OF known(5)] by (simp add: same_analyses_def)
    with finish_succeeded_Inr(2) [OF known(5)] known(6) show ?thesis by simp
  next
    case (analysed existing s2 m run outcome decisions w1 w3 w4 w5 w6 w7 w8 w9)
    from analysed(2,3) have "\<And>m. existing = Some m \<Longrightarrow> (m, demo) \<in> (\<lambda>m. (mt_id m, mt_demo_sha256 m)) ` set (st_matches (fst w3))"
      by (auto dest!: match_for_demo_Inr)
    from match_of_demo_Inr [OF analysed(4) this]
    have m: "(m, demo) \<in> (\<lambda>m. (mt_id m, mt_demo_sha256 m)) ` set (st_matches (fst w4))" .
    have "analyses_ok (fst w6)"
      using canonical.analysed_steps [OF analysed(1-6) TrueI] parse_keeps assms(1) by (simp add: store_rel_def keeps_def)
    moreover note grows = growing.analysed_steps [OF analysed(1-6) TrueI]
    have "(m, demo) \<in> (\<lambda>m. (mt_id m, mt_demo_sha256 m)) ` set (st_matches (fst w6))"
      using m ledger.order_trans [OF grows(2,3)] unfolding ledger_grows_def by blast
    moreover have "(run, m, identity_columns (po_identity parsed))
        \<in> (\<lambda>r. (rn_id r, rn_match r, rn_identity r)) ` set (st_runs (fst w6))"
      using begin_analysis_Inr [OF analysed(5)] grows(3) unfolding ledger_grows_def by blast
    ultimately have "canonical_run demo run (fst w7)" by (rule canonical_run_completed [OF analysed(7)])
    moreover have "ledger_grows (fst w6) (fst w7)" by (rule obeys_Inr [OF grows_complete_analysis analysed(7)])
    ultimately have "recorded parsed (rq_local request) outcome (fst w7)" by (rule persist_analysis_Inr [OF analysed(6)])
    moreover have "same_analyses (fst w7) (fst v)"
      using run_hook_Inr [OF analysed(8)] obeys_Inr [OF unchanged.progress_obeys analysed(9)]
        finish_succeeded_Inr(1) [OF analysed(10)] by (simp add: store_rel_def same_analyses_def)
    ultimately have "recorded parsed (rq_local request) outcome (fst v)" by (simp add: recorded_cong)
    with finish_succeeded_Inr(2) [OF analysed(10)] analysed(11) show ?thesis by simp
  qed
  with parsed show ?thesis by blast
qed


end
