(* ===== verification/Pipeline_Failures.thy ===== *)
theory Pipeline_Failures
  imports Pipeline_Correct Analysis_Correct Reconcile_Correct
begin

text \<open>
  The imports that fail, and what they leave: the demos that can never be imported, the diagnostics that are lost,
  and the mark of a failed job.
\<close>

section \<open>Demos that cannot be imported\<close>

lemma short_rating:
  "calculate_rating i = Inr r \<Longrightarrow> m_eligible_rounds (in_metrics i) < 8 \<Longrightarrow> rr_rating_bp r = None"
proof -
  assume rate: "calculate_rating i = Inr r" and "m_eligible_rounds (in_metrics i) < 8"
  then have "\<exists>reason. unavailable_reason_of i = Some reason"
    by (auto simp: unavailable_reason_of_def split: option.split)
  with rate show ?thesis by (auto simp: calculate_rating_def split: if_splits)
qed

lemma short_analysis_unrated:
  assumes "analyze parsed local = Inr analysis" "length (filter rl_eligible (an_rounds analysis)) < 8"
  shows "rr_rating_bp (an_rating_receipt analysis) = None"
proof -
  from assms(1) obtain tick_rate where score: "score_rounds parsed local tick_rate (filter rl_eligible (an_rounds analysis))
       (zero_metrics (length (filter rl_eligible (an_rounds analysis)))) = Inr (in_metrics (an_rating_input analysis))"
    and rate: "calculate_rating (an_rating_input analysis) = Inr (an_rating_receipt analysis)"
    and few: "length (filter rl_eligible (an_rounds analysis)) \<le> u32_max"
    by (rule analyze_steps)
  from score_rounds_bounds [OF score few] assms(2) have "m_eligible_rounds (in_metrics (an_rating_input analysis)) < 8" by simp
  with rate show ?thesis by (rule short_rating)
qed


text \<open>A match of the demo with a run of the identity that was begun and never completed.\<close>

definition interrupted :: "string \<Rightarrow> analysis_identity \<Rightarrow> store \<Rightarrow> bool" where
  "interrupted demo identity s \<longleftrightarrow> (\<exists>m\<in>set (st_matches s). \<exists>r\<in>set (st_runs s). mt_demo_sha256 m = demo
     \<and> rn_match r = mt_id m \<and> rn_identity r = identity \<and> rn_status r \<noteq> ''succeeded'')"

lemma interrupted_cong: "same_analyses s t \<Longrightarrow> interrupted demo identity t = interrupted demo identity s"
  by (simp add: interrupted_def same_analyses_def)

lemma analyses_ok_same: "same_analyses s t \<Longrightarrow> analyses_ok t = analyses_ok s"
  by (rule iffI; erule analyses_ok_cong) (simp_all add: same_analyses_def)

lemma interrupted_steps:
  assumes ok: "analyses_ok s" and "interrupted demo identity s"
  shows "match_for_demo env demo s = (Inr existing, t) \<Longrightarrow>
      \<exists>m. existing = Some m \<and> (\<forall>u. same_analyses s u \<longrightarrow>
        fst (completed_analysis_for_identity env m identity u) \<noteq> Inr True \<and>
        (\<exists>e. fst (begin_analysis env m identity u) = Inl e) \<and> same_analyses u (snd (begin_analysis env m identity u)))"
proof -
  from assms(2) obtain m r where m: "m \<in> set (st_matches s)" "mt_demo_sha256 m = demo"
    and r: "r \<in> set (st_runs s)" "rn_match r = mt_id m" "rn_identity r = identity" "rn_status r \<noteq> ''succeeded''"
    by (auto simp: interrupted_def)
  assume found: "match_for_demo env demo s = (Inr existing, t)"
  have "List.find (\<lambda>m. mt_demo_sha256 m = demo) (st_matches s) = Some m"
    using find_unique [of mt_demo_sha256 "st_matches s" m] ok m by (simp add: analyses_ok_def matches_ok_def)
  with found have "existing = Some (mt_id m)" by (auto simp: match_for_demo_def query_eq split: if_splits)
  moreover have "fst (completed_analysis_for_identity env (mt_id m) identity u) \<noteq> Inr True" if "same_analyses s u" for u
  proof -
    have "rn_status q \<noteq> ''succeeded''" if "q \<in> set (st_runs s)" "rn_match q = mt_id m" "rn_identity q = identity" for q
      using ok r that by (auto simp: analyses_ok_def runs_ok_def distinct_map inj_on_def)
    with that show ?thesis
      by (auto simp: completed_analysis_for_identity_def query_eq list_ex_iff same_analyses_def)
  qed
  moreover have "(\<exists>e. fst (begin_analysis env (mt_id m) identity u) = Inl e)
      \<and> same_analyses u (snd (begin_analysis env (mt_id m) identity u))" if "same_analyses s u" for u
    using that r by (auto simp: begin_analysis_def effect_simps new_id_eq now_ms_eq insert_stmt_eq list_ex_iff same_analyses_def)
  ultimately show ?thesis by blast
qed

lemma pair_unchanged: "obeys same_analyses m \<Longrightarrow> on_store ports m w = (r, v) \<Longrightarrow> same_analyses (fst w) (fst v)"
  using obeys_Inr [OF unchanged.on_store_obeys [of m ports], of w r v] by (simp add: store_rel_def)

lemma same_analyses_trans: "same_analyses s t \<Longrightarrow> same_analyses t u \<Longrightarrow> same_analyses s u"
  by (simp add: same_analyses_def)

lemma interrupted_import:
  fixes w :: "store \<times> 'p"
  assumes "analyses_ok (fst w)" "interrupted demo (identity_columns (po_identity parsed)) (fst w)"
    and run: "import_parsed ports hook job demo request parsed w = (r, v)"
  shows "(\<exists>e. r = Inl e) \<and> same_analyses (fst w) (fst v)"
proof -
  define identity where "identity = identity_columns (po_identity parsed)"
  define env where "env = pi_env ports"
  define start where "start = import_progress_now ports job (rq_worker request) None 7000 w"
  have w1: "same_analyses (fst w) (fst (snd start))"
    using obeysD [OF unchanged.progress_obeys [of ports job "rq_worker request" None 7000], of w]
    by (simp add: start_def store_rel_def)
  show ?thesis
  proof (cases "fst start")
    case (Inl e)
    with run w1 show ?thesis by (auto simp: import_parsed_def Let_def bind_apply start_def)
  next
    case (Inr u)
    define found where "found = on_store ports (match_for_demo env demo) (snd start)"
    have w2: "same_analyses (fst w) (fst (snd found))"
      using pair_unchanged [OF unchanged.queries_obey(1) [of env demo], where ports = ports and w = "snd start"] w1 same_analyses_trans
      by (metis found_def prod.collapse)
    show ?thesis
    proof (cases "fst found")
      case (Inl e)
      with run w2 Inr show ?thesis
        by (auto simp: import_parsed_def Let_def bind_apply start_def [symmetric] found_def env_def)
    next
      case existing: (Inr existing)
      have looked: "match_for_demo env demo (fst (snd start)) = (Inr existing, fst (snd found))"
        using existing on_store_Inr [of ports "match_for_demo env demo" "snd start" existing "snd found"]
        by (metis found_def prod.collapse)
      have between: "same_analyses (fst (snd start)) (fst (snd found))"
        by (rule obeys_Inr [OF unchanged.queries_obey(1) looked])
      have "analyses_ok (fst (snd start))" "interrupted demo identity (fst (snd start))"
        using assms(1,2) w1 by (simp_all add: analyses_ok_same interrupted_cong identity_def)
      from interrupted_steps [OF this looked] obtain m where m: "existing = Some m"
        and steps: "\<And>u. same_analyses (fst (snd start)) u \<Longrightarrow>
          fst (completed_analysis_for_identity env m identity u) \<noteq> Inr True
          \<and> (\<exists>e. fst (begin_analysis env m identity u) = Inl e) \<and> same_analyses u (snd (begin_analysis env m identity u))"
        by blast
      define known where "known = on_store ports (completed_analysis_for_identity env m identity) (snd found)"
      have w3: "same_analyses (fst (snd found)) (fst (snd known))"
        using pair_unchanged [OF unchanged.queries_obey(2) [of env m identity], where ports = ports and w = "snd found"] by (metis known_def prod.collapse)
      have "fst known \<noteq> Inr True" using steps [OF between]
        by (cases "completed_analysis_for_identity env m identity (fst (snd found))"; cases "snd found")
          (auto simp: known_def on_store_def map_err_eq_Inr)
      then consider e where "fst known = Inl e" | "fst known = Inr False" by (cases "fst known") auto
      then show ?thesis
      proof cases
        case 1
        with run w2 w3 Inr existing m show ?thesis
          by (auto simp: import_parsed_def Let_def bind_apply start_def [symmetric] found_def [symmetric] env_def [symmetric]
              identity_def [symmetric] known_def dest: same_analyses_trans)
      next
        case 2
        from steps [OF same_analyses_trans [OF between w3]] obtain e where
          "fst (begin_analysis env m identity (fst (snd known))) = Inl e"
          "same_analyses (fst (snd known)) (snd (begin_analysis env m identity (fst (snd known))))" by blast
        then have "\<exists>f. fst (on_store ports (begin_analysis env m identity) (snd known)) = Inl f
            \<and> same_analyses (fst (snd known)) (fst (snd (on_store ports (begin_analysis env m identity) (snd known))))"
          by (cases "snd known"; cases "begin_analysis env m identity (fst (snd known))") (auto simp: on_store_def)
        then show ?thesis
          using run w2 w3 Inr existing m 2
          by (auto simp: import_parsed_def Let_def bind_apply start_def [symmetric] found_def [symmetric] env_def [symmetric]
              identity_def [symmetric] known_def [symmetric] match_of_demo_def ret_def dest: same_analyses_trans)
      qed
    qed
  qed
qed


section \<open>Lost diagnostics\<close>

definition same_references :: "store \<Rightarrow> store \<Rightarrow> bool" where
  "same_references s t \<longleftrightarrow> st_clips t = st_clips s \<and> st_matches t = st_matches s \<and> st_saves t = st_saves s
     \<and> st_snapshots t = st_snapshots s"

interpretation same_references: artifact_frame same_references
  by unfold_locales (auto simp: same_references_def rolled_back_def)

interpretation same_references: queue_frame same_references
  by unfold_locales (auto simp: same_references_def)

interpretation referring: parse_frame same_references
  by unfold_locales (intro same_references.artifact_frame same_references.queue_frame)+

lemma referenced_cong: "same_references s t \<Longrightarrow> artifact_referenced sha256 t = artifact_referenced sha256 s"
  by (simp add: artifact_referenced_def same_references_def)

lemma quarantine_unreferenced:
  assumes "quarantine_artifact env sha256 reason s = (Inr p, t)"
  shows "\<not> artifact_referenced sha256 s"
proof -
  have "\<exists>a u v. artifact env sha256 s = (Inr a, u) \<and> query env (artifact_referenced sha256) u = (Inr False, v)"
    using assms unfolding quarantine_artifact_def Let_def
    by (auto simp: bind_Inr pure_eq split: if_splits)
  then obtain a u v where a: "artifact env sha256 s = (Inr a, u)"
    and q: "query env (artifact_referenced sha256) u = (Inr False, v)" by blast
  from q have "\<not> artifact_referenced sha256 u"
    by (auto simp: query_eq artifact_referenced_def split: if_splits)
  moreover have "same_references s u" by (rule obeys_Inr [OF same_references.obeys_artifact a])
  ultimately show ?thesis using referenced_cong by blast
qed

text \<open>Every error of a step of the store is a storage failure.\<close>

lemma on_store_Inl: "on_store ports m w = (Inl e, v) \<Longrightarrow> \<exists>f. m (fst w) = (Inl f, fst v) \<and> e = StorageFailure (pi_debug ports f)"
  by (cases w; cases v; cases "m (fst w)") (auto simp: on_store_def map_err_eq_Inl)

text \<open>An operation that always fails with a storage failure on a demo that is referred to.\<close>

definition storage_fails :: "string \<Rightarrow> ('p, 'a) pipeline \<Rightarrow> bool" where
  "storage_fails demo m \<longleftrightarrow>
     (\<forall>w. artifact_referenced demo (fst w) \<longrightarrow> (\<exists>msg. fst (m w) = Inl (StorageFailure msg)))"

lemma storage_fails_bind:
  fixes f :: "'c \<Rightarrow> ('p, 'b) pipeline"
  assumes "obeys same_references m" "\<And>x. storage_fails demo (f x)"
  shows "storage_fails demo (bind (on_store ports m) f)"
  unfolding storage_fails_def
proof (intro allI impI)
  fix w :: "store \<times> 'p" assume referenced: "artifact_referenced demo (fst w)"
  obtain r v where w: "on_store ports m w = (r, v)" by (metis surj_pair)
  have "same_references (fst w) (fst v)"
    using obeys_Inr [OF referring.on_store_obeys [OF assms(1)] w] by (simp add: store_rel_def)
  with referenced have "artifact_referenced demo (fst v)" by (simp add: referenced_cong)
  with assms(2) w show "\<exists>msg. fst (bind (on_store ports m) f w) = Inl (StorageFailure msg)"
    by (cases v; cases r) (auto simp: bind_def storage_fails_def dest!: on_store_Inl)
qed

lemma storage_fails_option: "(\<And>x. storage_fails demo (f x)) \<Longrightarrow> storage_fails demo (bind (lift_option (StorageFailure msg) v) f)"
  by (cases v) (auto simp: storage_fails_def bind_def lift_option_def)

lemma storage_fails_quarantine:
  fixes f :: "string \<Rightarrow> ('p, 'b) pipeline"
  shows "storage_fails demo (bind (on_store ports (quarantine_artifact env demo reason)) f)"
  unfolding storage_fails_def
proof (intro allI impI)
  fix w :: "store \<times> 'p" assume referenced: "artifact_referenced demo (fst w)"
  obtain r v where w: "on_store ports (quarantine_artifact env demo reason) w = (r, v)" by (metis surj_pair)
  with referenced quarantine_unreferenced have "\<exists>e. r = Inl e" by (cases r) (auto simp: on_store_Inr)
  with w show "\<exists>msg. fst (bind (on_store ports (quarantine_artifact env demo reason)) f w) = Inl (StorageFailure msg)"
    by (auto simp: bind_def dest!: on_store_Inl)
qed

lemma parse_failure_storage:
  assumes "\<And>relative content. \<exists>diagnostic. snd (pi_parse ports relative content) = Inl diagnostic"
  shows "storage_fails demo (parse_demo ports job demo worker)"
proof -
  have "storage_fails demo (let (reports, result) = pi_parse ports relative content in
     bind (on_store ports (report_all (pi_env ports) job worker reports \<lparr>ps_error = None, ps_last = None\<rparr>)) (\<lambda>progress.
     (case ps_error progress of Some e \<Rightarrow> throw (StorageFailure (pi_debug ports e)) | None \<Rightarrow>
     (case result of
        Inl diagnostic \<Rightarrow>
          bind (on_store ports (quarantine_artifact (pi_env ports) demo (category_code (pg_category diagnostic))))
            (\<lambda>_. throw (ParserFailure diagnostic))
      | Inr parsed \<Rightarrow>
          if po_participants parsed = [] then
            bind (on_store ports (quarantine_artifact (pi_env ports) demo ''suspicious_empty_roster''))
              (\<lambda>_. throw empty_roster_error)
          else ret parsed))))" for relative content
    using assms [of relative content]
    by (auto simp: Let_def storage_fails_quarantine split: prod.split option.split
        intro!: storage_fails_bind referring.report_all_obeys) (simp add: storage_fails_def throw_def)
  then show ?thesis unfolding parse_demo_def
    by (intro storage_fails_bind storage_fails_option same_references.obeys_artifact same_references.obeys_pure)
qed

text \<open>
  C40: The diagnostic of a known demo is lost. When the parser rejects a demo that a match, a clip or a
  save refers to, the import does not report the parser's failure: the quarantine refuses a referenced artifact, and
  its error takes the place of the diagnostic, so the job is marked with a storage failure that the user
  is told to repair.
\<close>
theorem known_demo_hides_diagnostic:
  assumes "\<And>relative content. \<exists>diagnostic. snd (pi_parse ports relative content) = Inl diagnostic"
    and "artifact_referenced demo (fst w)"
  shows "\<exists>msg. fst (run_leased ports hook job demo request w) = Inl (StorageFailure msg)"
proof -
  from parse_failure_storage [OF assms(1)] assms(2)
  obtain msg where "fst (parse_demo ports job demo (rq_worker request) w) = Inl (StorageFailure msg)"
    unfolding storage_fails_def by blast
  then show ?thesis by (simp add: run_leased_def bind_apply)
qed

section \<open>The unknown player\<close>

text \<open>A player that no row of the ledger names.\<close>

definition unknown_player :: "string \<Rightarrow> store \<Rightarrow> bool" where
  "unknown_player p s \<longleftrightarrow> \<not> player_exists p s \<and> p \<notin> vr_steam_id ` set (st_vectors s) \<and> p \<notin> ur_steam_id ` set (st_unavailable s)"

lemma unknown_player_same: "same_analyses s t \<Longrightarrow> unknown_player p t = unknown_player p s"
  by (simp add: unknown_player_def same_analyses_def player_exists_def)

interpretation unknown: ledger_order "keeps (unknown_player p)" for p
  by (rule keeps_ledger) (auto simp: unknown_player_def player_exists_def rolled_back_def)

lemma unknown_keeps_same: "obeys same_analyses m \<Longrightarrow> obeys (keeps (unknown_player p)) m"
  unfolding obeys_def keeps_def using unknown_player_same by blast

lemma unknown_rows:
  "obeys (keeps (unknown_player p)) (import_match env demo local map_name)"
  "obeys (keeps (unknown_player p)) (begin_analysis env m identity)"
  "steam_id \<noteq> p \<Longrightarrow> obeys (keeps (unknown_player p)) (upsert_player env steam_id name)"
  "obeys (keeps (unknown_player p)) (add_match_participant env m steam_id' participation)"
  "obeys (keeps (unknown_player p)) (complete_analysis env run)"
  "obeys (keeps (unknown_player p)) (add_round env run number end_tick winner)"
  "obeys (keeps (unknown_player p)) (add_receipt env run rnd key tick ordinal ps pl sn pr)"
  "obeys (keeps (unknown_player p)) (write_round_metric env run i steam_id' key n k receipt)"
  "obeys (keeps (unknown_player p)) (persist_available_rating env run steam_id' formula bp receipt')"
  "obeys (keeps (unknown_player p)) (persist_rating_component env vector key n k value_bp weight_bp receipt')"
  "obeys (keeps (unknown_player p)) (persist_unavailable_rating env run steam_id' formula reason receipt')"
  unfolding import_match_def begin_analysis_def add_round_def upsert_player_def add_match_participant_def add_receipt_def
    write_round_metric_def persist_available_rating_def persist_rating_component_def persist_unavailable_rating_def
    complete_analysis_def
  by (auto intro!: unknown.obeys_bind unknown.obeys_environment unknown.obeys_insert_stmt unknown.obeys_insert_or_ignore
      unknown.obeys_statement unknown.obeys_pure unknown.obeys_transaction unknown.obeys_update_stmt
      simp: keeps_def unknown_player_def player_exists_def update_rows_def split: if_splits option.splits)

interpretation unknown: service_frame "keeps (unknown_player p)" "\<lambda>q. q \<noteq> p" for p
  by unfold_locales
    (intro unknown_rows unknown_keeps_same same_analyses.artifact_frame same_analyses.queue_frame | assumption)+

text \<open>
  A first demo without the local player fails. When the local player is in no row of the ledger and not in the
  roster of the demo, the analysis answers that the local player is missing, but the row with this reason refers to a
  player that was never stored, so the import of a demo that has no match yet fails instead of reporting the reason.
\<close>
theorem unknown_player_import_fails:
  assumes "unknown_player (show_nat (rq_local request)) (fst w)"
    and "\<And>relative content parsed. snd (pi_parse ports relative content) = Inr parsed
      \<Longrightarrow> rq_local request \<notin> pt_steam_id ` set (po_participants parsed)"
    and "demo \<notin> mt_demo_sha256 ` set (st_matches (fst w))"
  shows "\<exists>e. fst (run_leased ports hook job demo request w) = Inl e"
proof (rule ccontr)
  assume "\<not> ?thesis"
  then obtain out v where run: "run_leased ports hook job demo request w = (Inr out, v)"
    by (metis prod.collapse sum.exhaust)
  then obtain parsed w0 where parse: "parse_demo ports job demo (rq_worker request) w = (Inr parsed, w0)"
    and import_run: "import_parsed ports hook job demo request parsed w0 = (Inr out, v)"
    by (auto simp: run_leased_def bind_Inr)
  have same: "same_analyses (fst w) (fst w0)"
    using obeys_Inr [OF unchanged.parse_demo_obeys parse] by (simp add: store_rel_def)
  have roster: "show_nat (pt_steam_id q) \<noteq> show_nat (rq_local request)" if "q \<in> set (po_participants parsed)" for q
    using that parse_demo_Inr [OF parse] assms(2) by (auto simp: show_nat_inject) (metis image_eqI snd_conv)
  from import_run show False
  proof (cases rule: import_parsed_Inr)
    case (known w1 s2 w3 w4 m decisions)
    have "same_analyses (fst w0) (fst w1)"
      using obeys_Inr [OF unchanged.progress_obeys known(1)] by (simp add: store_rel_def)
    with match_for_demo_Inr [OF known(2)] assms(3) same show False by (auto simp: same_analyses_def)
  next
    case (analysed existing s2 m run outcome decisions w1 w3 w4 w5 w6 w7 w8 w9)
    from unknown.analysed_steps [OF analysed(1-6) roster] assms(1) same
    have "unknown_player (show_nat (rq_local request)) (fst w6)" by (simp add: keeps_def unknown_player_same)
    moreover have "show_nat (rq_local request) \<in> vr_steam_id ` set (st_vectors (fst w6))
        \<union> ur_steam_id ` set (st_unavailable (fst w6))"
    proof (cases "analyze parsed (rq_local request)")
      case (Inl reason)
      with analysed(6) have "persist_unavailable ports run parsed (rq_local request) reason w5 = (Inr (), w6)"
        by (auto simp: persist_analysis_def bind_Inr pure_eq)
      from persist_unavailable_Inr [OF this] show ?thesis by force
    next
      case (Inr analysis)
      with analysed(6) have "persist_available ports job run demo (rq_local request) analysis w5 = (Inr outcome, w6)"
        by (simp add: persist_analysis_def)
      from persist_available_Inr [OF this] show ?thesis by force
    qed
    ultimately show False by (simp add: unknown_player_def)
  qed
qed

section \<open>The mark of a failure\<close>

text \<open>The job is leased by the worker.\<close>

definition job_held :: "string \<Rightarrow> string \<Rightarrow> store \<Rightarrow> bool" where
  "job_held job worker s \<longleftrightarrow> (\<exists>j\<in>set (st_jobs s). held_by job worker j)"

interpretation held: ledger_order "keeps (job_held job worker)" for job worker
  by (rule keeps_ledger) (auto simp: job_held_def rolled_back_def)

lemma held_same: "obeys same_queue m \<Longrightarrow> obeys (keeps (job_held job worker)) m"
  by (auto simp: obeys_def keeps_def job_held_def same_queue_def)

lemma held_job_stmt:
  assumes "\<And>j. held_by job worker j \<Longrightarrow> held_by job worker (f j)"
  shows "obeys (keeps (job_held job worker)) (job_stmt env p f)"
proof -
  have "\<exists>k\<in>set (update_rows p f js). held_by job worker k" if "j \<in> set js" "held_by job worker j" for j js
    using that assms [of j] by (cases "p j") (auto simp: update_rows_def)
  then show ?thesis unfolding job_stmt_def
    by (intro held.obeys_update_stmt) (auto simp: keeps_def job_held_def)
qed

lemma held_progress:
  "obeys (keeps (job_held job worker)) (update_import_progress env i w a b c h)"
  "obeys (keeps (job_held job worker)) (update_parser_progress env i w u)"
  unfolding update_import_progress_def update_parser_progress_def
  by (auto intro!: held.obeys_bind held.obeys_environment held.obeys_pure held_job_stmt
      simp: require_changed_def held_by_def)

interpretation held: service_frame "keeps (job_held job worker)" "\<lambda>_. True" for job worker
  by unfold_locales
    (intro held_progress held_same same_queue.artifact_frame same_queue.analysis_frame same_queue.obeys_complete_analysis)+

lemma held_finish: "obeys_error (keeps (job_held job worker)) (finish_import env i w phase e r n)"
proof -
  have "st_jobs t = st_jobs s" if "finish_import env i w phase e r n s = (Inl err, t)" for s t err
  proof -
    have changed: "st_jobs u = st_jobs s'" if "status_stmt env p f s' = (Inr 0, u)" for p f s' u
      using status_stmt_Inr [OF that] by (simp add: count_update_rows)
    show ?thesis using that
      by (auto simp: finish_import_def finish_import_with_diagnostic_def bind_Inl now_ms_eq require_changed_def pure_eq
          status_stmt_def statement_Inl split: if_splits dest!: changed [unfolded status_stmt_def])
  qed
  then show ?thesis by (auto simp: obeys_error_def keeps_def job_held_def)
qed

lemma mark_failed_Inr:
  assumes ok: "queue_ok s" and held: "job_held job worker s" and calm: "\<not> env_fault (pi_env ports) (Suc (st_step s))"
  shows "fst (mark_failed ports job worker e s) = Inr ()"
proof -
  define f :: "job_row \<Rightarrow> job_row" where "f = (\<lambda>j. j\<lparr>jr_status := ''failed'', jr_error_code := Some (pipeline_code e),
      jr_remediation_code := Some (remediation_code e), jr_next_retry_at_ms := None,
      jr_diagnostic_json := diagnostic_json ports e, jr_lease_owner := None, jr_lease_expires_at_ms := None,
      jr_updated_at_ms := env_now (pi_env ports) (st_step s)\<rparr>)"
  have ok': "queue_ok (advance s)" using ok by (simp add: queue_ok_def)
  have "job_step j (f j)" if "j \<in> set (st_jobs (advance s))" "held_by job worker j" for j
    using that ok by (auto simp: f_def queue_ok_def queue_rows_ok_def held_by_def job_step_def job_ok_def)
  from status_stmt_result [where env = "pi_env ports" and p = "held_by job worker", OF ok' this] calm
  have "fst (status_stmt (pi_env ports) (held_by job worker) f (advance s)) = Inr (count_rows (held_by job worker) (st_jobs s))"
    by auto
  moreover have "count_rows (held_by job worker) (st_jobs s) \<noteq> 0"
    using held by (auto simp: job_held_def count_rows_def filter_empty_conv)
  ultimately show ?thesis
    by (simp add: mark_failed_def finish_import_with_diagnostic_def bind_apply now_ms_eq f_def [symmetric] require_changed_def ret_def)
qed

text \<open>
  C22: A failed import is marked. When the leased run fails with an error while the worker holds the job, and the statement that
  marks the job is not refused by the engine, the job ends failed, with the code of the error, the
  remediation of the error and, for a parser failure, its diagnostic; the queue stays well formed.
\<close>
theorem failed_import_marked:
  assumes "queue_ok (fst w)" "job_held job (rq_worker request) (fst w)"
    and run: "run_leased ports hook job demo request w = (Inl e, u)" and "\<not> env_fault (pi_env ports) (Suc (st_step (fst u)))"
    and marked: "or_mark_failed ports job (rq_worker request) (run_leased ports hook job demo request) w = (r, v)"
  shows "r = Inl e \<and> queue_ok (fst v) \<and> (\<exists>j\<in>set (st_jobs (fst v)). jr_id j = job \<and> jr_status j = ''failed''
    \<and> jr_error_code j = Some (pipeline_code e) \<and> jr_remediation_code j = Some (remediation_code e)
    \<and> jr_diagnostic_json j = diagnostic_json ports e)"
proof -
  have "job_held job (rq_worker request) (fst u)"
    using obeys_errorD [OF held.run_leased_error_obeys [OF held_finish TrueI] run] assms(2) by (simp add: store_rel_def keeps_def)
  moreover have ok: "queue_ok (fst u)"
    using obeys_Inr [OF queueing.run_leased_obeys run] assms(1) obeys_queue
    by (simp add: store_rel_def queue_evolves_def)
  ultimately have "fst (mark_failed ports job (rq_worker request) e (fst u)) = Inr ()" using assms(4) by (intro mark_failed_Inr)
  then obtain t where t: "mark_failed ports job (rq_worker request) e (fst u) = (Inr (), t)" by (metis prod.collapse)
  have "queue_evolves (fst u) t" by (rule obeys_Inr [OF obeys_queue(4) t [unfolded mark_failed_def]])
  moreover from marked run t have "r = Inl e" "fst v = t" by (auto simp: or_mark_failed_def split: prod.splits)
  ultimately show ?thesis
    using finish_changes [OF t [unfolded mark_failed_def]] ok by (simp add: queue_evolves_def)
qed

section \<open>Progress of the parser\<close>

text \<open>
  The progress that the service persists for the parser stays within the part of the bar that the phase owns
  (first pass 3000 to 4000, second pass 4000 to 6500, the rest up to 7000 basis points), whatever the parser reports: more
  bytes than the total, a total of zero, or counts so large that the product wraps. So the storage never
  refuses an update for its values.
\<close>
theorem parser_progress_within_phase:
  "(case phase_span (pp_phase p) of (base, width) \<Rightarrow>
      base \<le> parser_progress_basis_points p \<and> parser_progress_basis_points p \<le> base + width)
    \<and> 3000 \<le> parser_progress_basis_points p \<and> parser_progress_basis_points p \<le> 7000"
proof -
  define total where "total = pp_total_bytes p"
  define scaled where "scaled = min (pp_bytes_consumed p) total * 1000"
  define fraction where "fraction = (let quotient = (if total = 0 then 0 else scaled mod 2 ^ 64 div total)
      in if int quotient \<le> i64_max then int quotient else 1000)"
  have "scaled mod 2 ^ 64 div total \<le> scaled div total" by (rule div_le_mono) simp
  also have "\<dots> \<le> 1000" if "total \<noteq> 0"
  proof -
    have "scaled \<le> 1000 * total" by (simp add: scaled_def)
    then have "scaled div total \<le> (1000 * total) div total" by (rule div_le_mono)
    with that show ?thesis by simp
  qed
  finally have fraction: "0 \<le> fraction" "fraction \<le> 1000" by (auto simp: fraction_def Let_def)
  have "0 \<le> trunc_div (fraction * width) 1000 \<and> trunc_div (fraction * width) 1000 \<le> width" if "0 \<le> width" for width
  proof -
    have "fraction * width div 1000 \<le> 1000 * width div 1000"
      by (intro zdiv_mono1 mult_right_mono) (use fraction that in auto)
    moreover have "0 \<le> fraction * width" using fraction that by simp
    ultimately show ?thesis using that by (simp add: trunc_div_def Let_def)
  qed
  note this [of 1000] this [of 2500] this [of 500]
  moreover have "parser_progress_basis_points p = (case phase_span (pp_phase p) of (base, width) \<Rightarrow>
      base + trunc_div (fraction * width) 1000)"
    by (simp add: parser_progress_basis_points_def fraction_def scaled_def total_def Let_def)
  ultimately show ?thesis by (cases "pp_phase p") simp_all
qed

section \<open>A service at work\<close>

text \<open>A parser that always gives the same result, over the calm environment.\<close>

definition sample_ports :: "(parse_diagnostic, unit parsed_output) result \<Rightarrow> unit pipeline_ports" where
  "sample_ports result = \<lparr>pi_env = calm, pi_sha = (\<lambda>_. replicate 64 CHR ''d''), pi_parse = (\<lambda>_ _. ([], result)), pi_json = (\<lambda>_. ''{}''),
     pi_reason = (\<lambda>_. ''reason''), pi_diagnostic_json = (\<lambda>_. ''diagnostic''), pi_debug = (\<lambda>_. ''error'')\<rparr>"

definition sample_request :: import_request where
  "sample_request = \<lparr>rq_source = \<lparr>so_extension = Some ''dem'', so_metadata = Some \<lparr>sm_symlink = False, sm_file = True,
     sm_len = 8, sm_modified = Some 0\<rparr>, so_stamp = Some DEMO_STAMP, so_available = Some 1000,
     so_reads = Some [Some DEMO_STAMP, Some []], so_after = Some (8, Some 0)\<rparr>, rq_local = 1, rq_worker = ''w'', rq_lease_expires_at_ms = i64_max\<rparr>"

text \<open>The demo is known: its match has a run of the given identity and status.\<close>

definition known_store :: "analysis_identity \<Rightarrow> string \<Rightarrow> store" where
  "known_store identity status = leased_store\<lparr>
     st_matches := [\<lparr>mt_id = ''m'', mt_demo_sha256 = ''d'', mt_local_steam_id = ''1'', mt_map_name = None,
       mt_canonical_run = None, mt_status = ''imported''\<rparr>],
     st_runs := [\<lparr>rn_id = ''r'', rn_match = ''m'', rn_identity = identity, rn_status = status\<rparr>],
     st_receipts := [\<lparr>re_id = ''e'', re_run = ''r'', re_round = None, re_metric_key = [], re_event_tick = None, re_ordinal = None,
       re_participants_json = [], re_payload_json = [], re_snapshots_json = [], re_parameters_json = []\<rparr>],
     st_unavailable := [\<lparr>ur_run = ''r'', ur_steam_id = ''1'', ur_formula_id = [], ur_reason_code = [], ur_receipt = ''e''\<rparr>]\<rparr>"

lemma known_store_ok: "status \<in> {''running'', ''succeeded''} \<Longrightarrow> analyses_ok (known_store identity status)"
  by (auto simp: known_store_def analyses_ok_def matches_ok_def runs_ok_def has_rating_def receipt_run_def)

definition sample_run :: "unit parsed_output \<Rightarrow> (pipeline_error, reconciled_outcome) result \<times> store \<times> unit" where
  "sample_run parsed = run_leased (sample_ports (Inr parsed)) (None :: (unit, unit) hook option) (show_nat 0) ''d'' sample_request
     (known_store (identity_columns (po_identity parsed)) ''succeeded'', ())"

definition is_ok :: "('e, 'a) result \<Rightarrow> bool" where
  "is_ok r \<longleftrightarrow> (case r of Inl _ \<Rightarrow> False | Inr _ \<Rightarrow> True)"

lemma sample_run_known: "\<exists>out v. sample_run parsed = (Inr out, v)" if "parsed \<in> {knife_demo, sample_demo sample_events}"
proof -
  have "is_ok (fst (sample_run knife_demo))" by code_simp
  moreover have "is_ok (fst (sample_run (sample_demo sample_events)))" by code_simp
  ultimately have "is_ok (fst (sample_run parsed))" using that by auto
  then show ?thesis by (cases "sample_run parsed"; cases "fst (sample_run parsed)") (auto simp: is_ok_def)
qed




theorem known_demo_hides_diagnostic_witness:
  "\<exists>msg. fst (run_leased (sample_ports (Inl (parser_error Corrupt FrameScan ''bad''))) (None :: (unit, unit) hook option) (show_nat 0) ''d''
     sample_request (known_store (identity_columns (po_identity knife_demo)) ''succeeded'', ())) = Inl (StorageFailure msg)"
  by (rule known_demo_hides_diagnostic) (simp_all add: sample_ports_def artifact_referenced_def known_store_def)

theorem unknown_player_import_fails_witness:
  "\<exists>e. fst (run_leased (sample_ports (Inr knife_demo)) (None :: (unit, unit) hook option) (show_nat 0) ''d''
     (sample_request\<lparr>rq_local := 9\<rparr>) (empty_store, ())) = Inl e"
  by (rule unknown_player_import_fails)
    (auto simp: sample_ports_def sample_request_def knife_demo_def empty_store_def unknown_player_def player_exists_def)

definition failing_run :: "(unit, reconciled_outcome) pipeline" where
  "failing_run = run_leased (sample_ports (Inl (parser_error Corrupt FrameScan ''bad''))) (None :: (unit, unit) hook option)
     (show_nat 0) ''d'' sample_request"

theorem failed_import_marked_witness:
  "\<exists>e. \<exists>j\<in>set (st_jobs (fst (snd (or_mark_failed (sample_ports (Inl (parser_error Corrupt FrameScan ''bad'')))
      (show_nat 0) ''w'' failing_run (leased_store, ()))))).
    fst (failing_run (leased_store, ())) = Inl e \<and> jr_id j = show_nat 0 \<and> jr_status j = ''failed''
      \<and> jr_error_code j = Some (pipeline_code e)"
proof -
  have "\<not> is_ok (fst (failing_run (leased_store, ())))" by code_simp
  then obtain e u where run: "failing_run (leased_store, ()) = (Inl e, u)"
    by (cases "failing_run (leased_store, ())"; cases "fst (failing_run (leased_store, ()))") (auto simp: is_ok_def)
  have "list_ex (held_by (show_nat 0) ''w'') (st_jobs leased_store)" by code_simp
  then have held: "job_held (show_nat 0) (rq_worker sample_request) leased_store"
    by (auto simp: job_held_def list_ex_iff sample_request_def)
  have ok: "queue_ok leased_store"
    using queue_calls_evolve empty_queue_ok unfolding leased_store_def queue_evolves_def by blast
  from failed_import_marked [OF _ _ run [unfolded failing_run_def] _ surjective_pairing] ok held run
  show ?thesis by (auto simp: sample_ports_def calm_def sample_request_def failing_run_def)
qed

theorem imports_keep_ledger_witness:
  "\<exists>t. t = fst (import_all (sample_ports (Inr knife_demo)) (None :: (unit, unit) hook option) [sample_request, sample_request]
      (empty_store, ())) \<and> analyses_ok t \<and> queue_ok t \<and> ledger_grows empty_store t"
  using imports_keep_ledger [OF _ _ refl, of empty_store "sample_ports (Inr knife_demo)" None "[sample_request, sample_request]" "()"]
  by (auto simp: empty_store_def analyses_ok_def matches_ok_def runs_ok_def queue_ok_def queue_rows_ok_def)

end
