(* ===== verification/Spec2Isabelle.thy ===== *)
theory Spec2Isabelle
  imports Exact Identity Highlight Capture_Window Rating Baseline Gsi Supervisor Live Live_Correct Clips Clips_Correct
    Demo Frames Frames_Correct Evidence_Json Analysis Analysis_Correct Import_Analysis
    Import_Job Import_Job_Correct Import_Files Import_Files_Correct Reconcile Reconcile_Correct
    Database Import_Queue Import_Queue_Correct Match_Store Artifact_Store Clip_Store Clip_Store_Correct Pipeline Store_Frames Match_Store_Correct Pipeline_Correct Pipeline_Failures
begin

text \<open>
  A verification development of OpenFrag, a local recorder and rater of Counter-Strike 2 matches
  (\<open>src/crates/\<close>). The program has two paths. While a match is played, the Game State Integration
  service takes the posts of the game, the live coordinator turns their facts into candidates and scheduled
  captures, and the supervisor of the replay recorder saves them as clips. After the match a demo is imported: it is staged as a
  content-addressed artifact, queued, parsed, analysed and rated in a SQLite ledger, and its evidence
  confirms or rejects the candidates of the live path.

  \<^bold>\<open>Theories and the code they model.\<close>

  Foundations. \<open>Prelude\<close> holds machine integers as bounded naturals and integers, results as a sum type,
  sorting, decimal numerals, and the interfaces \<open>total_preorder_on\<close>, \<open>keyed_order_on\<close>, \<open>join_semantics\<close>,
  \<open>machine\<close> and \<open>transition_function\<close>. \<open>Effects\<close> holds state transformers that may fail and keep the changes
  made before the failure, as a Rust method that leaves by \<open>?\<close> does, with the interface \<open>effect_order\<close>: a
  reflexive and transitive relation on states that every step of an operation respects.

  Domain (\<open>openfrag-domain\<close>). \<open>Exact\<close>: reduced \<open>i64\<close> fractions with \<open>i128\<close> intermediates, refined to the rationals.
  \<open>Identity\<close>: calculation identities. \<open>Rating\<close>: the rating formula with its receipts, equal to the published
  formula over the rationals. \<open>Baseline\<close>: cohorts, robust statistics, sessions and goals. \<open>Highlight\<close>:
  the merge of candidates, which does not depend on their order. \<open>Capture_Window\<close>: capture windows and retention.

  Live path. \<open>Gsi\<close> (\<open>openfrag-gsi\<close>): handler, poll and engine. \<open>Supervisor\<close> (\<open>openfrag-capture\<close>): the
  recorder child and its single save in flight. \<open>Live\<close> and \<open>Live_Correct\<close> (\<open>openfrag-live\<close>): the coordinator over
  its four traits, and the state machine of a capture that it refines. \<open>Clips\<close> and \<open>Clips_Correct\<close>
  (\<open>openfrag-clips\<close>): the review of clips over a compare-and-swap repository, and atomic export.

  Demo path. \<open>Demo\<close>, \<open>Frames\<close>, \<open>Frames_Correct\<close>, \<open>Evidence_Json\<close>, \<open>Import_Job\<close>, \<open>Import_Job_Correct\<close>,
  \<open>Import_Files\<close> and \<open>Import_Files_Correct\<close> (\<open>openfrag-import\<close>): normalization and assembly of the parsed output,
  the scan of the frames, the evidence document and its schema, the job orchestrator, and the copies of a
  demo. \<open>Analysis\<close>, \<open>Analysis_Correct\<close> (\<open>openfrag-analysis\<close>): the ledger of the rounds and the counters of
  the rating; \<open>Import_Analysis\<close> composes the assembly with the analysis. \<open>Reconcile\<close>, \<open>Reconcile_Correct\<close>
  (\<open>reconcile.rs\<close> of \<open>openfrag-pipeline\<close>): the decision on a candidate from the evidence of its round.

  Ledger (\<open>openfrag-storage\<close>). \<open>Database\<close>: the rows of the tables, the statements, the environment. \<open>Import_Queue\<close>: jobs and
  attempts with their triggers. \<open>Match_Store\<close>: matches, runs, rounds, receipts and ratings with their
  keys, references, checks and triggers. \<open>Artifact_Store\<close>: staging, commit, quarantine and recovery of
  the files. \<open>Clip_Store\<close>: the saves of the recorder, the clips of saves with their reviews, origins and exports, and
  the deletion of clips. \<open>Store_Frames\<close> states what each group of operations leaves alone, \<open>Import_Queue_Correct\<close>,
  \<open>Clip_Store_Correct\<close> and \<open>Match_Store_Correct\<close> the invariants of the queue, of the clips and of the analyses. \<open>Pipeline\<close> (\<open>lib.rs\<close> of \<open>openfrag-pipeline\<close>)
  composes them as the import service does; \<open>Pipeline_Correct\<close> shows what its outcomes mean, and
  \<open>Pipeline_Failures\<close> what its failures leave and which demos it can never import.

  \<^bold>\<open>How the components interact.\<close> A component that calls a trait takes its operations as a record of ports, and
  its lemmas hold for every implementation; the calls of the import service on the storage and on the analysis are the calls of the models of
  those crates. The operations on the ledger are state transformers over one record \<open>store\<close>, so the
  composition of the import service is the composition of the code.

  \<^bold>\<open>Interfaces.\<close> \<open>effect_order\<close> is extended by \<open>ledger_order\<close> (relations kept by a roll-back), and this by \<open>artifact_frame\<close>,
  \<open>queue_frame\<close>, \<open>analysis_frame\<close> and by \<open>parse_frame\<close>, \<open>service_frame\<close>, \<open>import_frame\<close>, which lift a relation through the
  stages of an import. They are interpreted for the invariants of the queue and of the analyses, the growth of the ledger, a
  held job, the saves and clips, a player unknown to the ledger, and what the stages leave unchanged.
  \<open>row_order\<close> is the interface of rows that evolve (attempts, saves, clips, exports): a table only extends. \<open>persist_store\<close> is the store of the job orchestrator,
  \<open>ending\<close> the two ways an attempt ends, \<open>counter\<close> the counters of the rating.

  \<^bold>\<open>Lemmas.\<close> Invariants: the log of the service, the slots of the supervisor, the memory of the coordinator against its
  store, import jobs, the import queue with its append-only history, saves with their clips and exports, canonical runs. Refinement: the coordinator by a state machine of captures, the
  rational arithmetic by the rationals. Equivalence: the order of candidates, the order of
  reconciliations, metrics as sums over the rounds, evidence hashes. Functional behaviour: the rating, the
  analysis, the assembly of a demo, the outcome of an import. Errors: every failure of a leased import is marked with its codes;
  a finalization of a save can be retried and a review from an old revision is refused, whatever was called in between.
  The properties also state where the code does not do what it means to; these are listed as findings of the manifest.

  \<^bold>\<open>Bounds and termination.\<close> Machine integers are naturals or integers with the bound of their width and the overflow behaviour of the
  operation that the code uses (checked, saturating or wrapping); the fraction of the
  parser's progress wraps at \<open>2 ^ 64\<close>. No model uses fuel: the loops are structural or have a
  measure (the merge of candidates by their number, the scan of frames by the bytes left, the search
  for a free name by the distance to \<open>u32::MAX\<close>). The environment of the ledger may refuse any statement or file operation, step by
  step; a theorem with a hypothesis on it says so.

  \<^bold>\<open>Parameters.\<close> SHA-256, JSON and debug texts, the vendored demo parser (a list of progress reports and a result), the
  operating system behind the ports (processes, files, clocks), the reconciliation persistence.

  \<^bold>\<open>Not modelled.\<close> The migrations as such and the parts of the storage that no modelled component calls: the read models of the dashboard,
  live candidates and manual flags, the commit of a clip derivative. The adapter of the live coordinator to the storage
  (\<open>storage_adapter.rs\<close>) and the clip derivatives (\<open>derivative.rs\<close>), which sit on them. Setup and shortcuts
  (configuration files, D-Bus). The daemon (HTTP routes, threads, wiring). The vendored
  parser beyond the frame reader and its error type: third-party code.
\<close>

end
